(* ===== verification/Prelude.thy ===== *)
theory Prelude
  imports Complex_Main "HOL-Library.Multiset"
begin

text \<open>
  Shared vocabulary of the development: the fact collections the component theories
  add to, the type synonyms for identifiers, and generic facts about association
  lists and lists that several components need.
\<close>

named_theorems model_defs \<open>definitions a component's proofs unfold together\<close>
named_theorems frame \<open>facts that an operation leaves a part of the state alone\<close>

type_synonym oid = string
type_synonym user_id = string
type_synonym currency_id = string
type_synonym pair_id = string

text \<open>
  The hashes of balances are keyed by the user id, an underscore and the currency id.
  Both ids are hexadecimal spellings of a database id, so the underscore separates them
  and the pair of ids stands for the key.
\<close>

type_synonym field = "user_id \<times> currency_id"

section \<open>Hashes whose field order can be observed\<close>

text \<open>
  A hash that is read whole is an association list with one row for each field; writing
  an existing field keeps its place, writing a new one appends.
\<close>

fun put :: "'k \<Rightarrow> 'v \<Rightarrow> ('k \<times> 'v) list \<Rightarrow> ('k \<times> 'v) list" where
  "put k v [] = [(k, v)]"
| "put k v ((k', v') # rows) =
     (if k' = k then (k, v) # rows else (k', v') # put k v rows)"

definition remove_field :: "'k \<Rightarrow> ('k \<times> 'v) list \<Rightarrow> ('k \<times> 'v) list" where
  "remove_field k rows = filter (\<lambda>row. fst row \<noteq> k) rows"

lemma map_of_put [simp]: "map_of (put k v rows) = (map_of rows)(k \<mapsto> v)"
  by (induction rows) (auto simp: fun_eq_iff)

lemma map_of_remove_field [simp]: "map_of (remove_field k rows) = (map_of rows)(k := None)"
  by (induction rows) (auto simp: remove_field_def fun_eq_iff)

lemma keys_put: "fst ` set (put k v rows) = insert k (fst ` set rows)"
proof (induction rows)
  case Nil
  then show ?case by simp
next
  case (Cons row rows)
  then show ?case by (cases row) auto
qed

lemma distinct_put [intro]:
  "distinct (map fst rows) \<Longrightarrow> distinct (map fst (put k v rows))"
proof (induction rows)
  case Nil
  then show ?case by simp
next
  case (Cons row rows)
  then show ?case
    by (cases row) (use keys_put [of k v rows] in \<open>auto simp: image_iff\<close>)
qed

lemma distinct_remove_field [intro]:
  "distinct (map fst rows) \<Longrightarrow> distinct (map fst (remove_field k rows))"
  by (simp add: remove_field_def distinct_map_filter)

lemma remove_field_absent: "map_of rows k = None \<Longrightarrow> remove_field k rows = rows"
  by (induction rows) (auto simp: remove_field_def split: if_splits)

lemma set_remove_field [simp]:
  "set (remove_field k rows) = {row \<in> set rows. fst row \<noteq> k}"
  by (auto simp: remove_field_def)

section \<open>Lists\<close>

lemma sum_list_map_filter_split:
  fixes f :: "'a \<Rightarrow> 'b :: ab_group_add"
  shows "sum_list (map f xs) =
    sum_list (map f (filter P xs)) + sum_list (map f (filter (\<lambda>x. \<not> P x) xs))"
  by (induction xs) (auto simp: algebra_simps)

lemma takeWhile_dropWhile_append:
  "list_all P xs \<Longrightarrow> (ys = [] \<or> \<not> P (hd ys)) \<Longrightarrow>
   takeWhile P (xs @ ys) = xs \<and> dropWhile P (xs @ ys) = ys"
  by (induction xs) (cases ys; auto)+

text \<open>
  A sort by insertion, from a test that its first argument goes before its second: the order
  the language's stable sort gives when the test is a strict weak order, and the order its
  engine gives when the test lets some elements jump the queue.
\<close>

fun insert_before :: "('a \<Rightarrow> 'a \<Rightarrow> bool) \<Rightarrow> 'a \<Rightarrow> 'a list \<Rightarrow> 'a list" where
  "insert_before lt x [] = [x]"
| "insert_before lt x (y # ys) = (if lt x y then x # y # ys else y # insert_before lt x ys)"

definition sort_before :: "('a \<Rightarrow> 'a \<Rightarrow> bool) \<Rightarrow> 'a list \<Rightarrow> 'a list" where
  "sort_before lt xs = foldl (\<lambda>acc x. insert_before lt x acc) [] xs"

lemma mset_insert_before [simp]: "mset (insert_before lt x ys) = add_mset x (mset ys)"
  by (induction ys) auto

lemma mset_insert_all: "mset (foldl (\<lambda>acc x. insert_before lt x acc) ys xs) = mset ys + mset xs"
  by (induction xs arbitrary: ys) auto

lemma mset_sort_before [simp]: "mset (sort_before lt xs) = mset xs"
  by (simp add: sort_before_def mset_insert_all)

lemma set_insert_before [simp]: "set (insert_before lt x ys) = insert x (set ys)"
  by (metis mset_insert_before set_mset_add_mset_insert set_mset_mset)

lemma set_sort_before [simp]: "set (sort_before lt xs) = set xs"
  by (metis mset_sort_before set_mset_mset)

lemma length_sort_before [simp]: "length (sort_before lt xs) = length xs"
  by (metis mset_sort_before size_mset)

definition strict_weak_on :: "'a set \<Rightarrow> ('a \<Rightarrow> 'a \<Rightarrow> bool) \<Rightarrow> bool" where
  "strict_weak_on A lt \<longleftrightarrow> (\<forall>x\<in>A. \<forall>y\<in>A. lt x y \<longrightarrow> \<not> lt y x) \<and>
     (\<forall>x\<in>A. \<forall>y\<in>A. \<forall>z\<in>A. \<not> lt x y \<longrightarrow> \<not> lt y z \<longrightarrow> \<not> lt x z)"

lemma sorted_insert_before:
  assumes A: "strict_weak_on A lt" and x: "x \<in> A"
  shows "set ys \<subseteq> A \<Longrightarrow> sorted_wrt (\<lambda>a b. \<not> lt b a) ys \<Longrightarrow>
    sorted_wrt (\<lambda>a b. \<not> lt b a) (insert_before lt x ys)"
proof (induction ys)
  case (Cons y ys)
  then have ya: "y \<in> A" "set ys \<subseteq> A" by auto
  show ?case
  proof (cases "lt x y")
    case True
    then have xy: "\<not> lt y x" using A x ya(1) unfolding strict_weak_on_def by blast
    have "\<not> lt z x" if "z \<in> set ys" for z
    proof -
      have "z \<in> A" "\<not> lt z y" using that ya Cons.prems(2) by auto
      then show ?thesis using A x ya(1) xy unfolding strict_weak_on_def by blast
    qed
    then show ?thesis using True xy Cons.prems(2) by simp
  next
    case False
    then show ?thesis using Cons.IH [OF ya(2)] Cons.prems(2) by simp
  qed
qed simp

lemma sorted_insert_all:
  assumes "strict_weak_on A lt"
  shows "set xs \<subseteq> A \<Longrightarrow> set ys \<subseteq> A \<Longrightarrow> sorted_wrt (\<lambda>a b. \<not> lt b a) ys \<Longrightarrow>
    sorted_wrt (\<lambda>a b. \<not> lt b a) (foldl (\<lambda>acc x. insert_before lt x acc) ys xs)"
proof (induction xs arbitrary: ys)
  case (Cons x xs)
  have "sorted_wrt (\<lambda>a b. \<not> lt b a) (insert_before lt x ys)"
    using sorted_insert_before [OF assms, of x ys] Cons.prems by simp
  then show ?case using Cons.IH [of "insert_before lt x ys"] Cons.prems by simp
qed simp

lemma sorted_sort_before:
  "strict_weak_on A lt \<Longrightarrow> set xs \<subseteq> A \<Longrightarrow> sorted_wrt (\<lambda>a b. \<not> lt b a) (sort_before lt xs)"
  by (simp add: sort_before_def sorted_insert_all)

end
