(* ===== verification/Rounding.thy ===== *)
theory Rounding
  imports Prelude
begin

text \<open>
  Binary64 rounding, the arithmetic every JavaScript number of the services obeys.
  \<open>rnd64\<close> maps a rational to the nearest double (ties to the even significand,
  gradual underflow included); overflow to an infinity is the business of JsNumber.
  The laws the other theories rely on are the locale \<open>rounding\<close>, which \<open>rnd64\<close>
  interprets.
\<close>

section \<open>Integer logarithms of rationals\<close>

function blog :: "int \<Rightarrow> int \<Rightarrow> int" where
  "blog b n = (if b < 2 \<or> n < b then 0 else 1 + blog b (n div b))"
  by pat_completeness auto
termination
proof (relation "measure (\<lambda>(b, n). nat n)", goal_cases)
  case (2 b n)
  then have "n div b < n" by (intro int_div_less_self) auto
  with 2 show ?case by auto
qed simp

declare blog.simps [simp del]

lemma blog_nonneg: "0 \<le> blog b n"
proof (induction b n rule: blog.induct)
  case (1 b n)
  then show ?case by (subst blog.simps) auto
qed

lemma blog_bounds:
  assumes "2 \<le> b" and "0 < n"
  shows "b ^ nat (blog b n) \<le> n \<and> n < b ^ Suc (nat (blog b n))"
  using assms
proof (induction b n rule: blog.induct)
  case (1 b n)
  show ?case
  proof (cases "n < b")
    case True
    with 1 show ?thesis by (subst (1 2) blog.simps) simp
  next
    case False
    with 1(2,3) have pos: "0 < n div b" by (simp add: pos_imp_zdiv_pos_iff)
    let ?k = "nat (blog b (n div b))"
    have eq: "nat (blog b n) = Suc ?k"
      using False 1(2) blog_nonneg [of b "n div b"] by (subst blog.simps) simp
    have IH: "b ^ ?k \<le> n div b" "n div b < b ^ Suc ?k"
      using "1.IH" False 1(2) pos by auto
    have "0 \<le> n mod b" "n mod b < b" "b * (n div b) + n mod b = n"
      using 1(2) by auto
    then have "b * (n div b) \<le> n" "n < b * (n div b + 1)"
      by (simp_all only: distrib_left mult_1_right)
    moreover have "b * b ^ ?k \<le> b * (n div b)" using IH(1) 1(2) by simp
    moreover have "b * (n div b + 1) \<le> b * b ^ Suc ?k" using IH(2) 1(2) by simp
    ultimately show ?thesis unfolding eq by (simp add: power_Suc)
  qed
qed

text \<open>The exponent \<open>e\<close> with \<open>b\<^sup>e \<le> x < b\<^sup>e\<^sup>+\<^sup>1\<close>, for a positive rational.\<close>

definition ilog :: "int \<Rightarrow> rat \<Rightarrow> int" where
  "ilog b x = (let (n, d) = quotient_of x; g = blog b n - blog b d
               in if of_int b powi g \<le> x then g else g - 1)"

lemma powi_less_iff:
  fixes x :: rat
  assumes "1 < x"
  shows "x powi m < x powi n \<longleftrightarrow> m < n"
  using power_int_strict_increasing [OF _ assms, of m n]
    power_int_increasing [of n m x] assms by (auto simp: not_less [symmetric])

lemma powi_le_iff:
  fixes x :: rat
  assumes "1 < x"
  shows "x powi m \<le> x powi n \<longleftrightarrow> m \<le> n"
  using powi_less_iff [OF assms, of n m] by (auto simp: not_less [symmetric])

lemma blog_powi:
  assumes b: "2 \<le> b" and n: "0 < n"
  shows "of_int b powi blog b n \<le> (of_int n :: rat)"
    and "(of_int n :: rat) < of_int b powi (blog b n + 1)"
proof -
  have nn: "0 \<le> blog b n" by (rule blog_nonneg)
  have bd: "b ^ nat (blog b n) \<le> n" "n < b ^ Suc (nat (blog b n))"
    using blog_bounds [OF b n] by auto
  have "(of_int (b ^ nat (blog b n)) :: rat) \<le> of_int n"
    using bd(1) by (simp only: of_int_le_iff)
  then show "of_int b powi blog b n \<le> (of_int n :: rat)"
    using nn by (simp add: power_int_def)
  have "(of_int n :: rat) < of_int (b ^ Suc (nat (blog b n)))"
    using bd(2) by (simp only: of_int_less_iff)
  also have "\<dots> = of_int b powi (blog b n + 1)"
    using nn by (simp add: power_int_def nat_add_distrib mult.commute)
  finally show "(of_int n :: rat) < of_int b powi (blog b n + 1)" .
qed

lemma ilog_bounds:
  assumes b: "2 \<le> b" and x: "0 < x"
  shows "of_int b powi ilog b x \<le> x" and "x < of_int b powi (ilog b x + 1)"
proof -
  obtain n d where q: "quotient_of x = (n, d)" by fastforce
  have d: "0 < d" and xnd: "x = of_int n / of_int d"
    using quotient_of_denom_pos [OF q] quotient_of_div [OF q] by auto
  with x have n: "0 < n" by (simp add: zero_less_divide_iff)
  let ?b = "of_int b :: rat"
  let ?l = "blog b n" and ?m = "blog b d"
  have b0: "0 < ?b" "?b \<noteq> 0" using b by auto
  note bn = blog_powi [OF b n] and bd = blog_powi [OF b d]
  have pos: "0 < ?b powi ?m" "0 < (of_int d :: rat)" "0 < (of_int n :: rat)"
    using b0 n d by auto
  have "x < ?b powi (?l + 1) / ?b powi ?m"
    unfolding xnd using bn(2) bd(1) pos by (intro frac_less) auto
  also have "\<dots> = ?b powi (?l - ?m + 1)"
    using b0 power_int_diff [of ?b "?l + 1" ?m] by (simp add: algebra_simps)
  finally have up: "x < ?b powi (?l - ?m + 1)" .
  have "?b powi (?l - ?m - 1) = ?b powi ?l / ?b powi (?m + 1)"
    using b0 power_int_diff [of ?b ?l "?m + 1"] by (simp add: algebra_simps)
  also have "\<dots> \<le> x"
    unfolding xnd using bn(1) bd(2) pos b0 by (intro frac_le) auto
  finally have lo: "?b powi (?l - ?m - 1) \<le> x" .
  show "?b powi ilog b x \<le> x" and "x < ?b powi (ilog b x + 1)"
    using up lo by (auto simp: ilog_def q Let_def)
qed

lemma ilog_unique:
  assumes b: "2 \<le> b" and lo: "of_int b powi e \<le> x" and hi: "x < of_int b powi (e + 1)"
  shows "ilog b x = e"
proof -
  let ?b = "of_int b :: rat"
  have b1: "1 < ?b" using b by simp
  then have "0 < ?b powi e" by simp
  with lo have x: "0 < x" by linarith
  have "?b powi ilog b x < ?b powi (e + 1)" "?b powi e < ?b powi (ilog b x + 1)"
    using ilog_bounds [OF b x] lo hi by linarith+
  then have "ilog b x < e + 1" "e < ilog b x + 1"
    by (simp_all only: powi_less_iff [OF b1])
  then show ?thesis by simp
qed

lemma ilog_mono:
  assumes b: "2 \<le> b" and x: "0 < x" and xy: "x \<le> y"
  shows "ilog b x \<le> ilog b y"
proof -
  let ?b = "of_int b :: rat"
  have b1: "1 < ?b" using b by simp
  have "?b powi ilog b x < ?b powi (ilog b y + 1)"
    using ilog_bounds(1) [OF b x] ilog_bounds(2) [OF b, of y] x xy by linarith
  then show ?thesis by (simp add: powi_less_iff [OF b1])
qed

section \<open>Rounding to an integer, ties to even\<close>

definition round_even :: "rat \<Rightarrow> int" where
  "round_even y =
     (let f = \<lfloor>y\<rfloor>; r = y - of_int f
      in if r < 1/2 then f else if r > 1/2 then f + 1
         else if even f then f else f + 1)"

lemma round_even_of_int [simp]: "round_even (of_int k) = k"
  by (simp add: round_even_def)

lemma round_even_0 [simp]: "round_even 0 = 0"
  using round_even_of_int [of 0] by (simp del: round_even_of_int)

lemma round_even_numeral [simp]: "round_even (numeral n) = numeral n"
  using round_even_of_int [of "numeral n"] by (simp del: round_even_of_int)

lemma round_even_cases: "round_even y = \<lfloor>y\<rfloor> \<or> round_even y = \<lfloor>y\<rfloor> + 1"
  by (simp add: round_even_def Let_def)

lemma round_even_error: "\<bar>of_int (round_even y) - y\<bar> \<le> 1/2"
proof -
  have "of_int \<lfloor>y\<rfloor> \<le> y" "y < of_int \<lfloor>y\<rfloor> + 1" by linarith+
  then show ?thesis
    unfolding round_even_def Let_def abs_le_iff by (auto; linarith)
qed

lemma round_even_mono:
  assumes "y \<le> z" shows "round_even y \<le> round_even z"
proof (cases "\<lfloor>y\<rfloor> = \<lfloor>z\<rfloor>")
  case True
  with assms show ?thesis by (auto simp: round_even_def Let_def)
next
  case False
  with assms have "\<lfloor>y\<rfloor> + 1 \<le> \<lfloor>z\<rfloor>" using floor_mono [OF assms] by linarith
  then show ?thesis using round_even_cases [of y] round_even_cases [of z] by linarith
qed

lemma round_even_neg: "round_even (- y) = - round_even y"
proof (cases "y = of_int \<lfloor>y\<rfloor>")
  case True
  then obtain k where "y = of_int k" by blast
  then show ?thesis
    using round_even_of_int [of "- k"] by simp
next
  case False
  then have fl: "\<lfloor>- y\<rfloor> = - \<lfloor>y\<rfloor> - 1"
    by (intro floor_unique) (auto, linarith+)
  show ?thesis by (auto simp: round_even_def Let_def fl)
qed

section \<open>Binary64\<close>

text \<open>The exponent of the unit in the last place of \<open>x\<close>, subnormals included.\<close>

definition ulp_exp :: "rat \<Rightarrow> int" where
  "ulp_exp x = max (ilog 2 \<bar>x\<bar> - 52) (-1074)"

definition rnd64 :: "rat \<Rightarrow> rat" where
  "rnd64 x = (if x = 0 then 0
     else of_int (round_even (x / 2 powi ulp_exp x)) * 2 powi ulp_exp x)"

text \<open>The rationals a double can hold, the upper end of the exponent range apart.\<close>

definition is_dbl :: "rat \<Rightarrow> bool" where
  "is_dbl x \<longleftrightarrow> (\<exists>m e. x = of_int m * 2 powi e \<and> \<bar>m\<bar> \<le> 2 ^ 53 \<and> -1074 \<le> e)"

lemma rnd64_0 [simp]: "rnd64 0 = 0"
  by (simp add: rnd64_def)

lemma rnd64_neg: "rnd64 (- x) = - rnd64 x"
  by (simp add: rnd64_def ulp_exp_def round_even_neg)

lemma ulp_exp_scale:
  assumes "0 < x"
  shows "x / 2 powi ulp_exp x < 2 ^ 53"
    and "-1074 < ulp_exp x \<Longrightarrow> 2 ^ 52 \<le> x / 2 powi ulp_exp x"
proof -
  have "x < 2 powi (ilog 2 x + 1)" using ilog_bounds(2) [of 2 x] assms by simp
  also have "\<dots> \<le> 2 powi (ulp_exp x + 53)"
    using assms by (simp add: ulp_exp_def powi_le_iff)
  also have "\<dots> = 2 powi ulp_exp x * 2 ^ 53"
    by (simp add: power_int_add)
  finally show "x / 2 powi ulp_exp x < 2 ^ 53"
    by (simp add: divide_simps mult.commute)
  assume "-1074 < ulp_exp x"
  then have e: "ulp_exp x = ilog 2 x - 52" using assms by (simp add: ulp_exp_def)
  have "2 powi ulp_exp x * 2 ^ 52 = (2 :: rat) powi ilog 2 x"
    unfolding e using power_int_diff [of "2::rat" "ilog 2 x" 52] by simp
  also have "\<dots> \<le> x" using ilog_bounds(1) [of 2 x] assms by simp
  finally show "2 ^ 52 \<le> x / 2 powi ulp_exp x"
    by (simp add: divide_simps mult.commute)
qed

lemma rnd64_pos_scaled:
  assumes "0 < x"
  obtains m where "rnd64 x = of_int m * 2 powi ulp_exp x" and "0 \<le> m" and "m \<le> 2 ^ 53"
    and "-1074 < ulp_exp x \<Longrightarrow> 2 ^ 52 \<le> m"
proof
  let ?m = "round_even (x / 2 powi ulp_exp x)"
  show "rnd64 x = of_int ?m * 2 powi ulp_exp x" using assms by (simp add: rnd64_def)
  have "round_even (of_int 0) \<le> ?m"
    using assms by (intro round_even_mono) simp
  then show "0 \<le> ?m" by simp
  have "?m \<le> round_even (of_int (2 ^ 53))"
    using ulp_exp_scale(1) [OF assms] by (intro round_even_mono) simp
  then show "?m \<le> 2 ^ 53" by simp
  assume "-1074 < ulp_exp x"
  then have "round_even (of_int (2 ^ 52)) \<le> ?m"
    using ulp_exp_scale(2) [OF assms] by (intro round_even_mono) simp
  then show "2 ^ 52 \<le> ?m" by simp
qed

lemma rnd64_nonneg: "0 \<le> x \<Longrightarrow> 0 \<le> rnd64 x"
proof (cases "x = 0")
  case False
  assume "0 \<le> x"
  with False have "0 < x" by simp
  then obtain m where "rnd64 x = of_int m * 2 powi ulp_exp x" "0 \<le> m"
    using rnd64_pos_scaled [of x] by metis
  then show ?thesis by simp
qed simp

lemma rnd64_mono_pos:
  assumes x: "0 < x" and xy: "x \<le> y"
  shows "rnd64 x \<le> rnd64 y"
proof -
  from x xy have y: "0 < y" by simp
  have le: "ulp_exp x \<le> ulp_exp y"
    using ilog_mono [of 2 x y] x xy by (auto simp: ulp_exp_def)
  show ?thesis
  proof (cases "ulp_exp x = ulp_exp y")
    case True
    have "round_even (x / 2 powi ulp_exp x) \<le> round_even (y / 2 powi ulp_exp x)"
      using xy by (intro round_even_mono divide_right_mono) auto
    then show ?thesis using x y True by (simp add: rnd64_def)
  next
    case False
    with le have lt: "ulp_exp x + 1 \<le> ulp_exp y" by simp
    have gt: "-1074 < ulp_exp y" using lt by (auto simp: ulp_exp_def)
    obtain m where m: "rnd64 x = of_int m * 2 powi ulp_exp x" "m \<le> 2 ^ 53"
      using rnd64_pos_scaled [OF x] by metis
    obtain n where n: "rnd64 y = of_int n * 2 powi ulp_exp y" "2 ^ 52 \<le> n"
      using rnd64_pos_scaled [OF y] gt by metis
    have m': "(of_int m :: rat) \<le> 2 ^ 53" using m(2) by (metis of_int_le_numeral_power_cancel_iff)
    have n': "2 ^ 52 \<le> (of_int n :: rat)" using n(2) by (metis numeral_power_le_of_int_cancel_iff)
    have "rnd64 x \<le> 2 ^ 53 * 2 powi ulp_exp x"
      unfolding m(1) using m' by (intro mult_right_mono) auto
    also have "\<dots> = 2 ^ 52 * 2 powi (ulp_exp x + 1)" by (simp add: power_int_add)
    also have "\<dots> \<le> 2 ^ 52 * 2 powi ulp_exp y"
      using lt by (simp add: powi_le_iff)
    also have "\<dots> \<le> rnd64 y"
      unfolding n(1) using n' by (intro mult_right_mono) auto
    finally show ?thesis .
  qed
qed

lemma rnd64_mono: "x \<le> y \<Longrightarrow> rnd64 x \<le> rnd64 y"
proof -
  assume xy: "x \<le> y"
  consider "0 < x" | "x \<le> 0" "0 \<le> y" | "y < 0" by linarith
  then show ?thesis
  proof cases
    case 1
    then show ?thesis using xy by (rule rnd64_mono_pos)
  next
    case 2
    then show ?thesis
      using rnd64_nonneg [of y] rnd64_nonneg [of "- x"] by (simp add: rnd64_neg)
  next
    case 3
    then show ?thesis
      using rnd64_mono_pos [of "- y" "- x"] xy by (simp add: rnd64_neg)
  qed
qed

lemma rnd64_is_dbl: "is_dbl (rnd64 x)"
proof -
  have pos: "is_dbl (rnd64 z)" if z: "0 < z" for z
  proof -
    obtain m where "rnd64 z = of_int m * 2 powi ulp_exp z" "0 \<le> m" "m \<le> 2 ^ 53"
      using rnd64_pos_scaled [OF z] by metis
    then show ?thesis
      unfolding is_dbl_def by (intro exI [of _ m] exI [of _ "ulp_exp z"]) (auto simp: ulp_exp_def)
  qed
  consider "0 < x" | "x = 0" | "x < 0" by linarith
  then show ?thesis
  proof cases
    case 2
    then show ?thesis unfolding is_dbl_def by (intro exI [of _ 0]) auto
  next
    case 3
    then obtain m e where me: "rnd64 (- x) = of_int m * 2 powi e" "\<bar>m\<bar> \<le> 2 ^ 53" "-1074 \<le> e"
      using pos [of "- x"] by (auto simp: is_dbl_def)
    have "rnd64 x = of_int (- m) * 2 powi e" using me(1) by (simp add: rnd64_neg)
    then show ?thesis unfolding is_dbl_def
      using me by (intro exI [of _ "- m"] exI [of _ e]) auto
  qed (rule pos)
qed

text \<open>A value already in the format is left as it is.\<close>

lemma ulp_exp_le:
  assumes x: "x = of_int m * 2 powi e" "0 < m" "m < 2 ^ 53" "-1074 \<le> e"
  shows "ulp_exp x \<le> e"
proof -
  have "(of_int m :: rat) < 2 ^ 53" using x(3) by (metis of_int_less_numeral_power_cancel_iff)
  then have "x < 2 ^ 53 * 2 powi e" unfolding x(1) by simp
  also have "\<dots> = 2 powi (e + 53)" by (simp add: power_int_add)
  finally have hi: "x < 2 powi (e + 53)" .
  have x0: "0 < x" using x by simp
  then have "(2 :: rat) powi ilog 2 x < 2 powi (e + 53)"
    using ilog_bounds(1) [of 2 x] hi by simp
  then have "ilog 2 x < e + 53" by (simp add: powi_less_iff)
  then show ?thesis using x(4) x0 by (simp add: ulp_exp_def)
qed

lemma rnd64_fix_pos:
  assumes x: "x = of_int m * 2 powi e" "0 < m" "m < 2 ^ 53" "-1074 \<le> e"
  shows "rnd64 x = x"
proof -
  define u where "u = ulp_exp x"
  have u: "u \<le> e" unfolding u_def using x by (rule ulp_exp_le)
  have "x / 2 powi u = of_int m * 2 powi (e - u)"
    unfolding x(1) by (simp add: power_int_diff)
  also have "\<dots> = of_int (m * 2 ^ nat (e - u))" using u by (simp add: power_int_def)
  finally have "round_even (x / 2 powi u) = m * 2 ^ nat (e - u)"
    by (simp only: round_even_of_int)
  moreover have "x \<noteq> 0" using x by simp
  ultimately have "rnd64 x = of_int (m * 2 ^ nat (e - u)) * 2 powi u"
    by (simp add: rnd64_def u_def)
  also have "\<dots> = of_int m * (2 powi (e - u) * 2 powi u)" using u by (simp add: power_int_def)
  also have "\<dots> = x" unfolding x(1) by (simp add: power_int_add [symmetric])
  finally show ?thesis .
qed

lemma rnd64_fix: "is_dbl x \<Longrightarrow> rnd64 x = x"
proof -
  have pos: "rnd64 z = z" if z: "z = of_int m * 2 powi e" "0 < m" "m \<le> 2 ^ 53" "-1074 \<le> e" for z m e
  proof (cases "m = 2 ^ 53")
    case True
    then have "z = of_int 1 * 2 powi (e + 53)" using z by (simp add: power_int_add)
    then show ?thesis by (rule rnd64_fix_pos) (use z in auto)
  qed (use z in \<open>auto intro: rnd64_fix_pos\<close>)
  assume "is_dbl x"
  then obtain m e where x: "x = of_int m * 2 powi e" "\<bar>m\<bar> \<le> 2 ^ 53" "-1074 \<le> e"
    by (auto simp: is_dbl_def)
  consider "0 < m" | "m = 0" | "m < 0" by linarith
  then show ?thesis
  proof cases
    case 1
    with x show ?thesis by (intro pos [of x m e]) auto
  next
    case 2
    with x show ?thesis by simp
  next
    case 3
    with x have "rnd64 (- x) = - x" by (intro pos [of "- x" "- m" e]) auto
    then show ?thesis by (simp add: rnd64_neg)
  qed
qed

lemma rnd64_idem [simp]: "rnd64 (rnd64 x) = rnd64 x"
  by (rule rnd64_fix) (rule rnd64_is_dbl)

lemma is_dbl_iff: "is_dbl x \<longleftrightarrow> rnd64 x = x"
  using rnd64_fix rnd64_is_dbl [of x] by auto

lemma is_dbl_of_int: "\<bar>k\<bar> \<le> 2 ^ 53 \<Longrightarrow> is_dbl (of_int k)"
  unfolding is_dbl_def by (intro exI [of _ k] exI [of _ 0]) auto

text \<open>The error of one rounding is half a unit in the last place.\<close>

lemma rnd64_error: "\<bar>rnd64 x - x\<bar> \<le> 2 powi (ulp_exp x - 1)"
proof (cases "x = 0")
  case False
  define q where "q = (2 :: rat) powi ulp_exp x"
  have q: "0 < q" by (simp add: q_def)
  have "rnd64 x - x = (of_int (round_even (x / q)) - x / q) * q"
    using False q by (simp add: rnd64_def q_def algebra_simps)
  then have "\<bar>rnd64 x - x\<bar> = \<bar>of_int (round_even (x / q)) - x / q\<bar> * q"
    using q by (simp add: abs_mult)
  also have "\<dots> \<le> 1/2 * q" using round_even_error [of "x / q"] q by (intro mult_right_mono) auto
  also have "\<dots> = 2 powi (ulp_exp x - 1)"
    unfolding q_def by (simp add: power_int_diff)
  finally show ?thesis .
qed simp

lemma rnd64_rel_error:
  assumes "2 powi (-1022) \<le> \<bar>x\<bar>"
  shows "\<bar>rnd64 x - x\<bar> \<le> \<bar>x\<bar> / 2 ^ 53"
proof -
  have "(0 :: rat) < 2 powi (-1022)" by simp
  then have x0: "0 < \<bar>x\<bar>" using assms by linarith
  have "(2 :: rat) powi (-1022) < 2 powi (ilog 2 \<bar>x\<bar> + 1)"
    using ilog_bounds(2) [of 2 "\<bar>x\<bar>"] assms x0 by simp
  then have "-1022 < ilog 2 \<bar>x\<bar> + 1" by (subst (asm) powi_less_iff) auto
  then have u: "ulp_exp x = ilog 2 \<bar>x\<bar> - 52" by (simp add: ulp_exp_def)
  have "\<bar>rnd64 x - x\<bar> \<le> 2 powi (ilog 2 \<bar>x\<bar> - 53)" using rnd64_error [of x] u by simp
  also have "\<dots> = 2 powi ilog 2 \<bar>x\<bar> / 2 ^ 53"
    using power_int_diff [of "2::rat" "ilog 2 \<bar>x\<bar>" 53] by simp
  also have "\<dots> \<le> \<bar>x\<bar> / 2 ^ 53"
    using ilog_bounds(1) [of 2 "\<bar>x\<bar>"] x0 by (intro divide_right_mono) auto
  finally show ?thesis .
qed

text \<open>
  A double absorbs a small enough relative perturbation: whatever lies within
  \<open>5 * 10\<^sup>-\<^sup>1\<^sup>7\<close> of it (relatively) rounds to it. This is why seventeen decimal digits
  single a double out.
\<close>

lemma dbl_scaled:
  assumes x: "rnd64 x = x" "0 < x"
  obtains m where "x = of_int m * 2 powi ulp_exp x" and "0 < m" and "m < 2 ^ 53"
    and "-1074 < ulp_exp x \<Longrightarrow> 2 ^ 52 \<le> m"
proof -
  obtain m where m: "rnd64 x = of_int m * 2 powi ulp_exp x" "0 \<le> m"
      "-1074 < ulp_exp x \<Longrightarrow> 2 ^ 52 \<le> m"
    using rnd64_pos_scaled [OF x(2)] by metis
  then have xm: "x = of_int m * 2 powi ulp_exp x" using x by simp
  have "0 < m" using xm x(2) m(2) by (cases "m = 0") auto
  moreover have "m < 2 ^ 53"
  proof -
    have "(of_int m :: rat) = x / 2 powi ulp_exp x" by (subst xm) simp
    then have "(of_int m :: rat) < 2 ^ 53" using ulp_exp_scale(1) [OF x(2)] by simp
    then show ?thesis by (metis of_int_less_numeral_power_cancel_iff)
  qed
  ultimately show ?thesis using that xm m(3) by blast
qed

lemma round_even_near: "\<bar>y - of_int k\<bar> < 1/2 \<Longrightarrow> round_even y = k"
proof -
  assume "\<bar>y - of_int k\<bar> < 1/2"
  moreover have "\<bar>of_int (round_even y) - y\<bar> \<le> 1/2" by (rule round_even_error)
  ultimately have "\<bar>of_int (round_even y) - (of_int k :: rat)\<bar> < 1" by linarith
  then have "\<bar>round_even y - k\<bar> < 1" by linarith
  then show ?thesis by linarith
qed

lemma ulp_exp_eqI:
  assumes "0 < c" and "2 powi ilog 2 x \<le> c" and "c < 2 powi (ilog 2 x + 1)" and "0 < x"
  shows "ulp_exp c = ulp_exp x"
  using ilog_unique [of 2 "ilog 2 x" c] assms by (simp add: ulp_exp_def)

lemma rnd64_near:
  assumes x: "rnd64 x = x" "0 < x" and near: "\<bar>c - x\<bar> \<le> x / (2 * 10 ^ 16)"
  shows "rnd64 c = x"
proof -
  define l u where "l = ilog 2 x" and "u = ulp_exp x"
  obtain m where m: "x = of_int m * 2 powi u" "0 < m" "m < 2 ^ 53" "-1074 < u \<Longrightarrow> 2 ^ 52 \<le> m"
    using dbl_scaled [OF x] unfolding u_def by metis
  have lx: "2 powi l \<le> x" "x < 2 powi (l + 1)" using ilog_bounds [of 2 x] x(2) by (auto simp: l_def)
  have ul: "l - 52 \<le> u" "-1074 \<le> u" using x(2) by (auto simp: u_def l_def ulp_exp_def)
  have "x / (2 * 10 ^ 16) < 2 powi l / 10 ^ 16"
    using lx(2) by (simp add: power_int_add)
  also have "\<dots> < 2 powi l / 2 ^ 53" by (simp add: divide_simps)
  also have "\<dots> = 2 powi (l - 53)" using power_int_diff [of "2::rat" l 53] by simp
  also have "\<dots> \<le> 2 powi (u - 1)" using ul by (simp add: powi_le_iff)
  finally have half: "\<bar>c - x\<bar> < 2 powi (u - 1)" using near by linarith
  have hu: "(2 :: rat) powi (u - 1) = 2 powi u / 2" by (simp add: power_int_diff)
  have up: "0 < (2 :: rat) powi u" by simp
  have cpos: "0 < c"
  proof -
    have "x / (2 * 10 ^ 16) < x" using x(2) by (simp add: divide_simps)
    then show ?thesis using near by linarith
  qed
  have same: "rnd64 c = x" if "ulp_exp c = u"
  proof -
    have "\<bar>c / 2 powi u - of_int m\<bar> < 1/2"
    proof -
      have "c / 2 powi u - of_int m = (c - x) / 2 powi u" using m(1) up by (simp add: field_simps)
      then show ?thesis using half hu up by (simp add: abs_divide divide_simps)
    qed
    then have "round_even (c / 2 powi u) = m" by (rule round_even_near)
    then show ?thesis using that cpos m(1) by (simp add: rnd64_def)
  qed
  have step: "x + 2 powi u \<le> 2 powi (u + 53)"
  proof -
    have "m + 1 \<le> 2 ^ 53" using m(3) by simp
    then have "of_int (m + 1) \<le> (2 :: rat) ^ 53" by (metis of_int_le_numeral_power_cancel_iff)
    then have "of_int (m + 1) * 2 powi u \<le> 2 ^ 53 * (2 :: rat) powi u"
      by (intro mult_right_mono) auto
    then show ?thesis using m(1) by (simp add: power_int_add algebra_simps)
  qed
  then have below: "c < 2 powi (u + 53)" using half hu up by linarith
  have il: "2 powi ilog 2 c \<le> c" "c < 2 powi (ilog 2 c + 1)" using ilog_bounds [of 2 c] cpos by auto
  from below il have "(2 :: rat) powi ilog 2 c < 2 powi (u + 53)" by linarith
  then have ilc: "ilog 2 c \<le> u + 52" by (simp add: powi_less_iff)
  show ?thesis
  proof (cases "u = -1074 \<or> 2 powi l \<le> c")
    case True
    moreover have "l \<le> ilog 2 c" if "2 powi l \<le> c"
      using ilog_mono [of 2 "2 powi l" c] ilog_unique [of 2 l "2 powi l"] that by (simp add: powi_less_iff)
    ultimately have "ulp_exp c = u"
      using ilc cpos ul x(2) by (auto simp: ulp_exp_def u_def l_def max_def abs_if split: if_splits)
    then show ?thesis by (rule same)
  next
    case False
    then have u: "-1074 < u" "u = l - 52" and c: "c < 2 powi l"
      using ul x(2) by (auto simp: u_def l_def ulp_exp_def max_def split: if_splits)
    have l2: "(2 :: rat) powi l = 2 ^ 52 * 2 powi u"
      unfolding u(2) using power_int_diff [of "2::rat" l 52] by simp
    have "m = 2 ^ 52"
    proof (rule ccontr)
      assume "m \<noteq> 2 ^ 52"
      then have "2 ^ 52 + 1 \<le> m" using m(4) [OF u(1)] by simp
      then have "(of_int (2 ^ 52 + 1) :: rat) \<le> of_int m" by (simp only: of_int_le_iff)
      then have "(of_int (2 ^ 52 + 1) :: rat) * 2 powi u \<le> of_int m * 2 powi u"
        by (intro mult_right_mono) auto
      then have "2 powi l + 2 powi u \<le> x" unfolding l2 using m(1) by (simp add: algebra_simps)
      then show False using half hu up c by linarith
    qed
    then have xl: "x = 2 powi l" using m(1) l2 by simp
    have d4: "\<bar>c - x\<bar> < 2 powi (l - 54)"
    proof -
      have "x / (2 * 10 ^ 16) < x / 2 ^ 54" using x(2) by (simp add: divide_simps)
      also have "\<dots> = 2 powi (l - 54)" unfolding xl using power_int_diff [of "2::rat" l 54] by simp
      finally show ?thesis using near by linarith
    qed
    have "2 powi (l - 54) < (2 :: rat) powi (l - 1)" by (simp add: powi_less_iff)
    moreover have "(2 :: rat) powi (l - 1) = 2 powi l / 2" by (simp add: power_int_diff)
    ultimately have "2 powi (l - 1) \<le> c" using d4 xl by linarith
    then have "ilog 2 c = l - 1" using c by (intro ilog_unique) auto
    then have uc: "ulp_exp c = l - 53" using cpos u by (simp add: ulp_exp_def)
    have "\<bar>c / 2 powi (l - 53) - of_int (2 ^ 53)\<bar> < 1/2"
    proof -
      have q: "(2 :: rat) powi (l - 53) = x / 2 ^ 53" "(2 :: rat) powi (l - 54) = x / 2 ^ 54"
        unfolding xl using power_int_diff [of "2::rat" l 53] power_int_diff [of "2::rat" l 54] by auto
      have "c / (x / 2 ^ 53) - 2 ^ 53 = (c - x) / (x / 2 ^ 53)" using x(2) by (simp add: field_simps)
      moreover have "\<bar>(c - x) / (x / 2 ^ 53)\<bar> = \<bar>c - x\<bar> * 2 ^ 53 / x"
        using x(2) unfolding abs_divide by simp
      moreover have "\<bar>c - x\<bar> * 2 ^ 53 / x < 1/2"
        using d4 x(2) by (simp add: q divide_simps)
      ultimately show ?thesis by (simp add: q)
    qed
    then have "round_even (c / 2 powi (l - 53)) = 2 ^ 53" by (rule round_even_near)
    then have "rnd64 c = 2 ^ 53 * 2 powi (l - 53)" using uc cpos by (simp add: rnd64_def)
    also have "\<dots> = x" unfolding xl using power_int_diff [of "2::rat" l 53] by simp
    finally show ?thesis .
  qed
qed

section \<open>What the rest of the development uses of a rounding\<close>

text \<open>
  The contract between the arithmetic and the money code: a monotone, odd, idempotent map.
  Everything the balance lemmas need of floating point follows from these three laws.
\<close>

locale rounding =
  fixes rnd :: "rat \<Rightarrow> rat"
  assumes mono: "x \<le> y \<Longrightarrow> rnd x \<le> rnd y"
    and odd: "rnd (- x) = - rnd x"
    and idem: "rnd (rnd x) = rnd x"
begin

lemma zero: "rnd 0 = 0"
  using odd [of 0] by simp

lemma nonneg: "0 \<le> x \<Longrightarrow> 0 \<le> rnd x"
  using mono [of 0 x] zero by simp

lemma nonpos: "x \<le> 0 \<Longrightarrow> rnd x \<le> 0"
  using mono [of x 0] zero by simp

text \<open>A checked subtraction cannot cross zero, and never leaves more than there was.\<close>

lemma sub_nonneg: "y \<le> x \<Longrightarrow> 0 \<le> rnd (x - y)"
  by (rule nonneg) simp

lemma sub_le: "rnd x = x \<Longrightarrow> 0 \<le> y \<Longrightarrow> rnd (x - y) \<le> x"
  using mono [of "x - y" x] by simp

lemma add_ge: "rnd x = x \<Longrightarrow> 0 \<le> y \<Longrightarrow> x \<le> rnd (x + y)"
  using mono [of x "x + y"] by simp

text \<open>No representable value lies between a number and its rounding.\<close>

lemma le_fixed: "rnd d = d \<Longrightarrow> x \<le> d \<Longrightarrow> rnd x \<le> d"
  using mono [of x d] by simp

lemma ge_fixed: "rnd d = d \<Longrightarrow> d \<le> x \<Longrightarrow> d \<le> rnd x"
  using mono [of d x] by simp

lemma less_fixed: "rnd d = d \<Longrightarrow> rnd x < d \<Longrightarrow> x < d"
  using ge_fixed [of d x] by (auto simp: not_le [symmetric])

lemma pos_of_rnd_pos: "0 < rnd x \<Longrightarrow> 0 < x"
  using nonpos [of x] by (auto simp: not_le [symmetric])

end

interpretation b64: rounding rnd64
  by unfold_locales (simp_all add: rnd64_mono rnd64_neg)

end
