(* ===== verification/JsNumber.thy ===== *)
theory JsNumber
  imports Rounding
begin

text \<open>
  JavaScript numbers and the strings they are read from and written to.

  A number is NaN, an infinity or a finite double, held as its rational value; there is
  one zero (nothing the services compute observes the sign of a zero except a division
  by it, which the model gives the positive sign). The operators are the language's:
  the exact result, rounded by \<open>rnd64\<close> and overflowing to an infinity; every comparison
  with NaN is false. \<open>num_to_string\<close> is Number.prototype.toString (the shortest
  decimal that reads back as the same number), \<open>to_fixed_str\<close> is toFixed,
  \<open>parse_float_str\<close> and \<open>number_str\<close> are parseFloat and Number on a string.
\<close>

section \<open>Numbers and operators\<close>

datatype jsnum = NaN | Infty bool \<comment> \<open>True is the negative one\<close> | Fin rat

definition to_num :: "rat \<Rightarrow> jsnum" where
  "to_num x = (let r = rnd64 x in if 2 ^ 1024 \<le> \<bar>r\<bar> then Infty (r < 0) else Fin r)"

fun is_num :: "jsnum \<Rightarrow> bool" where
  "is_num (Fin x) = (rnd64 x = x \<and> \<bar>x\<bar> < 2 ^ 1024)"
| "is_num _ = True"

fun is_finite :: "jsnum \<Rightarrow> bool" where
  "is_finite (Fin _) = True"
| "is_finite _ = False"

fun is_nan :: "jsnum \<Rightarrow> bool" where
  "is_nan NaN = True"
| "is_nan _ = False"

instantiation jsnum :: "{plus, minus, uminus, times, divide, inverse, abs, ord}"
begin

fun uminus_jsnum :: "jsnum \<Rightarrow> jsnum" where
  "- NaN = NaN"
| "- Infty s = Infty (\<not> s)"
| "- Fin x = Fin (- x)"

fun plus_jsnum :: "jsnum \<Rightarrow> jsnum \<Rightarrow> jsnum" where
  "NaN + b = NaN"
| "a + NaN = NaN"
| "Infty s + Infty t = (if s = t then Infty s else NaN)"
| "Infty s + Fin _ = Infty s"
| "Fin _ + Infty t = Infty t"
| "Fin x + Fin y = to_num (x + y)"

definition minus_jsnum :: "jsnum \<Rightarrow> jsnum \<Rightarrow> jsnum" where
  "a - b = a + (- b :: jsnum)"

fun times_jsnum :: "jsnum \<Rightarrow> jsnum \<Rightarrow> jsnum" where
  "NaN * b = NaN"
| "a * NaN = NaN"
| "Infty s * Infty t = Infty (s \<noteq> t)"
| "Infty s * Fin y = (if y = 0 then NaN else Infty (s \<noteq> (y < 0)))"
| "Fin x * Infty t = (if x = 0 then NaN else Infty ((x < 0) \<noteq> t))"
| "Fin x * Fin y = to_num (x * y)"

fun divide_jsnum :: "jsnum \<Rightarrow> jsnum \<Rightarrow> jsnum" where
  "divide NaN b = NaN"
| "divide a NaN = NaN"
| "divide (Infty s) (Infty t) = NaN"
| "divide (Infty s) (Fin y) = Infty (s \<noteq> (y < 0))"
| "divide (Fin x) (Infty t) = Fin 0"
| "divide (Fin x) (Fin y) =
     (if y = 0 then if x = 0 then NaN else Infty (x < 0) else to_num (x / y))"

definition inverse_jsnum :: "jsnum \<Rightarrow> jsnum" where
  "inverse a = divide (Fin 1) (a :: jsnum)"

fun abs_jsnum :: "jsnum \<Rightarrow> jsnum" where
  "abs_jsnum NaN = NaN"
| "abs_jsnum (Infty _) = Infty False"
| "abs_jsnum (Fin x) = Fin \<bar>x\<bar>"

fun less_eq_jsnum :: "jsnum \<Rightarrow> jsnum \<Rightarrow> bool" where
  "NaN \<le> b = False"
| "a \<le> NaN = False"
| "Infty s \<le> Infty t = (t \<longrightarrow> s)"
| "Infty s \<le> Fin _ = s"
| "Fin _ \<le> Infty t = (\<not> t)"
| "Fin x \<le> Fin y = (x \<le> y)"

definition less_jsnum :: "jsnum \<Rightarrow> jsnum \<Rightarrow> bool" where
  "a < b \<longleftrightarrow> a \<le> b \<and> \<not> (b :: jsnum) \<le> a"

instance ..

end

text \<open>The equality operator: NaN is not equal to itself.\<close>

definition js_eq :: "jsnum \<Rightarrow> jsnum \<Rightarrow> bool" where
  "js_eq a b \<longleftrightarrow> a = b \<and> a \<noteq> NaN"

definition js_min :: "jsnum \<Rightarrow> jsnum \<Rightarrow> jsnum" where
  "js_min a b = (if a = NaN \<or> b = NaN then NaN else if a \<le> b then a else b)"

definition js_max :: "jsnum \<Rightarrow> jsnum \<Rightarrow> jsnum" where
  "js_max a b = (if a = NaN \<or> b = NaN then NaN else if a \<le> b then b else a)"

fun js_floor :: "jsnum \<Rightarrow> jsnum" where
  "js_floor (Fin x) = Fin (of_int \<lfloor>x\<rfloor>)"
| "js_floor a = a"

fun js_ceil :: "jsnum \<Rightarrow> jsnum" where
  "js_ceil (Fin x) = Fin (of_int \<lceil>x\<rceil>)"
| "js_ceil a = a"

fun js_is_integer :: "jsnum \<Rightarrow> bool" where
  "js_is_integer (Fin x) = (x = of_int \<lfloor>x\<rfloor>)"
| "js_is_integer _ = False"

lemma less_jsnum_simps [simp]:
  "Fin x < Fin y \<longleftrightarrow> x < y"
  "\<not> NaN < b" "\<not> a < NaN"
  "Fin x < Infty t \<longleftrightarrow> \<not> t"
  "Infty s < Fin y \<longleftrightarrow> s"
  "Infty s < Infty t \<longleftrightarrow> s \<and> \<not> t"
  by (cases a; cases b; auto simp: less_jsnum_def)+

lemma le_NaN [simp]: "\<not> a \<le> NaN"
  by (cases a) auto

lemma minus_Fin [simp]: "Fin x - Fin y = to_num (x - y)"
  by (simp add: minus_jsnum_def)

lemma plus_NaN [simp]: "a + NaN = NaN"
  by (cases a) auto

lemma minus_NaN [simp]: "NaN - b = NaN" "a - NaN = NaN"
  by (simp_all add: minus_jsnum_def)

lemma times_NaN [simp]: "a * NaN = NaN"
  by (cases a) auto

text \<open>For evaluation, with the bound of the range written out.\<close>

lemma to_num_code [code]:
  "to_num x = (let r = rnd64 x in if 179769313486231590772930519078902473361797697894230657273430081157732675805500963132708477322407536021120113879871393357658789768814416622492847430639474124377767893424865485276302219601246094119453082952085005768838150682342462881473913110540827237163350510684586298239947245938479716304835356329624224137216 \<le> \<bar>r\<bar> then Infty (r < 0) else Fin r)"
  by (simp add: to_num_def)

lemma is_num_code [code]:
  "is_num (Fin x) = (rnd64 x = x \<and> \<bar>x\<bar> < 179769313486231590772930519078902473361797697894230657273430081157732675805500963132708477322407536021120113879871393357658789768814416622492847430639474124377767893424865485276302219601246094119453082952085005768838150682342462881473913110540827237163350510684586298239947245938479716304835356329624224137216)"
  "is_num (Infty s) = True" "is_num NaN = True"
  by simp_all

lemma to_num_not_NaN [simp]: "to_num x \<noteq> NaN"
  by (simp add: to_num_def Let_def)

lemma is_num_to_num [simp]: "is_num (to_num x)"
  by (auto simp: to_num_def Let_def)

lemma to_num_fix: "is_num (Fin x) \<Longrightarrow> to_num x = Fin x"
  by (simp add: to_num_def)

lemma to_num_0 [simp]: "to_num 0 = Fin 0"
  by (simp add: to_num_def)

lemma to_num_Fin: "to_num x = Fin y \<longleftrightarrow> y = rnd64 x \<and> \<bar>rnd64 x\<bar> < 2 ^ 1024"
  by (auto simp: to_num_def Let_def)

lemma is_num_neg [simp]: "is_num (- a) \<longleftrightarrow> is_num a"
  by (cases a) (auto simp: rnd64_neg)

lemma is_num_abs [simp]: "is_num a \<Longrightarrow> is_num (abs a)"
  by (cases a) (auto simp: rnd64_neg abs_if)

lemma is_num_plus [simp]: "is_num (a + b)"
  by (cases a; cases b) auto

lemma is_num_minus [simp]: "is_num (a - b)"
  by (simp add: minus_jsnum_def)

lemma is_num_times [simp]: "is_num (a * b)"
  by (cases a; cases b) auto

lemma is_num_divide [simp]: "is_num (a / b)"
  by (cases a; cases b) auto

text \<open>Subtracting no more than there is stays between zero and what there was.\<close>

lemma minus_within:
  assumes "is_num (Fin x)" and "0 \<le> y" and "y \<le> x"
  obtains d where "Fin x - Fin y = Fin d" and "0 \<le> d" and "d \<le> x" and "rnd64 d = d"
proof
  have "0 \<le> rnd64 (x - y)" "rnd64 (x - y) \<le> x"
    using assms b64.sub_nonneg [of y x] b64.sub_le [of x y] by auto
  with assms show "Fin x - Fin y = Fin (rnd64 (x - y))"
    by (simp add: to_num_def abs_if)
  show "0 \<le> rnd64 (x - y)" "rnd64 (x - y) \<le> x" by fact+
qed simp

section \<open>Dynamically typed values\<close>

datatype jsval = JUndef | JNull | JBool bool | JNum jsnum | JStr string

section \<open>Reading numbers\<close>

definition is_digit :: "char \<Rightarrow> bool" where
  "is_digit c \<longleftrightarrow> c \<in> set ''0123456789''"

definition is_ws :: "char \<Rightarrow> bool" where
  "is_ws c \<longleftrightarrow> c = CHR '' '' \<or> (9 \<le> (of_char c :: int) \<and> (of_char c :: int) \<le> 13)"

definition digit_val :: "char \<Rightarrow> int" where
  "digit_val c = of_char c - 48"

definition digits_val :: "string \<Rightarrow> int" where
  "digits_val s = foldl (\<lambda>n c. 10 * n + digit_val c) 0 s"

definition trim :: "string \<Rightarrow> string" where
  "trim s = rev (dropWhile is_ws (rev (dropWhile is_ws s)))"

text \<open>An exponent part, or nothing consumed when none follows.\<close>

definition parse_exp :: "string \<Rightarrow> int \<times> string" where
  "parse_exp r = (case r of
      [] \<Rightarrow> (0, r)
    | c # r1 \<Rightarrow>
        if c \<noteq> CHR ''e'' \<and> c \<noteq> CHR ''E'' then (0, r)
        else let signed = (r1 \<noteq> [] \<and> (hd r1 = CHR ''+'' \<or> hd r1 = CHR ''-''));
                 ds = takeWhile is_digit (if signed then tl r1 else r1);
                 rest = dropWhile is_digit (if signed then tl r1 else r1);
                 v = digits_val ds
             in if ds = [] then (0, r)
                else (if signed \<and> hd r1 = CHR ''-'' then - v else v, rest))"

text \<open>The longest unsigned decimal literal a string starts with, and what follows it.\<close>

definition parse_unsigned :: "string \<Rightarrow> (jsnum \<times> string) option" where
  "parse_unsigned s =
     (if take 8 s = ''Infinity'' then Some (Infty False, drop 8 s)
      else let ip = takeWhile is_digit s;
               r1 = dropWhile is_digit s;
               dot = (r1 \<noteq> [] \<and> hd r1 = CHR ''.'');
               fp = (if dot then takeWhile is_digit (tl r1) else []);
               r2 = (if dot then dropWhile is_digit (tl r1) else r1)
           in if ip = [] \<and> fp = [] then None
              else let (e, r3) = parse_exp r2
                   in Some (to_num (of_int (digits_val (ip @ fp)) * 10 powi (e - int (length fp))), r3))"

definition parse_signed :: "string \<Rightarrow> (jsnum \<times> string) option" where
  "parse_signed s =
     (if s \<noteq> [] \<and> hd s = CHR ''-'' then map_option (map_prod uminus id) (parse_unsigned (tl s))
      else if s \<noteq> [] \<and> hd s = CHR ''+'' then parse_unsigned (tl s)
      else parse_unsigned s)"

definition parse_float_str :: "string \<Rightarrow> jsnum" where
  "parse_float_str s = (case parse_signed (dropWhile is_ws s) of None \<Rightarrow> NaN | Some (v, _) \<Rightarrow> v)"

text \<open>Number on a string: the whole trimmed text, empty for zero, other bases by prefix.\<close>

definition digit_in_base :: "int \<Rightarrow> char \<Rightarrow> int option" where
  "digit_in_base b c =
     (let k = of_char c :: int;
          v = (if is_digit c then k - 48
               else if 97 \<le> k \<and> k \<le> 102 then k - 87
               else if 65 \<le> k \<and> k \<le> 70 then k - 55 else 99)
      in if v < b then Some v else None)"

definition parse_base :: "int \<Rightarrow> string \<Rightarrow> jsnum" where
  "parse_base b s =
     (let ds = map (digit_in_base b) s
      in if s = [] \<or> None \<in> set ds then NaN
         else to_num (of_int (foldl (\<lambda>n d. b * n + the d) 0 ds)))"

definition number_str :: "string \<Rightarrow> jsnum" where
  "number_str s =
     (let t = trim s in
      if t = [] then Fin 0
      else if take 2 t = ''0x'' \<or> take 2 t = ''0X'' then parse_base 16 (drop 2 t)
      else if take 2 t = ''0o'' \<or> take 2 t = ''0O'' then parse_base 8 (drop 2 t)
      else if take 2 t = ''0b'' \<or> take 2 t = ''0B'' then parse_base 2 (drop 2 t)
      else case parse_signed t of Some (v, []) \<Rightarrow> v | _ \<Rightarrow> NaN)"

text \<open>
  The functions parseFloat, Number and the predicate isNaN on any value. A number is read back
  by parseFloat from its own shortest spelling, which is that number.
\<close>

fun parse_float :: "jsval \<Rightarrow> jsnum" where
  "parse_float (JNum x) = x"
| "parse_float (JStr s) = parse_float_str s"
| "parse_float _ = NaN"

fun to_number :: "jsval \<Rightarrow> jsnum" where
  "to_number JUndef = NaN"
| "to_number JNull = Fin 0"
| "to_number (JBool b) = Fin (if b then 1 else 0)"
| "to_number (JNum x) = x"
| "to_number (JStr s) = number_str s"

definition global_is_nan :: "jsval \<Rightarrow> bool" where
  "global_is_nan v \<longleftrightarrow> to_number v = NaN"

end
