(* ===== verification/JsPrint.thy ===== *)
theory JsPrint
  imports JsNumber
begin

text \<open>
  Writing numbers: Number.prototype.toString and toFixed, and what parseFloat makes of
  the result. \<open>dec_of\<close> finds the decimal with the fewest significant digits (at most 17)
  that rounds to the given double; \<open>num_parts\<close> lays its digits out the way toString
  does. \<open>parse_parts\<close> says what number a spelled-out layout denotes, and
  \<open>num_to_string_roundtrip\<close> that parseFloat undoes toString.
\<close>

section \<open>Decimal digits\<close>

definition digit_char :: "int \<Rightarrow> char" where
  "digit_char d = ''0123456789'' ! nat d"

function digs :: "int \<Rightarrow> string" where
  "digs n = (if n < 10 then [digit_char n] else digs (n div 10) @ [digit_char (n mod 10)])"
  by pat_completeness auto
termination by (relation "measure nat") auto

declare digs.simps [simp del]

definition zeros :: "int \<Rightarrow> string" where
  "zeros k = replicate (nat k) (CHR ''0'')"

definition all_digits :: "string \<Rightarrow> bool" where
  "all_digits s \<longleftrightarrow> list_all is_digit s"

lemma digit_char_val:
  assumes "0 \<le> d" "d < 10"
  shows "digit_val (digit_char d) = d" and "is_digit (digit_char d)"
proof -
  have "d = 0 \<or> d = 1 \<or> d = 2 \<or> d = 3 \<or> d = 4 \<or> d = 5 \<or> d = 6 \<or> d = 7 \<or> d = 8 \<or> d = 9"
    using assms by presburger
  then show "digit_val (digit_char d) = d" and "is_digit (digit_char d)"
    by (auto simp: digit_char_def digit_val_def is_digit_def)
qed

lemma is_digit_cases:
  "is_digit c \<Longrightarrow> 0 \<le> digit_val c \<and> digit_val c < 10 \<and> digit_char (digit_val c) = c"
  by (auto simp: is_digit_def digit_val_def digit_char_def)

lemma all_digits_simps [simp]:
  "all_digits []" "all_digits (c # s) \<longleftrightarrow> is_digit c \<and> all_digits s"
  "all_digits (s @ t) \<longleftrightarrow> all_digits s \<and> all_digits t"
  by (simp_all add: all_digits_def)

lemma all_digits_zeros [simp]: "all_digits (zeros k)"
  by (simp add: all_digits_def zeros_def is_digit_def list_all_length)

lemma all_digits_take [simp]: "all_digits s \<Longrightarrow> all_digits (take n s)"
  and all_digits_drop [simp]: "all_digits s \<Longrightarrow> all_digits (drop n s)"
  by (auto simp: all_digits_def list_all_iff dest: in_set_takeD in_set_dropD)

lemma foldl_digits:
  "foldl (\<lambda>n c. 10 * n + digit_val c) a s = a * 10 ^ length s + digits_val s"
proof (induction s arbitrary: a)
  case Nil
  then show ?case by (simp add: digits_val_def)
next
  case (Cons c s)
  show ?case
    using Cons [of "10 * a + digit_val c"] Cons [of "digit_val c"]
    by (simp add: digits_val_def algebra_simps)
qed

lemma digits_val_append: "digits_val (s @ t) = digits_val s * 10 ^ length t + digits_val t"
  using foldl_digits [of "digits_val s" t] by (simp add: digits_val_def)

lemma digits_val_simps [simp]: "digits_val [] = 0"
  and digits_val_Cons: "digits_val (c # s) = digit_val c * 10 ^ length s + digits_val s"
  using digits_val_append [of "[c]" s] by (simp_all add: digits_val_def)

lemma digits_val_zeros [simp]: "digits_val (zeros k) = 0"
proof -
  have "digits_val (replicate n (CHR ''0'')) = 0" for n
    by (induction n) (simp_all add: digits_val_Cons digit_val_def)
  then show ?thesis by (simp add: zeros_def)
qed

lemma length_zeros [simp]: "length (zeros k) = nat k"
  by (simp add: zeros_def)

lemma digits_val_bounds: "all_digits s \<Longrightarrow> 0 \<le> digits_val s \<and> digits_val s < 10 ^ length s"
proof (induction s)
  case (Cons c s)
  then have c: "0 \<le> digit_val c" "digit_val c \<le> 9" using is_digit_cases [of c] by auto
  have "digit_val c * 10 ^ length s \<le> 9 * 10 ^ length s"
    using c by (intro mult_right_mono) auto
  moreover have "0 \<le> digit_val c * 10 ^ length s" using c by simp
  moreover have "0 \<le> digits_val s" "digits_val s < 10 ^ length s" using Cons by auto
  ultimately show ?case unfolding digits_val_Cons length_Cons power_Suc by linarith
qed simp

text \<open>Cutting a digit string short divides its value.\<close>

lemma digits_val_take:
  assumes "all_digits s" and "n \<le> length s"
  shows "digits_val (take n s) = digits_val s div 10 ^ (length s - n)"
proof -
  have "digits_val s = digits_val (take n s) * 10 ^ (length s - n) + digits_val (drop n s)"
    using digits_val_append [of "take n s" "drop n s"] by simp
  moreover have "0 \<le> digits_val (drop n s)" "digits_val (drop n s) < 10 ^ (length s - n)"
    using digits_val_bounds [of "drop n s"] assms by auto
  ultimately show ?thesis by simp
qed

lemma digs_props: "0 \<le> n \<Longrightarrow> digits_val (digs n) = n \<and> all_digits (digs n) \<and> digs n \<noteq> []"
proof (induction n rule: digs.induct)
  case (1 n)
  show ?case
  proof (cases "n < 10")
    case True
    then show ?thesis
      using 1(2) digit_char_val [of n] by (subst (1 2 3) digs.simps) (simp add: digits_val_Cons)
  next
    case False
    then have IH: "digits_val (digs (n div 10)) = n div 10" "all_digits (digs (n div 10))"
      using 1 by auto
    have "digit_val (digit_char (n mod 10)) = n mod 10" "is_digit (digit_char (n mod 10))"
      using digit_char_val [of "n mod 10"] by auto
    with False IH show ?thesis
      by (subst (1 2 3) digs.simps) (simp add: digits_val_append digits_val_Cons)
  qed
qed

lemmas digs_val [simp] = digs_props [THEN conjunct1]
  and digs_digits [simp] = digs_props [THEN conjunct2, THEN conjunct1]
  and digs_nonempty = digs_props [THEN conjunct2, THEN conjunct2]

section \<open>The shortest decimal of a double\<close>

definition dec_cand :: "rat \<Rightarrow> int \<Rightarrow> (int \<times> int) option" where
  "dec_cand x k =
     (let p = ilog 10 x + 1 - k; q = 10 powi p; f = \<lfloor>x / q\<rfloor>;
          lo = (rnd64 (of_int f * q) = x); hi = (rnd64 (of_int (f + 1) * q) = x)
      in if lo \<and> (hi \<longrightarrow> x - of_int f * q \<le> of_int (f + 1) * q - x) then Some (f, p)
         else if hi then Some (f + 1, p) else None)"

fun dec_search :: "rat \<Rightarrow> int \<Rightarrow> nat \<Rightarrow> (int \<times> int) option" where
  "dec_search x k 0 = None"
| "dec_search x k (Suc n) = (case dec_cand x k of None \<Rightarrow> dec_search x (k + 1) n | r \<Rightarrow> r)"

function strip_zeros :: "int \<Rightarrow> int \<Rightarrow> int \<times> int" where
  "strip_zeros s p = (if 0 < s \<and> s mod 10 = 0 then strip_zeros (s div 10) (p + 1) else (s, p))"
  by pat_completeness auto
termination by (relation "measure (\<lambda>(s, p). nat s)") auto

declare strip_zeros.simps [simp del]

definition dec_val :: "int \<times> int \<Rightarrow> rat" where
  "dec_val d = of_int (fst d) * 10 powi snd d"

text \<open>Seventeen digits always single a double out, so the search finds one.\<close>

definition dec_of :: "rat \<Rightarrow> int \<times> int" where
  "dec_of x = (case dec_search x 1 17 of Some (s, p) \<Rightarrow> strip_zeros s p | None \<Rightarrow> (0, 0))"

lemma strip_zeros_val: "dec_val (strip_zeros s p) = dec_val (s, p)"
proof (induction s p rule: strip_zeros.induct)
  case (1 s p)
  show ?case
  proof (cases "0 < s \<and> s mod 10 = 0")
    case True
    then have "s = 10 * (s div 10)" by presburger
    then have "(of_int s :: rat) = 10 * of_int (s div 10)"
      by (metis of_int_mult of_int_numeral)
    with True 1 show ?thesis
      by (subst strip_zeros.simps) (simp add: dec_val_def power_int_add)
  qed (subst strip_zeros.simps, auto)
qed

lemma strip_zeros_sign: "0 < s \<Longrightarrow> 0 < fst (strip_zeros s p)"
proof (induction s p rule: strip_zeros.induct)
  case (1 s p)
  then show ?case by (subst strip_zeros.simps) (auto simp: pos_imp_zdiv_pos_iff)
qed

lemma strip_zeros_stripped: "0 < s \<Longrightarrow> fst (strip_zeros s p) mod 10 \<noteq> 0"
proof (induction s p rule: strip_zeros.induct)
  case (1 s p)
  then show ?case by (subst strip_zeros.simps) (auto simp: pos_imp_zdiv_pos_iff)
qed

lemma dec_cand_sound: "dec_cand x k = Some d \<Longrightarrow> rnd64 (dec_val d) = x"
  by (auto simp: dec_cand_def dec_val_def Let_def split: if_splits)

lemma dec_search_sound: "dec_search x k n = Some d \<Longrightarrow> rnd64 (dec_val d) = x"
  by (induction n arbitrary: k) (auto split: option.splits dest: dec_cand_sound)

lemma dec_cand_17:
  assumes "rnd64 x = x" and "0 < x"
  shows "dec_cand x 17 \<noteq> None"
proof -
  define q where "q = (10 :: rat) powi (ilog 10 x + 1 - 17)"
  define f where "f = \<lfloor>x / q\<rfloor>"
  have q: "0 < q" by (simp add: q_def)
  have "q = 10 powi ilog 10 x / 10 ^ 16"
    unfolding q_def using power_int_diff [of "10::rat" "ilog 10 x" 16] by simp
  also have "\<dots> \<le> x / 10 ^ 16" using ilog_bounds(1) [of 10 x] assms by (simp add: divide_right_mono)
  finally have qx: "q / 2 \<le> x / (2 * 10 ^ 16)" by simp
  have "of_int f \<le> x / q" "x / q < of_int f + 1" unfolding f_def by linarith+
  then have fb: "of_int f * q \<le> x" "x < of_int (f + 1) * q" using q by (simp_all add: field_simps)
  have gap: "of_int (f + 1) * q = of_int f * q + q" by (simp add: algebra_simps)
  have "rnd64 (of_int f * q) = x \<or> rnd64 (of_int (f + 1) * q) = x"
  proof (cases "x - of_int f * q \<le> q / 2")
    case True
    then have "rnd64 (of_int f * q) = x"
      using qx fb by (intro rnd64_near [OF assms]) linarith
    then show ?thesis ..
  next
    case False
    then have "rnd64 (of_int (f + 1) * q) = x"
      using qx fb gap by (intro rnd64_near [OF assms]) linarith
    then show ?thesis ..
  qed
  then show ?thesis by (auto simp: dec_cand_def Let_def q_def f_def)
qed

lemma dec_search_some:
  "dec_cand x j \<noteq> None \<Longrightarrow> k \<le> j \<Longrightarrow> j < k + int n \<Longrightarrow> dec_search x k n \<noteq> None"
proof (induction n arbitrary: k)
  case (Suc n)
  show ?case
  proof (cases "j = k")
    case True
    with Suc.prems show ?thesis by (auto split: option.splits)
  next
    case False
    with Suc.prems have "dec_search x (k + 1) n \<noteq> None" by (intro Suc.IH) auto
    then show ?thesis by (auto split: option.splits)
  qed
qed simp

lemma dec_of_search:
  assumes "rnd64 x = x" and "0 < x"
  obtains s p where "dec_search x 1 17 = Some (s, p)" and "dec_of x = strip_zeros s p"
proof -
  have "dec_search x 1 17 \<noteq> None"
    using dec_search_some [OF dec_cand_17 [OF assms], of 1 17] by simp
  then show ?thesis using that by (auto simp: dec_of_def)
qed

lemma dec_of_val:
  assumes "rnd64 x = x" and "0 < x"
  shows "rnd64 (dec_val (dec_of x)) = x"
  using dec_of_search [OF assms] by (metis dec_search_sound strip_zeros_val)

lemma dec_of_pos:
  assumes "rnd64 x = x" and "0 < x"
  shows "0 < fst (dec_of x)"
proof -
  have "0 < rnd64 (dec_val (dec_of x))" using dec_of_val [OF assms] assms(2) by simp
  then have "0 < dec_val (dec_of x)" by (rule b64.pos_of_rnd_pos)
  moreover have "\<not> 10 powi snd (dec_of x) < (0 :: rat)" by (simp add: not_less)
  ultimately show ?thesis by (simp add: dec_val_def zero_less_mult_iff)
qed

lemma dec_of_stripped:
  assumes "rnd64 x = x" and "0 < x"
  shows "fst (dec_of x) mod 10 \<noteq> 0"
proof -
  obtain s p where sp: "dec_of x = strip_zeros s p"
    using dec_of_search [OF assms] by metis
  have "0 < s"
  proof (rule ccontr)
    assume "\<not> 0 < s"
    then have "dec_of x = (s, p)" using sp by (subst (asm) strip_zeros.simps) simp
    with dec_of_pos [OF assms] \<open>\<not> 0 < s\<close> show False by simp
  qed
  then show ?thesis using sp by (simp add: strip_zeros_stripped)
qed

section \<open>Layout\<close>

type_synonym parts = "string \<times> string \<times> int option"

text \<open>Integer digits, fraction digits and exponent of a positive number's spelling.\<close>

definition num_parts :: "rat \<Rightarrow> parts" where
  "num_parts x =
     (let (s, p) = dec_of x; ds = digs s; k = int (length ds); n = k + p
      in if k \<le> n \<and> n \<le> 21 then (ds @ zeros (n - k), [], None)
         else if 0 < n \<and> n \<le> 21 then (take (nat n) ds, drop (nat n) ds, None)
         else if - 6 < n \<and> n \<le> 0 then (''0'', zeros (- n) @ ds, None)
         else (take 1 ds, drop 1 ds, Some (n - 1)))"

fun spell :: "parts \<Rightarrow> string" where
  "spell (ip, fp, e) =
     ip @ (if fp = [] then [] else CHR ''.'' # fp) @
     (case e of None \<Rightarrow> [] | Some k \<Rightarrow>
        CHR ''e'' # (if k < 0 then CHR ''-'' else CHR ''+'') # digs \<bar>k\<bar>)"

fun num_to_string :: "jsnum \<Rightarrow> string" where
  "num_to_string NaN = ''NaN''"
| "num_to_string (Infty s) = (if s then ''-Infinity'' else ''Infinity'')"
| "num_to_string (Fin x) =
     (if x = 0 then ''0''
      else if x < 0 then CHR ''-'' # spell (num_parts (- x)) else spell (num_parts x))"

text \<open>The fixed-point spelling with \<open>f\<close> decimals; a large magnitude keeps its shortest one.\<close>

definition fixed_parts :: "rat \<Rightarrow> nat \<Rightarrow> parts" where
  "fixed_parts x f =
     (let m = digs \<lfloor>x * 10 ^ f + 1/2\<rfloor>;
          w = zeros (int f + 1 - int (length m)) @ m
      in (take (length w - f) w, drop (length w - f) w, None))"

fun to_fixed_str :: "jsnum \<Rightarrow> nat \<Rightarrow> string" where
  "to_fixed_str (Fin x) f =
     (if 10 ^ 21 \<le> \<bar>x\<bar> then num_to_string (Fin x)
      else if x < 0 then CHR ''-'' # spell (fixed_parts (- x) f) else spell (fixed_parts x f))"
| "to_fixed_str n f = num_to_string n"

fun to_string :: "jsval \<Rightarrow> string" where
  "to_string JUndef = ''undefined''"
| "to_string JNull = ''null''"
| "to_string (JBool b) = (if b then ''true'' else ''false'')"
| "to_string (JNum n) = num_to_string n"
| "to_string (JStr s) = s"

section \<open>Reading a layout back\<close>

fun parts_ok :: "parts \<Rightarrow> bool" where
  "parts_ok (ip, fp, e) \<longleftrightarrow> ip \<noteq> [] \<and> all_digits ip \<and> all_digits fp"

fun parts_val :: "parts \<Rightarrow> rat" where
  "parts_val (ip, fp, e) =
     of_int (digits_val (ip @ fp)) * 10 powi ((case e of None \<Rightarrow> 0 | Some k \<Rightarrow> k) - int (length fp))"

declare takeWhile_eq_all_conv [simp del] dropWhile_eq_Nil_conv [simp del]

lemma takeWhile_digits:
  assumes "all_digits s" and "t = [] \<or> \<not> is_digit (hd t)"
  shows "takeWhile is_digit (s @ t) = s" and "dropWhile is_digit (s @ t) = t"
  using takeWhile_dropWhile_append [of is_digit s t] assms by (auto simp: all_digits_def)

lemma not_digit [simp]:
  "\<not> is_digit (CHR ''.'')" "\<not> is_digit (CHR ''e'')" "\<not> is_digit (CHR ''E'')"
  "\<not> is_digit (CHR ''I'')" "\<not> is_digit (CHR ''-'')" "\<not> is_digit (CHR ''+'')"
  by (simp_all add: is_digit_def)

lemma digit_not:
  assumes "is_digit c"
  shows "c \<noteq> CHR ''.''" "c \<noteq> CHR ''e''" "c \<noteq> CHR ''E''" "c \<noteq> CHR ''I''"
    "c \<noteq> CHR ''-''" "c \<noteq> CHR ''+''" "\<not> is_ws c"
  using assms by (auto simp: is_digit_def is_ws_def)

lemma parse_unsigned_spell:
  assumes "parts_ok ps"
  shows "parse_unsigned (spell ps) = Some (to_num (parts_val ps), [])"
proof -
  obtain ip fp e where ps: "ps = (ip, fp, e)" by (cases ps)
  have ok: "ip \<noteq> []" "all_digits ip" "all_digits fp" using assms ps by auto
  define ex where "ex = (case e of None \<Rightarrow> [] | Some k \<Rightarrow>
        CHR ''e'' # (if k < 0 then CHR ''-'' else CHR ''+'') # digs \<bar>k\<bar>)"
  define r1 where "r1 = (if fp = [] then [] else CHR ''.'' # fp) @ ex"
  have ex_hd: "ex = [] \<or> \<not> is_digit (hd ex)"
    and ex_dot: "ex = [] \<or> hd ex \<noteq> CHR ''.''"
    by (auto simp: ex_def split: option.splits)
  have r1_hd: "r1 = [] \<or> \<not> is_digit (hd r1)" using ex_hd by (auto simp: r1_def)
  have ex_parse: "parse_exp ex = (case e of None \<Rightarrow> 0 | Some k \<Rightarrow> k, [])"
  proof (cases e)
    case None
    then show ?thesis by (simp add: ex_def parse_exp_def)
  next
    case (Some k)
    define ks where "ks = digs \<bar>k\<bar>"
    have ks: "digits_val ks = \<bar>k\<bar>" "all_digits ks" "ks \<noteq> []"
      unfolding ks_def using digs_props [of "\<bar>k\<bar>"] by auto
    have tw: "takeWhile is_digit ks = ks" "dropWhile is_digit ks = []"
      using takeWhile_digits [of ks "[]"] ks by auto
    show ?thesis using Some tw ks 
      by (simp add: ex_def parse_exp_def Let_def ks_def [symmetric])
  qed
  have sp: "spell ps = ip @ r1" by (simp add: ps r1_def ex_def)
  have "take 8 (ip @ r1) \<noteq> ''Infinity''"
    using ok by (cases ip) (auto dest: digit_not)
  moreover have "takeWhile is_digit (ip @ r1) = ip" "dropWhile is_digit (ip @ r1) = r1"
    using takeWhile_digits [OF ok(2) r1_hd] by auto
  moreover have "takeWhile is_digit (fp @ ex) = fp" "dropWhile is_digit (fp @ ex) = ex"
    using takeWhile_digits [OF ok(3) ex_hd] by auto
  ultimately show ?thesis
    unfolding sp using ok ex_parse ex_dot
    by (auto simp: parse_unsigned_def Let_def r1_def ps)
qed

lemma spell_start:
  assumes "parts_ok ps"
  obtains c r where "spell ps = c # r" and "is_digit c"
  using assms by (cases ps; cases "fst ps") auto

lemma parse_parts:
  assumes "parts_ok ps"
  shows "parse_float_str (spell ps) = to_num (parts_val ps)"
    and "parse_float_str (CHR ''-'' # spell ps) = - to_num (parts_val ps)"
proof -
  obtain c r where c: "spell ps = c # r" "is_digit c" using assms by (rule spell_start)
  then show "parse_float_str (spell ps) = to_num (parts_val ps)"
    using parse_unsigned_spell [OF assms] digit_not [OF c(2)]
    by (simp add: parse_float_str_def parse_signed_def)
  have "\<not> is_ws (CHR ''-'')" by (simp add: is_ws_def)
  then show "parse_float_str (CHR ''-'' # spell ps) = - to_num (parts_val ps)"
    using parse_unsigned_spell [OF assms] by (simp add: parse_float_str_def parse_signed_def)
qed

lemma num_parts_ok:
  assumes "rnd64 x = x" and "0 < x"
  shows "parts_ok (num_parts x)" and "parts_val (num_parts x) = dec_val (dec_of x)"
proof -
  obtain s p where d: "dec_of x = (s, p)" by fastforce
  have s: "0 \<le> s" using dec_of_pos [OF assms] d by simp
  note ds = digs_props [OF s]
  have ne: "0 < length (digs s)" using ds by simp
  show "parts_ok (num_parts x)"
    using ds by (auto simp: num_parts_def d Let_def is_digit_def)
  have pred: "int (length (digs s) - Suc 0) = int (length (digs s)) - 1"
    using ne by (cases "digs s") simp_all
  show "parts_val (num_parts x) = dec_val (dec_of x)"
    using ds ne pred by (auto simp: num_parts_def d Let_def dec_val_def digits_val_append power_int_def
        digits_val_Cons digit_val_def min_def nat_diff_distrib)
qed

text \<open>The number toString wrote is the number parseFloat reads.\<close>

lemma num_to_string_roundtrip:
  assumes "is_num n"
  shows "parse_float_str (num_to_string n) = n"
proof (cases n)
  case NaN
  moreover have "parse_float_str ''NaN'' = NaN" by code_simp
  ultimately show ?thesis by simp
next
  case (Infty s)
  moreover have "parse_float_str ''Infinity'' = Infty False"
    and "parse_float_str ''-Infinity'' = Infty True" by code_simp+
  ultimately show ?thesis by simp
next
  case (Fin x)
  have pos: "parts_ok (num_parts z) \<and> to_num (parts_val (num_parts z)) = Fin z"
    if z: "rnd64 z = z" "0 < z" "\<bar>z\<bar> < 2 ^ 1024" for z
    using num_parts_ok [OF z(1,2)] dec_of_val [OF z(1,2)] z(3) by (simp add: to_num_def)
  consider "x = 0" | "0 < x" | "x < 0" by linarith
  then show ?thesis
  proof cases
    case 1
    moreover have "parse_float_str ''0'' = Fin 0" by code_simp
    ultimately show ?thesis using Fin by simp
  next
    case 2
    then show ?thesis using Fin assms pos [of x] parse_parts(1) [of "num_parts x"] by simp
  next
    case 3
    then have "rnd64 (- x) = - x" using Fin assms by (simp add: rnd64_neg)
    then show ?thesis
      using 3 Fin assms pos [of "- x"] parse_parts(2) [of "num_parts (- x)"] by simp
  qed
qed

section \<open>Shortest decimals and decimal grids\<close>

text \<open>A double that some multiple of \<open>10\<^sup>-\<^sup>d\<close> rounds to is spelled with at most \<open>d\<close> decimals.\<close>

lemma strip_zeros_exp: "p \<le> snd (strip_zeros s p)"
  by (induction s p rule: strip_zeros.induct) (subst strip_zeros.simps, auto)

lemma dec_search_exp:
  "dec_search x k n = Some (s, p) \<Longrightarrow> dec_cand x j \<noteq> None \<Longrightarrow> k \<le> j \<Longrightarrow> ilog 10 x + 1 - j \<le> p"
proof (induction n arbitrary: k)
  case (Suc n)
  show ?case
  proof (cases "dec_cand x k")
    case None
    then have "k \<noteq> j" using Suc.prems(2) by auto
    then show ?thesis using Suc None by auto
  next
    case (Some r)
    then have "p = ilog 10 x + 1 - k"
      using Suc.prems(1) by (auto simp: dec_cand_def Let_def split: if_splits)
    then show ?thesis using Suc.prems(3) by simp
  qed
qed simp

lemma dec_cand_grid:
  assumes "rnd64 (of_int K * 10 powi (ilog 10 y + 1 - k)) = y"
  shows "dec_cand y k \<noteq> None"
proof -
  define q where "q = (10 :: rat) powi (ilog 10 y + 1 - k)"
  define f where "f = \<lfloor>y / q\<rfloor>"
  have q: "0 < q" by (simp add: q_def)
  have "of_int f \<le> y / q" "y / q < of_int (f + 1)" unfolding f_def by linarith+
  then have f: "of_int f * q \<le> y" "y < of_int (f + 1) * q" using q by (simp_all add: field_simps)
  have y: "rnd64 y = y" using assms by (metis rnd64_idem)
  have "rnd64 (of_int f * q) = y \<or> rnd64 (of_int (f + 1) * q) = y"
  proof (cases "K \<le> f")
    case True
    then have "of_int K * q \<le> of_int f * q" using q by simp
    then have "y \<le> rnd64 (of_int f * q)" using rnd64_mono assms q_def by metis
    then show ?thesis using rnd64_mono [OF f(1)] y by simp
  next
    case False
    then have "of_int (f + 1) \<le> (of_int K :: rat)" by linarith
    then have "of_int (f + 1) * q \<le> of_int K * q" using q by (simp only: mult_right_mono)
    then have "rnd64 (of_int (f + 1) * q) \<le> y" using rnd64_mono assms q_def by metis
    moreover have "y \<le> rnd64 (of_int (f + 1) * q)" using rnd64_mono [of y] f(2) y by fastforce
    ultimately show ?thesis by simp
  qed
  then show ?thesis by (auto simp: dec_cand_def Let_def q_def [symmetric] f_def [symmetric])
qed

lemma tenth_normal:
  assumes "d \<le> 100"
  shows "2 powi (-1022) \<le> 9 * (10 :: rat) powi (- int d - 1)"
proof -
  have "(10 :: rat) powi (-101) \<le> 10 powi (- int d - 1)" using assms by (subst powi_le_iff) auto
  moreover have "(2 :: rat) powi (-1022) \<le> 9 * 10 powi (-101)"
    by (simp add: power_int_minus divide_simps)
  ultimately show ?thesis by linarith
qed

lemma dec_of_tenth:
  assumes d: "d \<le> 100" and y: "y = rnd64 (1 / 10 ^ d)" "y < 1 / 10 ^ d"
  shows "- int d \<le> snd (dec_of y)"
proof -
  define q where "q = (10 :: rat) powi (- int d - 1)"
  have t: "10 powi (- int d) = (1 :: rat) / 10 ^ d" by (simp add: power_int_minus divide_inverse)
  have q: "0 < q" "1 / 10 ^ d = 10 * q"
    unfolding q_def t [symmetric] by (simp_all add: power_int_diff del: power_int_minus)
  have n: "2 powi (-1022) \<le> 9 * q" using tenth_normal [OF d] by (simp add: q_def)
  have "\<bar>y - 10 * q\<bar> \<le> 10 * q / 2 ^ 53"
    using rnd64_rel_error [of "10 * q"] n q y by simp
  then have lo: "10 * q - 10 * q / 2 ^ 53 \<le> y" by linarith
  have "\<bar>rnd64 (9 * q) - 9 * q\<bar> \<le> 9 * q / 2 ^ 53"
    using rnd64_rel_error [of "9 * q"] n q by simp
  moreover have small: "9 * q / 2 ^ 53 \<le> q / 10" "10 * q / 2 ^ 53 \<le> q / 10" using q by simp_all
  ultimately have nine: "rnd64 (9 * q) < y" using lo q by linarith
  have y9: "9 * q < y" using lo small q by linarith
  have E: "ilog 10 y = - int d - 1"
  proof (rule ilog_unique)
    have "q \<le> y" using y9 q(1) by linarith
    then show "of_int 10 powi (- int d - 1) \<le> y" by (simp add: q_def)
    show "y < of_int 10 powi (- int d - 1 + 1)" using y by (simp add: power_int_minus divide_inverse)
  qed simp
  have f: "\<lfloor>y / q\<rfloor> = 9"
    using y9 y(2) q by (intro floor_unique) (simp_all add: field_simps)
  have yy: "rnd64 y = y" and y0: "0 < y" using y y9 q by auto
  have "dec_cand y 1 = Some (10, - int d - 1)"
  proof -
    have "rnd64 (9 * q) \<noteq> y" "rnd64 (10 * q) = y" using nine y(1) q(2) by auto
    then show ?thesis unfolding dec_cand_def E Let_def by (simp add: q_def [symmetric] f)
  qed
  moreover have "(17 :: nat) = Suc 16" by simp
  ultimately have "dec_search y 1 17 = Some (10, - int d - 1)" by (simp only: dec_search.simps option.case)
  then have "dec_of y = strip_zeros 10 (- int d - 1)" by (simp add: dec_of_def)
  also have "\<dots> = strip_zeros 1 (- int d)" by (subst strip_zeros.simps) simp
  finally show ?thesis using strip_zeros_exp [of "- int d" 1] by simp
qed

lemma dec_of_grid:
  assumes y: "rnd64 (of_int K / 10 ^ d) = y" "0 < y" and d: "d \<le> 100"
  shows "- int d \<le> snd (dec_of y)"
proof (cases "1 \<le> ilog 10 y + 1 + int d")
  case True
  have yy: "rnd64 y = y" using y(1) by (metis rnd64_idem)
  obtain s p where sp: "dec_search y 1 17 = Some (s, p)" "dec_of y = strip_zeros s p"
    using dec_of_search [OF yy y(2)] .
  have "of_int K * 10 powi (ilog 10 y + 1 - (ilog 10 y + 1 + int d)) = (of_int K / 10 ^ d :: rat)"
    by (simp add: power_int_minus divide_inverse)
  then have "dec_cand y (ilog 10 y + 1 + int d) \<noteq> None"
    using dec_cand_grid [of K y "ilog 10 y + 1 + int d"] y(1) by simp
  from dec_search_exp [OF sp(1) this True] have "- int d \<le> p" by simp
  then show ?thesis using sp(2) strip_zeros_exp [of p s] by simp
next
  case False
  have K: "1 \<le> K" using b64.pos_of_rnd_pos [of "of_int K / 10 ^ d"] y by (simp add: zero_less_divide_iff)
  then have "(1 :: rat) / 10 ^ d \<le> of_int K / 10 ^ d" by (simp add: divide_right_mono)
  then have lo: "rnd64 (1 / 10 ^ d) \<le> y" using y(1) rnd64_mono by blast
  have "y < 10 powi (ilog 10 y + 1)" using ilog_bounds(2) [of 10 y] y(2) by simp
  also have "\<dots> \<le> (10 :: rat) powi (- int d)" using False by (subst powi_le_iff) auto
  also have "\<dots> = 1 / 10 ^ d" by (simp add: power_int_minus divide_inverse)
  finally have hi: "y < 1 / 10 ^ d" .
  then have "y \<le> rnd64 (1 / 10 ^ d)" using rnd64_mono [of y "1 / 10 ^ d"] y(1) by force
  with lo have "y = rnd64 (1 / 10 ^ d)" by simp
  then show ?thesis using dec_of_tenth [OF d _ hi] by simp
qed

end
