(* ===== verification/RedisStore.thy ===== *)
theory RedisStore
  imports JsPrint
begin

text \<open>
  The Redis commands and scripts of \<^verbatim>\<open>cryptodex-spotapi/controllers/redis.controller.js\<close>.
  A script runs as one step on the server, so each is one function from the state to the state
  and a reply; the wrapper around it carries the checks the service does before it sends the
  script. The server itself is not part of the repository: the rounding of its floating
  increment and the trimming of its streams are the parameter \<open>service\<close>, whose laws are the
  locale \<open>redis_server\<close>.
\<close>

section \<open>Values\<close>

text \<open>
  The text of a hash field: a decimal spelling, of which only the value matters, or another
  text. The scripting language reads a decimal as the nearest double; of other texts it
  accepts the spellings of the infinities and of the undefined number.
\<close>

datatype rval = RDec rat | RText string

definition lower :: "string \<Rightarrow> string" where
  "lower s = map (\<lambda>c. if 65 \<le> (of_char c :: int) \<and> (of_char c :: int) \<le> 90
     then char_of ((of_char c :: int) + 32) else c) s"

fun lua_number :: "rval \<Rightarrow> jsnum option" where
  "lua_number (RDec q) = Some (to_num q)"
| "lua_number (RText s) =
     (let neg = (s \<noteq> [] \<and> hd s = CHR ''-''); t = lower (if neg then tl s else s)
      in if t = ''nan'' then Some NaN
         else if t = ''inf'' \<or> t = ''infinity'' then Some (Infty neg) else None)"

text \<open>How the service spells a number it sends, and reads a field back.\<close>

fun spelled :: "jsnum \<Rightarrow> rval" where
  "spelled (Fin x) =
     RDec (if x = 0 then 0 else if x < 0 then - dec_val (dec_of (- x)) else dec_val (dec_of x))"
| "spelled n = RText (num_to_string n)"

fun field_float :: "rval option \<Rightarrow> jsnum" where
  "field_float None = NaN"
| "field_float (Some (RDec q)) = to_num q"
| "field_float (Some (RText s)) = parse_float_str s"

fun negated :: "rval \<Rightarrow> rval" where
  "negated (RDec q) = RDec (- q)"
| "negated (RText s) = RText (CHR ''-'' # s)"

section \<open>The state of the store\<close>

record entry =
  entry_id :: nat
  delta :: rval
  before :: rval
  after :: rval
  reason :: string
  ref :: string

text \<open>
  Balance hashes by key; the ledger stream of each field, oldest entry first; string keys with
  their expiry (claims, freezes, locks); the hashes of value flights, token to deadline, with
  the expiry of the whole hash. \<open>online\<close> says whether commands reach the server.
\<close>

record redis =
  online :: bool
  clock :: int
  hashes :: "string \<Rightarrow> field \<Rightarrow> rval option"
  streams :: "field \<Rightarrow> entry list"
  next_id :: nat
  keys :: "string \<Rightarrow> (string \<times> int option) option"
  flights :: "string \<Rightarrow> ((string \<times> rval) list \<times> int option)"

record service =
  incr_round :: "rat \<Rightarrow> rat"
  trim_stream :: "entry list \<Rightarrow> entry list"

text \<open>The answers of a call: null, the freeze verdict, a value, or an exception.\<close>

datatype 'a reply = Refused | FROZEN | Done 'a | Raised

definition expired :: "int \<Rightarrow> int option \<Rightarrow> bool" where
  "expired t e = (case e of None \<Rightarrow> False | Some d \<Rightarrow> d < t)"

definition live_key :: "'a redis_scheme \<Rightarrow> string \<Rightarrow> string option" where
  "live_key st k = (case keys st k of
      None \<Rightarrow> None | Some (v, e) \<Rightarrow> if expired (clock st) e then None else Some v)"

definition put_hash :: "string \<Rightarrow> field \<Rightarrow> rval option \<Rightarrow> 'a redis_scheme \<Rightarrow> 'a redis_scheme" where
  "put_hash key f v st = st\<lparr>hashes := (hashes st)(key := (hashes st key)(f := v))\<rparr>"

text \<open>The increment fails on a field that is not a decimal; a missing field counts as zero.\<close>

definition HINCRBYFLOAT ::
    "service \<Rightarrow> string \<Rightarrow> field \<Rightarrow> rval \<Rightarrow> 'a redis_scheme \<Rightarrow> ('a redis_scheme \<times> rval) option" where
  "HINCRBYFLOAT svc key f amount st =
     (case (case hashes st key f of None \<Rightarrow> RDec 0 | Some v \<Rightarrow> v) of
        RDec q \<Rightarrow> (case amount of
            RDec a \<Rightarrow> let v = RDec (incr_round svc (q + a)) in Some (put_hash key f (Some v) st, v)
          | RText _ \<Rightarrow> None)
      | RText _ \<Rightarrow> None)"

definition XADD ::
    "service \<Rightarrow> field \<Rightarrow> rval \<Rightarrow> rval \<Rightarrow> rval \<Rightarrow> string \<Rightarrow> string \<Rightarrow> 'a redis_scheme \<Rightarrow> 'a redis_scheme \<times> nat" where
  "XADD svc f d b a why r st =
     (let n = next_id st;
          e = \<lparr>entry_id = n, delta = d, before = b, after = a, reason = why, ref = r\<rparr>
      in (st\<lparr>streams := (streams st)(f := trim_stream svc (streams st f @ [e])), next_id := n + 1\<rparr>, n))"

section \<open>The unlogged reservation\<close>

definition no_freeze :: string where
  "no_freeze = ''__no_freeze__''"

definition RESERVE_LUA ::
    "service \<Rightarrow> string \<Rightarrow> string \<Rightarrow> field \<Rightarrow> rval \<Rightarrow> 'a redis_scheme \<Rightarrow> 'a redis_scheme \<times> rval reply" where
  "RESERVE_LUA svc key freeze f arg st =
     (if live_key st freeze \<noteq> None then (st, FROZEN)
      else case lua_number arg of
        None \<Rightarrow> (st, Refused)
      | Some amt \<Rightarrow>
          if amt = NaN \<or> amt \<le> Fin 0 then (st, Refused)
          else case (case hashes st key f of None \<Rightarrow> Some (Fin 0) | Some cur \<Rightarrow> lua_number cur) of
            None \<Rightarrow> (st, Refused)
          | Some bal \<Rightarrow>
              if bal = NaN \<or> bal < amt then (st, Refused)
              else case HINCRBYFLOAT svc key f (negated arg) st of
                None \<Rightarrow> (st, Raised)
              | Some (st', v) \<Rightarrow> (st', Done v))"

definition hincrbyfloatIfEnough ::
    "service \<Rightarrow> string \<Rightarrow> field \<Rightarrow> jsval \<Rightarrow> string option \<Rightarrow> 'a redis_scheme \<Rightarrow> 'a redis_scheme \<times> rval reply" where
  "hincrbyfloatIfEnough svc key f amount freezeKey st =
     (let requested = to_number amount in
      if \<not> is_finite requested \<or> requested \<le> Fin 0 then (st, Refused)
      else if \<not> online st then (st, Raised)
      else RESERVE_LUA svc key (case freezeKey of None \<Rightarrow> no_freeze | Some k \<Rightarrow> k) f (spelled requested) st)"

section \<open>Claims and flights\<close>

definition CLAIM_ONCE_LUA :: "string \<Rightarrow> string \<Rightarrow> int \<Rightarrow> 'a redis_scheme \<Rightarrow> 'a redis_scheme \<times> bool" where
  "CLAIM_ONCE_LUA key token ttl st =
     (if live_key st key = None
      then (st\<lparr>keys := (keys st)(key := Some (token, Some (clock st + ttl)))\<rparr>, True)
      else (st, False))"

text \<open>Losing the connection answers that the claim is not held.\<close>

definition claimOnce :: "string \<Rightarrow> string \<Rightarrow> int \<Rightarrow> 'a redis_scheme \<Rightarrow> 'a redis_scheme \<times> bool" where
  "claimOnce key token ttlMs st =
     (if online st then CLAIM_ONCE_LUA key token (max 1 ttlMs) st else (st, False))"

definition RELEASE_CLAIM_LUA :: "string \<Rightarrow> string \<Rightarrow> 'a redis_scheme \<Rightarrow> 'a redis_scheme \<times> bool" where
  "RELEASE_CLAIM_LUA key token st =
     (if live_key st key = Some token then (st\<lparr>keys := (keys st)(key := None)\<rparr>, True) else (st, False))"

definition releaseClaim :: "string \<Rightarrow> string \<Rightarrow> 'a redis_scheme \<Rightarrow> 'a redis_scheme \<times> bool" where
  "releaseClaim key token st = (if online st then RELEASE_CLAIM_LUA key token st else (st, False))"

text \<open>A hash whose expiry has passed is gone: a registration starts it afresh.\<close>

definition live_hash :: "'a redis_scheme \<Rightarrow> string \<Rightarrow> (string \<times> rval) list" where
  "live_hash st k = (if expired (clock st) (snd (flights st k)) then [] else fst (flights st k))"

definition BEGIN_FLIGHT_LUA ::
    "string \<Rightarrow> string \<Rightarrow> string \<Rightarrow> rval \<Rightarrow> int \<Rightarrow> 'a redis_scheme \<Rightarrow> 'a redis_scheme \<times> unit reply" where
  "BEGIN_FLIGHT_LUA flightKey freezeKey token deadline ttl st =
     (if live_key st freezeKey \<noteq> None then (st, FROZEN)
      else (st\<lparr>flights := (flights st)
              (flightKey := (put token deadline (live_hash st flightKey), Some (clock st + ttl)))\<rparr>, Done ()))"

definition beginFlight ::
    "string \<Rightarrow> string \<Rightarrow> string \<Rightarrow> rval \<Rightarrow> int \<Rightarrow> 'a redis_scheme \<Rightarrow> 'a redis_scheme \<times> unit reply" where
  "beginFlight flightKey freezeKey token deadline ttlMs st =
     (if online st then BEGIN_FLIGHT_LUA flightKey freezeKey token deadline (max 1 ttlMs) st
      else (st, Raised))"

section \<open>Balance movements that write the ledger\<close>

definition LEDGER_CREDIT_LUA ::
    "service \<Rightarrow> string \<Rightarrow> field \<Rightarrow> rval \<Rightarrow> string \<Rightarrow> string \<Rightarrow> 'a redis_scheme \<Rightarrow>
     'a redis_scheme \<times> (rval \<times> nat) reply" where
  "LEDGER_CREDIT_LUA svc key f arg why r st = (case lua_number arg of
      None \<Rightarrow> (st, Refused)
    | Some amt \<Rightarrow>
        if amt = NaN \<or> amt \<le> Fin 0 then (st, Refused)
        else let bef = (case hashes st key f of None \<Rightarrow> RDec 0 | Some v \<Rightarrow> v) in
          case HINCRBYFLOAT svc key f arg st of
            None \<Rightarrow> (st, Raised)
          | Some (st1, aft) \<Rightarrow>
              let (st2, n) = XADD svc f arg bef aft why r st1 in (st2, Done (aft, n)))"

definition LEDGER_DEBIT_LUA ::
    "service \<Rightarrow> string \<Rightarrow> string \<Rightarrow> field \<Rightarrow> rval \<Rightarrow> string \<Rightarrow> string \<Rightarrow> 'a redis_scheme \<Rightarrow>
     'a redis_scheme \<times> (rval \<times> nat) reply" where
  "LEDGER_DEBIT_LUA svc key freeze f arg why r st =
     (if live_key st freeze \<noteq> None then (st, FROZEN)
      else case lua_number arg of
        None \<Rightarrow> (st, Refused)
      | Some amt \<Rightarrow>
          if amt = NaN \<or> amt \<le> Fin 0 then (st, Refused)
          else case (case hashes st key f of None \<Rightarrow> Some (Fin 0) | Some cur \<Rightarrow> lua_number cur) of
            None \<Rightarrow> (st, Refused)
          | Some bal \<Rightarrow>
              if bal = NaN \<or> bal < amt then (st, Refused)
              else let bef = (case hashes st key f of None \<Rightarrow> RDec 0 | Some v \<Rightarrow> v) in
                case HINCRBYFLOAT svc key f (negated arg) st of
                  None \<Rightarrow> (st, Raised)
                | Some (st1, aft) \<Rightarrow>
                    let (st2, n) = XADD svc f (negated arg) bef aft why r st1 in (st2, Done (aft, n)))"

text \<open>A change of zero answers the balance and writes nothing, so there is no entry to name.\<close>

definition LEDGER_APPLY_LUA ::
    "service \<Rightarrow> string \<Rightarrow> field \<Rightarrow> rval \<Rightarrow> string \<Rightarrow> string \<Rightarrow> 'a redis_scheme \<Rightarrow>
     'a redis_scheme \<times> (rval \<times> nat option) reply" where
  "LEDGER_APPLY_LUA svc key f arg why r st = (case lua_number arg of
      None \<Rightarrow> (st, Refused)
    | Some d \<Rightarrow>
        if d = NaN then (st, Refused)
        else let bef = (case hashes st key f of None \<Rightarrow> RDec 0 | Some v \<Rightarrow> v) in
          if d = Fin 0 then (st, Done (bef, None))
          else case HINCRBYFLOAT svc key f arg st of
            None \<Rightarrow> (st, Raised)
          | Some (st1, aft) \<Rightarrow>
              let (st2, n) = XADD svc f arg bef aft why r st1 in (st2, Done (aft, Some n)))"

text \<open>The scripting language spells a number with fourteen significant digits.\<close>

definition significant14 :: "rat \<Rightarrow> rat" where
  "significant14 x =
     (if x = 0 then 0
      else let q = 10 powi (ilog 10 \<bar>x\<bar> - 13) in of_int (round_even (x / q)) * q)"

fun lua_tostring :: "jsnum \<Rightarrow> rval" where
  "lua_tostring (Fin x) = RDec (significant14 x)"
| "lua_tostring (Infty s) = RText (if s then ''-inf'' else ''inf'')"
| "lua_tostring NaN = RText ''nan''"

definition LEDGER_SET_LUA ::
    "service \<Rightarrow> string \<Rightarrow> field \<Rightarrow> rval \<Rightarrow> string \<Rightarrow> string \<Rightarrow> 'a redis_scheme \<Rightarrow>
     'a redis_scheme \<times> (rval \<times> nat option) reply" where
  "LEDGER_SET_LUA svc key f arg why r st = (case lua_number arg of
      None \<Rightarrow> (st, Refused)
    | Some target \<Rightarrow>
        if target = NaN then (st, Refused)
        else let bef0 = (case hashes st key f of None \<Rightarrow> Some (Fin 0) | Some cur \<Rightarrow> lua_number cur);
                 bef = (case bef0 of None \<Rightarrow> Fin 0 | Some b \<Rightarrow> if b = NaN then Fin 0 else b);
                 d = target - bef;
                 st1 = put_hash key f (Some arg) st
             in if d = Fin 0 then (st1, Done (arg, None))
                else let (st2, n) = XADD svc f (lua_tostring d) (lua_tostring bef) arg why r st1
                     in (st2, Done (arg, Some n)))"

section \<open>The logged movements of the service\<close>

datatype direction = Credit | Debit

definition moveBalanceLogged ::
    "service \<Rightarrow> string \<Rightarrow> field \<Rightarrow> jsval \<Rightarrow> direction \<Rightarrow> string \<Rightarrow> string \<Rightarrow> string option \<Rightarrow>
     'a redis_scheme \<Rightarrow> 'a redis_scheme \<times> (rval \<times> nat) reply" where
  "moveBalanceLogged svc key f amount dir why r freezeKey st =
     (let requested = to_number amount in
      if \<not> is_finite requested \<or> requested \<le> Fin 0 then (st, Refused)
      else if \<not> online st then (st, Raised)
      else case dir of
        Debit \<Rightarrow> LEDGER_DEBIT_LUA svc key (case freezeKey of None \<Rightarrow> no_freeze | Some k \<Rightarrow> k) f
          (spelled requested) why r st
      | Credit \<Rightarrow> LEDGER_CREDIT_LUA svc key f (spelled requested) why r st)"

text \<open>The two below catch what the script raises and answer null.\<close>

fun caught :: "'s \<times> ('b \<times> 'c) reply \<Rightarrow> 's \<times> 'b reply" where
  "caught (st, Done (v, n)) = (st, Done v)"
| "caught (st, FROZEN) = (st, FROZEN)"
| "caught (st, Refused) = (st, Refused)"
| "caught (st, Raised) = (st, Refused)"

definition setBalanceLogged ::
    "service \<Rightarrow> string \<Rightarrow> field \<Rightarrow> jsval \<Rightarrow> string \<Rightarrow> string \<Rightarrow> 'a redis_scheme \<Rightarrow>
     'a redis_scheme \<times> rval reply" where
  "setBalanceLogged svc key f v why r st =
     (let target = to_number v in
      if \<not> is_finite target \<or> \<not> online st then (st, Refused)
      else caught (LEDGER_SET_LUA svc key f (spelled target) why r st))"

definition moveBalanceSigned ::
    "service \<Rightarrow> string \<Rightarrow> field \<Rightarrow> jsval \<Rightarrow> string \<Rightarrow> string \<Rightarrow> 'a redis_scheme \<Rightarrow>
     'a redis_scheme \<times> rval reply" where
  "moveBalanceSigned svc key f amount why r st =
     (let d = to_number amount in
      if \<not> is_finite d \<or> \<not> online st then (st, Refused)
      else caught (LEDGER_APPLY_LUA svc key f (spelled d) why r st))"

section \<open>Plain commands on balances and ledgers\<close>

definition hget :: "string \<Rightarrow> field \<Rightarrow> 'a redis_scheme \<Rightarrow> rval option reply" where
  "hget key f st = (if online st then Done (hashes st key f) else Raised)"

text \<open>A number is written as its JSON text, which spells the numbers that are not finite as null.\<close>

definition json_number :: "jsnum \<Rightarrow> rval" where
  "json_number n = (if is_finite n then spelled n else RText ''null'')"

definition hset :: "string \<Rightarrow> field \<Rightarrow> jsnum \<Rightarrow> 'a redis_scheme \<Rightarrow> 'a redis_scheme \<times> unit reply" where
  "hset key f v st =
     (if online st then (put_hash key f (Some (json_number v)) st, Done ()) else (st, Raised))"

text \<open>The unlogged increment swallows its errors and then answers nothing.\<close>

definition hincbyfloat ::
    "service \<Rightarrow> string \<Rightarrow> field \<Rightarrow> jsnum \<Rightarrow> 'a redis_scheme \<Rightarrow> 'a redis_scheme \<times> rval option" where
  "hincbyfloat svc key f v st =
     (if \<not> online st then (st, None)
      else case HINCRBYFLOAT svc key f (spelled v) st of
        None \<Rightarrow> (st, None) | Some (st', w) \<Rightarrow> (st', Some w))"

definition readLedger :: "field \<Rightarrow> 'a redis_scheme \<Rightarrow> entry list reply" where
  "readLedger f st = (if online st then Done (streams st f) else Raised)"

definition ledgerLength :: "field \<Rightarrow> 'a redis_scheme \<Rightarrow> nat reply" where
  "ledgerLength f st = (if online st then Done (length (streams st f)) else Raised)"

section \<open>A reference server\<close>

text \<open>
  The documented increment answers with seventeen decimals; a stream far below its bound is
  not trimmed. Any other server within the laws would do as well.
\<close>

definition dec17 :: "rat \<Rightarrow> rat" where
  "dec17 x = of_int (round_even (x * 10 ^ 17)) / 10 ^ 17"

definition reference_service :: service where
  "reference_service = \<lparr>incr_round = dec17, trim_stream = id\<rparr>"

text \<open>
  The contract with the server: its increment rounds monotonically, symmetrically and
  idempotently, and trimming drops entries from the old end only, never all of them.
\<close>

locale redis_server = rounding "incr_round svc" for svc :: service +
  assumes trim_suffix: "\<exists>dropped. es = dropped @ trim_stream svc es"
    and trim_newest: "es \<noteq> [] \<Longrightarrow> trim_stream svc es \<noteq> []"
begin

lemma trim_last: "es \<noteq> [] \<Longrightarrow> last (trim_stream svc es) = last es"
  using trim_suffix [of es] trim_newest [of es] by (metis last_appendR)

lemma trim_set: "set (trim_stream svc es) \<subseteq> set es"
  using trim_suffix [of es] by (metis Un_iff set_append subsetI)

end

lemma dec17_grid: "dec17 (of_int k / 10 ^ 17) = of_int k / 10 ^ 17"
  by (simp add: dec17_def)

interpretation ref: redis_server reference_service
proof
  fix x y :: rat
  assume "x \<le> y"
  then have "x * 10 ^ 17 \<le> y * 10 ^ 17" by simp
  from round_even_mono [OF this]
  show "incr_round reference_service x \<le> incr_round reference_service y"
    by (simp add: reference_service_def dec17_def divide_right_mono)
next
  fix x :: rat
  show "incr_round reference_service (- x) = - incr_round reference_service x"
    using round_even_neg [of "x * 10 ^ 17"] by (simp add: reference_service_def dec17_def)
  show "incr_round reference_service (incr_round reference_service x) = incr_round reference_service x"
    unfolding reference_service_def by (simp add: dec17_grid) (simp add: dec17_def)
qed (simp_all add: reference_service_def)

section \<open>What the commands change\<close>

lemma HINCRBYFLOAT_some:
  "HINCRBYFLOAT svc key f amount st = Some (st', v) \<longleftrightarrow>
     (\<exists>q a. (hashes st key f = Some (RDec q) \<or> hashes st key f = None \<and> q = 0) \<and> amount = RDec a \<and>
       v = RDec (incr_round svc (q + a)) \<and> st' = put_hash key f (Some v) st)"
  by (auto simp: HINCRBYFLOAT_def Let_def split: option.splits rval.splits)

lemma put_hash_sel [simp]:
  "hashes (put_hash key f v st) k g = (if k = key \<and> g = f then v else hashes st k g)"
  "streams (put_hash key f v st) = streams st" "next_id (put_hash key f v st) = next_id st"
  "keys (put_hash key f v st) = keys st" "flights (put_hash key f v st) = flights st"
  "online (put_hash key f v st) = online st" "clock (put_hash key f v st) = clock st"
  by (auto simp: put_hash_def)

lemma live_key_put_hash [simp]: "live_key (put_hash key f v st) k = live_key st k"
  by (simp add: live_key_def split: option.splits)

text \<open>A logged movement that is done: the field moved by the increment, one entry appended.\<close>

definition logged ::
    "service \<Rightarrow> string \<Rightarrow> field \<Rightarrow> rat \<Rightarrow> rat \<Rightarrow> string \<Rightarrow> string \<Rightarrow> 'a redis_scheme \<Rightarrow> 'a redis_scheme" where
  "logged svc key f q a why r st =
     fst (XADD svc f (RDec a) (RDec q) (RDec (incr_round svc (q + a))) why r
       (put_hash key f (Some (RDec (incr_round svc (q + a)))) st))"

definition holds :: "string \<Rightarrow> field \<Rightarrow> rat \<Rightarrow> 'a redis_scheme \<Rightarrow> bool" where
  "holds key f q st \<longleftrightarrow> (case hashes st key f of None \<Rightarrow> q = 0 | Some v \<Rightarrow> v = RDec q)"

text \<open>The decimal spelling of a positive finite number.\<close>

definition spelling :: "rat \<Rightarrow> rat" where
  "spelling x = (if x = 0 then 0 else if x < 0 then - dec_val (dec_of (- x)) else dec_val (dec_of x))"

lemma spelled_spelling: "spelled (Fin x) = RDec (spelling x)"
  by (simp add: spelling_def)

lemma spelling_rounds:
  assumes "is_num (Fin x)"
  shows "rnd64 (spelling x) = x"
proof -
  have "rnd64 (dec_val (dec_of z)) = z" if "rnd64 z = z" "0 < z" for z
    using dec_of_val that by simp
  from this [of x] this [of "- x"] show ?thesis
    using assms by (auto simp: spelling_def rnd64_neg not_less less_le)
qed

lemma lua_spelled: "is_num n \<Longrightarrow> is_finite n \<Longrightarrow> lua_number (spelled n) = Some n"
  using spelling_rounds by (cases n) (auto simp: spelled_spelling to_num_def simp del: spelled.simps(1))

lemma spelling_sign:
  assumes "is_num (Fin x)"
  shows "0 < x \<Longrightarrow> 0 < spelling x" and "x < 0 \<Longrightarrow> spelling x < 0"
proof -
  have r: "rnd64 (spelling x) = x" by (rule spelling_rounds [OF assms])
  show "0 < spelling x" if "0 < x" using b64.pos_of_rnd_pos [of "spelling x"] r that by simp
  show "spelling x < 0" if "x < 0"
    using b64.pos_of_rnd_pos [of "- spelling x"] r that by (simp add: rnd64_neg)
qed

lemma to_num_spelling: "is_num (Fin x) \<Longrightarrow> to_num (spelling x) = Fin x"
  using lua_spelled [of "Fin x"] by (simp add: spelled_spelling del: spelled.simps(1))

lemma not_less_to_num: "\<not> to_num q < Fin x \<longleftrightarrow> Fin x \<le> to_num q"
  by (cases "to_num q") (auto simp: less_jsnum_def)

lemma less_to_num: "to_num q < Fin x \<longleftrightarrow> \<not> Fin x \<le> to_num q"
  using not_less_to_num [of q x] by blast

lemmas script_simps = HINCRBYFLOAT_def XADD_def Let_def logged_def holds_def spelled_spelling

text \<open>Replies of the movements in terms of \<open>logged\<close>: done, or nothing happened.\<close>

lemma credit_cases:
  assumes "is_num (Fin x)"
    and "LEDGER_CREDIT_LUA svc key f (spelled (Fin x)) why r st = (st', rep)"
  shows "(\<exists>q. 0 < x \<and> holds key f q st \<and> st' = logged svc key f q (spelling x) why r st \<and>
       rep = Done (RDec (incr_round svc (q + spelling x)), next_id st)) \<or>
    st' = st \<and> (rep = Refused \<or> rep = Raised)"
  using assms(2)
  by (auto simp: to_num_spelling [OF assms(1)] LEDGER_CREDIT_LUA_def script_simps simp del: spelled.simps(1)
      split: option.splits if_splits rval.splits)

lemma apply_cases:
  assumes "is_num (Fin x)"
    and "LEDGER_APPLY_LUA svc key f (spelled (Fin x)) why r st = (st', rep)"
  shows "(\<exists>q. x \<noteq> 0 \<and> holds key f q st \<and> st' = logged svc key f q (spelling x) why r st \<and>
       rep = Done (RDec (incr_round svc (q + spelling x)), Some (next_id st))) \<or>
    st' = st \<and> (rep = Refused \<or> rep = Raised \<or> x = 0 \<and> (\<exists>v. rep = Done (v, None)))"
  using assms(2)
  by (auto simp: to_num_spelling [OF assms(1)] LEDGER_APPLY_LUA_def script_simps simp del: spelled.simps(1)
      split: option.splits if_splits rval.splits)

lemma debit_cases:
  assumes "is_num (Fin x)"
    and "LEDGER_DEBIT_LUA svc key freeze f (spelled (Fin x)) why r st = (st', rep)"
  shows "(\<exists>q. 0 < x \<and> Fin x \<le> to_num q \<and> holds key f q st \<and> live_key st freeze = None \<and>
       st' = logged svc key f q (- spelling x) why r st \<and>
       rep = Done (RDec (incr_round svc (q - spelling x)), next_id st)) \<or>
    st' = st \<and> (rep = Refused \<or> rep = Raised \<or> rep = FROZEN \<and> live_key st freeze \<noteq> None)"
  using assms(2)
  by (auto simp: to_num_spelling [OF assms(1)] LEDGER_DEBIT_LUA_def script_simps not_less_to_num simp del: spelled.simps(1)
      split: option.splits if_splits rval.splits)

lemma reserve_cases:
  assumes "is_num (Fin x)"
    and "RESERVE_LUA svc key freeze f (spelled (Fin x)) st = (st', rep)"
  shows "(\<exists>q. 0 < x \<and> Fin x \<le> to_num q \<and> holds key f q st \<and> live_key st freeze = None \<and>
       st' = put_hash key f (Some (RDec (incr_round svc (q - spelling x)))) st \<and>
       rep = Done (RDec (incr_round svc (q - spelling x)))) \<or>
    st' = st \<and> (rep = Refused \<or> rep = Raised \<or> rep = FROZEN \<and> live_key st freeze \<noteq> None)"
  using assms(2)
  by (auto simp: to_num_spelling [OF assms(1)] RESERVE_LUA_def script_simps not_less_to_num
      simp del: spelled.simps(1) split: option.splits if_splits rval.splits)

definition signed_amount :: "direction \<Rightarrow> rat \<Rightarrow> rat" where
  "signed_amount dir x = (if dir = Credit then spelling x else - spelling x)"

definition freeze_name :: "string option \<Rightarrow> string" where
  "freeze_name k = (case k of None \<Rightarrow> no_freeze | Some k \<Rightarrow> k)"

lemma moveBalanceLogged_cases:
  assumes "is_num (to_number amount)"
    and "moveBalanceLogged svc key f amount dir why r fk st = (st', rep)"
  shows "(\<exists>x q. to_number amount = Fin x \<and> 0 < x \<and> holds key f q st \<and>
       (dir = Debit \<longrightarrow> Fin x \<le> to_num q \<and> live_key st (freeze_name fk) = None) \<and>
       st' = logged svc key f q (signed_amount dir x) why r st \<and>
       rep = Done (RDec (incr_round svc (q + signed_amount dir x)), next_id st)) \<or>
    st' = st \<and> (\<forall>v. rep \<noteq> Done v)"
proof (cases "to_number amount")
  case (Fin x)
  show ?thesis
  proof (cases "Fin x \<le> Fin 0 \<or> \<not> online st")
    case True
    then show ?thesis using assms(2) Fin by (auto simp: moveBalanceLogged_def Let_def split: if_splits)
  next
    case False
    have num: "is_num (Fin x)" using assms(1) Fin by simp
    show ?thesis
    proof (cases dir)
      case Debit
      then show ?thesis
        using debit_cases [OF num, of svc key "freeze_name fk" f why r st st' rep] assms(2) Fin False
        by (auto simp: moveBalanceLogged_def Let_def signed_amount_def freeze_name_def
            simp del: spelled.simps(1))
    next
      case Credit
      then show ?thesis
        using credit_cases [OF num, of svc key f why r st st' rep] assms(2) Fin False
        by (auto simp: moveBalanceLogged_def Let_def signed_amount_def simp del: spelled.simps(1))
    qed
  qed
qed (use assms(2) in \<open>auto simp: moveBalanceLogged_def Let_def split: if_splits\<close>)

text \<open>And when they succeed.\<close>

lemma debit_done:
  assumes "is_num (Fin x)" "0 < x" "online st" "holds key f q st" "Fin x \<le> to_num q"
    and "live_key st (freeze_name fk) = None"
  shows "moveBalanceLogged svc key f (JNum (Fin x)) Debit why r fk st =
    (logged svc key f q (- spelling x) why r st, Done (RDec (incr_round svc (q - spelling x)), next_id st))"
  using assms
  by (auto simp: moveBalanceLogged_def LEDGER_DEBIT_LUA_def script_simps to_num_spelling less_to_num
      freeze_name_def simp del: spelled.simps(1) split: option.splits rval.splits)

lemma credit_done:
  assumes "is_num (Fin x)" "0 < x" "online st" "holds key f q st"
  shows "moveBalanceLogged svc key f (JNum (Fin x)) Credit why r fk st =
    (logged svc key f q (spelling x) why r st, Done (RDec (incr_round svc (q + spelling x)), next_id st))"
  using assms
  by (auto simp: moveBalanceLogged_def LEDGER_CREDIT_LUA_def script_simps to_num_spelling
      simp del: spelled.simps(1) split: option.splits rval.splits)

lemma shift_done:
  assumes "is_num (Fin x)" "x \<noteq> 0" "online st" "holds key f q st"
  shows "moveBalanceSigned svc key f (JNum (Fin x)) why r st =
    (logged svc key f q (spelling x) why r st, Done (RDec (incr_round svc (q + spelling x))))"
  using assms
  by (auto simp: moveBalanceSigned_def LEDGER_APPLY_LUA_def script_simps to_num_spelling
      simp del: spelled.simps(1) split: option.splits rval.splits)

lemma logged_sel [simp]:
  "hashes (logged svc key f q a why r st) =
     (hashes st)(key := (hashes st key)(f := Some (RDec (incr_round svc (q + a)))))"
  "streams (logged svc key f q a why r st) = (streams st)(f := trim_stream svc
     (streams st f @ [\<lparr>entry_id = next_id st, delta = RDec a, before = RDec q,
       after = RDec (incr_round svc (q + a)), reason = why, ref = r\<rparr>]))"
  "next_id (logged svc key f q a why r st) = Suc (next_id st)"
  "keys (logged svc key f q a why r st) = keys st" "flights (logged svc key f q a why r st) = flights st"
  "online (logged svc key f q a why r st) = online st" "clock (logged svc key f q a why r st) = clock st"
  by (auto simp: logged_def XADD_def Let_def put_hash_def)

section \<open>How far a checked debit can overdraw\<close>

text \<open>
  The check compares doubles, the increment subtracts decimals: two decimals that read as the
  same double can differ, by less than a part in 2 to the 52.
\<close>

lemma same_double_near:
  assumes "rnd64 q = rnd64 s" "q < s" and "2 powi (-1021) \<le> rnd64 s"
  shows "s - q \<le> s / 2 ^ 52"
proof -
  have "is_dbl (2 powi (-1022))" unfolding is_dbl_def by (intro exI [of _ 1] exI [of _ "-1022"]) simp
  then have d: "rnd64 (2 powi (-1022)) = 2 powi (-1022)" by (rule rnd64_fix)
  have half: "(2 :: rat) powi (-1022) < 2 powi (-1021)" by (subst powi_less_iff) auto
  have q: "2 powi (-1022) \<le> q"
  proof (rule ccontr)
    assume "\<not> 2 powi (-1022) \<le> q"
    then have "q \<le> 2 powi (-1022)" by simp
    from rnd64_mono [OF this] have "rnd64 q \<le> 2 powi (-1022)" by (simp only: d)
    then show False using assms half by linarith
  qed
  have q0: "0 < q" using q by (rule less_le_trans [rotated]) simp
  have "\<bar>rnd64 q - q\<bar> \<le> q / 2 ^ 53" using rnd64_rel_error [of q] q q0 by simp
  moreover have "\<bar>rnd64 s - s\<bar> \<le> s / 2 ^ 53"
    using rnd64_rel_error [of s] q q0 assms(2) by simp
  moreover have "q / 2 ^ 53 \<le> s / 2 ^ 53" using assms(2) by (simp add: divide_right_mono)
  moreover have "s / 2 ^ 53 + s / 2 ^ 53 = s / 2 ^ 52" by simp
  ultimately show ?thesis using assms(1) by linarith
qed

context redis_server
begin

lemma overdraft:
  assumes "is_num (Fin x)" and "Fin x \<le> to_num q" and "2 powi (-1021) \<le> x"
  shows "- incr_round svc (spelling x / 2 ^ 52) \<le> incr_round svc (q - spelling x)"
proof -
  have s: "rnd64 (spelling x) = x" by (rule spelling_rounds [OF assms(1)])
  have x0: "0 < x" using assms(3) by (rule less_le_trans [rotated]) simp
  have s0: "0 < spelling x" by (rule spelling_sign(1) [OF assms(1) x0])
  show ?thesis
  proof (cases "spelling x \<le> q")
    case True
    have "0 \<le> incr_round svc (q - spelling x)" using True by (rule sub_nonneg)
    moreover have "0 \<le> incr_round svc (spelling x / 2 ^ 52)" using s0 by (intro nonneg) simp
    ultimately show ?thesis by linarith
  next
    case False
    then have "rnd64 q \<le> x" using rnd64_mono [of q "spelling x"] s by simp
    moreover have "x \<le> rnd64 q"
      using assms(1,2) by (auto simp: to_num_def Let_def split: if_splits)
    ultimately have "rnd64 q = rnd64 (spelling x)" using s by simp
    then have "spelling x - q \<le> spelling x / 2 ^ 52"
      using same_double_near [of q "spelling x"] False s assms(3) by simp
    then have "- (spelling x / 2 ^ 52) \<le> q - spelling x" by linarith
    from mono [OF this] show ?thesis by (simp only: odd)
  qed
qed

end

section \<open>Properties\<close>

definition blank_store :: redis where
  "blank_store = \<lparr>online = True, clock = 0, hashes = \<lambda>_ _. None, streams = \<lambda>_. [], next_id = 1,
     keys = \<lambda>_. None, flights = \<lambda>_. ([], None)\<rparr>"

definition with_balance :: "string \<Rightarrow> field \<Rightarrow> rat \<Rightarrow> redis \<Rightarrow> redis" where
  "with_balance key f q st = put_hash key f (Some (RDec q)) st"

text \<open>While a freeze key is live, neither the logged debit nor the unlogged reservation that
  names it changes anything in the store, and neither reports a new balance.\<close>

theorem frozen_debit_moves_nothing:
  assumes "live_key st k \<noteq> None"
  shows "fst (moveBalanceLogged svc key f amount Debit why r (Some k) st) = st \<and>
    fst (hincrbyfloatIfEnough svc key f amount (Some k) st) = st \<and>
    (\<forall>v. snd (moveBalanceLogged svc key f amount Debit why r (Some k) st) \<noteq> Done v) \<and>
    (\<forall>v. snd (hincrbyfloatIfEnough svc key f amount (Some k) st) \<noteq> Done v)"
  using assms
  by (simp add: moveBalanceLogged_def hincrbyfloatIfEnough_def LEDGER_DEBIT_LUA_def RESERVE_LUA_def Let_def)

theorem frozen_debit_moves_nothing_witness:
  "fst (moveBalanceLogged reference_service ''b'' (''u'', ''c'') (JNum (Fin 5)) Debit [] [] (Some ''k'')
     (blank_store\<lparr>keys := [''k'' \<mapsto> (''t'', Some 9)]\<rparr>)) = blank_store\<lparr>keys := [''k'' \<mapsto> (''t'', Some 9)]\<rparr>"
  using frozen_debit_moves_nothing [of "blank_store\<lparr>keys := [''k'' \<mapsto> (''t'', Some 9)]\<rparr>" "''k''"
      reference_service "''b''" "(''u'', ''c'')" "JNum (Fin 5)" "[]" "[]"]
  by (simp add: live_key_def expired_def blank_store_def)

text \<open>C1: A logged debit that reports a balance had a balance that reads at least as the amount,
  found no freeze, and left a balance at most a part in 2 to the 52 of the amount below zero.\<close>

theorem debit_overdraft_bounded:
  assumes "redis_server svc" and "is_num (Fin x)" and "2 powi (-1021) \<le> x"
    and "moveBalanceLogged svc key f (JNum (Fin x)) Debit why r fk st = (st', Done v)"
  shows "\<exists>q b. holds key f q st \<and> Fin x \<le> to_num q \<and> live_key st (freeze_name fk) = None \<and>
    hashes st' key f = Some (RDec b) \<and> - incr_round svc (spelling x / 2 ^ 52) \<le> b"
proof -
  from moveBalanceLogged_cases [OF _ assms(4)] assms(2)
  obtain q where q: "holds key f q st" "Fin x \<le> to_num q" "live_key st (freeze_name fk) = None"
    "st' = logged svc key f q (- spelling x) why r st"
    by (auto simp: signed_amount_def)
  have "- incr_round svc (spelling x / 2 ^ 52) \<le> incr_round svc (q - spelling x)"
    by (rule redis_server.overdraft [OF assms(1,2) q(2) assms(3)])
  then show ?thesis using q by auto
qed

lemma spelling_small: "spelling 2 = 2" "spelling (rnd64 (3 / 10)) = 3 / 10"
  by code_simp+

theorem debit_overdraft_bounded_witness:
  "\<exists>q b. holds ''b'' (''u'', ''c'') q (with_balance ''b'' (''u'', ''c'') 5 blank_store) \<and>
     Fin 2 \<le> to_num q \<and>
     live_key (with_balance ''b'' (''u'', ''c'') 5 blank_store) (freeze_name None) = None \<and>
     hashes (logged reference_service ''b'' (''u'', ''c'') 5 (- spelling 2) [] []
       (with_balance ''b'' (''u'', ''c'') 5 blank_store)) ''b'' (''u'', ''c'') = Some (RDec b) \<and>
     - incr_round reference_service (spelling 2 / 2 ^ 52) \<le> b"
proof (rule debit_overdraft_bounded [OF ref.redis_server_axioms])
  have x: "is_num (Fin 2)" "Fin 2 \<le> to_num 5" by code_simp+
  show "is_num (Fin 2)" by (rule x)
  show "moveBalanceLogged reference_service ''b'' (''u'', ''c'') (JNum (Fin 2)) Debit [] [] None
       (with_balance ''b'' (''u'', ''c'') 5 blank_store) =
     (logged reference_service ''b'' (''u'', ''c'') 5 (- spelling 2) [] []
       (with_balance ''b'' (''u'', ''c'') 5 blank_store),
      Done (RDec (incr_round reference_service (5 - spelling 2)), 1))"
    using debit_done [OF x(1) _ _ _ x(2), of "with_balance ''b'' (''u'', ''c'') 5 blank_store"
        "''b''" "(''u'', ''c'')" None reference_service "[]" "[]"]
    by (simp add: with_balance_def blank_store_def holds_def live_key_def)
  show "(2 :: rat) powi -1021 \<le> 2" using powi_le_iff [of "2 :: rat" "-1021" 1] by simp
qed

text \<open>The bound is not zero: a stored balance of 0.29999999999999999 covers a debit of 0.3
  and is left at minus ten to the minus seventeen.\<close>

theorem debit_goes_negative:
  "hashes (fst (moveBalanceLogged reference_service ''b'' (''u'', ''c'') (JNum (to_num (3 / 10))) Debit [] [] None
     (with_balance ''b'' (''u'', ''c'') (29999999999999999 / 10 ^ 17) blank_store))) ''b'' (''u'', ''c'') =
   Some (RDec (- 1 / 10 ^ 17))"
proof -
  have x: "to_num (3 / 10) = Fin (rnd64 (3 / 10))" "is_num (Fin (rnd64 (3 / 10)))" "0 < rnd64 (3 / 10)"
    "Fin (rnd64 (3 / 10)) \<le> to_num (29999999999999999 / 10 ^ 17)"
    by code_simp+
  have b: "incr_round reference_service (29999999999999999 / 10 ^ 17 - 3 / 10) = - 1 / 10 ^ 17"
    by code_simp
  show ?thesis
    unfolding x(1)
    using debit_done [OF x(2,3) _ _ x(4), of "with_balance ''b'' (''u'', ''c'') (29999999999999999 / 10 ^ 17) blank_store"
        "''b''" "(''u'', ''c'')" None reference_service "[]" "[]"] b
    by (simp add: with_balance_def blank_store_def holds_def live_key_def spelling_small(2))
qed

end
