(* ===== verification/Ledger.thy ===== *)
theory Ledger
  imports RedisStore
begin

text \<open>
  The append-only balance ledger: replaying, reconciling and rebuilding a balance
  (\<^verbatim>\<open>cryptodex-spotapi/lib/ledger.js\<close>) and the callers that move one account
  (\<^verbatim>\<open>controllers/paperLedger.js\<close>). The lemmas show that logged movements keep each stream a
  chain that ends at the live balance, and how far a replay in doubles can drift from it.
\<close>

section \<open>Replay and reconciliation\<close>

record replayed =
  replay_balance :: jsnum
  opening_balance :: jsnum
  entries :: nat
  firstId :: "nat option"
  lastId :: "nat option"

definition finite_or_zero :: "jsnum \<Rightarrow> jsnum" where
  "finite_or_zero n = (if is_finite n then n else Fin 0)"

definition replay_step :: "jsnum \<Rightarrow> entry \<Rightarrow> jsnum" where
  "replay_step balance e =
     (let d = field_float (Some (delta e)) in if is_finite d then balance + d else balance)"

definition replay_entries :: "entry list \<Rightarrow> replayed" where
  "replay_entries es =
     (if es = []
      then \<lparr>replay_balance = Fin 0, opening_balance = Fin 0, entries = 0, firstId = None, lastId = None\<rparr>
      else let op = finite_or_zero (field_float (Some (before (hd es))))
           in \<lparr>replay_balance = foldl replay_step op es, opening_balance = op, entries = length es,
               firstId = Some (entry_id (hd es)), lastId = Some (entry_id (last es))\<rparr>)"

definition replayBalance :: "field \<Rightarrow> 'a redis_scheme \<Rightarrow> replayed reply" where
  "replayBalance f st = (case readLedger f st of
      Done es \<Rightarrow> Done (replay_entries es) | _ \<Rightarrow> Raised)"

text \<open>The tolerance is configured; its default is the double nearest to ten to the minus eight.\<close>

definition RECONCILE_TOLERANCE :: jsnum where
  "RECONCILE_TOLERANCE = to_num (1 / 10 ^ 8)"

datatype reconciliation =
    NoEntries jsnum
  | Compared (ok: bool) (live: jsnum) (replayed: jsnum) (drift: jsnum) nat "nat option"

definition reconcile :: "jsnum \<Rightarrow> string \<Rightarrow> field \<Rightarrow> 'a redis_scheme \<Rightarrow> reconciliation reply" where
  "reconcile tolerance key f st = (case hget key f st of
      Done v \<Rightarrow> (case replayBalance f st of
        Done r \<Rightarrow>
          if entries r = 0 then Done (NoEntries (field_float v))
          else let liveNum = finite_or_zero (field_float v);
                   d = liveNum - replay_balance r
               in Done (Compared (abs d \<le> tolerance) liveNum (replay_balance r) d (entries r) (lastId r))
      | _ \<Rightarrow> Raised)
    | _ \<Rightarrow> Raised)"

datatype rebuild = NotRebuilt string | Rebuilt jsnum nat

text \<open>The rebuild is refused unless the caller states that the ledger covers the whole history.\<close>

definition rebuildBalance ::
    "string \<Rightarrow> bool \<Rightarrow> bool \<Rightarrow> field \<Rightarrow> 'a redis_scheme \<Rightarrow> 'a redis_scheme \<times> rebuild reply" where
  "rebuildBalance key has_hset coverageIsComplete f st =
     (if \<not> coverageIsComplete then (st, Done (NotRebuilt ''rebuild_not_requested''))
      else case ledgerLength f st of
        Done entry_count \<Rightarrow>
          if entry_count = 0 then (st, Done (NotRebuilt ''no_ledger_entries''))
          else (case replayBalance f st of
            Done r \<Rightarrow>
              if has_hset
              then (case hset key f (replay_balance r) st of
                  (st', Done _) \<Rightarrow> (st', Done (Rebuilt (replay_balance r) entry_count))
                | (st', _) \<Rightarrow> (st', Raised))
              else (st, Done (Rebuilt (replay_balance r) entry_count))
          | _ \<Rightarrow> (st, Raised))
      | _ \<Rightarrow> (st, Raised))"

section \<open>Moving one account\<close>

text \<open>
  An account names the field its balance is served from and the mirrors of it. The record of
  the slower wallet service is updated by a message whose failure is only reported, so the
  messages sent are part of the answer and nothing depends on their fate.
\<close>

record account =
  userIdStr :: user_id
  account_fields :: "field list"

type_synonym asset_update = "user_id \<times> currency_id \<times> string"

definition SPOT_BALANCE_KEY :: string where
  "SPOT_BALANCE_KEY = ''walletbalance_spot''"

definition resolveAccount :: "user_id \<Rightarrow> currency_id \<Rightarrow> account" where
  "resolveAccount userId currency = \<lparr>userIdStr = userId, account_fields = [(userId, currency)]\<rparr>"

definition readSpotBalance :: "account \<Rightarrow> 'a redis_scheme \<Rightarrow> jsnum reply" where
  "readSpotBalance acc st = (case hget SPOT_BALANCE_KEY (hd (account_fields acc)) st of
      Done None \<Rightarrow> Done (Fin 0) | Done v \<Rightarrow> Done (field_float v) | _ \<Rightarrow> Raised)"

definition syncSlowLedgers :: "account \<Rightarrow> jsnum \<Rightarrow> asset_update list" where
  "syncSlowLedgers acc newBalance =
     [(userIdStr acc, snd (hd (account_fields acc)), num_to_string newBalance)]"

fun set_fields ::
    "service \<Rightarrow> string \<Rightarrow> field list \<Rightarrow> jsnum \<Rightarrow> user_id \<Rightarrow> 'a redis_scheme \<Rightarrow> 'a redis_scheme" where
  "set_fields svc why [] v r st = st"
| "set_fields svc why (f # fs) v r st =
     set_fields svc why fs v r (fst (setBalanceLogged svc SPOT_BALANCE_KEY f (JNum v) why r st))"

definition adjustSpotBalance ::
    "service \<Rightarrow> account \<Rightarrow> jsval \<Rightarrow> string \<Rightarrow> string \<Rightarrow> 'a redis_scheme \<Rightarrow>
     'a redis_scheme \<times> asset_update list \<times> jsnum reply" where
  "adjustSpotBalance svc acc amount label r st =
     (let d = to_number amount in
      case moveBalanceLogged svc SPOT_BALANCE_KEY (hd (account_fields acc)) (JNum (abs d))
          (if d < Fin 0 then Debit else Credit) label r None st of
        (st1, Done (balance, _)) \<Rightarrow>
          let newBalance = field_float (Some balance);
              st2 = set_fields svc ''mirror_resync'' (tl (account_fields acc)) newBalance (userIdStr acc) st1
          in (st2, syncSlowLedgers acc newBalance, Done newBalance)
      | (st1, _) \<Rightarrow> (st1, [], Raised))"

definition setSpotBalance ::
    "service \<Rightarrow> account \<Rightarrow> jsnum \<Rightarrow> 'a redis_scheme \<Rightarrow> 'a redis_scheme \<times> asset_update list \<times> jsnum" where
  "setSpotBalance svc acc newBalance st =
     (set_fields svc ''faucet_reset'' (account_fields acc) newBalance (userIdStr acc) st,
      syncSlowLedgers acc newBalance, newBalance)"

section \<open>The chain of a ledger\<close>

definition follows :: "entry \<Rightarrow> entry \<Rightarrow> bool" where
  "follows e e' \<longleftrightarrow> before e' = after e \<and> entry_id e < entry_id e'"

definition entry_ok :: "service \<Rightarrow> entry \<Rightarrow> bool" where
  "entry_ok svc e \<longleftrightarrow>
     (case (before e, delta e, after e) of
        (RDec q, RDec a, RDec b) \<Rightarrow> b = incr_round svc (q + a) | _ \<Rightarrow> False)"

text \<open>
  Every entry accounts for its own step, follows the one before it, and the last one ends at
  the balance that is live.
\<close>

definition chained :: "service \<Rightarrow> string \<Rightarrow> field \<Rightarrow> 'a redis_scheme \<Rightarrow> bool" where
  "chained svc key f st \<longleftrightarrow>
     (let es = streams st f in
      list_all (entry_ok svc) es \<and> successively follows es \<and>
      (es \<noteq> [] \<longrightarrow> hashes st key f = Some (after (last es)) \<and> entry_id (last es) < next_id st))"

text \<open>The relative movements of balances; the absolute write is not one of them.\<close>

datatype movement =
    Move field jsval direction string string "string option"
  | Shift field jsval string string

fun run_movement :: "service \<Rightarrow> string \<Rightarrow> movement \<Rightarrow> 'a redis_scheme \<Rightarrow> 'a redis_scheme" where
  "run_movement svc key (Move f amount dir why r fk) st =
     fst (moveBalanceLogged svc key f amount dir why r fk st)"
| "run_movement svc key (Shift f amount why r) st =
     fst (moveBalanceSigned svc key f amount why r st)"

fun movement_ok :: "movement \<Rightarrow> bool" where
  "movement_ok (Move f amount dir why r fk) \<longleftrightarrow> is_num (to_number amount)"
| "movement_ok (Shift f amount why r) \<longleftrightarrow> is_num (to_number amount)"

lemma moveBalanceSigned_cases:
  assumes "is_num (to_number amount)"
    and "moveBalanceSigned svc key f amount why r st = (st', rep)"
  shows "(\<exists>x q. to_number amount = Fin x \<and> x \<noteq> 0 \<and> holds key f q st \<and>
       st' = logged svc key f q (spelling x) why r st \<and>
       rep = Done (RDec (incr_round svc (q + spelling x)))) \<or>
    st' = st \<and> (rep = Refused \<or> (\<exists>v. rep = Done v) \<and> to_number amount = Fin 0)"
proof (cases "to_number amount")
  case (Fin x)
  have num: "is_num (Fin x)" using assms(1) Fin by simp
  show ?thesis
  proof (cases "online st")
    case True
    obtain st1 rep1 where l: "LEDGER_APPLY_LUA svc key f (spelled (Fin x)) why r st = (st1, rep1)"
      by fastforce
    have c: "caught (st1, rep1) = (st', rep)"
      using assms(2) Fin True l by (simp add: moveBalanceSigned_def Let_def del: spelled.simps(1))
    show ?thesis using apply_cases [OF num l] c Fin by (cases rep1) auto
  next
    case False
    then show ?thesis using assms(2) Fin by (simp add: moveBalanceSigned_def Let_def)
  qed
qed (use assms(2) in \<open>auto simp: moveBalanceSigned_def Let_def\<close>)

text \<open>What one logged step does to a chain.\<close>

context redis_server
begin

lemma successively_suffix: "successively P (xs @ ys) \<Longrightarrow> successively P ys"
  by (simp add: successively_append_iff)

lemma chained_logged:
  assumes c: "chained svc key f st" and h: "holds key g q st"
  shows "chained svc key f (logged svc key g q a why r st)"
proof (cases "f = g")
  case False
  then show ?thesis using c by (simp add: chained_def Let_def less_SucI)
next
  case True
  define e where "e = \<lparr>entry_id = next_id st, delta = RDec a, before = RDec q,
    after = RDec (incr_round svc (q + a)), reason = why, ref = r\<rparr>"
  define es where "es = streams st f @ [e]"
  obtain old where old: "es = old @ trim_stream svc es" using trim_suffix [of es] by blast
  have ne: "es \<noteq> []" "trim_stream svc es \<noteq> []" using trim_newest [of es] by (auto simp: es_def)
  have link: "streams st f = [] \<or> follows (last (streams st f)) e"
    using c h True by (auto simp: chained_def Let_def follows_def e_def holds_def)
  have "list_all (entry_ok svc) es" using c by (simp add: chained_def Let_def es_def entry_ok_def e_def)
  then have 1: "list_all (entry_ok svc) (trim_stream svc es)" using old by (metis list_all_append)
  have "successively follows es"
    using c link by (cases "streams st f = []")
      (auto simp: chained_def Let_def es_def successively_append_iff)
  then have 2: "successively follows (trim_stream svc es)" using old successively_suffix by metis
  have 3: "last (trim_stream svc es) = e" using trim_last [OF ne(1)] by (simp add: es_def)
  show ?thesis
    unfolding chained_def Let_def using 1 2 3 ne True
    by (simp add: es_def e_def)
qed

lemma chained_movement:
  assumes "chained svc key f st" and "movement_ok m"
  shows "chained svc key f (run_movement svc key m st)"
proof (cases m)
  case (Move g amount dir why r fk)
  obtain st' rep where m: "moveBalanceLogged svc key g amount dir why r fk st = (st', rep)" by fastforce
  show ?thesis
    using moveBalanceLogged_cases [OF _ m] assms
    by (auto simp: Move m intro: chained_logged [OF assms(1)])
next
  case (Shift g amount why r)
  obtain st' rep where m: "moveBalanceSigned svc key g amount why r st = (st', rep)" by fastforce
  show ?thesis
    using moveBalanceSigned_cases [OF _ m] assms
    by (auto simp: Shift m intro: chained_logged [OF assms(1)])
qed

lemma chained_movements:
  "chained svc key f st \<Longrightarrow> list_all movement_ok ms \<Longrightarrow>
   chained svc key f (foldl (\<lambda>s m. run_movement svc key m s) st ms)"
  by (induction ms arbitrary: st) (auto intro: chained_movement)

end

section \<open>How far a replay in doubles drifts\<close>

text \<open>The value an entry list accounts for, in exact arithmetic.\<close>

fun exact_delta :: "entry \<Rightarrow> rat" where
  "exact_delta e = (case delta e of RDec a \<Rightarrow> a | RText _ \<Rightarrow> 0)"

text \<open>Entries whose steps lost nothing to the increment's rounding, from a balance on.\<close>

fun exact_from :: "rat \<Rightarrow> entry list \<Rightarrow> bool" where
  "exact_from q [] = True"
| "exact_from q (e # es) \<longleftrightarrow>
     before e = RDec q \<and> (\<exists>a. delta e = RDec a \<and> after e = RDec (q + a) \<and> exact_from (q + a) es)"

fun bounded_from :: "rat \<Rightarrow> rat \<Rightarrow> entry list \<Rightarrow> bool" where
  "bounded_from M q [] \<longleftrightarrow> \<bar>q\<bar> \<le> M"
| "bounded_from M q (e # es) \<longleftrightarrow> \<bar>q\<bar> \<le> M \<and> bounded_from M (q + exact_delta e) es"

lemma rnd64_abs: "\<bar>rnd64 x\<bar> = rnd64 \<bar>x\<bar>"
  using rnd64_nonneg [of x] rnd64_nonneg [of "- x"] by (cases "0 \<le> x") (auto simp: rnd64_neg abs_if)

lemma rnd64_abs_error:
  assumes "\<bar>x\<bar> \<le> 2 ^ k"
  shows "\<bar>rnd64 x - x\<bar> \<le> 2 powi (int k - 53)"
proof (cases "\<bar>x\<bar> < 2 ^ k")
  case True
  show ?thesis
  proof (cases "x = 0")
    case False
    then have x0: "0 < \<bar>x\<bar>" by simp
    have "(2 :: rat) powi ilog 2 \<bar>x\<bar> < 2 powi int k"
      using ilog_bounds(1) [of 2 "\<bar>x\<bar>"] x0 True by simp
    then have "ilog 2 \<bar>x\<bar> < int k"
      using powi_less_iff [of "2 :: rat" "ilog 2 \<bar>x\<bar>" "int k"] by simp
    then have "ulp_exp x - 1 \<le> int k - 53" by (simp add: ulp_exp_def)
    then have "(2 :: rat) powi (ulp_exp x - 1) \<le> 2 powi (int k - 53)" by (subst powi_le_iff) auto
    then show ?thesis using rnd64_error [of x] by linarith
  qed simp
next
  case False
  with assms have "\<bar>x\<bar> = 2 ^ k" by simp
  moreover have "is_dbl (2 ^ k)" unfolding is_dbl_def by (intro exI [of _ 1] exI [of _ "int k"]) simp
  ultimately have "rnd64 x = x"
    using rnd64_fix [of "2 ^ k"] by (auto simp: abs_if rnd64_neg split: if_splits dest: minus_equation_iff [THEN iffD1])
  then show ?thesis by simp
qed

text \<open>One step of the replay adds at most two roundings to the drift.\<close>

lemma replay_step_drift:
  assumes e: "delta e = RDec a" and t: "\<bar>t - q\<bar> \<le> of_nat n * 2 powi (int j - 51)" "n < 2 ^ 50"
    and q: "\<bar>q\<bar> \<le> 2 ^ j" "\<bar>q + a\<bar> \<le> 2 ^ j" and j: "j < 1000"
  obtains t' where "replay_step (Fin t) e = Fin t'"
    and "\<bar>t' - (q + a)\<bar> \<le> of_nat (Suc n) * 2 powi (int j - 51)"
proof -
  define u where "u = (2 :: rat) powi (int j - 51)"
  have t1: "\<bar>t - q\<bar> \<le> of_nat n * u" using t(1) by (simp only: u_def)
  have u: "2 powi (int (Suc j) - 53) = u / 2" "u * 2 ^ 51 = 2 ^ j" "0 < u"
    unfolding u_def by (simp_all add: power_int_diff)
  have "\<bar>a\<bar> \<le> 2 ^ Suc j" using q by (simp add: abs_le_iff)
  then have ra: "\<bar>rnd64 a - a\<bar> \<le> u / 2" using rnd64_abs_error [of a "Suc j"] u(1) by simp
  have "(of_nat n :: rat) \<le> 2 ^ 50" using t(2) by (metis less_imp_le of_nat_le_iff of_nat_numeral of_nat_power)
  then have "of_nat n * u \<le> 2 ^ 50 * u" using u(3) by simp
  then have nu: "of_nat n * u \<le> 2 ^ j / 2" using u(2) by simp
  have uj: "u \<le> 2 ^ j / 2" using u(3) unfolding u(2) [symmetric] by simp
  have s: "\<bar>t + rnd64 a\<bar> \<le> 2 ^ Suc j"
    using t1 ra q(2) nu uj unfolding power_Suc by linarith
  then have rs: "\<bar>rnd64 (t + rnd64 a) - (t + rnd64 a)\<bar> \<le> u / 2"
    using rnd64_abs_error [of "t + rnd64 a" "Suc j"] u(1) by simp
  have big: "(2 :: rat) ^ Suc j < 2 ^ 1023" using j by (intro power_strict_increasing) auto
  have B: "(2 :: rat) ^ 1023 + 2 ^ 1023 \<le> 2 ^ 1024" by simp
  have fa: "to_num a = Fin (rnd64 a)"
  proof -
    have "\<bar>rnd64 a\<bar> < 2 ^ 1024" using \<open>\<bar>a\<bar> \<le> 2 ^ Suc j\<close> ra uj big B unfolding power_Suc by linarith
    then show ?thesis by (simp add: to_num_Fin)
  qed
  have fs: "to_num (t + rnd64 a) = Fin (rnd64 (t + rnd64 a))"
  proof -
    have "\<bar>rnd64 (t + rnd64 a)\<bar> < 2 ^ 1024" using s rs uj big B unfolding power_Suc by linarith
    then show ?thesis by (simp add: to_num_Fin)
  qed
  show thesis
  proof (rule that)
    show "replay_step (Fin t) e = Fin (rnd64 (t + rnd64 a))"
      using fa fs by (simp add: replay_step_def e)
    show "\<bar>rnd64 (t + rnd64 a) - (q + a)\<bar> \<le> of_nat (Suc n) * 2 powi (int j - 51)"
    proof -
      have "(of_nat (Suc n) :: rat) * u = of_nat n * u + u" by (simp add: algebra_simps)
      then show ?thesis using t1 ra rs unfolding u_def [symmetric] by linarith
    qed
  qed
qed

lemma replay_drift:
  assumes "exact_from q es" "bounded_from (2 ^ j) q es" "j < 1000"
    and "\<bar>t - q\<bar> \<le> of_nat n * 2 powi (int j - 51)" and "n + length es < 2 ^ 50"
  shows "\<exists>t'. foldl replay_step (Fin t) es = Fin t' \<and>
    \<bar>t' - (q + (\<Sum>e\<leftarrow>es. exact_delta e))\<bar> \<le> of_nat (n + length es) * 2 powi (int j - 51)"
  using assms
proof (induction es arbitrary: q t n)
  case Nil
  then show ?case by simp
next
  case (Cons e es)
  obtain a where a: "delta e = RDec a" "exact_from (q + a) es" using Cons.prems(1) by auto
  have b: "\<bar>q\<bar> \<le> 2 ^ j" "bounded_from (2 ^ j) (q + a) es" using Cons.prems(2) a by auto
  then have "\<bar>q + a\<bar> \<le> 2 ^ j" by (cases es) auto
  then obtain t' where t': "replay_step (Fin t) e = Fin t'"
    "\<bar>t' - (q + a)\<bar> \<le> of_nat (Suc n) * 2 powi (int j - 51)"
    using replay_step_drift [OF a(1) Cons.prems(4) _ b(1) _ Cons.prems(3)] Cons.prems(5) by auto
  show ?case
    using Cons.IH [OF a(2) b(2) Cons.prems(3) t'(2)] Cons.prems(5) t'(1) a(1)
    by (simp add: add.assoc)
qed

lemma exact_from_last:
  "exact_from q es \<Longrightarrow> es \<noteq> [] \<Longrightarrow> after (last es) = RDec (q + (\<Sum>e\<leftarrow>es. exact_delta e))"
  by (induction es arbitrary: q) (auto simp: add.assoc split: if_splits)

lemma bounded_from_last:
  "bounded_from M q es \<Longrightarrow> \<bar>q + (\<Sum>e\<leftarrow>es. exact_delta e)\<bar> \<le> M"
proof (induction es arbitrary: q)
  case (Cons e es)
  then show ?case using Cons.IH [of "q + exact_delta e"] by (simp add: add.assoc)
qed simp

section \<open>Properties\<close>

text \<open>C2: However relative movements interleave, on whatever fields, a field's ledger stays a chain:
  each entry carries the step it made, each begins where the one before it ended, and the last
  one ends at the live balance.\<close>

theorem ledger_stays_chained:
  assumes "redis_server svc" and "chained svc key f st" and "list_all movement_ok ms"
  shows "chained svc key f (foldl (\<lambda>s m. run_movement svc key m s) st ms)"
  by (rule redis_server.chained_movements [OF assms])

theorem ledger_stays_chained_witness:
  "chained reference_service ''b'' (''u'', ''c'')
     (foldl (\<lambda>s m. run_movement reference_service ''b'' m s) blank_store
       [Move (''u'', ''c'') (JNum (Fin 5)) Credit [] [] None, Shift (''u'', ''c'') (JNum (Fin (- 2))) [] []])"
proof (rule ledger_stays_chained [OF ref.redis_server_axioms])
  show "chained reference_service ''b'' (''u'', ''c'') blank_store"
    by (simp add: chained_def blank_store_def Let_def)
  show "list_all movement_ok
    [Move (''u'', ''c'') (JNum (Fin 5)) Credit [] [] None, Shift (''u'', ''c'') (JNum (Fin (- 2))) [] []]"
    by code_simp
qed

text \<open>A ledger whose steps are exact and whose balances stay within \<open>2\<^sup>j\<close> reconciles with its live
  balance as long as two more than the number of its entries, times \<open>2\<^sup>j\<^sup>-\<^sup>5\<^sup>1\<close>, is within the tolerance.\<close>

theorem reconcile_agrees:
  assumes "online st" and "streams st f \<noteq> []"
    and "exact_from q (streams st f)" and "bounded_from (2 ^ j) q (streams st f)" and "j < 1000"
    and "hashes st key f = Some (after (last (streams st f)))"
    and "of_nat (length (streams st f) + 2) * 2 powi (int j - 51) \<le> tol" and "is_num (Fin tol)"
    and "length (streams st f) + 2 < 2 ^ 50"
  shows "\<exists>c. reconcile (Fin tol) key f st = Done c \<and> ok c"
proof -
  define es where "es = streams st f"
  define Q where "Q = q + (\<Sum>e\<leftarrow>es. exact_delta e)"
  define u where "u = (2 :: rat) powi (int j - 51)"
  have u: "0 < u" "2 powi (int j - 53) \<le> u" unfolding u_def by (simp, subst powi_le_iff) auto
  have qb: "\<bar>q\<bar> \<le> 2 ^ j" using assms(2,4) by (cases "streams st f") auto
  have Qb: "\<bar>Q\<bar> \<le> 2 ^ j" using bounded_from_last [OF assms(4)] by (simp add: Q_def es_def)
  have lt: "(2 :: rat) ^ j + u < 2 ^ 1024"
  proof -
    have "u \<le> 2 powi int j" unfolding u_def by (subst powi_le_iff) auto
    moreover have "(2 :: rat) ^ j < 2 ^ 1000" using assms(5) by (intro power_strict_increasing) auto
    moreover have "(2 :: rat) ^ 1000 + 2 ^ 1000 < 2 ^ 1024" by simp
    ultimately show ?thesis by simp
  qed
  have num: "to_num z = Fin (rnd64 z) \<and> \<bar>rnd64 z - z\<bar> \<le> u" if "\<bar>z\<bar> \<le> 2 ^ j" for z
  proof -
    have e: "\<bar>rnd64 z - z\<bar> \<le> u" using rnd64_abs_error [OF that] u(2) by linarith
    then have "\<bar>rnd64 z\<bar> < 2 ^ 1024" using that lt by linarith
    then show ?thesis using e by (simp add: to_num_Fin)
  qed
  have first: "before (hd es) = RDec q"
    using assms(2,3) by (cases "streams st f") (auto simp: es_def)
  have "\<bar>rnd64 q - q\<bar> \<le> of_nat 1 * 2 powi (int j - 51)" using num [OF qb] by (simp add: u_def)
  then obtain t where t: "foldl replay_step (Fin (rnd64 q)) es = Fin t"
    "\<bar>t - Q\<bar> \<le> of_nat (1 + length es) * u"
    using replay_drift [OF assms(3,4,5), of "rnd64 q" 1] assms(9) by (auto simp: es_def Q_def u_def)
  define L where "L = rnd64 Q"
  have live: "hashes st key f = Some (RDec Q)"
    using assms(6) exact_from_last [OF assms(3,2)] by (simp add: Q_def es_def)
  have L: "field_float (hashes st key f) = Fin L" "\<bar>L - Q\<bar> \<le> u"
    using num [OF Qb] live by (simp_all add: L_def)
  have "(of_nat (length es + 2) :: rat) * u = of_nat (1 + length es) * u + u" by (simp add: algebra_simps)
  then have d: "\<bar>L - t\<bar> \<le> tol" using t(2) L(2) assms(7) by (simp add: es_def u_def [symmetric])
  define D where "D = Fin L - Fin t"
  have "abs D \<le> Fin tol"
  proof -
    have "\<bar>rnd64 (L - t)\<bar> \<le> tol"
      unfolding rnd64_abs using b64.le_fixed [OF _ d] assms(8) by simp
    moreover have "tol < 2 ^ 1024" using assms(8) by (auto simp: abs_if split: if_splits)
    ultimately show ?thesis
      by (auto simp: D_def to_num_def Let_def)
  qed
  then have "reconcile (Fin tol) key f st =
      Done (Compared True (Fin L) (Fin t) D (length es) (Some (entry_id (last es))))"
    using assms(1,2) L(1) t(1) first num [OF qb]
    by (simp add: reconcile_def hget_def replayBalance_def readLedger_def replay_entries_def
        finite_or_zero_def es_def [symmetric] D_def Let_def)
  then show ?thesis by simp
qed

definition sample_entry :: "nat \<Rightarrow> rat \<Rightarrow> rat \<Rightarrow> entry" where
  "sample_entry n q a = \<lparr>entry_id = n, delta = RDec a, before = RDec q, after = RDec (q + a),
     reason = [], ref = []\<rparr>"

theorem reconcile_agrees_witness:
  "\<exists>c. reconcile (Fin (1 / 2 ^ 27)) ''b'' (''u'', ''c'')
     (with_balance ''b'' (''u'', ''c'') 3
       (blank_store\<lparr>streams := \<lambda>_. [sample_entry 1 0 5, sample_entry 2 5 (- 2)]\<rparr>)) = Done c \<and> ok c"
proof (rule reconcile_agrees [where q = 0 and j = 14])
  show "is_num (Fin (1 / 2 ^ 27))" by code_simp
qed (simp_all add: blank_store_def sample_entry_def with_balance_def power_int_minus)

text \<open>An absolute write records its change with fourteen significant digits, so a replay can miss
  the target: after setting an untouched balance to 4194304 and a thirty-three-millionth, the
  reconciliation with the default tolerance fails.\<close>

theorem set_replay_misses:
  "\<exists>c. reconcile RECONCILE_TOLERANCE ''b'' (''u'', ''c'')
     (fst (setBalanceLogged reference_service ''b'' (''u'', ''c'')
       (JNum (Fin (4194304 + 1 / 2 ^ 25))) [] [] blank_store)) = Done c \<and> \<not> ok c"
proof -
  define T :: rat where "T = 4194304 + 1 / 2 ^ 25"
  have T: "is_num (Fin T)" "Fin T - Fin 0 = Fin T" "T \<noteq> 0"
    and s: "lua_tostring (Fin T) = RDec 4194304" "to_num 4194304 = Fin 4194304"
    and far: "abs (Fin T - Fin 4194304) \<le> RECONCILE_TOLERANCE \<longleftrightarrow> False"
    unfolding T_def by code_simp+
  have z: "Fin 0 + Fin 4194304 = Fin 4194304" "lua_tostring (Fin 0) = RDec 0" by code_simp+
  show ?thesis
    unfolding T_def [symmetric]
    using T s far z to_num_spelling [OF T(1)]
    by (simp add: setBalanceLogged_def LEDGER_SET_LUA_def spelled_spelling XADD_def Let_def blank_store_def
        reference_service_def reconcile_def hget_def replayBalance_def readLedger_def replay_entries_def
        replay_step_def finite_or_zero_def del: spelled.simps(1) lua_tostring.simps(1))
qed

end
