(* ===== verification/RoundOf.thy ===== *)
theory RoundOf
  imports JsPrint
begin

text \<open>
  The money rounding helpers, \<^verbatim>\<open>cryptodex-spotapi/lib/roundOf.js\<close>, with the emptiness
  test of \<^verbatim>\<open>lib/isEmpty.js\<close>. The code works on the decimal spelling of a number, so the
  model does: \<open>match_decimals\<close> is the regular expression \<open>toFixedDown\<close> builds,
  \<open>convert\<close> and \<open>truncateDecimals\<close> are the string surgery of the source.
  The lemmas say what the surgery computes: truncation toward zero to the given number
  of decimals, below the magnitude at which spellings turn exponential.
\<close>

section \<open>Definitions\<close>

text \<open>Objects never reach the number helpers; on the values that do, only blanks are empty.\<close>

fun isEmpty :: "jsval \<Rightarrow> bool" where
  "isEmpty JUndef = True"
| "isEmpty JNull = True"
| "isEmpty (JStr s) = (trim s = [])"
| "isEmpty _ = False"

text \<open>The method toFixed refuses more than a hundred decimals; the catch answers the empty string.\<close>

definition toFixed :: "jsval \<Rightarrow> nat \<Rightarrow> jsval" where
  "toFixed item type =
     (if \<not> isEmpty item \<and> \<not> global_is_nan item
      then if 100 < type then JStr []
           else JNum (parse_float_str (to_fixed_str (parse_float item) type))
      else JStr [])"

definition has_exponent :: "string \<Rightarrow> bool" where
  "has_exponent s \<longleftrightarrow> CHR ''e'' \<in> set s \<or> CHR ''E'' \<in> set s"

text \<open>Trailing zeros off, then a trailing point.\<close>

definition strip_fraction :: "string \<Rightarrow> string" where
  "strip_fraction s =
     (let t = rev (dropWhile (\<lambda>c. c = CHR ''0'') (rev s))
      in if t \<noteq> [] \<and> last t = CHR ''.'' then butlast t else t)"

definition plainDecimal :: "jsnum \<Rightarrow> string" where
  "plainDecimal n =
     (let s = num_to_string n in
      if \<not> has_exponent s then s
      else if \<not> is_finite n \<or> abs n \<ge> Fin (10 ^ 21) then s
      else strip_fraction (to_fixed_str n 20))"

text \<open>
  The leftmost match of digits, a point and \<open>type\<close> digits that another digit follows: the
  spellings it is run on hold at most one point, so the match starts where the digits do.
\<close>

definition match_decimals :: "nat \<Rightarrow> string \<Rightarrow> string option" where
  "match_decimals type s =
     (let ip = takeWhile is_digit s; r = dropWhile is_digit s
      in if ip = [] \<or> r = [] \<or> hd r \<noteq> CHR ''.'' then None
         else if type < length (takeWhile is_digit (tl r))
              then Some (ip @ CHR ''.'' # take type (tl r)) else None)"

definition toFixedDown :: "jsval \<Rightarrow> nat \<Rightarrow> jsval" where
  "toFixedDown item type =
     (if \<not> isEmpty item \<and> \<not> global_is_nan item
      then let x = parse_float item in
        if \<not> is_finite x then JStr []
        else let negative = (x < Fin 0);
                 magnitude = abs x;
                 truncated = (case match_decimals type (plainDecimal magnitude) of
                     Some m \<Rightarrow> parse_float_str m
                   | None \<Rightarrow> magnitude)
             in JNum (if negative then - truncated else truncated)
      else JStr [])"

fun split_fields :: "(char \<Rightarrow> bool) \<Rightarrow> string \<Rightarrow> string list" where
  "split_fields sep [] = [[]]"
| "split_fields sep (c # s) =
     (if sep c then [] # split_fields sep s
      else case split_fields sep s of [] \<Rightarrow> [[c]] | f # fs \<Rightarrow> (c # f) # fs)"

text \<open>A minus sign off the front; a point between the digits and an exponent that follows them.\<close>

definition normalise_exponent :: "string \<Rightarrow> string" where
  "normalise_exponent s =
     (let t = (if s \<noteq> [] \<and> hd s = CHR ''-'' then tl s else s);
          ip = takeWhile is_digit t; r = dropWhile is_digit t
      in if ip \<noteq> [] \<and> r \<noteq> [] \<and> hd r = CHR ''e'' then ip @ CHR ''.'' # r else t)"

text \<open>
  Scientific to plain notation. A value with no exponent is handed back as it is; where the
  code throws (a null, a spelling with an upper-case exponent and no point, an infinite
  repeat count) the catch answers 0.
\<close>

fun nat_of_num :: "jsnum \<Rightarrow> nat" where
  "nat_of_num (Fin x) = nat \<lfloor>x\<rfloor>"
| "nat_of_num _ = 0"

definition convert :: "jsval \<Rightarrow> jsval" where
  "convert n =
     (if n = JUndef \<or> n = JNull then JNum (Fin 0)
      else let sign = (if to_number n < Fin 0 then ''-'' else []);
               str = to_string n
           in if \<not> has_exponent str then n
              else let fs = split_fields (\<lambda>c. c = CHR ''e'' \<or> c = CHR ''.'') (normalise_exponent str);
                       lead = fs ! 0;
                       pow = (if 2 < length fs then number_str (fs ! 2) else NaN)
                   in if length fs < 2 then JNum (Fin 0)
                      else let decimal = fs ! 1 in
                        if pow < Fin 0
                        then if is_finite pow
                             then JStr (sign @ ''0.'' @ replicate (nat_of_num (abs pow) - 1) (CHR ''0'') @ lead @ decimal)
                             else JNum (Fin 0)
                        else if pow \<ge> Fin (of_nat (length decimal))
                             then if is_finite pow
                                  then JStr (sign @ lead @ decimal @ replicate (nat_of_num pow - length decimal) (CHR ''0''))
                                  else JNum (Fin 0)
                             else JStr (sign @ lead @ take (nat_of_num pow) decimal @ CHR ''.'' # drop (nat_of_num pow) decimal))"

definition index_of :: "char \<Rightarrow> string \<Rightarrow> int" where
  "index_of c s = (if c \<in> set s then int (length (takeWhile (\<lambda>d. d \<noteq> c) s)) else -1)"

definition truncateDecimals :: "jsval \<Rightarrow> int \<Rightarrow> jsval" where
  "truncateDecimals num decimals =
     (if \<not> is_finite (parse_float num) then JStr (num_to_string (parse_float num))
      else let s = to_string (convert num); p = index_of (CHR ''.'') s in
        if decimals \<le> 0 then JStr (if p < 0 then s else take (nat p) s)
        else let q = (if p < 0 then 1 + int (length s) else p);
                 t = s @ (if p < 0 then ''.'' else []) @ zeros decimals
             in JStr (take (nat (q + 1 + decimals)) t))"

section \<open>What the string surgery computes\<close>

text \<open>The number a spelling without exponent stands for.\<close>

definition plain_val :: "string \<Rightarrow> string \<Rightarrow> rat" where
  "plain_val ip fp = of_int (digits_val (ip @ fp)) / 10 ^ length fp"

lemma parts_val_plain: "parts_val (ip, fp, None) = plain_val ip fp"
  by (simp add: plain_val_def power_int_minus divide_inverse)

lemma parse_dotted:
  assumes "ip \<noteq> []" "all_digits ip" "all_digits fp"
  shows "parse_float_str (ip @ CHR ''.'' # fp) = to_num (plain_val ip fp)"
proof (cases "fp = []")
  case False
  then show ?thesis
    using parse_parts(1) [of "(ip, fp, None)"] assms parts_val_plain [of ip fp] by simp
next
  case True
  have tw: "takeWhile is_digit (ip @ ''.'') = ip" "dropWhile is_digit (ip @ ''.'') = ''.''"
    using takeWhile_digits [of ip "''.''"] assms by auto
  obtain c r where c: "ip = c # r" "is_digit c" using assms by (cases ip) auto
  have "take 8 (ip @ ''.'') \<noteq> ''Infinity''" using c by (auto dest: digit_not)
  then have "parse_unsigned (ip @ ''.'') = Some (to_num (of_int (digits_val ip)), [])"
    using assms tw by (simp add: parse_unsigned_def Let_def parse_exp_def)
  then show ?thesis
    using c digit_not [OF c(2)] True
    by (simp add: parse_float_str_def parse_signed_def plain_val_def)
qed

lemma match_spelled:
  assumes "ip \<noteq> []" "all_digits ip" "all_digits fp"
  shows "match_decimals d (spell (ip, fp, None)) =
    (if d < length fp then Some (ip @ CHR ''.'' # take d fp) else None)"
proof -
  define r where "r = (if fp = [] then [] else CHR ''.'' # fp)"
  have tw: "takeWhile is_digit (ip @ r) = ip" "dropWhile is_digit (ip @ r) = r"
    using takeWhile_digits [of ip r] assms by (auto simp: r_def)
  have tf: "takeWhile is_digit fp = fp"
    using takeWhile_digits(1) [of fp "[]"] assms by simp
  have "spell (ip, fp, None) = ip @ r" by (simp add: r_def)
  then have "match_decimals d (spell (ip, fp, None)) = match_decimals d (ip @ r)" by simp
  also have "\<dots> = (if d < length fp then Some (ip @ CHR ''.'' # take d fp) else None)"
    using assms tw tf by (simp add: match_decimals_def Let_def) (simp add: r_def)
  finally show ?thesis .
qed

lemma plain_val_take:
  assumes "all_digits ip" "all_digits fp" "d \<le> length fp"
  shows "plain_val ip (take d fp) = of_int \<lfloor>plain_val ip fp * 10 ^ d\<rfloor> / 10 ^ d"
proof -
  have "take (length ip + d) (ip @ fp) = ip @ take d fp" by simp
  then have "digits_val (ip @ take d fp) = digits_val (ip @ fp) div 10 ^ (length fp - d)"
    using digits_val_take [of "ip @ fp" "length ip + d"] assms by simp
  moreover have "plain_val ip fp * 10 ^ d = of_int (digits_val (ip @ fp)) / of_int (10 ^ (length fp - d))"
    using assms(3) by (simp add: plain_val_def divide_simps flip: power_add)
  then have "\<lfloor>plain_val ip fp * 10 ^ d\<rfloor> = digits_val (ip @ fp) div 10 ^ (length fp - d)"
    by (simp only: floor_divide_of_int_eq)
  ultimately show ?thesis
    using assms(3) by (simp add: plain_val_def)
qed

text \<open>Cutting the decimals of a plain spelling off truncates its value.\<close>

lemma truncate_spelled:
  assumes "ip \<noteq> []" "all_digits ip" "all_digits fp" and "d < length fp"
  shows "match_decimals d (spell (ip, fp, None)) = Some (ip @ CHR ''.'' # take d fp)"
    and "parse_float_str (ip @ CHR ''.'' # take d fp) =
      to_num (of_int \<lfloor>plain_val ip fp * 10 ^ d\<rfloor> / 10 ^ d)"
  using assms match_spelled [of ip fp d] parse_dotted [of ip "take d fp"] plain_val_take [of ip fp d]
  by auto

lemma no_exponent_spelled:
  assumes "all_digits ip" "all_digits fp"
  shows "\<not> has_exponent (spell (ip, fp, None))"
proof -
  have "c \<noteq> CHR ''e'' \<and> c \<noteq> CHR ''E''" if "c \<in> set ip \<union> set fp" for c
    using assms that by (auto simp: all_digits_def list_all_iff dest: digit_not)
  then show ?thesis by (auto simp: has_exponent_def)
qed

lemma dropWhile_stop:
  "\<not> P x \<Longrightarrow> dropWhile P (ys @ x # zs) = dropWhile P ys @ x # zs"
  by (induction ys) auto

lemma strip_fraction_spelled:
  assumes "ip \<noteq> []" "fp \<noteq> []" "all_digits fp"
  obtains fp' where "strip_fraction (spell (ip, fp, None)) = spell (ip, fp', None)"
    and "plain_val ip fp' = plain_val ip fp" and "all_digits fp'"
    and "fp' = [] \<or> last fp' \<noteq> CHR ''0''" and "length fp' \<le> length fp"
proof
  let ?z = "\<lambda>c. c = CHR ''0''"
  define f zs where "f = rev (dropWhile ?z (rev fp))" and "zs = rev (takeWhile ?z (rev fp))"
  have fp: "fp = f @ zs" unfolding f_def zs_def by (metis rev_append rev_rev_ident takeWhile_dropWhile_id)
  have "zs = replicate (length zs) (CHR ''0'')"
    unfolding zs_def by (rule replicate_eqI) (auto dest: set_takeWhileD)
  then have zz: "zs = zeros (int (length zs))" by (simp add: zeros_def)
  have "f = [] \<or> last f \<noteq> CHR ''0''"
    unfolding f_def using hd_dropWhile [of ?z "rev fp"] by (auto simp: last_rev)
  then show l: "f = [] \<or> last f \<noteq> CHR ''0''" .
  have dz: "dropWhile ?z (rev fp @ CHR ''.'' # rev ip) = rev f @ CHR ''.'' # rev ip"
    unfolding f_def by (simp add: dropWhile_stop)
  have fd: "all_digits f" using assms fp by simp
  have np: "last f \<noteq> CHR ''.''" if "f \<noteq> []"
  proof -
    have "is_digit (last f)" using fd last_in_set [OF that] by (simp add: all_digits_def list_all_iff)
    then show ?thesis using not_digit(1) by auto
  qed
  show "strip_fraction (spell (ip, fp, None)) = spell (ip, f, None)"
  proof -
    have sp: "spell (ip, fp, None) = ip @ CHR ''.'' # fp" using assms by simp
    have t: "rev (dropWhile ?z (rev (spell (ip, fp, None)))) = ip @ CHR ''.'' # f"
      unfolding sp using dz by simp
    show ?thesis
    proof (cases "f = []")
      case True
      then show ?thesis unfolding strip_fraction_def t Let_def by (simp add: butlast_append)
    next
      case False
      then show ?thesis unfolding strip_fraction_def t Let_def using np by simp
    qed
  qed
  show "plain_val ip f = plain_val ip fp"
  proof -
    have "digits_val zs = 0" using zz by (metis digits_val_zeros)
    then have "digits_val (ip @ fp) = digits_val (ip @ f) * 10 ^ length zs"
      unfolding fp by (simp add: digits_val_append power_add algebra_simps)
    then show ?thesis unfolding plain_val_def by (simp add: fp power_add)
  qed
  show "all_digits f" by (rule fd)
  show "length f \<le> length fp" using fp by simp
qed

section \<open>The spelling the truncation works on\<close>

lemma digs_lower: "0 < n \<Longrightarrow> 10 ^ (length (digs n) - 1) \<le> n"
proof (induction n rule: digs.induct)
  case (1 n)
  show ?case
  proof (cases "n < 10")
    case True
    then show ?thesis using 1(2) by (subst digs.simps) simp
  next
    case False
    then have pos: "0 < n div 10" by simp
    then have ne: "length (digs (n div 10)) \<noteq> 0" using digs_nonempty [of "n div 10"] by simp
    have "10 ^ (length (digs (n div 10)) - 1) \<le> n div 10" using 1(1) False pos by simp
    then have "10 * 10 ^ (length (digs (n div 10)) - 1) \<le> 10 * (n div 10)" by simp
    also have "\<dots> \<le> n" by simp
    finally have "10 ^ length (digs (n div 10)) \<le> n" using ne by (simp flip: power_Suc)
    then show ?thesis using False by (subst digs.simps) simp
  qed
qed

lemma dec_of_magnitude:
  assumes "rnd64 x = x" "0 < x" and "dec_of x = (s, p)"
  defines "n \<equiv> int (length (digs s)) + p"
  shows "10 powi (n - 1) \<le> dec_val (dec_of x)" and "dec_val (dec_of x) < 10 powi n"
proof -
  have s: "0 < s" using dec_of_pos [OF assms(1,2)] assms(3) by simp
  define k where "k = length (digs s)"
  have k: "0 < k" using s digs_nonempty [of s] by (simp add: k_def)
  have "10 ^ (k - 1) \<le> s" using digs_lower [OF s] by (simp add: k_def)
  then have lo: "(10 :: rat) ^ (k - 1) \<le> of_int s" by (metis of_int_le_iff of_int_numeral of_int_power)
  have "s < 10 ^ k" using digits_val_bounds [of "digs s"] digs_props [of s] s by (simp add: k_def)
  then have hi: "of_int s < (10 :: rat) ^ k" by (metis of_int_less_iff of_int_numeral of_int_power)
  have P: "0 < (10 :: rat) powi p" by simp
  have "n - 1 = int (k - 1) + p" using k by (simp add: n_def k_def [symmetric])
  then have "(10 :: rat) powi (n - 1) = 10 ^ (k - 1) * 10 powi p"
    using power_int_add [of "10 :: rat" "int (k - 1)" p] by simp
  then show "10 powi (n - 1) \<le> dec_val (dec_of x)"
    using mult_right_mono [OF lo, of "10 powi p"] P by (simp add: assms(3) dec_val_def)
  have "(10 :: rat) powi n = 10 ^ k * 10 powi p"
    by (simp add: n_def k_def [symmetric] power_int_add)
  then show "dec_val (dec_of x) < 10 powi n"
    using mult_strict_right_mono [OF hi P] by (simp add: assms(3) dec_val_def)
qed

lemma millionth_plain: "snd (snd (num_parts (rnd64 (1 / 10 ^ 6)))) = None"
  by code_simp

lemma plain_exponent:
  assumes "rnd64 x = x" "0 < x" "x < 10 ^ 21" and "snd (snd (num_parts x)) \<noteq> None"
  shows "x < 1 / 10 ^ 6"
proof -
  obtain s p where sp: "dec_of x = (s, p)" by fastforce
  define n where "n = int (length (digs s)) + p"
  note mag = dec_of_magnitude [OF assms(1,2) sp, folded n_def]
  have big: "n \<le> 21"
  proof (rule ccontr)
    assume "\<not> n \<le> 21"
    then have "(10 :: rat) powi 21 \<le> 10 powi (n - 1)" by (subst powi_le_iff) auto
    then have "10 ^ 21 \<le> dec_val (dec_of x)" using mag(1) by simp
    from rnd64_mono [OF this] have "rnd64 (10 ^ 21) \<le> x"
      by (simp only: dec_of_val [OF assms(1,2)])
    moreover have "rnd64 (10 ^ 21) = 10 ^ 21" by code_simp
    ultimately show False using assms(3) by simp
  qed
  have "n \<le> - 6"
  proof (rule ccontr)
    assume "\<not> n \<le> - 6"
    then have "- 6 < n" by simp
    then have "snd (snd (num_parts x)) = None"
      using big unfolding num_parts_def sp Let_def prod.case n_def [symmetric]
      by (cases "int (length (digs s)) \<le> n"; cases "0 < n") simp_all
    with assms(4) show False by simp
  qed
  then have "(10 :: rat) powi n \<le> 10 powi (- 6)" by (subst powi_le_iff) auto
  moreover have "(10 :: rat) powi (- 6) = 1 / 10 ^ 6" by (simp add: power_int_minus)
  ultimately have "dec_val (dec_of x) \<le> 1 / 10 ^ 6" using mag(2) by linarith
  from rnd64_mono [OF this] have le: "x \<le> rnd64 (1 / 10 ^ 6)"
    by (simp only: dec_of_val [OF assms(1,2)])
  show ?thesis
  proof (rule ccontr)
    assume "\<not> x < 1 / 10 ^ 6"
    then have "1 / 10 ^ 6 \<le> x" by (simp only: not_less)
    from rnd64_mono [OF this] have "rnd64 (1 / 10 ^ 6) \<le> x" by (simp only: assms(1))
    with le have "x = rnd64 (1 / 10 ^ 6)" by (rule order_antisym)
    then show False using assms(4) millionth_plain by simp
  qed
qed

text \<open>The fixed-point spelling with twenty decimals stands for the nearest multiple.\<close>

lemma fixed_parts_props:
  assumes "0 \<le> x" and "fixed_parts x f = (ip, fp, e)"
  shows "ip \<noteq> []" "all_digits ip" "all_digits fp" "length fp = f" "e = None"
    "plain_val ip fp = of_int \<lfloor>x * 10 ^ f + 1/2\<rfloor> / 10 ^ f"
proof -
  define n where "n = \<lfloor>x * 10 ^ f + 1/2\<rfloor>"
  define w where "w = zeros (int f + 1 - int (length (digs n))) @ digs n"
  have n: "0 \<le> n" using assms(1) by (simp add: n_def)
  have len: "f < length w" unfolding w_def by simp
  have p: "ip = take (length w - f) w" "fp = drop (length w - f) w" "e = None"
    using assms(2) by (auto simp: fixed_parts_def Let_def w_def n_def)
  have w: "all_digits w" "digits_val w = n"
    using n by (simp_all add: w_def digits_val_append)
  show "ip \<noteq> []" "all_digits ip" "all_digits fp" "e = None"
    using p w len by auto
  show lf: "length fp = f" using p len by simp
  have "ip @ fp = w" using p by simp
  then show "plain_val ip fp = of_int \<lfloor>x * 10 ^ f + 1/2\<rfloor> / 10 ^ f"
    using w lf by (simp add: plain_val_def n_def)
qed

lemma plain_decimal_plain:
  assumes "snd (snd (num_parts m)) = None" "rnd64 m = m" "0 < m"
  obtains ip fp where "plainDecimal (Fin m) = spell (ip, fp, None)"
    and "ip \<noteq> []" "all_digits ip" "all_digits fp" and "plain_val ip fp = dec_val (dec_of m)"
proof -
  obtain ip fp where n: "num_parts m = (ip, fp, None)"
    using assms(1) by (cases "num_parts m") auto
  have ok: "ip \<noteq> []" "all_digits ip" "all_digits fp" and v: "plain_val ip fp = dec_val (dec_of m)"
    using num_parts_ok [OF assms(2,3)] by (simp_all add: n parts_val_plain [symmetric])
  have "plainDecimal (Fin m) = spell (ip, fp, None)"
    using no_exponent_spelled [OF ok(2,3)] assms(3)
    by (simp add: plainDecimal_def n Let_def del: spell.simps)
  then show ?thesis using ok v by (intro that)
qed

lemma plain_decimal_tiny:
  assumes "snd (snd (num_parts m)) \<noteq> None" "0 < m" "m < 10 ^ 21"
  obtains ip fp where "plainDecimal (Fin m) = spell (ip, fp, None)"
    and "ip \<noteq> []" "all_digits ip" "all_digits fp" "length fp \<le> 20" "fp = [] \<or> last fp \<noteq> CHR ''0''"
    and "plain_val ip fp = of_int \<lfloor>m * 10 ^ 20 + 1/2\<rfloor> / 10 ^ 20"
proof -
  obtain i f k where n: "num_parts m = (i, f, Some k)"
    using assms(1) by (cases "num_parts m") auto
  obtain ip fp where fx: "fixed_parts m 20 = (ip, fp, None)"
    using fixed_parts_props(5) [of m 20] assms(2) by (cases "fixed_parts m 20") auto
  have ok: "ip \<noteq> []" "all_digits ip" "all_digits fp" "length fp = 20"
    "plain_val ip fp = of_int \<lfloor>m * 10 ^ 20 + 1/2\<rfloor> / 10 ^ 20"
    using fixed_parts_props [OF _ fx] assms(2) by simp_all
  then have "fp \<noteq> []" by auto
  then obtain fp' where s: "strip_fraction (spell (ip, fp, None)) = spell (ip, fp', None)"
    "plain_val ip fp' = plain_val ip fp" "all_digits fp'" "fp' = [] \<or> last fp' \<noteq> CHR ''0''"
    "length fp' \<le> length fp"
    using strip_fraction_spelled [of ip fp] ok by metis
  have "has_exponent (num_to_string (Fin m))"
    using assms(2) by (simp add: n has_exponent_def)
  then have "plainDecimal (Fin m) = strip_fraction (to_fixed_str (Fin m) 20)"
    using assms(2,3) by (simp add: plainDecimal_def Let_def not_le)
  also have "to_fixed_str (Fin m) 20 = spell (ip, fp, None)"
    using assms(2,3) by (simp only: to_fixed_str.simps fx abs_of_pos) simp
  finally show ?thesis using s ok by (intro that) auto
qed

section \<open>Rounding down\<close>

text \<open>What \<open>toFixedDown\<close> keeps of a magnitude.\<close>

definition cut :: "nat \<Rightarrow> rat \<Rightarrow> jsnum" where
  "cut d m = (case match_decimals d (plainDecimal (Fin m)) of
      Some s \<Rightarrow> parse_float_str s | None \<Rightarrow> Fin m)"

lemma toFixedDown_cut:
  "toFixedDown (JNum (Fin x)) d = JNum (if x < 0 then - cut d \<bar>x\<bar> else cut d \<bar>x\<bar>)"
  by (cases "x < 0") (simp_all add: toFixedDown_def cut_def global_is_nan_def Let_def abs_if)

lemma cut_plain:
  assumes "snd (snd (num_parts m)) = None" "rnd64 m = m" "0 < m" "\<bar>m\<bar> < 2 ^ 1024"
  shows "cut d m = Fin (rnd64 (of_int \<lfloor>dec_val (dec_of m) * 10 ^ d\<rfloor> / 10 ^ d))"
    and "0 \<le> rnd64 (of_int \<lfloor>dec_val (dec_of m) * 10 ^ d\<rfloor> / 10 ^ d)"
    and "rnd64 (of_int \<lfloor>dec_val (dec_of m) * 10 ^ d\<rfloor> / 10 ^ d) \<le> m"
proof -
  obtain ip fp where p: "plainDecimal (Fin m) = spell (ip, fp, None)"
    "ip \<noteq> []" "all_digits ip" "all_digits fp" "plain_val ip fp = dec_val (dec_of m)"
    using plain_decimal_plain [OF assms(1-3)] .
  define v where "v = dec_val (dec_of m)"
  define t where "t = rnd64 (of_int \<lfloor>v * 10 ^ d\<rfloor> / 10 ^ d)"
  have v: "rnd64 v = m" unfolding v_def by (rule dec_of_val [OF assms(2,3)])
  have v0: "0 < v" using b64.pos_of_rnd_pos [of v] v assms(3) by simp
  have "of_int \<lfloor>v * 10 ^ d\<rfloor> / 10 ^ d \<le> v" by (simp add: divide_le_eq)
  from rnd64_mono [OF this] have le: "t \<le> m" by (simp only: t_def v)
  have "0 \<le> \<lfloor>v * 10 ^ d\<rfloor>" using v0 by simp
  then have "0 \<le> of_int \<lfloor>v * 10 ^ d\<rfloor> / (10 :: rat) ^ d" by simp
  then have nn: "0 \<le> t" unfolding t_def by (rule rnd64_nonneg)
  have "cut d m = Fin t"
  proof (cases "d < length fp")
    case True
    then have "cut d m = to_num (of_int \<lfloor>v * 10 ^ d\<rfloor> / 10 ^ d)"
      unfolding cut_def p(1) using truncate_spelled [OF p(2-4) True] p(5) by (simp add: v_def)
    then show ?thesis using le nn assms(4) by (simp add: to_num_Fin t_def)
  next
    case False
    then have "plain_val ip fp = of_int (digits_val (ip @ fp) * 10 ^ (d - length fp)) / 10 ^ d"
      by (simp add: plain_val_def divide_simps flip: power_add)
    then have "v * 10 ^ d = of_int (digits_val (ip @ fp) * 10 ^ (d - length fp))"
      using p(5) by (simp add: v_def)
    then have "of_int \<lfloor>v * 10 ^ d\<rfloor> = v * 10 ^ d" by (simp only: floor_of_int)
    then have "t = rnd64 (v * 10 ^ d / 10 ^ d)" by (simp only: t_def)
    then have "t = m" using v by simp
    moreover have "cut d m = Fin m"
      unfolding cut_def p(1) using match_spelled [OF p(2-4), of d] False by simp
    ultimately show ?thesis by simp
  qed
  then show "cut d m = Fin (rnd64 (of_int \<lfloor>dec_val (dec_of m) * 10 ^ d\<rfloor> / 10 ^ d))"
    and "0 \<le> rnd64 (of_int \<lfloor>dec_val (dec_of m) * 10 ^ d\<rfloor> / 10 ^ d)"
    and "rnd64 (of_int \<lfloor>dec_val (dec_of m) * 10 ^ d\<rfloor> / 10 ^ d) \<le> m"
    using nn le by (simp_all only: t_def v_def)
qed

text \<open>A value cut short of its last nonzero digit sits a whole unit of that digit lower.\<close>

lemma cut_strict:
  assumes "all_digits ip" "all_digits fp" "d < length fp" "length fp \<le> L" "last fp \<noteq> CHR ''0''"
  shows "of_int \<lfloor>plain_val ip fp * 10 ^ d\<rfloor> / 10 ^ d \<le> plain_val ip fp - 1 / 10 ^ L"
proof -
  have fp: "fp = butlast fp @ [last fp]" using assms(3) by (cases fp) auto
  define b where "b = digits_val (butlast fp)"
  have ld: "is_digit (last fp)" using assms(2) fp by (metis all_digits_simps(2,3))
  then have l1: "1 \<le> digit_val (last fp)"
    using is_digit_cases [OF ld] assms(5) by (cases "digit_val (last fp) = 0") (auto simp: digit_char_def)
  define D where "D = digits_val (ip @ take d fp)"
  have len: "length (drop d fp) = length fp - d" by simp
  have split: "digits_val (ip @ fp) = D * 10 ^ (length fp - d) + digits_val (drop d fp)"
    using digits_val_append [of "ip @ take d fp" "drop d fp"] by (simp add: D_def)
  have dn: "drop d fp = butlast (drop d fp) @ [last fp]"
    using append_butlast_last_id [of "drop d fp"] last_drop [OF assms(3)] assms(3)
    by (metis drop_eq_Nil not_le)
  have "all_digits (butlast (drop d fp) @ [last fp])"
    using all_digits_drop [OF assms(2), of d] dn by argo
  then have "0 \<le> digits_val (butlast (drop d fp))"
    using digits_val_bounds [of "butlast (drop d fp)"] by simp
  then have one: "1 \<le> digits_val (drop d fp)"
    using l1 by (subst dn) (simp add: digits_val_append digits_val_Cons)
  have P: "(0 :: rat) < 10 ^ length fp" by simp
  have "of_int \<lfloor>plain_val ip fp * 10 ^ d\<rfloor> / 10 ^ d = plain_val ip (take d fp)"
    using plain_val_take [OF assms(1,2)] assms(3) by simp
  also have "\<dots> = of_int (D * 10 ^ (length fp - d)) / 10 ^ length fp"
    using assms(3) by (simp add: plain_val_def D_def divide_simps flip: power_add)
  also have "\<dots> = plain_val ip fp - of_int (digits_val (drop d fp)) / 10 ^ length fp"
    by (simp add: plain_val_def split add_divide_distrib)
  also have "\<dots> \<le> plain_val ip fp - 1 / 10 ^ length fp"
    using one by (simp add: divide_right_mono)
  also have "\<dots> \<le> plain_val ip fp - 1 / 10 ^ L"
  proof -
    have "(10 :: rat) ^ length fp \<le> 10 ^ L" using assms(4) by (simp add: power_increasing)
    then have "1 / (10 :: rat) ^ L \<le> 1 / 10 ^ length fp" by (intro frac_le) auto
    then show ?thesis by linarith
  qed
  finally show ?thesis .
qed

lemma cut_tiny:
  assumes "snd (snd (num_parts m)) \<noteq> None" "rnd64 m = m" "0 < m" "m < 10 ^ 21"
  obtains t where "cut d m = Fin t" and "0 \<le> t" and "t \<le> m"
proof -
  obtain ip fp where p: "plainDecimal (Fin m) = spell (ip, fp, None)"
    "ip \<noteq> []" "all_digits ip" "all_digits fp" "length fp \<le> 20" "fp = [] \<or> last fp \<noteq> CHR ''0''"
    "plain_val ip fp = of_int \<lfloor>m * 10 ^ 20 + 1/2\<rfloor> / 10 ^ 20"
    using plain_decimal_tiny [OF assms(1,3,4)] .
  show thesis
  proof (cases "d < length fp")
    case False
    then have "cut d m = Fin m"
      unfolding cut_def p(1) using match_spelled [OF p(2-4), of d] by simp
    then show ?thesis using assms(3) by (intro that) auto
  next
    case True
    define u where "u = (of_int \<lfloor>plain_val ip fp * 10 ^ d\<rfloor> / 10 ^ d :: rat)"
    have c: "cut d m = to_num u"
      unfolding cut_def p(1) using truncate_spelled [OF p(2-4) True] by (simp add: u_def)
    have "of_int \<lfloor>m * 10 ^ 20 + 1/2\<rfloor> \<le> m * 10 ^ 20 + 1/2" by linarith
    then have "plain_val ip fp \<le> m + 1 / 10 ^ 20"
      unfolding p(7) by (simp add: divide_simps)
    moreover have "u \<le> plain_val ip fp - 1 / 10 ^ 20"
      unfolding u_def using cut_strict [OF p(3,4) True p(5)] p(6) True by auto
    ultimately have "u \<le> m" by linarith
    from rnd64_mono [OF this] have le: "rnd64 u \<le> m" by (simp only: assms(2))
    have "0 \<le> m * 10 ^ 20" using assms(3) by simp
    then have "0 \<le> \<lfloor>m * 10 ^ 20 + 1/2\<rfloor>" by linarith
    then have "0 \<le> plain_val ip fp" unfolding p(7) by simp
    then have "0 \<le> \<lfloor>plain_val ip fp * 10 ^ d\<rfloor>" by simp
    then have nn: "0 \<le> rnd64 u" unfolding u_def by (intro rnd64_nonneg) simp
    have "(10 :: rat) ^ 21 < 2 ^ 1024" by simp
    then have "\<bar>rnd64 u\<bar> < 2 ^ 1024" using le nn assms(4) by linarith
    then have "cut d m = Fin (rnd64 u)" unfolding c by (simp add: to_num_Fin)
    then show ?thesis using nn le by (intro that)
  qed
qed

section \<open>The contract of \<open>toFixedDown\<close>\<close>

text \<open>
  Below the magnitude at which spellings turn exponential the helper never answers more than
  it was given, and keeps the sign: rounding in favour of the venue's book, never of a caller.
\<close>

lemma toFixedDown_toward_zero:
  assumes "is_num (Fin x)" and "\<bar>x\<bar> < 10 ^ 21"
  obtains y where "toFixedDown (JNum (Fin x)) d = JNum (Fin y)"
    and "\<bar>y\<bar> \<le> \<bar>x\<bar>" and "0 \<le> x \<Longrightarrow> 0 \<le> y" and "x \<le> 0 \<Longrightarrow> y \<le> 0"
proof -
  have "\<exists>t. cut d \<bar>x\<bar> = Fin t \<and> 0 \<le> t \<and> t \<le> \<bar>x\<bar>"
  proof (cases "x = 0")
    case True
    have "plainDecimal (Fin 0) = spell (''0'', [], None)" by code_simp
    then have "cut d 0 = Fin 0"
      unfolding cut_def using match_spelled [of "''0''" "[]" d] by (simp add: is_digit_def)
    then show ?thesis using True by simp
  next
    case False
    define m where "m = \<bar>x\<bar>"
    have m: "rnd64 m = m" "0 < m" "m < 10 ^ 21" "\<bar>m\<bar> < 2 ^ 1024"
      using assms False by (auto simp: m_def abs_if rnd64_neg)
    show ?thesis
    proof (cases "snd (snd (num_parts m)) = None")
      case True
      then show ?thesis using cut_plain [OF True m(1,2,4)] by (simp add: m_def)
    next
      case False
      then show ?thesis using cut_tiny [OF False m(1-3), of d] by (metis m_def)
    qed
  qed
  then obtain t where t: "cut d \<bar>x\<bar> = Fin t" "0 \<le> t" "t \<le> \<bar>x\<bar>" by blast
  show thesis
  proof (rule that)
    show "toFixedDown (JNum (Fin x)) d = JNum (Fin (if x < 0 then - t else t))"
      unfolding toFixedDown_cut t(1) by simp
    show "\<bar>if x < 0 then - t else t\<bar> \<le> \<bar>x\<bar>" using t(2,3) by (simp add: abs_if split: if_splits)
    show "0 \<le> (if x < 0 then - t else t)" if "0 \<le> x" using t that by simp
    show "(if x < 0 then - t else t) \<le> 0" if "x \<le> 0" using t that by (cases "x = 0") auto
  qed
qed

text \<open>From a millionth up it is exactly the truncation of the decimal the number is spelled with.\<close>

lemma toFixedDown_truncates:
  assumes "is_num (Fin x)" and "1 / 10 ^ 6 \<le> x" and "x < 10 ^ 21"
  shows "toFixedDown (JNum (Fin x)) d =
    JNum (Fin (rnd64 (of_int \<lfloor>dec_val (dec_of x) * 10 ^ d\<rfloor> / 10 ^ d)))"
proof -
  have "(0 :: rat) < 1 / 10 ^ 6" by simp
  then have x: "0 < x" "\<not> x < 1 / 10 ^ 6" using assms(2) by linarith+
  have pl: "snd (snd (num_parts x)) = None"
    using plain_exponent [OF _ x(1) assms(3)] assms(1) x(2) by fastforce
  show ?thesis
    using cut_plain(1) [OF pl _ x(1)] assms(1) x(1) by (simp add: toFixedDown_cut)
qed

section \<open>Properties\<close>

text \<open>Below the magnitude at which spellings turn exponential, rounding down to any number of
  decimals answers a number no larger in magnitude than the one given, and of the same sign.\<close>

theorem toFixedDown_never_up:
  assumes "is_num (Fin x)" and "\<bar>x\<bar> < 10 ^ 21"
  shows "\<exists>y. toFixedDown (JNum (Fin x)) d = JNum (Fin y) \<and> \<bar>y\<bar> \<le> \<bar>x\<bar> \<and> 0 \<le> x * y"
proof (rule toFixedDown_toward_zero [OF assms, of d])
  fix y
  assume "toFixedDown (JNum (Fin x)) d = JNum (Fin y)" "\<bar>y\<bar> \<le> \<bar>x\<bar>"
    and "0 \<le> x \<Longrightarrow> 0 \<le> y" "x \<le> 0 \<Longrightarrow> y \<le> 0"
  then show ?thesis by (cases "0 \<le> x") (auto simp: zero_le_mult_iff)
qed

theorem toFixedDown_never_up_witness:
  "\<exists>y. toFixedDown (JNum (Fin (- 25 / 8))) 2 = JNum (Fin y) \<and> \<bar>y\<bar> \<le> \<bar>- 25 / 8\<bar> \<and> 0 \<le> (- 25 / 8) * y"
proof (rule toFixedDown_never_up)
  show "is_num (Fin (- 25 / 8))" by code_simp
qed simp

text \<open>Outside that range the digits of the exponential spelling are cut as if they were decimals:
  12345 followed by seventeen zeros, rounded down to two decimals, answers 1.23.\<close>

theorem toFixedDown_exponential:
  "toFixedDown (JNum (Fin (rnd64 (12345 * 10 ^ 17)))) 2 = JNum (Fin (rnd64 (123 / 100)))"
  by code_simp

end
