(* ===== verification/NumericField.thy ===== *)
theory NumericField
  imports RoundOf
begin

text \<open>
  What a number is at the edge of the exchange:
  \<^verbatim>\<open>cryptodex-spotapi/validation/numericField.validation.js\<close>, and the order validators of
  \<^verbatim>\<open>validation/spotTrade.validation.js\<close> that are built on it. A validator answers either
  \<open>Passed\<close> (the call of \<^verbatim>\<open>next\<close>) or \<open>Rejected\<close> with the errors object of the 400 response.
  The lemmas show that an accepted field is read the same by every reader downstream, count the
  decimals of a number by its shortest spelling, and characterise the accepted orders.
\<close>

section \<open>Numbers in requests\<close>

definition exponent_part :: "string \<Rightarrow> bool" where
  "exponent_part r = (case r of
      [] \<Rightarrow> True
    | c # s \<Rightarrow>
        (let ds = (if s \<noteq> [] \<and> (hd s = CHR ''+'' \<or> hd s = CHR ''-'') then tl s else s)
         in (c = CHR ''e'' \<or> c = CHR ''E'') \<and> ds \<noteq> [] \<and> all_digits ds))"

text \<open>The anchored pattern FULL_NUMBER.\<close>

definition unsigned_number :: "string \<Rightarrow> bool" where
  "unsigned_number t =
     (let ip = takeWhile is_digit t; r1 = dropWhile is_digit t;
          dot = (r1 \<noteq> [] \<and> hd r1 = CHR ''.'');
          fp = (if dot then takeWhile is_digit (tl r1) else []);
          r2 = (if dot then dropWhile is_digit (tl r1) else r1)
      in (ip \<noteq> [] \<or> fp \<noteq> []) \<and> exponent_part r2)"

definition full_number :: "string \<Rightarrow> bool" where
  "full_number s \<longleftrightarrow>
     unsigned_number (if s \<noteq> [] \<and> (hd s = CHR ''+'' \<or> hd s = CHR ''-'') then tl s else s)"

fun numericField :: "jsval \<Rightarrow> jsnum option" where
  "numericField (JNum n) = (if is_finite n then Some n else None)"
| "numericField (JStr s) =
     (let trimmed = trim s in
      if trimmed = [] \<or> \<not> full_number trimmed then None
      else let parsed = number_str trimmed in if is_finite parsed then Some parsed else None)"
| "numericField _ = None"

definition isAbsentField :: "jsval \<Rightarrow> bool" where
  "isAbsentField value \<longleftrightarrow> value = JUndef \<or> value = JNull \<or> value = JStr []"

datatype fault = REQUIRED | NOT_A_NUMBER | NOT_POSITIVE

definition positiveFieldFault :: "jsval \<Rightarrow> fault option" where
  "positiveFieldFault value =
     (if isAbsentField value then Some REQUIRED
      else case numericField value of
        None \<Rightarrow> Some NOT_A_NUMBER
      | Some parsed \<Rightarrow> if \<not> parsed > Fin 0 then Some NOT_POSITIVE else None)"

text \<open>
  The exponent of a spelling of the language is always well formed, so the integer parse of
  what follows the letter is the exponent itself.
\<close>

definition exponent_of :: "string \<Rightarrow> int" where
  "exponent_of s =
     (if s \<noteq> [] \<and> hd s = CHR ''-'' then - digits_val (tl s)
      else if s \<noteq> [] \<and> hd s = CHR ''+'' then digits_val (tl s) else digits_val s)"

definition places_after_dot :: "string \<Rightarrow> int" where
  "places_after_dot s =
     (if CHR ''.'' \<in> set s then int (length s) - index_of (CHR ''.'') s - 1 else 0)"

definition decimalPlaces :: "jsval \<Rightarrow> int option" where
  "decimalPlaces value = (case numericField value of
      None \<Rightarrow> None
    | Some parsed \<Rightarrow>
        let text = num_to_string (abs parsed);
            is_e = (\<lambda>c. c = CHR ''e'' \<or> c = CHR ''E'')
        in if \<not> has_exponent text then Some (places_after_dot text)
           else let mantissa = takeWhile (\<lambda>c. \<not> is_e c) text;
                    exponent = exponent_of (tl (dropWhile (\<lambda>c. \<not> is_e c) text))
                in Some (max (places_after_dot mantissa - exponent) 0))"

definition precisionDigits :: "jsval \<Rightarrow> jsnum option" where
  "precisionDigits digits = (case numericField digits of
      None \<Rightarrow> None
    | Some parsed \<Rightarrow> if parsed < Fin 0 \<or> \<not> js_is_integer parsed then None else Some parsed)"

definition exceedsPrecision :: "jsval \<Rightarrow> jsval \<Rightarrow> bool" where
  "exceedsPrecision value digits = (case precisionDigits digits of
      None \<Rightarrow> False
    | Some allowed \<Rightarrow> (case decimalPlaces value of
        None \<Rightarrow> False
      | Some places \<Rightarrow> Fin (of_int places) > allowed))"

section \<open>The order validators\<close>

datatype verdict = Passed | Rejected "(string \<times> string) list"

definition verdict_of :: "(string \<times> string) list \<Rightarrow> verdict" where
  "verdict_of errors = (if errors = [] then Passed else Rejected errors)"

record order_body =
  orderType :: jsval
  spotPairId :: jsval
  price :: jsval
  quantity :: jsval
  orderValue :: jsval
  amount :: jsval
  buyorsell :: jsval

definition SUPPORTED_ORDER_TYPES :: "jsval list" where
  "SUPPORTED_ORDER_TYPES = [JStr ''limit'', JStr ''market'']"

definition UNSUPPORTED_ORDER_TYPES :: "jsval list" where
  "UNSUPPORTED_ORDER_TYPES = [JStr ''stop_limit'', JStr ''stop_market'', JStr ''trailing_stop'']"

text \<open>The check that a string is a database id is the database library's, the parameter \<open>valid_id\<close>.\<close>

definition pair_errors :: "(jsval \<Rightarrow> bool) \<Rightarrow> jsval \<Rightarrow> (string \<times> string) list" where
  "pair_errors valid_id pair =
     (if isEmpty pair then [(''spotPairId'', ''REQUIRED'')]
      else if \<not> valid_id pair then [(''spotPairId'', ''Invalid pair'')] else [])"

definition side_errors :: "jsval \<Rightarrow> (string \<times> string) list" where
  "side_errors side =
     (if isEmpty side then [(''buyorsell'', ''REQUIRED'')]
      else if side \<noteq> JStr ''buy'' \<and> side \<noteq> JStr ''sell'' then [(''buyorsell'', ''INVALID SIDE'')] else [])"

definition fault_errors ::
    "string \<Rightarrow> string \<Rightarrow> string \<Rightarrow> string \<Rightarrow> jsval \<Rightarrow> (string \<times> string) list" where
  "fault_errors fld required numeric positive value = (case positiveFieldFault value of
      Some REQUIRED \<Rightarrow> [(fld, required)]
    | Some NOT_A_NUMBER \<Rightarrow> [(fld, numeric)]
    | Some NOT_POSITIVE \<Rightarrow> [(fld, positive)]
    | None \<Rightarrow> [])"

definition limitOrderValidate :: "(jsval \<Rightarrow> bool) \<Rightarrow> order_body \<Rightarrow> verdict" where
  "limitOrderValidate valid_id reqBody = verdict_of
     (pair_errors valid_id (spotPairId reqBody) @
      fault_errors ''price'' ''Price field is required'' ''Price Value only numeric value''
        ''Price should be greater than zero'' (price reqBody) @
      fault_errors ''quantity'' ''Quantity field is required'' ''Quantity Value only numeric value''
        ''Quantity should be greater than zero'' (quantity reqBody) @
      side_errors (buyorsell reqBody))"

definition marketOrderValidate :: "(jsval \<Rightarrow> bool) \<Rightarrow> order_body \<Rightarrow> verdict" where
  "marketOrderValidate valid_id reqBody = verdict_of
     (pair_errors valid_id (spotPairId reqBody) @
      (if buyorsell reqBody = JStr ''buy''
       then fault_errors ''orderValue'' ''Order Value field is Required''
         ''Order Value only numeric value'' ''Order Value should be greater than zero'' (orderValue reqBody)
       else if buyorsell reqBody = JStr ''sell''
       then fault_errors ''amount'' ''Quantity field is Required''
         ''Quantity only numeric value'' ''Quantity should be greater than zero'' (amount reqBody)
       else []) @
      side_errors (buyorsell reqBody))"

definition orderPlaceValidate :: "(jsval \<Rightarrow> bool) \<Rightarrow> order_body \<Rightarrow> verdict" where
  "orderPlaceValidate valid_id reqBody =
     (let errors =
        (if isEmpty (orderType reqBody) then [(''orderType'', ''REQUIRED'')]
         else if orderType reqBody \<in> set UNSUPPORTED_ORDER_TYPES
         then [(''orderType'', ''UNSUPPORTED_ORDER_TYPE'')]
         else if orderType reqBody \<notin> set SUPPORTED_ORDER_TYPES
         then [(''orderType'', ''INVALID_ORDER_TYPE'')] else [])
      in if errors \<noteq> [] then Rejected errors
         else if orderType reqBody = JStr ''limit'' then limitOrderValidate valid_id reqBody
         else if orderType reqBody = JStr ''market'' then marketOrderValidate valid_id reqBody
         else Rejected [(''orderType'', ''UNSUPPORTED_ORDER_TYPE'')])"

section \<open>One reading of a number\<close>

text \<open>A literal of the pattern parses the same whatever white space follows it.\<close>

lemma ws_not: "is_ws c \<Longrightarrow> \<not> is_digit c \<and> c \<noteq> CHR ''.'' \<and> c \<noteq> CHR ''e'' \<and> c \<noteq> CHR ''E''"
  by (auto simp: is_ws_def is_digit_def)

lemma parse_exp_ws:
  assumes "exponent_part r" and w: "w = [] \<or> is_ws (hd w)"
  obtains e where "\<And>w. w = [] \<or> is_ws (hd w) \<Longrightarrow> parse_exp (r @ w) = (e, w)"
proof (cases r)
  case Nil
  have "parse_exp (r @ w) = (0, w)" if "w = [] \<or> is_ws (hd w)" for w
    using that Nil by (cases w) (auto simp: parse_exp_def dest: ws_not)
  then show ?thesis by (rule that)
next
  case (Cons c s)
  define sg where "sg = (s \<noteq> [] \<and> (hd s = CHR ''+'' \<or> hd s = CHR ''-''))"
  define ds where "ds = (if sg then tl s else s)"
  have c: "c = CHR ''e'' \<or> c = CHR ''E''" and ds: "ds \<noteq> []" "all_digits ds"
    using assms(1) Cons by (auto simp: exponent_part_def Let_def sg_def ds_def)
  have s: "s \<noteq> []" using ds by (auto simp: ds_def split: if_splits)
  define e where "e = (if sg \<and> hd s = CHR ''-'' then - digits_val ds else digits_val ds)"
  have "parse_exp (r @ w) = (e, w)" if w: "w = [] \<or> is_ws (hd w)" for w
  proof -
    have "takeWhile is_digit (ds @ w) = ds" "dropWhile is_digit (ds @ w) = w"
      using takeWhile_digits [OF ds(2), of w] w by (auto dest: ws_not)
    moreover have "(if sg then tl (s @ w) else s @ w) = ds @ w" using s by (simp add: ds_def)
    moreover have "(s @ w \<noteq> [] \<and> (hd (s @ w) = CHR ''+'' \<or> hd (s @ w) = CHR ''-'')) = sg"
      "hd (s @ w) = hd s" using s by (simp_all add: sg_def)
    ultimately show ?thesis
      using c ds(1) unfolding Cons parse_exp_def append_Cons list.case Let_def
      by (auto simp: e_def)
  qed
  then show ?thesis by (rule that)
qed

lemma parse_unsigned_ws:
  assumes "unsigned_number t"
  obtains v where "\<And>w. w = [] \<or> is_ws (hd w) \<Longrightarrow> parse_unsigned (t @ w) = Some (v, w)"
proof -
  define ip r1 where "ip = takeWhile is_digit t" and "r1 = dropWhile is_digit t"
  define dot where "dot = (r1 \<noteq> [] \<and> hd r1 = CHR ''.'')"
  define fp r2 where "fp = (if dot then takeWhile is_digit (tl r1) else [])"
    and "r2 = (if dot then dropWhile is_digit (tl r1) else r1)"
  have t: "t = ip @ r1" by (simp add: ip_def r1_def)
  have full: "ip \<noteq> [] \<or> fp \<noteq> []" "exponent_part r2"
    using assms unfolding unsigned_number_def Let_def ip_def r1_def dot_def fp_def r2_def by blast+
  obtain e where e: "\<And>w. w = [] \<or> is_ws (hd w) \<Longrightarrow> parse_exp (r2 @ w) = (e, w)"
    using parse_exp_ws [OF full(2), of "[]"] by auto
  have ip: "all_digits ip" "all_digits fp"
    by (auto simp: ip_def fp_def all_digits_def list_all_iff dest: set_takeWhileD)
  have dotted: "dot \<longrightarrow> r1 = CHR ''.'' # fp @ r2"
    by (cases r1) (auto simp: dot_def fp_def r2_def)
  have hds: "r1 = [] \<or> \<not> is_digit (hd r1)" "r2 = [] \<or> \<not> is_digit (hd r2)"
    using hd_dropWhile [of is_digit t] hd_dropWhile [of is_digit "tl r1"]
    by (auto simp: r1_def dot_def fp_def r2_def)
  show thesis
  proof (rule that)
    fix w assume w: "w = [] \<or> is_ws (hd w)"
    have nw: "w = [] \<or> \<not> is_digit (hd w) \<and> hd w \<noteq> CHR ''.''" using w by (auto dest: ws_not)
    have 1: "takeWhile is_digit (ip @ r1 @ w) = ip" "dropWhile is_digit (ip @ r1 @ w) = r1 @ w"
      using takeWhile_digits [OF ip(1), of "r1 @ w"] hds(1) nw by (cases r1; auto)+
    have 2: "takeWhile is_digit (fp @ r2 @ w) = fp" "dropWhile is_digit (fp @ r2 @ w) = r2 @ w"
      using takeWhile_digits [OF ip(2), of "r2 @ w"] hds(2) nw by (cases r2; auto)+
    have d: "(r1 @ w \<noteq> [] \<and> hd (r1 @ w) = CHR ''.'') = dot"
      using nw by (cases r1) (auto simp: dot_def)
    have f: "(if dot then takeWhile is_digit (tl (r1 @ w)) else []) = fp"
      "(if dot then dropWhile is_digit (tl (r1 @ w)) else r1 @ w) = r2 @ w"
    proof -
      have "dot \<Longrightarrow> tl (r1 @ w) = fp @ r2 @ w" using dotted by simp
      moreover have "\<not> dot \<Longrightarrow> fp = [] \<and> r2 = r1" by (simp add: fp_def r2_def)
      ultimately show "(if dot then takeWhile is_digit (tl (r1 @ w)) else []) = fp"
        and "(if dot then dropWhile is_digit (tl (r1 @ w)) else r1 @ w) = r2 @ w"
        using 2 by (cases dot; simp)+
    qed
    have inf: "take 8 (ip @ r1 @ w) \<noteq> ''Infinity''"
    proof (cases ip)
      case Nil
      then have "dot" using full(1) by (auto simp: fp_def split: if_splits)
      then show ?thesis using Nil dotted by auto
    next
      case (Cons a b)
      then show ?thesis using ip(1) by (auto dest: digit_not)
    qed
    show "parse_unsigned (t @ w) =
      Some (to_num (of_int (digits_val (ip @ fp)) * 10 powi (e - int (length fp))), w)"
      unfolding t append_assoc parse_unsigned_def Let_def 1 d f
      using inf full(1) e [OF w] by simp
  qed
qed

lemma full_number_parse:
  assumes "full_number t"
  obtains v where "\<And>w. w = [] \<or> is_ws (hd w) \<Longrightarrow> parse_signed (t @ w) = Some (v, w)"
proof -
  define sg where "sg = (t \<noteq> [] \<and> (hd t = CHR ''+'' \<or> hd t = CHR ''-''))"
  define u where "u = (if sg then tl t else t)"
  have u: "unsigned_number u" using assms by (simp add: full_number_def sg_def u_def)
  obtain v where v: "\<And>w. w = [] \<or> is_ws (hd w) \<Longrightarrow> parse_unsigned (u @ w) = Some (v, w)"
    using parse_unsigned_ws [OF u] by metis
  have t: "t \<noteq> []" using assms by (auto simp: full_number_def unsigned_number_def)
  then have "hd (t @ w) = hd t" "tl (t @ w) = tl t @ w" for w by simp_all
  then have "parse_signed (t @ w) = Some (if hd t = CHR ''-'' then - v else v, w)"
    if "w = [] \<or> is_ws (hd w)" for w
    using t v [OF that] by (auto simp: parse_signed_def u_def sg_def)
  then show thesis by (rule that)
qed

lemma full_number_no_base:
  assumes "full_number t" and "c \<in> set ''xXoObB''"
  shows "take 2 t \<noteq> [CHR ''0'', c]"
proof
  assume "take 2 t = [CHR ''0'', c]"
  then obtain r where r: "t = CHR ''0'' # c # r"
    by (metis append_Cons append_Nil append_take_drop_id)
  have "\<not> is_digit c" "is_digit (CHR ''0'')" "c \<noteq> CHR ''.''" "c \<noteq> CHR ''e''" "c \<noteq> CHR ''E''"
    using assms(2) by (auto simp: is_digit_def)
  then show False
    using assms(1) unfolding r by (auto simp: full_number_def unsigned_number_def exponent_part_def Let_def)
qed

lemma trim_trim [simp]: "trim (trim s) = trim s"
proof -
  let ?d = "dropWhile is_ws"
  have tail: "?d (rev (?d (rev x))) = rev (?d (rev x))" if "?d x = x" for x
  proof (cases "?d (rev x)")
    case (Cons c r)
    have "x = rev (?d (rev x)) @ rev (takeWhile is_ws (rev x))"
      by (metis rev_append rev_rev_ident takeWhile_dropWhile_id)
    then have "hd x = hd (rev (?d (rev x)))" "x \<noteq> []" using Cons by (metis hd_append list.simps(3) rev_is_Nil_conv) (use Cons in auto)
    moreover have "\<not> is_ws (hd x)" using that \<open>x \<noteq> []\<close> hd_dropWhile [of is_ws x] by (metis dropWhile_eq_Nil_conv hd_dropWhile)
    ultimately show ?thesis using Cons by (cases "rev (?d (rev x))") auto
  qed simp
  show ?thesis
    unfolding trim_def using tail [of "?d s"] by simp
qed

lemma trim_split:
  obtains w where "dropWhile is_ws s = trim s @ w" and "w = [] \<or> is_ws (hd w)"
proof
  let ?s = "dropWhile is_ws s"
  let ?w = "rev (takeWhile is_ws (rev ?s))"
  show "?s = trim s @ ?w"
    unfolding trim_def by (metis rev_append rev_rev_ident takeWhile_dropWhile_id)
  have "\<forall>c\<in>set ?w. is_ws c" by (auto dest: set_takeWhileD)
  then show "?w = [] \<or> is_ws (hd ?w)" by (metis hd_in_set)
qed

lemma number_str_full:
  assumes "full_number (trim s)" and "trim s \<noteq> []"
  shows "number_str (trim s) = number_str s" and "parse_float_str s = number_str s"
proof -
  let ?t = "trim s"
  obtain v where v: "\<And>w. w = [] \<or> is_ws (hd w) \<Longrightarrow> parse_signed (?t @ w) = Some (v, w)"
    using full_number_parse [OF assms(1)] by metis
  show "number_str ?t = number_str s" by (simp add: number_str_def)
  have "take 2 ?t \<noteq> ''0x''" "take 2 ?t \<noteq> ''0X''" "take 2 ?t \<noteq> ''0o''" "take 2 ?t \<noteq> ''0O''"
    "take 2 ?t \<noteq> ''0b''" "take 2 ?t \<noteq> ''0B''"
    by (rule full_number_no_base [OF assms(1)], simp)+
  then have "number_str s = v" using v [of "[]"] assms(2) by (simp add: number_str_def Let_def)
  moreover obtain w where "dropWhile is_ws s = ?t @ w" "w = [] \<or> is_ws (hd w)"
    by (rule trim_split)
  then have "parse_float_str s = v" using v [of w] by (simp add: parse_float_str_def)
  ultimately show "parse_float_str s = number_str s" by simp
qed

text \<open>An accepted field: finite, and the number every reader of the request takes from it.\<close>

lemma numericField_reading:
  assumes "numericField v = Some n"
  shows "is_finite n" and "to_number v = n" and "parse_float v = n" and "\<not> isEmpty v"
    and "\<not> global_is_nan v"
proof -
  have "is_finite n \<and> to_number v = n \<and> parse_float v = n \<and> \<not> isEmpty v"
    using assms
  proof (cases v)
    case (JStr s)
    then have "trim s \<noteq> []" "full_number (trim s)" "is_finite n" "n = number_str (trim s)"
      using assms by (auto simp: Let_def split: if_splits)
    then show ?thesis using number_str_full [of s] JStr by simp
  qed (auto split: if_splits)
  then show "is_finite n" "to_number v = n" "parse_float v = n" "\<not> isEmpty v" "\<not> global_is_nan v"
    by (auto simp: global_is_nan_def)
qed

section \<open>Counting decimals\<close>

lemma places_spelled:
  assumes "all_digits ip" "all_digits fp"
  shows "places_after_dot (spell (ip, fp, None)) = int (length fp)"
proof -
  have no: "CHR ''.'' \<notin> set ip" "CHR ''.'' \<notin> set fp"
    using assms by (auto simp: all_digits_def list_all_iff)
  then have "list_all (\<lambda>d. d \<noteq> CHR ''.'') ip" by (auto simp: list_all_iff)
  then have "takeWhile (\<lambda>d. d \<noteq> CHR ''.'') (ip @ CHR ''.'' # fp) = ip"
    using takeWhile_dropWhile_append [of "\<lambda>d. d \<noteq> CHR ''.''" ip "CHR ''.'' # fp"] by simp
  then show ?thesis using no by (auto simp: places_after_dot_def index_of_def)
qed

lemma places_exponential:
  fixes k :: int
  assumes "all_digits ip" "all_digits fp"
  defines "text \<equiv> spell (ip, fp, Some k)" and "keep \<equiv> \<lambda>c. \<not> (c = CHR ''e'' \<or> c = CHR ''E'')"
  shows "has_exponent text" and "takeWhile keep text = spell (ip, fp, None)"
    and "exponent_of (tl (dropWhile keep text)) = k"
proof -
  have "list_all keep (spell (ip, fp, None))"
    using no_exponent_spelled [OF assms(1,2)] by (auto simp: has_exponent_def keep_def list_all_iff)
  moreover have "text = spell (ip, fp, None) @ CHR ''e'' # (if k < 0 then CHR ''-'' else CHR ''+'') # digs \<bar>k\<bar>"
    by (simp add: text_def)
  ultimately have *: "takeWhile keep text = spell (ip, fp, None)"
    "dropWhile keep text = CHR ''e'' # (if k < 0 then CHR ''-'' else CHR ''+'') # digs \<bar>k\<bar>"
    using takeWhile_dropWhile_append [of keep "spell (ip, fp, None)"] by (simp_all add: keep_def)
  show "has_exponent text" by (simp add: has_exponent_def text_def)
  show "takeWhile keep text = spell (ip, fp, None)" by (rule *)
  show "exponent_of (tl (dropWhile keep text)) = k" unfolding * by (simp add: exponent_of_def)
qed

lemma num_parts_places:
  assumes "num_parts x = (ip, fp, e)" and "rnd64 x = x" "0 < x"
  shows "max (int (length fp) - (case e of None \<Rightarrow> 0 | Some k \<Rightarrow> k)) 0 = max 0 (- snd (dec_of x))"
proof -
  obtain s p where sp: "dec_of x = (s, p)" by fastforce
  have "0 < length (digs s)"
    using dec_of_pos [OF assms(2,3)] sp digs_nonempty [of s] by simp
  then have "int (length (digs s) - Suc 0) = int (length (digs s)) - 1" by linarith
  then show ?thesis
    using assms(1) by (auto simp: num_parts_def sp Let_def max_def min_def split: if_splits)
qed

text \<open>The decimals counted are those of the shortest decimal that reads back as the number.\<close>

lemma decimal_places_number:
  assumes "is_num (Fin x)" and "x \<noteq> 0"
  shows "decimalPlaces (JNum (Fin x)) = Some (max 0 (- snd (dec_of \<bar>x\<bar>)))"
proof -
  define m where "m = \<bar>x\<bar>"
  have m: "rnd64 m = m" "0 < m" using assms by (auto simp: m_def abs_if rnd64_neg)
  obtain ip fp e where n: "num_parts m = (ip, fp, e)" by (metis prod_cases3)
  have ok: "ip \<noteq> []" "all_digits ip" "all_digits fp" using num_parts_ok(1) [OF m] n by auto
  have spelled: "num_to_string (abs (Fin x)) = spell (ip, fp, e)"
    using m(2) n by (simp add: m_def [symmetric])
  have "decimalPlaces (JNum (Fin x)) = Some (max (int (length fp) - (case e of None \<Rightarrow> 0 | Some k \<Rightarrow> k)) 0)"
  proof (cases e)
    case None
    then show ?thesis
      using no_exponent_spelled [OF ok(2,3)] places_spelled [OF ok(2,3)] spelled
      by (simp add: decimalPlaces_def Let_def del: spell.simps)
  next
    case (Some k)
    show ?thesis
      using places_exponential [OF ok(2,3), of k] places_spelled [OF ok(2,3)] spelled Some
      by (simp add: decimalPlaces_def Let_def del: spell.simps de_Morgan_disj)
  qed
  then show ?thesis using num_parts_places [OF n m] by (simp add: m_def)
qed

text \<open>
  What \<open>toFixedDown\<close> leaves of a value of at least a millionth names no more decimals than it
  was asked to keep, so a quantised size passes the precision rule of its own pair.
\<close>

lemma toFixedDown_precise:
  assumes "is_num (Fin x)" and "1 / 10 ^ 6 \<le> x" and "x < 10 ^ 21" and "d \<le> 100"
  shows "\<not> exceedsPrecision (toFixedDown (JNum (Fin x)) d) (JNum (Fin (of_nat d)))"
proof -
  define K where "K = \<lfloor>dec_val (dec_of x) * 10 ^ d\<rfloor>"
  define y where "y = rnd64 (of_int K / 10 ^ d)"
  have t: "toFixedDown (JNum (Fin x)) d = JNum (Fin y)"
    using toFixedDown_truncates [OF assms(1-3)] by (simp add: y_def K_def)
  have x0: "0 \<le> x" using assms(2) by (rule order_trans [rotated]) simp
  obtain y' where y': "toFixedDown (JNum (Fin x)) d = JNum (Fin y')" "\<bar>y'\<bar> \<le> \<bar>x\<bar>" "0 \<le> x \<Longrightarrow> 0 \<le> y'"
    using toFixedDown_toward_zero [OF assms(1)] assms(3) x0 by (metis abs_of_nonneg)
  then have y: "0 \<le> y" "y \<le> x" using t x0 by auto
  have n: "is_num (Fin y)" using y assms(1) by (auto simp: y_def)
  have "\<exists>p. decimalPlaces (JNum (Fin y)) = Some p \<and> p \<le> int d"
  proof (cases "y = 0")
    case True
    have "decimalPlaces (JNum (Fin 0)) = Some 0" by code_simp
    then show ?thesis using True by simp
  next
    case False
    then have "- int d \<le> snd (dec_of y)"
      using dec_of_grid [of K d y] y(1) assms(4) by (simp add: y_def)
    then show ?thesis using decimal_places_number [OF n False] y(1) by simp
  qed
  then show ?thesis
    unfolding t by (auto simp: exceedsPrecision_def precisionDigits_def split: option.splits)
qed

section \<open>Spellings are accepted\<close>

lemma unsigned_number_spell:
  assumes "parts_ok (ip, fp, e)"
  shows "unsigned_number (spell (ip, fp, e))"
proof -
  have ok: "ip \<noteq> []" "all_digits ip" "all_digits fp" using assms by auto
  define ex where "ex = (case e of None \<Rightarrow> [] | Some k \<Rightarrow>
        CHR ''e'' # (if k < 0 then CHR ''-'' else CHR ''+'') # digs \<bar>k\<bar>)"
  define r1 where "r1 = (if fp = [] then [] else CHR ''.'' # fp) @ ex"
  have ex_hd: "ex = [] \<or> \<not> is_digit (hd ex)" and ex_dot: "ex = [] \<or> hd ex \<noteq> CHR ''.''"
    by (auto simp: ex_def split: option.splits)
  have ex_ok: "exponent_part ex"
    using digs_props [of "\<bar>the e\<bar>"] by (auto simp: ex_def exponent_part_def split: option.splits)
  have "r1 = [] \<or> \<not> is_digit (hd r1)" using ex_hd by (auto simp: r1_def)
  then have 1: "takeWhile is_digit (ip @ r1) = ip" "dropWhile is_digit (ip @ r1) = r1"
    using takeWhile_digits [OF ok(2)] by auto
  have 2: "takeWhile is_digit (fp @ ex) = fp" "dropWhile is_digit (fp @ ex) = ex"
    using takeWhile_digits [OF ok(3) ex_hd] by auto
  have "spell (ip, fp, e) = ip @ r1" by (simp add: r1_def ex_def)
  then show ?thesis
    using ok ex_ok ex_dot 2 unfolding unsigned_number_def Let_def \<open>spell (ip, fp, e) = ip @ r1\<close> 1
    by (auto simp: r1_def)
qed

lemma no_ws_spell:
  assumes "parts_ok (ip, fp, e)" and "c \<in> set (spell (ip, fp, e))"
  shows "\<not> is_ws c"
proof -
  have "is_digit c \<or> c = CHR ''.'' \<or> c = CHR ''e'' \<or> c = CHR ''-'' \<or> c = CHR ''+''"
    using assms digs_props [of "\<bar>the e\<bar>"]
    by (auto simp: all_digits_def list_all_iff split: if_splits option.splits)
  then show ?thesis using digit_not(7) by (auto simp: is_ws_def)
qed

lemma trim_no_ws: "(\<And>c. c \<in> set s \<Longrightarrow> \<not> is_ws c) \<Longrightarrow> trim s = s"
proof -
  have *: "dropWhile is_ws t = t" if "\<And>c. c \<in> set t \<Longrightarrow> \<not> is_ws c" for t
    using that by (cases t) auto
  assume "\<And>c. c \<in> set s \<Longrightarrow> \<not> is_ws c"
  then show ?thesis using * [of s] * [of "rev s"] by (simp add: trim_def)
qed

lemma numericField_number:
  assumes "is_num (Fin x)"
  shows "numericField (JStr (num_to_string (Fin x))) = Some (Fin x)"
proof -
  define s where "s = num_to_string (Fin x)"
  have "full_number s \<and> s \<noteq> [] \<and> (\<forall>c\<in>set s. \<not> is_ws c)"
  proof (cases "x = 0")
    case True
    have "full_number ''0''" "\<not> is_ws (CHR ''0'')" by code_simp+
    then show ?thesis using True by (simp add: s_def)
  next
    case False
    define m where "m = \<bar>x\<bar>"
    have m: "rnd64 m = m" "0 < m" using assms False by (auto simp: m_def abs_if rnd64_neg)
    obtain ip fp e where n: "num_parts m = (ip, fp, e)" by (metis prod_cases3)
    have ok: "parts_ok (ip, fp, e)" using num_parts_ok(1) [OF m] n by simp
    define t where "t = spell (ip, fp, e)"
    obtain c r where c: "t = c # r" "is_digit c" using spell_start [OF ok] t_def by metis
    have un: "unsigned_number t" unfolding t_def by (rule unsigned_number_spell [OF ok])
    have ws: "\<not> is_ws c" if "c \<in> set t" for c using no_ws_spell [OF ok] that t_def by simp
    have "s = (if x < 0 then CHR ''-'' # t else t)"
      using False n by (auto simp: s_def t_def m_def abs_if)
    moreover have "\<not> is_ws (CHR ''-'')" by (simp add: is_ws_def)
    ultimately show ?thesis
      using un ws c digit_not [OF c(2)] by (auto simp: full_number_def)
  qed
  then have f: "full_number s" "s \<noteq> []" "trim s = s" using trim_no_ws [of s] by auto
  then have "number_str s = Fin x"
    using number_str_full(2) [of s] num_to_string_roundtrip [OF assms] by (simp add: s_def)
  then show ?thesis using f by (simp add: s_def Let_def)
qed

section \<open>Properties\<close>

definition positive_number :: "jsval \<Rightarrow> bool" where
  "positive_number v = (case numericField v of Some n \<Rightarrow> n > Fin 0 | None \<Rightarrow> False)"

lemma positiveFieldFault_none: "positiveFieldFault v = None \<longleftrightarrow> positive_number v"
  by (cases v) (auto simp: positiveFieldFault_def positive_number_def isAbsentField_def trim_def
      split: option.splits)

lemma errors_none [simp]:
  "pair_errors valid_id p = [] \<longleftrightarrow> \<not> isEmpty p \<and> valid_id p"
  "side_errors b = [] \<longleftrightarrow> b = JStr ''buy'' \<or> b = JStr ''sell''"
  "fault_errors f r n m v = [] \<longleftrightarrow> positive_number v"
  "verdict_of es = Passed \<longleftrightarrow> es = []"
proof -
  have "isEmpty (JStr ''buy'') = False" "isEmpty (JStr ''sell'') = False" by code_simp+
  then show "side_errors b = [] \<longleftrightarrow> b = JStr ''buy'' \<or> b = JStr ''sell''"
    by (auto simp: side_errors_def)
qed (auto simp: pair_errors_def fault_errors_def verdict_of_def positiveFieldFault_none [symmetric]
    split: option.splits fault.splits)

text \<open>The order endpoint lets a request through exactly when it names a supported order type, a
  side, a valid pair and, for that type and side, positive numbers in the fields the handler reads.\<close>

theorem orderPlaceValidate_passes:
  "orderPlaceValidate valid_id b = Passed \<longleftrightarrow>
     \<not> isEmpty (spotPairId b) \<and> valid_id (spotPairId b) \<and>
     (buyorsell b = JStr ''buy'' \<or> buyorsell b = JStr ''sell'') \<and>
     (orderType b = JStr ''limit'' \<and> positive_number (price b) \<and> positive_number (quantity b) \<or>
      orderType b = JStr ''market'' \<and>
        positive_number (if buyorsell b = JStr ''buy'' then orderValue b else amount b))"
proof -
  have "isEmpty (JStr ''limit'') = False" "isEmpty (JStr ''market'') = False" by code_simp+
  then show ?thesis
    by (auto simp: orderPlaceValidate_def limitOrderValidate_def marketOrderValidate_def Let_def
        SUPPORTED_ORDER_TYPES_def UNSUPPORTED_ORDER_TYPES_def)
qed

text \<open>From a millionth up, rounding down to \<open>d\<close> decimals is the truncation of the decimal the
  number is spelled with, rounded to the nearest double, and the result never exceeds a
  precision of \<open>d\<close> digits.\<close>

theorem toFixedDown_quantises:
  assumes "is_num (Fin x)" and "1 / 10 ^ 6 \<le> x" and "x < 10 ^ 21" and "d \<le> 100"
  shows "toFixedDown (JNum (Fin x)) d =
      JNum (Fin (rnd64 (of_int \<lfloor>dec_val (dec_of x) * 10 ^ d\<rfloor> / 10 ^ d))) \<and>
    \<not> exceedsPrecision (toFixedDown (JNum (Fin x)) d) (JNum (Fin (of_nat d)))"
  using toFixedDown_truncates [OF assms(1-3)] toFixedDown_precise [OF assms] by blast

theorem toFixedDown_quantises_witness:
  "toFixedDown (JNum (Fin (25 / 8))) 2 =
      JNum (Fin (rnd64 (of_int \<lfloor>dec_val (dec_of (25 / 8)) * 10 ^ 2\<rfloor> / 10 ^ 2))) \<and>
    \<not> exceedsPrecision (toFixedDown (JNum (Fin (25 / 8))) 2) (JNum (Fin (of_nat 2)))"
proof (rule toFixedDown_quantises)
  show "is_num (Fin (25 / 8))" by code_simp
qed simp_all

text \<open>C30: A field the validators accept as a number is finite, is not empty, and is read as the same
  number by every conversion the handlers use.\<close>

theorem accepted_field_reads_alike:
  assumes "numericField v = Some n"
  shows "is_finite n \<and> to_number v = n \<and> parse_float v = n \<and> \<not> isEmpty v \<and> \<not> global_is_nan v"
  using numericField_reading [OF assms] by blast

theorem accepted_field_reads_alike_witness:
  "is_finite (Fin (5 / 2)) \<and> to_number (JStr '' 2.5'') = Fin (5 / 2) \<and> parse_float (JStr '' 2.5'') = Fin (5 / 2) \<and>
   \<not> isEmpty (JStr '' 2.5'') \<and> \<not> global_is_nan (JStr '' 2.5'')"
proof (rule accepted_field_reads_alike)
  show "numericField (JStr '' 2.5'') = Some (Fin (5 / 2))" by code_simp
qed

text \<open>Every finite number the language can spell is accepted back, as itself.\<close>

theorem spelled_number_accepted:
  assumes "is_num (Fin x)"
  shows "numericField (JStr (num_to_string (Fin x))) = Some (Fin x)"
  by (rule numericField_number [OF assms])

theorem spelled_number_accepted_witness:
  "numericField (JStr (num_to_string (Fin (1 / 2 ^ 30)))) = Some (Fin (1 / 2 ^ 30))"
proof (rule spelled_number_accepted)
  show "is_num (Fin (1 / 2 ^ 30))" by code_simp
qed

end
