(* ===== verification/SpotState.thy ===== *)
theory SpotState
  imports Ledger NumericField
begin

text \<open>
  The data of the spot exchange shared by its handlers: the order and pair documents, the store
  with the open-order tables and the pair cache, and the messages a handler sends. Orders live
  in the Redis hashes \<^verbatim>\<open>buyOpenOrders_<pair>\<close> and \<^verbatim>\<open>sellOpenOrders_<pair>\<close> as JSON text; a row is
  the order the text parses to, or a text that does not parse.
\<close>

section \<open>Documents\<close>

text \<open>
  The fields of an order the exchange computes with; the date is its time in milliseconds, absent
  when there is none that can be read. Fields a document may lack, and the price
  that may be the word market, are dynamic values; a flag that is absent is false.
\<close>

record order =
  o_id :: oid
  o_user :: user_id
  o_pair :: pair_id
  o_first_id :: currency_id
  o_first :: string
  o_first_digits :: jsval
  o_second_id :: currency_id
  o_second :: string
  o_second_digits :: jsval
  o_side :: string
  o_type :: string
  o_price :: jsval
  o_quantity :: jsval
  o_amount :: jsval
  o_value :: jsval
  o_open_quantity :: jsval
  o_open_value :: jsval
  o_average :: jsval
  o_ref_price :: jsval
  o_filled :: jsval
  o_liquidity :: string
  o_role :: jsval
  o_is_maker :: bool
  o_flag :: bool
  o_is_paper :: bool
  o_is_liquidity :: bool
  o_status :: string
  o_reserved :: jsval
  o_released :: jsval
  o_before :: jsval
  o_after :: jsval
  o_code :: jsval
  o_date :: "int option"

record pair =
  p_id :: pair_id
  p_first_id :: currency_id
  p_first :: string
  p_first_digits :: jsval
  p_second_id :: currency_id
  p_second :: string
  p_second_digits :: jsval
  p_status :: string
  p_botstatus :: string
  p_mark :: jsval
  p_prev_mark :: jsval
  p_min_quantity :: jsval
  p_max_quantity :: jsval
  p_min_pct :: jsval
  p_max_pct :: jsval
  p_min_value :: jsval
  p_max_value :: jsval

datatype 'a row = Row 'a | Garbled

text \<open>A fill as the matcher hands it to the recorder, and the trade the recorder stores.\<close>

record fill =
  f_buy :: order
  f_sell :: order
  f_unique :: nat
  f_price :: jsval
  f_maker :: string
  f_quantity :: jsval
  f_type :: string

record trade =
  t_pair :: pair_id
  t_buy_user :: user_id
  t_sell_user :: user_id
  t_unique :: nat
  t_price :: jsval
  t_quantity :: jsval
  t_value :: jsval
  t_buy_price :: jsval
  t_sell_price :: jsval
  t_buy_type :: string
  t_sell_type :: string
  t_maker :: string
  t_buy_order :: oid
  t_sell_order :: oid
  t_created :: int

text \<open>What JSON keeps of a value: a number that is not finite is written as null.\<close>

fun json_val :: "jsval \<Rightarrow> jsval" where
  "json_val (JNum n) = (if is_finite n then JNum n else JNull)"
| "json_val v = v"

definition json_order :: "order \<Rightarrow> order" where
  "json_order o1 = o1\<lparr>o_first_digits := json_val (o_first_digits o1), o_second_digits := json_val (o_second_digits o1),
     o_price := json_val (o_price o1), o_quantity := json_val (o_quantity o1),
     o_amount := json_val (o_amount o1), o_value := json_val (o_value o1),
     o_open_quantity := json_val (o_open_quantity o1), o_open_value := json_val (o_open_value o1),
     o_average := json_val (o_average o1), o_ref_price := json_val (o_ref_price o1),
     o_filled := json_val (o_filled o1), o_role := json_val (o_role o1),
     o_reserved := json_val (o_reserved o1), o_released := json_val (o_released o1),
     o_before := json_val (o_before o1), o_after := json_val (o_after o1), o_code := json_val (o_code o1)\<rparr>"

section \<open>Messages\<close>

text \<open>
  What a handler sends and does not wait for: a line of the user's passbook, the write of an
  order to the history database, a change to the published quantity at a price, a balance
  pushed to the user's socket, the record of a fill, a price for the chart, the cancellation of
  a market order that nothing can fill. The ones that touch the store are handlers of their own.
\<close>

record passbook_line =
  pb_user :: user_id
  pb_coin :: string
  pb_currency :: currency_id
  pb_table :: oid
  pb_before :: jsval
  pb_after :: jsval
  pb_amount :: jsval
  pb_type :: string
  pb_category :: string

datatype effect =
    Passbook passbook_line
  | SaveHistory order
  | BookChange string pair_id jsval jsval jsval
  | AssetPush user_id currency_id jsval
  | NewTrade fill
  | ChartPrice pair_id jsval
  | CancelMarket string oid
  | VenueCancel oid

section \<open>The store of the exchange\<close>

text \<open>
  Beside the tables: the documents of the two databases, the trades of a pair by their draw, the
  last fills of a pair by side, the published quantity at each price in whole units of the pair, the row that names the account of the house, and the variables
  the spot controller keeps in its module: the pair being matched, whether a match is running,
  the pairs that are locked, and the orders and fills waiting to be recorded.
\<close>

record spot = redis +
  tables :: "string \<Rightarrow> (oid \<times> order row) list"
  pairs :: "(pair_id \<times> pair row) list"
  history :: "user_id \<Rightarrow> (oid \<times> order) list"
  sent :: "effect list"
  pair_docs :: "(pair_id \<times> pair) list"
  order_docs :: "(oid \<times> order) list"
  trade_rows :: "pair_id \<Rightarrow> (nat \<times> trade) list"
  depth :: "string \<Rightarrow> pair_id \<Rightarrow> (jsval \<times> jsval) list"
  levels :: "string \<Rightarrow> string \<Rightarrow> int option"
  admin :: "user_id row option"
  tradePair :: pair_id
  isRun :: bool
  pairLocks :: "pair_id list"
  orderHistArr :: "order list"
  tradeHistArr :: "fill list"
  draws :: nat

definition send :: "effect \<Rightarrow> spot \<Rightarrow> spot" where
  "send e st = st\<lparr>sent := sent st @ [e]\<rparr>"

definition sends :: "effect list \<Rightarrow> spot \<Rightarrow> spot" where
  "sends es st = st\<lparr>sent := sent st @ es\<rparr>"

definition open_table :: "string \<Rightarrow> pair_id \<Rightarrow> string" where
  "open_table side pid = side @ ''OpenOrders_'' @ pid"

definition hset_order :: "string \<Rightarrow> oid \<Rightarrow> order \<Rightarrow> spot \<Rightarrow> spot" where
  "hset_order key i o1 st = st\<lparr>tables := (tables st)(key := put i (Row (json_order o1)) (tables st key))\<rparr>"

definition hget_order :: "string \<Rightarrow> oid \<Rightarrow> spot \<Rightarrow> order row option" where
  "hget_order key i st = map_of (tables st key) i"

text \<open>Reading a row and removing it is one script: of several callers one receives the row.\<close>

definition hgetdel :: "string \<Rightarrow> oid \<Rightarrow> spot \<Rightarrow> spot \<times> order row option" where
  "hgetdel key i st =
     (case map_of (tables st key) i of
        None \<Rightarrow> (st, None)
      | Some v \<Rightarrow> (st\<lparr>tables := (tables st)(key := remove_field i (tables st key))\<rparr>, Some v))"

definition hdel_order :: "string \<Rightarrow> oid \<Rightarrow> spot \<Rightarrow> spot" where
  "hdel_order key i st = st\<lparr>tables := (tables st)(key := remove_field i (tables st key))\<rparr>"

text \<open>The rows of a table that parse, or nothing when the table does not exist.\<close>

definition orders_of :: "(oid \<times> order row) list \<Rightarrow> order list" where
  "orders_of rows = List.map_filter (\<lambda>(_, r). case r of Row o1 \<Rightarrow> Some o1 | Garbled \<Rightarrow> None) rows"

definition hgetall_orders :: "string \<Rightarrow> spot \<Rightarrow> order list option" where
  "hgetall_orders key st = (if tables st key = [] then None else Some (orders_of (tables st key)))"

text \<open>The account of the house: the row may be absent, and a row that does not parse raises.\<close>

definition house_account :: "spot \<Rightarrow> user_id option reply" where
  "house_account st =
     (if \<not> online st then Raised
      else case admin st of
        None \<Rightarrow> Done None | Some (Row u) \<Rightarrow> Done (Some u) | Some Garbled \<Rightarrow> Raised)"

definition parseOrder :: "order row option \<Rightarrow> order option" where
  "parseOrder r = (case r of Some (Row o1) \<Rightarrow> Some o1 | _ \<Rightarrow> None)"

definition hset_history :: "user_id \<Rightarrow> oid \<Rightarrow> order \<Rightarrow> spot \<Rightarrow> spot" where
  "hset_history u i o1 st = st\<lparr>history := (history st)(u := put i (json_order o1) (history st u))\<rparr>"

lemma parseOrder_some [simp]: "parseOrder r = Some o1 \<longleftrightarrow> r = Some (Row o1)"
  by (auto simp: parseOrder_def split: option.splits row.splits)

lemma hgetdel_row:
  "hgetdel key i st = (st', v) \<Longrightarrow> v = map_of (tables st key) i \<and>
     tables st' = (tables st)(key := remove_field i (tables st key))"
  by (auto simp: hgetdel_def remove_field_absent split: option.splits)

section \<open>Sample documents\<close>

definition sample_order :: order where
  "sample_order = \<lparr>o_id = ''o1'', o_user = ''u'', o_pair = ''p'', o_first_id = ''b'', o_first = ''BTC'',
     o_first_digits = JNum (Fin 8), o_second_id = ''q'', o_second = ''USD'', o_second_digits = JNum (Fin 2),
     o_side = ''buy'', o_type = ''limit'', o_price = JNum (Fin 5), o_quantity = JNum (Fin 2),
     o_amount = JUndef, o_value = JNum (Fin 10), o_open_quantity = JNum (Fin 2), o_open_value = JUndef,
     o_average = JNum (Fin 0), o_ref_price = JNum (Fin 5), o_filled = JNum (Fin 0), o_liquidity = ''off'',
     o_role = JStr ''maker'', o_is_maker = False, o_flag = False, o_is_paper = False, o_is_liquidity = False, o_status = ''open'',
     o_reserved = JNum (Fin 10), o_released = JNum (Fin 0), o_before = JUndef, o_after = JUndef, o_code = JUndef, o_date = Some 0\<rparr>"

definition blank_spot :: spot where
  "blank_spot = redis.extend blank_store \<lparr>tables = \<lambda>_. [], pairs = [], history = \<lambda>_. [], sent = [],
     pair_docs = [], order_docs = [], trade_rows = \<lambda>_. [], depth = \<lambda>_ _. [], levels = \<lambda>_ _. None, admin = None, tradePair = [],
     isRun = False, pairLocks = [], orderHistArr = [], tradeHistArr = [], draws = 0\<rparr>"

lemma blank_spot_sel [simp]:
  "online blank_spot = True" "clock blank_spot = 0" "hashes blank_spot = (\<lambda>_ _. None)"
  "streams blank_spot = (\<lambda>_. [])" "keys blank_spot = (\<lambda>_. None)" "tables blank_spot = (\<lambda>_. [])"
  "admin blank_spot = None" "tradePair blank_spot = []" "pairLocks blank_spot = []" "pair_docs blank_spot = []"
  "orderHistArr blank_spot = []" "tradeHistArr blank_spot = []" "draws blank_spot = 0" "isRun blank_spot = False"
  "order_docs blank_spot = []" "trade_rows blank_spot = (\<lambda>_. [])" "depth blank_spot = (\<lambda>_ _. [])"
  "levels blank_spot = (\<lambda>_ _. None)"
  "pairs blank_spot = []" "history blank_spot = (\<lambda>_. [])" "sent blank_spot = []" "next_id blank_spot = 1"
  by (simp_all add: blank_spot_def redis.extend_def blank_store_def)

end
