(* ===== verification/Reservation.thy ===== *)
theory Reservation
  imports SpotState
begin

text \<open>
  How an order holds money (\<^verbatim>\<open>cryptodex-spotapi/controllers/spot.controller.js\<close>, the helpers above
  the handlers): the size an order is quantised to, what a market order is charged, the part of
  a limit order's reservation it still holds, its release into the in-order ledger, and the sweep
  of residue nothing owns. An order's own record of its reservation is the fields
  \<open>o_reserved\<close> and \<open>o_released\<close>; the ledger of all reservations is the hash
  \<^verbatim>\<open>walletbalance_spot_inOrder\<close>.
\<close>

section \<open>Sizes\<close>

definition readSpotBalanceNumber :: "user_id \<Rightarrow> currency_id \<Rightarrow> spot \<Rightarrow> jsnum" where
  "readSpotBalanceNumber userId currencyId st =
     finite_or_zero (field_float (hashes st ''walletbalance_spot'' (userId, currencyId)))"

text \<open>
  A count of decimals reaches the rounding as part of a pattern: left out it is two, a natural
  number is itself, and anything else spells a pattern no number matches.
\<close>

definition pattern_digits :: "jsval \<Rightarrow> nat option" where
  "pattern_digits v = (case v of
      JUndef \<Rightarrow> Some 2
    | _ \<Rightarrow> (let s = to_string v in
        if s \<noteq> [] \<and> all_digits s then Some (nat (digits_val s)) else None))"

definition toFixedDownBy :: "jsval \<Rightarrow> jsval \<Rightarrow> jsval" where
  "toFixedDownBy item digits = (case pattern_digits digits of
      Some d \<Rightarrow> toFixedDown item d
    | None \<Rightarrow> if \<not> isEmpty item \<and> \<not> global_is_nan item \<and> is_finite (parse_float item)
              then JNum (parse_float item) else JStr [])"

text \<open>A result of the rounding that is a finite number, or else the fallback.\<close>

definition finite_result :: "jsval \<Rightarrow> jsnum \<Rightarrow> jsnum" where
  "finite_result v fallback = (case v of JNum n \<Rightarrow> if is_finite n then n else fallback | _ \<Rightarrow> fallback)"

definition quantiseOrderSize :: "jsval \<Rightarrow> jsval \<Rightarrow> jsnum" where
  "quantiseOrderSize v digits =
     (let requested = parse_float v in
      case precisionDigits digits of
        None \<Rightarrow> requested
      | Some allowed \<Rightarrow>
          if \<not> is_finite requested then requested
          else (case decimalPlaces (JNum requested) of
            None \<Rightarrow> requested
          | Some places \<Rightarrow>
              if Fin (of_int places) \<le> allowed then requested
              else finite_result (toFixedDown (JNum requested) (nat_of_num allowed)) requested))"

definition marketOrderDebitCurrencyId :: "order_body \<Rightarrow> pair \<Rightarrow> currency_id" where
  "marketOrderDebitCurrencyId reqBody p =
     (if buyorsell reqBody = JStr ''buy'' then p_second_id p else p_first_id p)"

definition marketOrderQuantity :: "order_body \<Rightarrow> pair \<Rightarrow> jsnum" where
  "marketOrderQuantity reqBody p =
     (if buyorsell reqBody \<noteq> JStr ''buy'' then parse_float (amount reqBody)
      else finite_result (toFixedDownBy (JNum (parse_float (orderValue reqBody) / to_number (p_mark p)))
             (p_first_digits p)) NaN)"

definition marketOrderDebitValue :: "order_body \<Rightarrow> pair \<Rightarrow> jsnum" where
  "marketOrderDebitValue reqBody p =
     (if buyorsell reqBody \<noteq> JStr ''buy'' then parse_float (amount reqBody)
      else let q = marketOrderQuantity reqBody p in
        if \<not> is_finite q then NaN else q * to_number (p_mark p))"

definition isMarketOrderUnaffordable :: "user_id \<Rightarrow> order_body \<Rightarrow> pair \<Rightarrow> spot \<Rightarrow> bool" where
  "isMarketOrderUnaffordable userId reqBody p st =
     (let debit = marketOrderDebitValue reqBody p in
      if \<not> is_finite debit \<or> debit \<le> Fin 0 \<or> \<not> online st then False
      else case hashes st ''walletbalance_spot'' (userId, marketOrderDebitCurrencyId reqBody p) of
        None \<Rightarrow> False
      | Some raw \<Rightarrow> let balance = field_float (Some raw) in
          if \<not> is_finite balance then False else balance < debit)"

section \<open>What an order still holds\<close>

definition reservationRemaining :: "order \<Rightarrow> jsnum option" where
  "reservationRemaining o1 =
     (let reserved = parse_float (o_reserved o1) in
      if \<not> is_finite reserved \<or> reserved \<le> Fin 0 then None
      else let released = parse_float (o_released o1);
               given = (if is_finite released \<and> released > Fin 0 then released else Fin 0)
           in Some (js_max (reserved - given) (Fin 0)))"

definition markReservationRetired :: "order \<Rightarrow> order" where
  "markReservationRetired o1 =
     (let reserved = parse_float (o_reserved o1) in
      if is_finite reserved \<and> reserved > Fin 0 then o1\<lparr>o_released := JNum reserved\<rparr> else o1)"

definition unspentReservationOf :: "order \<Rightarrow> jsval \<Rightarrow> jsnum" where
  "unspentReservationOf o1 consumed =
     (if o_flag o1 \<or> o_is_paper o1 then Fin 0
      else case reservationRemaining o1 of
        None \<Rightarrow> Fin 0
      | Some remaining \<Rightarrow>
          let spent = parse_float consumed;
              unspent = remaining - (if is_finite spent \<and> spent > Fin 0 then spent else Fin 0)
          in if unspent > Fin 0 then unspent else Fin 0)"

section \<open>The in-order ledger\<close>

text \<open>A missing or empty field counts as zero.\<close>

definition float_or_zero :: "rval option \<Rightarrow> jsnum" where
  "float_or_zero v = (if v = None \<or> v = Some (RText []) then Fin 0 else field_float v)"

definition RESIDUAL_IN_ORDER_DUST :: jsnum where
  "RESIDUAL_IN_ORDER_DUST = to_num (1 / 10 ^ 7)"

definition reservedCurrencyOf :: "order \<Rightarrow> currency_id" where
  "reservedCurrencyOf o1 = (if o_side o1 = ''buy'' then o_second_id o1 else o_first_id o1)"

definition IN_ORDER :: string where
  "IN_ORDER = ''walletbalance_spot_inOrder''"

text \<open>An open limit order of the user that reserves the currency.\<close>

definition reserves :: "user_id \<Rightarrow> currency_id \<Rightarrow> order row \<Rightarrow> bool" where
  "reserves userId currencyId r = (case r of
      Garbled \<Rightarrow> False
    | Row o1 \<Rightarrow> \<not> o_is_paper o1 \<and> \<not> o_flag o1 \<and> o_type o1 = ''limit'' \<and> o_user o1 = userId \<and>
        reservedCurrencyOf o1 = currencyId)"

definition listed_pairs :: "spot \<Rightarrow> pair list" where
  "listed_pairs st = List.map_filter (\<lambda>(_, r). case r of Row p \<Rightarrow> Some p | Garbled \<Rightarrow> None) (pairs st)"

definition something_reserves :: "user_id \<Rightarrow> currency_id \<Rightarrow> spot \<Rightarrow> bool" where
  "something_reserves userId currencyId st =
     list_ex (\<lambda>p. list_ex (\<lambda>side. list_ex (\<lambda>(_, r). reserves userId currencyId r)
       (tables st (open_table side (p_id p)))) [''buy'', ''sell'']) (listed_pairs st)"

text \<open>A residue too small to be an order's is given back when no open order explains it.\<close>

definition sweepResidualInOrder :: "service \<Rightarrow> user_id \<Rightarrow> currency_id \<Rightarrow> spot \<Rightarrow> spot" where
  "sweepResidualInOrder svc userId currencyId st =
     (if userId = [] \<or> currencyId = [] \<or> \<not> online st then st
      else let current = float_or_zero (hashes st IN_ORDER (userId, currencyId))
           in if \<not> is_finite current \<or> current \<le> Fin 0 then st
              else if current > RESIDUAL_IN_ORDER_DUST then st
              else if listed_pairs st = [] then st
              else if something_reserves userId currencyId st then st
              else fst (hincbyfloat svc IN_ORDER (userId, currencyId) (- current) st))"

text \<open>
  The release of a reservation: never more than the order still holds, never more than the
  ledger has. The order comes back with what it has now released; the call fails only when
  the ledger cannot be read.
\<close>

definition retire :: "service \<Rightarrow> bool \<Rightarrow> currency_id \<Rightarrow> spot \<times> order \<Rightarrow> spot \<times> order" where
  "retire svc final currencyId so =
     (if final then (sweepResidualInOrder svc (o_user (snd so)) currencyId (fst so),
                     markReservationRetired (snd so)) else so)"

definition release_wanted :: "order \<Rightarrow> jsval \<Rightarrow> bool \<Rightarrow> jsnum" where
  "release_wanted o1 amt final =
     (let release = parse_float amt in
      case reservationRemaining o1 of
        None \<Rightarrow> release
      | Some remaining \<Rightarrow>
          if final then remaining
          else js_min (if is_finite release then release else Fin 0) remaining)"

definition releaseInOrder ::
    "service \<Rightarrow> order \<Rightarrow> currency_id \<Rightarrow> jsval \<Rightarrow> bool \<Rightarrow> spot \<Rightarrow> spot \<times> order \<times> unit reply" where
  "releaseInOrder svc o1 currencyId amt final st =
     (if o_flag o1 \<or> o_is_paper o1 then (st, o1, Done ())
      else let release = release_wanted o1 amt final in
        if \<not> release > Fin 0
        then let (st', o2) = retire svc final currencyId (st, o1) in (st', o2, Done ())
        else if \<not> online st then (st, o1, Raised)
        else let current = float_or_zero (hashes st IN_ORDER (o_user o1, currencyId));
                 applied = js_min release (js_max current (Fin 0))
             in if \<not> applied > Fin 0
                then let (st', o2) = retire svc final currencyId (st, o1) in (st', o2, Done ())
                else let st1 = fst (hincbyfloat svc IN_ORDER (o_user o1, currencyId) (- applied) st);
                         given = parse_float (o_released o1);
                         o2 = (if reservationRemaining o1 \<noteq> None
                               then o1\<lparr>o_released := JNum ((if is_finite given \<and> given > Fin 0 then given else Fin 0) + applied)\<rparr>
                               else o1);
                         (st', o3) = retire svc final currencyId (st1, o2)
                     in (st', o3, Done ()))"

section \<open>Refunds and credits\<close>

definition refundUnspentReservation ::
    "service \<Rightarrow> order \<Rightarrow> currency_id \<Rightarrow> string \<Rightarrow> jsnum \<Rightarrow> spot \<Rightarrow> spot \<times> rval option" where
  "refundUnspentReservation svc o1 currencyId coin unspent st =
     (if \<not> unspent > Fin 0 then (st, None)
      else let (st1, rep) = moveBalanceSigned svc ''walletbalance_spot'' (o_user o1, currencyId) (JNum unspent)
                 ''unspent_reservation_refund'' (o_id o1) st;
               after1 = (case rep of Done v \<Rightarrow> Some v | _ \<Rightarrow> None);
               aft = field_float after1
           in (send (Passbook \<lparr>pb_user = o_user o1, pb_coin = coin, pb_currency = currencyId, pb_table = o_id o1,
                 pb_before = JNum (aft - unspent), pb_after = JNum aft, pb_amount = JNum unspent,
                 pb_type = ''spot_escrow_dust_retrieve'', pb_category = ''credit''\<rparr>) st1, after1))"

text \<open>A credit to a synthetic counterparty moves nothing; a failed one answers null.\<close>

definition settlementCredit ::
    "service \<Rightarrow> order \<Rightarrow> currency_id \<Rightarrow> jsval \<Rightarrow> bool \<Rightarrow> spot \<Rightarrow> spot \<times> rval option" where
  "settlementCredit svc o1 currencyId amt synthetic st =
     (if synthetic then (st, None)
      else case moveBalanceLogged svc ''walletbalance_spot'' (o_user o1, currencyId) amt Credit
          ''fill_settlement'' (o_id o1) None st of
        (st', Done (v, _)) \<Rightarrow> (st', Some v)
      | (st', _) \<Rightarrow> (st', None))"

section \<open>Sizes are only ever cut\<close>

definition num_val :: "jsval \<Rightarrow> bool" where
  "num_val v \<longleftrightarrow> is_num (parse_float v)"

lemma quantise_cut:
  assumes "parse_float v = Fin x" "is_num (Fin x)" "0 \<le> x" "x < 10 ^ 21"
  obtains y where "quantiseOrderSize v digits = Fin y" and "0 \<le> y" and "y \<le> x"
proof -
  let ?d = "nat_of_num (the (precisionDigits digits))"
  obtain y where y: "toFixedDown (JNum (Fin x)) ?d = JNum (Fin y)" "0 \<le> y" "y \<le> x"
    using toFixedDown_toward_zero [OF assms(2), of ?d] assms(3,4) by force
  have "quantiseOrderSize v digits = Fin x \<or> quantiseOrderSize v digits = Fin y"
    using y(1) assms(1) by (auto simp: quantiseOrderSize_def Let_def finite_result_def split: option.splits)
  then show ?thesis using that y assms(3) by blast
qed

section \<open>Releases\<close>

lemma spelling_minus: "spelling (- x) = - spelling x"
  by (simp add: spelling_def)

lemma hincbyfloat_minus:
  assumes "hashes st key f = Some (RDec q)" and "online st"
  shows "fst (hincbyfloat svc key f (- Fin a) st) =
    put_hash key f (Some (RDec (incr_round svc (q - spelling a)))) st"
  using assms
  by (simp add: hincbyfloat_def HINCRBYFLOAT_def spelled_spelling spelling_minus Let_def del: spelled.simps(1))

lemma remaining_bounds:
  assumes "reservationRemaining o1 = Some r" and "num_val (o_reserved o1)" and "num_val (o_released o1)"
  obtains R x where "parse_float (o_reserved o1) = Fin R" and "0 < R" and "rnd64 R = R"
    and "r = Fin x" and "0 \<le> x" and "x \<le> R" and "is_num (Fin x)"
proof -
  obtain R where R: "parse_float (o_reserved o1) = Fin R" "0 < R"
    using assms(1) by (cases "parse_float (o_reserved o1)") (auto simp: reservationRemaining_def Let_def split: if_splits)
  have numR: "is_num (Fin R)" using assms(2) R by (simp add: num_val_def)
  define g where "g = (let released = parse_float (o_released o1) in
      if is_finite released \<and> released > Fin 0 then released else Fin 0)"
  obtain G where G: "g = Fin G" "0 \<le> G" "is_num (Fin G)"
  proof (cases "parse_float (o_released o1)")
    case (Fin z)
    show ?thesis
    proof (cases "0 < z")
      case True
      then show ?thesis using that [of z] Fin assms(3) by (auto simp: g_def num_val_def)
    next
      case False
      then show ?thesis using that [of 0] Fin by (simp add: g_def)
    qed
  qed (use that [of 0] in \<open>auto simp: g_def\<close>)
  have r: "r = js_max (Fin R - Fin G) (Fin 0)"
    using assms(1) R G by (simp add: reservationRemaining_def Let_def g_def)
  show thesis
  proof (cases "G \<le> R")
    case True
    obtain d where d: "Fin R - Fin G = Fin d" "0 \<le> d" "d \<le> R" "rnd64 d = d"
      using minus_within [OF numR G(2) True] .
    have "r = Fin d" using r d by (auto simp: js_max_def)
    then show ?thesis using that [OF R] d numR by auto
  next
    case False
    then have "rnd64 (R - G) \<le> 0" using b64.nonpos [of "R - G"] by simp
    then have "Fin R - Fin G \<le> Fin 0 \<or> Fin R - Fin G = Fin 0"
      by (auto simp: to_num_def Let_def)
    moreover have "Fin R - Fin G \<noteq> NaN" by simp
    ultimately have "r = Fin 0" using r by (cases "Fin R - Fin G") (auto simp: js_max_def)
    then show ?thesis using that [OF R] numR R(2) by auto
  qed
qed

lemma retired_remaining:
  assumes "parse_float (o_reserved o1) = Fin R" and "0 < R"
  shows "reservationRemaining (markReservationRetired o1) = Some (Fin 0)"
  using assms by (simp add: markReservationRetired_def reservationRemaining_def js_max_def)

lemma reserved_only [simp]:
  "o_reserved (markReservationRetired o1) = o_reserved o1" "o_flag (markReservationRetired o1) = o_flag o1"
  "o_is_paper (markReservationRetired o1) = o_is_paper o1" "o_user (markReservationRetired o1) = o_user o1"
  by (simp_all add: markReservationRetired_def Let_def)

text \<open>What a release that is not the last one does.\<close>

lemma partial_release:
  assumes "releaseInOrder svc o1 c amt False st = (st', o2, rep)"
    and "reservationRemaining o1 = Some (Fin m)" and "is_num (Fin m)"
  shows "st' = st \<or> (\<exists>a q. 0 < a \<and> a \<le> m \<and> Fin a \<le> to_num q \<and>
      hashes st IN_ORDER (o_user o1, c) = Some (RDec q) \<and>
      st' = put_hash IN_ORDER (o_user o1, c) (Some (RDec (incr_round svc (q - spelling a)))) st)"
proof (cases "st' = st")
  case False
  define w where "w = release_wanted o1 amt False"
  define cur where "cur = float_or_zero (hashes st IN_ORDER (o_user o1, c))"
  define applied where "applied = js_min w (js_max cur (Fin 0))"
  have on: "online st" "applied > Fin 0" "w > Fin 0"
    and st': "st' = fst (hincbyfloat svc IN_ORDER (o_user o1, c) (- applied) st)"
    using assms(1) False
    by (auto simp: releaseInOrder_def retire_def Let_def w_def cur_def applied_def split: if_splits)
  have wm: "w \<le> Fin m"
    using on(3) assms(2) by (auto simp: w_def release_wanted_def js_min_def Let_def split: if_splits)
  obtain y where y: "w = Fin y" "0 < y" "y \<le> m" using on(3) wm by (cases w) auto
  obtain q where q: "hashes st IN_ORDER (o_user o1, c) = Some (RDec q)"
    using False st' on y by (auto simp: hincbyfloat_def HINCRBYFLOAT_def cur_def applied_def float_or_zero_def Let_def
        js_min_def js_max_def split: option.splits rval.splits if_splits)
  then have cur: "cur = to_num q" by (simp add: cur_def float_or_zero_def)
  have "\<exists>a. applied = Fin a \<and> 0 < a \<and> a \<le> y \<and> Fin a \<le> to_num q"
    using on(2) y unfolding applied_def cur
    by (cases "to_num q") (auto simp: js_min_def js_max_def less_jsnum_def split: if_splits)
  then obtain a where a: "applied = Fin a" "0 < a" "a \<le> y" "Fin a \<le> to_num q" by blast
  have "st' = put_hash IN_ORDER (o_user o1, c) (Some (RDec (incr_round svc (q - spelling a)))) st"
    unfolding st' a(1) by (rule hincbyfloat_minus [OF q on(1)])
  then show ?thesis using a q y(3) by auto
qed simp

lemma retire_fields [simp]:
  "o_reserved (snd (retire svc b c so)) = o_reserved (snd so)"
  "o_flag (snd (retire svc b c so)) = o_flag (snd so)"
  "o_is_paper (snd (retire svc b c so)) = o_is_paper (snd so)"
  "o_user (snd (retire svc b c so)) = o_user (snd so)"
  by (simp_all add: retire_def)

lemma final_release:
  assumes "releaseInOrder svc o1 c amt True st = (st', o2, Done ())"
    and "\<not> o_flag o1" "\<not> o_is_paper o1"
  obtains o3 where "o2 = markReservationRetired o3" and "o_reserved o3 = o_reserved o1"
    and "o_flag o3 = o_flag o1" and "o_is_paper o3 = o_is_paper o1" and "o_user o3 = o_user o1"
  using assms
  by (auto simp: releaseInOrder_def retire_def Let_def split: if_splits)

lemma nothing_left_release:
  assumes "reservationRemaining o1 = Some (Fin 0)"
  shows "releaseInOrder svc o1 c amt False st = (st, o1, Done ())"
proof -
  have "\<not> release_wanted o1 amt False > Fin 0"
    using assms by (auto simp: release_wanted_def js_min_def Let_def less_jsnum_def split: if_splits)
  then show ?thesis by (simp add: releaseInOrder_def retire_def)
qed

lemma nothing_left_final:
  assumes "reservationRemaining o1 = Some (Fin 0)" "\<not> o_flag o1" "\<not> o_is_paper o1"
  shows "fst (releaseInOrder svc o1 c amt True st) = sweepResidualInOrder svc (o_user o1) c st"
  using assms by (simp add: releaseInOrder_def retire_def release_wanted_def)

section \<open>The sweep\<close>

lemma sweep_cases:
  "sweepResidualInOrder svc u c st = st \<or>
   (\<exists>q x. hashes st IN_ORDER (u, c) = Some (RDec q) \<and> to_num q = Fin x \<and> 0 < x \<and>
      Fin x \<le> RESIDUAL_IN_ORDER_DUST \<and> \<not> something_reserves u c st \<and>
      sweepResidualInOrder svc u c st =
        put_hash IN_ORDER (u, c) (Some (RDec (incr_round svc (q - spelling x)))) st)"
proof (cases "sweepResidualInOrder svc u c st = st")
  case False
  define cur where "cur = float_or_zero (hashes st IN_ORDER (u, c))"
  have on: "online st" "is_finite cur" "\<not> cur \<le> Fin 0" "\<not> cur > RESIDUAL_IN_ORDER_DUST"
      "\<not> something_reserves u c st"
    and r: "sweepResidualInOrder svc u c st = fst (hincbyfloat svc IN_ORDER (u, c) (- cur) st)"
    using False by (auto simp: sweepResidualInOrder_def Let_def cur_def split: if_splits)
  obtain x where x: "cur = Fin x" "0 < x" using on(2,3) by (cases cur) auto
  obtain q where q: "hashes st IN_ORDER (u, c) = Some (RDec q)"
    using False r on(1,3)
    by (auto simp: hincbyfloat_def HINCRBYFLOAT_def cur_def float_or_zero_def split: option.splits rval.splits)
  have "to_num q = Fin x" using q x by (simp add: cur_def float_or_zero_def)
  moreover have "Fin x \<le> RESIDUAL_IN_ORDER_DUST"
    using on(4) x by (auto simp: RESIDUAL_IN_ORDER_DUST_def less_jsnum_def to_num_def Let_def split: if_splits)
  ultimately show ?thesis
    using q x on r hincbyfloat_minus [OF q on(1)] by auto
qed simp

section \<open>What a market buy is charged\<close>

lemma toFixedDownBy_cut:
  assumes "is_num (Fin x)" "0 \<le> x" "x < 10 ^ 21"
  obtains y where "toFixedDownBy (JNum (Fin x)) digits = JNum (Fin y)" and "0 \<le> y" and "y \<le> x"
proof (cases "pattern_digits digits")
  case None
  then show ?thesis using that [of x] assms(2) by (simp add: toFixedDownBy_def global_is_nan_def)
next
  case (Some d)
  obtain y where "toFixedDown (JNum (Fin x)) d = JNum (Fin y)" "0 \<le> y" "y \<le> x"
    using toFixedDown_toward_zero [OF assms(1), of d] assms(2,3) by force
  then show ?thesis using that Some by (simp add: toFixedDownBy_def)
qed

lemma rnd64_up:
  assumes "2 powi (-1022) \<le> x"
  shows "rnd64 x \<le> x + x / 2 ^ 53"
proof -
  have "0 < x" using assms by (rule less_le_trans [rotated]) simp
  then have "\<bar>rnd64 x - x\<bar> \<le> x / 2 ^ 53" using rnd64_rel_error [of x] assms by simp
  then show ?thesis by linarith
qed

lemma charge_bound:
  assumes "parse_float (orderValue b) = Fin B" "to_number (p_mark p) = Fin M" "buyorsell b = JStr ''buy''"
    and "1 / 2 ^ 100 \<le> B" "B \<le> 2 ^ 100" "1 / 2 ^ 100 \<le> B / M" "B / M \<le> 2 ^ 60" "0 < M"
  obtains v where "marketOrderDebitValue b p = Fin v" and "0 \<le> v" and "v \<le> B + B / 2 ^ 51"
proof -
  define Q where "Q = rnd64 (B / M)"
  have n100: "(2 :: rat) powi (-1022) \<le> 1 / 2 ^ 100" by (simp add: power_int_minus divide_simps)
  have B0: "0 < B" using assms(4) by (rule less_le_trans [rotated]) simp
  have "0 \<le> B / M" using B0 assms(8) by simp
  then have Q: "0 \<le> Q" "Q \<le> B / M + B / M / 2 ^ 53"
    unfolding Q_def using rnd64_nonneg rnd64_up [OF order_trans [OF n100 assms(6)]] by blast+
  have "B / M / 2 ^ 53 \<le> 2 ^ 60 / 2 ^ 53" using assms(7) by (rule divide_right_mono) simp
  then have Q60: "Q \<le> 2 ^ 61" using Q(2) assms(7) by simp
  have big: "(2 :: rat) ^ 61 < 10 ^ 21" "(2 :: rat) ^ 61 < 2 ^ 1024" by simp_all
  have numQ: "is_num (Fin Q)" using Q(1) Q60 big by (simp add: Q_def)
  have div: "parse_float (orderValue b) / to_number (p_mark p) = Fin Q"
    using assms(1,2,8) Q(1) Q60 big by (simp add: to_num_Fin Q_def)
  obtain y where y: "toFixedDownBy (JNum (Fin Q)) (p_first_digits p) = JNum (Fin y)" "0 \<le> y" "y \<le> Q"
    by (rule toFixedDownBy_cut [OF numQ Q(1)]) (use Q60 big in auto)
  have q: "marketOrderQuantity b p = Fin y"
    using assms(3) y(1) div by (simp add: marketOrderQuantity_def finite_result_def)
  define v where "v = rnd64 (y * M)"
  define C where "C = B + B / 2 ^ 53"
  have "y * M \<le> Q * M" using y(3) assms(8) by simp
  also have "\<dots> \<le> (B / M + B / M / 2 ^ 53) * M"
    using Q(2) less_imp_le [OF assms(8)] by (rule mult_right_mono)
  also have "\<dots> = C" using assms(8) by (simp add: C_def field_simps)
  finally have yC: "y * M \<le> C" .
  have C: "2 powi (-1022) \<le> C" using n100 assms(4) B0 by (simp add: C_def)
  have vC: "v \<le> C + C / 2 ^ 53" using rnd64_mono [OF yC] rnd64_up [OF C] by (simp add: v_def)
  have vB: "v \<le> B + B / 2 ^ 51"
  proof -
    have "C / 2 ^ 53 \<le> 2 * B / 2 ^ 53" using B0 by (intro divide_right_mono) (simp_all add: C_def)
    moreover have "B / 2 ^ 53 + 2 * B / 2 ^ 53 \<le> B / 2 ^ 51" using B0 by simp
    ultimately show ?thesis using vC unfolding C_def by linarith
  qed
  have v0: "0 \<le> v" unfolding v_def using y(2) assms(8) by (intro rnd64_nonneg) simp
  have "B / 2 ^ 51 \<le> B" using B0 by (simp add: divide_le_eq)
  then have "v \<le> 2 * 2 ^ 100" using vB assms(5) by linarith
  moreover have "(2 :: rat) * 2 ^ 100 < 2 ^ 1024" by simp
  ultimately have "to_num (y * M) = Fin v" using v0 by (simp add: to_num_Fin v_def)
  then have "marketOrderDebitValue b p = Fin v"
    using assms(2,3) q by (simp add: marketOrderDebitValue_def)
  then show ?thesis using that v0 vB by blast
qed

section \<open>Properties\<close>

text \<open>A release that is not the last one leaves the store alone or takes a positive amount, no more
  than the order still holds and no more than the in-order ledger shows, out of that ledger only.\<close>

theorem partial_release_bounded:
  assumes "releaseInOrder svc o1 c amt False st = (st', o2, rep)"
    and "reservationRemaining o1 = Some (Fin m)" and "is_num (Fin m)"
  shows "st' = st \<or> (\<exists>a q. 0 < a \<and> a \<le> m \<and> Fin a \<le> to_num q \<and>
      hashes st IN_ORDER (o_user o1, c) = Some (RDec q) \<and>
      st' = put_hash IN_ORDER (o_user o1, c) (Some (RDec (incr_round svc (q - spelling a)))) st)"
  by (rule partial_release [OF assms])

definition held_store :: spot where
  "held_store = put_hash IN_ORDER (''u'', ''q'') (Some (RDec 10)) blank_spot"

theorem partial_release_bounded_witness:
  "fst (releaseInOrder reference_service sample_order ''q'' (JNum (Fin 4)) False held_store) = held_store \<or>
   (\<exists>a q. 0 < a \<and> a \<le> 10 \<and> Fin a \<le> to_num q \<and> hashes held_store IN_ORDER (''u'', ''q'') = Some (RDec q) \<and>
      fst (releaseInOrder reference_service sample_order ''q'' (JNum (Fin 4)) False held_store) =
        put_hash IN_ORDER (''u'', ''q'') (Some (RDec (incr_round reference_service (q - spelling a)))) held_store)"
proof -
  have r: "reservationRemaining sample_order = Some (Fin 10)" and n: "is_num (Fin 10)" by code_simp+
  show ?thesis
    using partial_release_bounded [OF _ r n, of reference_service "''q''" "JNum (Fin 4)" held_store]
    by (metis (no_types, lifting) prod.collapse sample_order_def order.select_convs(2))
qed

text \<open>Once an order's reservation has been released for the last time it holds nothing, whatever was
  asked for: a later partial release changes neither the store nor the order, and a later final
  one does no more than the sweep of unexplained residue.\<close>

theorem retired_order_holds_nothing:
  assumes "releaseInOrder svc o1 c amt True st = (st', o2, Done ())"
    and "\<not> o_flag o1" "\<not> o_is_paper o1" and "parse_float (o_reserved o1) = Fin R" "0 < R"
  shows "reservationRemaining o2 = Some (Fin 0) \<and>
    releaseInOrder svc o2 c amt2 False st2 = (st2, o2, Done ()) \<and>
    fst (releaseInOrder svc o2 c amt2 True st2) = sweepResidualInOrder svc (o_user o1) c st2"
proof -
  obtain o3 where o3: "o2 = markReservationRetired o3" "o_reserved o3 = o_reserved o1"
    "o_flag o3 = o_flag o1" "o_is_paper o3 = o_is_paper o1" "o_user o3 = o_user o1"
    using final_release [OF assms(1-3)] .
  have z: "reservationRemaining o2 = Some (Fin 0)"
    using retired_remaining [of o3 R] o3 assms(4,5) by simp
  have "\<not> o_flag o2" "\<not> o_is_paper o2" "o_user o2 = o_user o1" using o3 assms(2,3) by simp_all
  then show ?thesis
    using z nothing_left_release [OF z] nothing_left_final [OF z] by simp
qed

theorem retired_order_holds_nothing_witness:
  "\<exists>st' o2. releaseInOrder reference_service sample_order ''q'' (JNum (Fin 4)) True held_store = (st', o2, Done ()) \<and>
    reservationRemaining o2 = Some (Fin 0) \<and>
    releaseInOrder reference_service o2 ''q'' (JNum (Fin 4)) False held_store = (held_store, o2, Done ()) \<and>
    fst (releaseInOrder reference_service o2 ''q'' (JNum (Fin 4)) True held_store) =
      sweepResidualInOrder reference_service (o_user sample_order) ''q'' held_store"
proof -
  define r where "r = releaseInOrder reference_service sample_order ''q'' (JNum (Fin 4)) True held_store"
  have f: "\<not> o_flag sample_order" "\<not> o_is_paper sample_order" "parse_float (o_reserved sample_order) = Fin 10"
    "(0 :: rat) < 10" by (simp_all add: sample_order_def)
  have "snd (snd r) = Done ()"
    by (simp add: r_def releaseInOrder_def held_store_def f Let_def split: prod.splits)
  then have e: "releaseInOrder reference_service sample_order ''q'' (JNum (Fin 4)) True held_store =
      (fst r, fst (snd r), Done ())" by (simp add: r_def prod_eq_iff)
  from retired_order_holds_nothing [OF this f, of "JNum (Fin 4)" held_store] e show ?thesis by blast
qed

text \<open>The sweep touches at most the one in-order field it is asked about, and only when that field
  reads as a positive number within the dust bound and no open limit order of the user reserves
  the currency; then what it takes is the whole reading.\<close>

theorem sweep_takes_only_unowned_dust:
  "sweepResidualInOrder svc u c st = st \<or>
   (\<exists>q x. hashes st IN_ORDER (u, c) = Some (RDec q) \<and> to_num q = Fin x \<and> 0 < x \<and>
      Fin x \<le> RESIDUAL_IN_ORDER_DUST \<and> \<not> something_reserves u c st \<and>
      sweepResidualInOrder svc u c st =
        put_hash IN_ORDER (u, c) (Some (RDec (incr_round svc (q - spelling x)))) st)"
  by (rule sweep_cases)

text \<open>A market buy is charged no more than the budget the user stated, up to one part in 2 to the 51
  that the division and the multiplication in doubles can add.\<close>

theorem market_buy_charge_bounded:
  assumes "parse_float (orderValue b) = Fin B" "to_number (p_mark p) = Fin M" "buyorsell b = JStr ''buy''"
    and "1 / 2 ^ 100 \<le> B" "B \<le> 2 ^ 100" "1 / 2 ^ 100 \<le> B / M" "B / M \<le> 2 ^ 60" "0 < M"
  shows "\<exists>v. marketOrderDebitValue b p = Fin v \<and> 0 \<le> v \<and> v \<le> B + B / 2 ^ 51"
  using charge_bound [OF assms] by blast

definition sample_pair :: pair where
  "sample_pair = \<lparr>p_id = ''p'', p_first_id = ''b'', p_first = ''BTC'', p_first_digits = JNum (Fin 2),
     p_second_id = ''q'', p_second = ''USD'', p_second_digits = JNum (Fin 2), p_status = ''active'',
     p_botstatus = ''off'', p_mark = JNum (Fin 8), p_prev_mark = JNum (Fin 8),
     p_min_quantity = JNum (Fin 1), p_max_quantity = JNum (Fin 100), p_min_pct = JNum (Fin (- 50)),
     p_max_pct = JNum (Fin 50), p_min_value = JNum (Fin 1), p_max_value = JNum (Fin 1000)\<rparr>"

definition sample_body :: order_body where
  "sample_body = \<lparr>orderType = JStr ''market'', spotPairId = JStr ''p'', price = JUndef, quantity = JUndef,
     orderValue = JStr ''100'', amount = JNum (Fin 3), buyorsell = JStr ''buy''\<rparr>"

theorem market_buy_charge_bounded_witness:
  "\<exists>v. marketOrderDebitValue sample_body sample_pair = Fin v \<and> 0 \<le> v \<and> v \<le> 100 + 100 / 2 ^ 51"
proof (rule market_buy_charge_bounded)
  show "parse_float (orderValue sample_body) = Fin 100" by code_simp
  show "to_number (p_mark sample_pair) = Fin 8" by (simp add: sample_pair_def)
  show "buyorsell sample_body = JStr ''buy''" by (simp add: sample_body_def)
qed simp_all

text \<open>Quantising a size of at least a millionth never enlarges it and leaves a size that the pair's
  stated precision can express.\<close>

theorem quantised_size_fits:
  assumes "parse_float v = Fin x" "is_num (Fin x)" "1 / 10 ^ 6 \<le> x" "x < 10 ^ 21" and "d \<le> 100"
  shows "\<exists>y. quantiseOrderSize v (JNum (Fin (of_nat d))) = Fin y \<and> 0 \<le> y \<and> y \<le> x \<and>
    \<not> exceedsPrecision (JNum (Fin y)) (JNum (Fin (of_nat d)))"
proof -
  have x0: "0 \<le> x" using assms(3) by (rule order_trans [rotated]) simp
  let ?q = "quantiseOrderSize v (JNum (Fin (of_nat d)))"
  obtain y where y: "?q = Fin y" "0 \<le> y" "y \<le> x" using quantise_cut [OF assms(1,2) x0 assms(4)] .
  have p: "precisionDigits (JNum (Fin (of_nat d))) = Some (Fin (of_nat d))"
    by (simp add: precisionDigits_def)
  obtain z where z: "toFixedDown (JNum (Fin x)) d = JNum (Fin z)"
    using toFixedDown_truncates [OF assms(2-4)] by blast
  have "\<not> exceedsPrecision (JNum (Fin y)) (JNum (Fin (of_nat d)))"
  proof (cases "?q = Fin z")
    case True
    then show ?thesis using toFixedDown_precise [OF assms(2-5)] y(1) z by simp
  next
    case False
    then show ?thesis
      using y(1) assms(1) z
      by (auto simp: quantiseOrderSize_def p finite_result_def exceedsPrecision_def Let_def
          split: option.splits if_splits)
  qed
  then show ?thesis using y by blast
qed

theorem quantised_size_fits_witness:
  "\<exists>y. quantiseOrderSize (JStr ''3.125'') (JNum (Fin (of_nat 2))) = Fin y \<and> 0 \<le> y \<and> y \<le> 25 / 8 \<and>
    \<not> exceedsPrecision (JNum (Fin y)) (JNum (Fin (of_nat 2)))"
proof (rule quantised_size_fits)
  show "parse_float (JStr ''3.125'') = Fin (25 / 8)" "is_num (Fin (25 / 8))" by code_simp+
qed simp_all

end
