(* ===== verification/LiquidityRole.thy ===== *)
theory LiquidityRole
  imports Reservation
begin

text \<open>
  Which side of a fill rested and which side came to it (\<^verbatim>\<open>lib/liquidityRole.js\<close>). The matcher asks
  \<open>makerSideOf\<close> once per fill and takes the execution price from its answer; the order endpoints
  stamp the answer's raw material, \<open>roleForNewOrder\<close>, when the order is accepted. A date that
  does not parse sorts last.
\<close>

definition MAKER :: string where
  "MAKER = ''maker''"

definition TAKER :: string where
  "TAKER = ''taker''"

definition otherSide :: "string \<Rightarrow> string" where
  "otherSide side = (if side = ''buy'' then ''sell'' else ''buy'')"

definition crossesBook :: "jsval \<Rightarrow> jsval \<Rightarrow> jsval \<Rightarrow> jsval \<Rightarrow> bool" where
  "crossesBook side prc bestBid bestAsk =
     (let p = parse_float prc in
      if \<not> is_finite p then False
      else if side = JStr ''buy''
      then let ask = parse_float bestAsk in is_finite ask \<and> ask > Fin 0 \<and> p \<ge> ask
      else let bid = parse_float bestBid in is_finite bid \<and> bid > Fin 0 \<and> p \<le> bid)"

definition roleForNewOrder :: "jsval \<Rightarrow> bool \<Rightarrow> string" where
  "roleForNewOrder ty crosses =
     (if ty = JStr ''market'' then TAKER else if crosses then TAKER else MAKER)"

definition roleOf :: "order \<Rightarrow> string" where
  "roleOf o1 = (if o_role o1 = JStr MAKER then MAKER else TAKER)"

definition isMarketOrder :: "order \<Rightarrow> bool" where
  "isMarketOrder o1 \<longleftrightarrow> o_flag o1 \<or> o_price o1 = JStr ''market'' \<or> o_type o1 = ''market''"

definition isSyntheticOrder :: "order \<Rightarrow> user_id option \<Rightarrow> bool" where
  "isSyntheticOrder o1 adminLiqId = (o_is_paper o1 \<or> Some (o_user o1) = adminLiqId)"

definition arrivedAt :: "order \<Rightarrow> jsnum" where
  "arrivedAt o1 = (case o_date o1 of None \<Rightarrow> Infty False | Some ms \<Rightarrow> Fin (of_int ms))"

definition priceTimeMaker :: "order \<Rightarrow> order \<Rightarrow> string" where
  "priceTimeMaker b s = (if arrivedAt b < arrivedAt s then ''buy'' else ''sell'')"

definition makerSideOf :: "order \<Rightarrow> order \<Rightarrow> user_id option \<Rightarrow> string" where
  "makerSideOf b s adminLiqId =
     (let buyIsMarket = isMarketOrder b; sellIsMarket = isMarketOrder s in
      if buyIsMarket \<noteq> sellIsMarket then (if buyIsMarket then ''sell'' else ''buy'')
      else if \<not> buyIsMarket \<and> isSyntheticOrder b adminLiqId \<noteq> isSyntheticOrder s adminLiqId
      then let buyIsSynthetic = isSyntheticOrder b adminLiqId;
               userSide = (if buyIsSynthetic then ''sell'' else ''buy'');
               userOrder = (if buyIsSynthetic then s else b)
           in if roleOf userOrder = MAKER then userSide else otherSide userSide
      else priceTimeMaker b s)"

section \<open>What the answer depends on\<close>

lemma maker_side_cases: "makerSideOf b s a = ''buy'' \<or> makerSideOf b s a = ''sell''"
  by (simp add: makerSideOf_def priceTimeMaker_def otherSide_def Let_def)

lemma not_buy_maker [simp]: "makerSideOf b s a \<noteq> ''buy'' \<longleftrightarrow> makerSideOf b s a = ''sell''"
  using maker_side_cases [of b s a] by auto

lemma market_order_takes:
  "isMarketOrder b \<Longrightarrow> \<not> isMarketOrder s \<Longrightarrow> makerSideOf b s a = ''sell''"
  "\<not> isMarketOrder b \<Longrightarrow> isMarketOrder s \<Longrightarrow> makerSideOf b s a = ''buy''"
  by (simp_all add: makerSideOf_def)

text \<open>Two orders of users are ranked by arrival, whatever prices and roles they carry.\<close>

lemma users_by_arrival:
  assumes "\<not> isSyntheticOrder b a" and "\<not> isSyntheticOrder s a" and "isMarketOrder b = isMarketOrder s"
  shows "makerSideOf b s a = (if arrivedAt b < arrivedAt s then ''buy'' else ''sell'')"
  using assms by (simp add: makerSideOf_def priceTimeMaker_def)

text \<open>
  Stamped on arrival: an order that did not reach the other side of the book is stamped the
  maker, and against the house its stamp decides.
\<close>

lemma against_house:
  assumes "\<not> isMarketOrder b" and "\<not> isMarketOrder s"
    and "\<not> isSyntheticOrder b a" and "isSyntheticOrder s a"
  shows "makerSideOf b s a = (if roleOf b = MAKER then ''buy'' else ''sell'')"
  using assms by (simp add: makerSideOf_def otherSide_def Let_def)

lemma house_against:
  assumes "\<not> isMarketOrder b" and "\<not> isMarketOrder s"
    and "isSyntheticOrder b a" and "\<not> isSyntheticOrder s a"
  shows "makerSideOf b s a = (if roleOf s = MAKER then ''sell'' else ''buy'')"
  using assms by (simp add: makerSideOf_def otherSide_def Let_def)

lemma role_of_stamp:
  "roleOf (o1\<lparr>o_role := JStr (roleForNewOrder (JStr ''limit'') crosses)\<rparr>) = (if crosses then TAKER else MAKER)"
  by (simp add: roleOf_def roleForNewOrder_def MAKER_def TAKER_def)

lemma no_cross_no_price:
  "\<not> is_finite (parse_float bestAsk) \<Longrightarrow> \<not> crossesBook (JStr ''buy'') p bestBid bestAsk"
  "\<not> is_finite (parse_float bestBid) \<Longrightarrow> \<not> crossesBook (JStr ''sell'') p bestBid bestAsk"
  by (simp_all add: crossesBook_def Let_def)

end
