(* ===== verification/Records.thy ===== *)
theory Records
  imports LiquidityRole
begin

text \<open>
  The keepers of the exchange's records (\<^verbatim>\<open>controllers/spot.controller.js\<close>): the pair cache
  \<open>FetchpairData\<close>, the published quantities per price \<open>editOrderBook\<close> and \<open>updateOrderBook\<close>, the order
  history \<open>newOrderHistory\<close> and the recorder of fills \<open>newTradeHistory\<close> with its depth lists. The
  order matcher starts them without waiting, so they appear in its model as messages of the
  outbox; here is what each of them does when it runs.
\<close>

section \<open>The pair cache\<close>

definition is_hex :: "char \<Rightarrow> bool" where
  "is_hex c \<longleftrightarrow> is_digit c \<or> c \<in> set ''abcdefABCDEF''"

definition put_pair :: "pair_id \<Rightarrow> pair \<Rightarrow> spot \<Rightarrow> spot" where
  "put_pair i p st = st\<lparr>pairs := put i (Row p) (pairs st)\<rparr>"

text \<open>
  A cached row that parses is the answer; otherwise the document is looked up and cached. An id the
  database could not hold finds no document.
\<close>

definition FetchpairData :: "pair_id option \<Rightarrow> spot \<Rightarrow> spot \<times> pair option reply" where
  "FetchpairData i st = (case i of
      None \<Rightarrow> (st, Done None)
    | Some pairId \<Rightarrow>
        if \<not> online st then (st, Raised)
        else (case map_of (pairs st) pairId of
          Some (Row p) \<Rightarrow> (st, Done (Some p))
        | _ \<Rightarrow> (case map_of (pair_docs st) pairId of
            None \<Rightarrow> (st, Done None)
          | Some p \<Rightarrow> (put_pair (p_id p) p st, Done (Some p)))))"

lemma FetchpairData_hit:
  "online st \<Longrightarrow> map_of (pairs st) i = Some (Row p) \<Longrightarrow> FetchpairData (Some i) st = (st, Done (Some p))"
  by (simp add: FetchpairData_def)

text \<open>A pair found once is found again in the cache.\<close>

lemma FetchpairData_caches:
  assumes "FetchpairData (Some i) st = (st', Done (Some p))"
    and "\<forall>j q. map_of (pair_docs st) j = Some q \<longrightarrow> p_id q = j"
  shows "FetchpairData (Some i) st' = (st', Done (Some p))"
  using assms
  by (auto simp: FetchpairData_def put_pair_def split: if_splits option.splits row.splits)

lemma FetchpairData_frame [frame]:
  assumes "FetchpairData i st = (st', r)"
  shows "hashes st' = hashes st" "streams st' = streams st" "tables st' = tables st" "online st' = online st"
    "history st' = history st" "sent st' = sent st" "keys st' = keys st" "clock st' = clock st" "tradePair st' = tradePair st"
  using assms
  by (auto simp: FetchpairData_def put_pair_def split: if_splits option.splits row.splits)

section \<open>Published quantities\<close>

text \<open>The whole-number part: a one with as many zeros as the pair has decimals.\<close>

definition minTwoDigits :: "jsval \<Rightarrow> jsnum" where
  "minTwoDigits n = (case to_number n of
      Fin k \<Rightarrow> to_num (10 ^ nat \<lceil>k\<rceil>)
    | _ \<Rightarrow> Fin 1)"

text \<open>
  The increment of a counter is an integer of 64 bits in plain digits, anything else is refused by
  the server; a count that reaches zero or less is deleted. \<open>hincby\<close> first cuts a number with more
  than seven decimals to seven.
\<close>

definition as_integer :: "jsval \<Rightarrow> int option" where
  "as_integer v = (case to_number v of
      Fin x \<Rightarrow> if x = of_int \<lfloor>x\<rfloor> \<and> \<bar>x\<bar> < 2 ^ 63 then Some \<lfloor>x\<rfloor> else None
    | _ \<Rightarrow> None)"

definition fraction_digits :: "string \<Rightarrow> nat" where
  "fraction_digits s = (case split_fields (\<lambda>c. c = CHR ''.'') s of _ # f # _ \<Rightarrow> length f | _ \<Rightarrow> 0)"

definition hincby :: "string \<Rightarrow> string \<Rightarrow> jsval \<Rightarrow> spot \<Rightarrow> spot" where
  "hincby key f v st =
     (let v' = (if 7 < fraction_digits (to_string v) then toFixed v 7 else v) in
      if \<not> online st then st
      else case as_integer v' of
        None \<Rightarrow> st
      | Some d \<Rightarrow>
          let total = (case levels st key f of None \<Rightarrow> d | Some n \<Rightarrow> n + d)
          in st\<lparr>levels := (levels st)(key := (levels st key)(f := if total \<le> 0 then None else Some total))\<rparr>)"

definition js_round :: "jsnum \<Rightarrow> jsnum" where
  "js_round n = (case n of Fin x \<Rightarrow> Fin (of_int \<lfloor>x + 1 / 2\<rfloor>) | _ \<Rightarrow> n)"

definition level_key :: "string \<Rightarrow> pair_id \<Rightarrow> string" where
  "level_key side pairId = side @ ''Orders'' @ pairId"

definition editOrderBook :: "string \<Rightarrow> jsval \<Rightarrow> jsval \<Rightarrow> pair_id \<Rightarrow> jsval \<Rightarrow> spot \<Rightarrow> spot" where
  "editOrderBook side prc minusQuantity pairId firstFloatDigit st =
     (let decimalval = minTwoDigits firstFloatDigit;
          quntitydecimal = js_round (to_number minusQuantity * decimalval);
          cut = toFixedDownBy (JNum quntitydecimal) firstFloatDigit
      in hincby (level_key side pairId) (to_string prc) (JNum (- to_number cut)) st)"

definition updateOrderBook :: "order \<Rightarrow> pair_id \<Rightarrow> jsval \<Rightarrow> spot \<Rightarrow> spot" where
  "updateOrderBook newOrder pairId firstFloatDigit st =
     hincby (level_key (o_side newOrder) pairId) (to_string (o_price newOrder))
       (JNum (to_number (o_quantity newOrder) * minTwoDigits firstFloatDigit)) st"

text \<open>No published quantity is ever zero or negative.\<close>

definition levels_positive :: "spot \<Rightarrow> bool" where
  "levels_positive st \<longleftrightarrow> (\<forall>key f n. levels st key f = Some n \<longrightarrow> 0 < n)"

lemma hincby_positive: "levels_positive st \<Longrightarrow> levels_positive (hincby key f v st)"
  by (auto simp: levels_positive_def hincby_def Let_def split: option.splits if_splits)

lemma hincby_frame [frame]:
  "hashes (hincby key f v st) = hashes st" "tables (hincby key f v st) = tables st"
  by (auto simp: hincby_def Let_def split: option.splits)

section \<open>Order history\<close>

definition orderHistoryStatus :: "order \<Rightarrow> string" where
  "orderHistoryStatus o1 = (if o_is_paper o1 \<and> o_status o1 = ''pending'' then ''cancel'' else o_status o1)"

text \<open>
  The stored copy: of a market order the amount and the order value stand for its quantity and price
  (for the house the price it carries), the role is spelled out. The next number of the sequence is
  the code of an order without one; it is a parameter.
\<close>

definition orderHistoryDetails :: "user_id option \<Rightarrow> order \<Rightarrow> order" where
  "orderHistoryDetails adminLiqId o1 =
     o1\<lparr>o_quantity := (if o_type o1 = ''market'' then o_amount o1 else o_quantity o1),
        o_price := (if isSyntheticOrder o1 adminLiqId then o_price o1
          else if o_type o1 = ''market'' then o_value o1 else o_price o1),
        o_status := orderHistoryStatus o1, o_role := JStr (roleOf o1)\<rparr>"

text \<open>The code of an order is set when its document is first inserted.\<close>

definition falsy :: "jsval \<Rightarrow> bool" where
  "falsy v \<longleftrightarrow> v \<in> {JUndef, JNull, JBool False, JNum (Fin 0), JNum NaN, JStr []}"

definition newOrderHistory :: "jsval \<Rightarrow> order \<Rightarrow> spot \<Rightarrow> spot" where
  "newOrderHistory nextCode o1 st =
     (let o2 = (if falsy (o_code o1) then o1\<lparr>o_code := nextCode\<rparr> else o1);
          adminLiqId = (case house_account st of Done a \<Rightarrow> a | _ \<Rightarrow> None);
          d = orderHistoryDetails adminLiqId o2;
          d' = (case map_of (order_docs st) (o_id o1) of None \<Rightarrow> d | Some old \<Rightarrow> d\<lparr>o_code := o_code old\<rparr>)
      in st\<lparr>order_docs := put (o_id o1) d' (order_docs st)\<rparr>)"

text \<open>The recorded status is the order's own, except that a resting row of the house is closed.\<close>

lemma recorded_status:
  "map_of (order_docs (newOrderHistory c o1 st)) (o_id o1) = Some d \<Longrightarrow>
    o_status d = (if o_is_paper o1 \<and> o_status o1 = ''pending'' then ''cancel'' else o_status o1)"
  by (auto simp: newOrderHistory_def orderHistoryDetails_def orderHistoryStatus_def Let_def split: option.splits if_splits)

lemma recorded_once:
  "distinct (map fst (order_docs st)) \<Longrightarrow> distinct (map fst (order_docs (newOrderHistory c o1 st)))"
  by (auto simp: newOrderHistory_def Let_def)

lemma code_kept:
  "map_of (order_docs st) (o_id o1) = Some old \<Longrightarrow>
   \<exists>d. map_of (order_docs (newOrderHistory c o1 st)) (o_id o1) = Some d \<and> o_code d = o_code old"
  by (simp add: newOrderHistory_def Let_def)

section \<open>Fills\<close>

text \<open>Twenty-one fills are kept for each side; the full list loses its oldest.\<close>

definition DEPTH_HISTORY :: nat where
  "DEPTH_HISTORY = 21"

definition keep_depth :: "bool \<Rightarrow> 'a \<Rightarrow> 'a list \<Rightarrow> 'a list" where
  "keep_depth mine x xs =
     (if mine \<and> length xs < DEPTH_HISTORY then xs @ [x]
      else if DEPTH_HISTORY \<le> length xs then tl xs @ [x] else xs)"

definition setDepthHist :: "pair_id \<Rightarrow> jsval \<Rightarrow> jsval \<Rightarrow> string \<Rightarrow> spot \<Rightarrow> spot" where
  "setDepthHist pairId tradePrice tradeQty ty st =
     (let item = (json_val tradePrice, json_val tradeQty);
          d = depth st
      in st\<lparr>depth := (\<lambda>side p. if p \<noteq> pairId then d side p
            else if side = ''buy'' \<or> side = ''sell'' then keep_depth (ty = side) item (d side p)
            else d side p)\<rparr>)"

lemma keep_depth_bounded: "length xs \<le> DEPTH_HISTORY \<Longrightarrow> length (keep_depth m x xs) \<le> DEPTH_HISTORY"
  by (auto simp: keep_depth_def DEPTH_HISTORY_def)

lemma setDepthHist_bounded:
  "\<forall>side p. length (depth st side p) \<le> DEPTH_HISTORY \<Longrightarrow>
   length (depth (setDepthHist i x q ty st) side p) \<le> DEPTH_HISTORY"
  by (simp add: setDepthHist_def Let_def keep_depth_bounded)

definition price_number :: "jsval \<Rightarrow> jsval" where
  "price_number v = JNum (if v = JStr ''market'' then Fin 0 else parse_float v)"

definition trade_of :: "int \<Rightarrow> fill \<Rightarrow> trade" where
  "trade_of now f =
     (let b = f_buy f; s = f_sell f; pairId = (if o_pair b \<noteq> [] then o_pair b else o_pair s) in
      \<lparr>t_pair = pairId, t_buy_user = o_user b, t_sell_user = o_user s, t_unique = f_unique f,
       t_price = f_price f, t_quantity = f_quantity f,
       t_value = JNum (to_number (f_price f) * to_number (f_quantity f)),
       t_buy_price = (if isEmpty (o_price b) then JNum (Fin 0) else price_number (o_price b)),
       t_sell_price = price_number (o_price s),
       t_buy_type = (if o_type b = [] then ''Liquidity'' else o_type b),
       t_sell_type = (if o_type s = [] then ''Liquidity'' else o_type s), t_maker = f_maker f,
       t_buy_order = (if o_id b \<noteq> [] then o_id b else pairId),
       t_sell_order = (if o_id s \<noteq> [] then o_id s else pairId), t_created = now\<rparr>)"

text \<open>
  The recorder stores the trade, appends it to the depth lists and moves the pair's mark to the
  execution price. The cached pair keeps the old mark as the previous one; the document written to
  the database is given the new mark in both places, since the cached copy is overwritten first.
\<close>

definition json_trade :: "trade \<Rightarrow> trade" where
  "json_trade t = t\<lparr>t_price := json_val (t_price t), t_quantity := json_val (t_quantity t),
     t_value := json_val (t_value t), t_buy_price := json_val (t_buy_price t), t_sell_price := json_val (t_sell_price t)\<rparr>"

definition markTrade :: "pair_id \<Rightarrow> jsval \<Rightarrow> spot \<Rightarrow> spot" where
  "markTrade pairId execPrice st = (case map_of (pairs st) pairId of
      Some (Row p) \<Rightarrow>
        (let getDoc = p\<lparr>p_prev_mark := p_mark p, p_mark := execPrice\<rparr>;
             st1 = put_pair pairId (getDoc\<lparr>p_mark := json_val execPrice\<rparr>) st
         in st1\<lparr>pair_docs := map (\<lambda>(i, d). if i = pairId
               then (i, d\<lparr>p_mark := execPrice, p_prev_mark := p_mark getDoc\<rparr>) else (i, d)) (pair_docs st1)\<rparr>)
    | _ \<Rightarrow> st)"

definition newTradeHistory :: "fill \<Rightarrow> spot \<Rightarrow> spot" where
  "newTradeHistory f st =
     (let t = trade_of (clock st) f in
      if \<not> online st then st
      else let st1 = st\<lparr>trade_rows := (trade_rows st)(t_pair t := put (t_unique t) (json_trade t) (trade_rows st (t_pair t)))\<rparr>;
               st2 = setDepthHist (t_pair t) (f_price f) (f_quantity f) (f_maker f) st1
           in markTrade (t_pair t) (f_price f) st2)"

lemma newTradeHistory_frame [frame]:
  "hashes (newTradeHistory f st) = hashes st" "tables (newTradeHistory f st) = tables st"
  by (auto simp: newTradeHistory_def Let_def markTrade_def setDepthHist_def put_pair_def split: option.splits row.splits)

end
