(* ===== verification/PaperBook.thy ===== *)
theory PaperBook
  imports DepthHealth "HOL-Library.Sublist"
begin

text \<open>
  The synthetic ladder (\<^verbatim>\<open>controllers/paperBook.controller.js\<close>): limit orders of the house, marked as
  paper, written into the open-order tables from the venue's depth on every match, and torn out on
  any fault. The module remembers per pair the ids it wrote, when it last wrote, which pairs it has
  purged, and the state of the ladder the order gate reads without touching the store. The depth
  snapshot and the ids drawn for new rows are arguments.
\<close>

definition LEVELS :: nat where
  "LEVELS = 12"

definition MIN_NOTIONAL :: jsnum where
  "MIN_NOTIONAL = Fin 25"

definition SIZE_MULT :: jsnum where
  "SIZE_MULT = Fin 1"

definition ORPHAN_MS :: int where
  "ORPHAN_MS = 30000"

record ladder =
  la_present :: bool
  la_reason :: "string option"
  la_at :: int
  la_buy :: nat
  la_sell :: nat
  la_buy_quantity :: jsnum
  la_buy_notional :: jsnum
  la_sell_quantity :: jsnum
  la_sell_notional :: jsnum
  la_best_buy :: "jsnum option"
  la_best_sell :: "jsnum option"

definition NO_CAPACITY :: "string \<Rightarrow> int \<Rightarrow> ladder" where
  "NO_CAPACITY why t =
     \<lparr>la_present = False, la_reason = Some why, la_at = t, la_buy = 0, la_sell = 0, la_buy_quantity = Fin 0,
      la_buy_notional = Fin 0, la_sell_quantity = Fin 0, la_sell_notional = Fin 0, la_best_buy = None,
      la_best_sell = None\<rparr>"

record venue =
  exch :: spot
  lastIds :: "pair_id \<Rightarrow> oid list option"
  lastSyncAt :: "(pair_id \<times> int) list"
  purgedPairs :: "pair_id list"
  ladderState :: "pair_id \<Rightarrow> ladder option"

section \<open>Measuring a ladder\<close>

definition ladderBestPrice :: "order list \<Rightarrow> string \<Rightarrow> jsnum option" where
  "ladderBestPrice orders side = foldl (\<lambda>best o1.
     let p = parse_float (o_price o1) in
     if \<not> p > Fin 0 then best
     else case best of
       None \<Rightarrow> Some p
     | Some b \<Rightarrow> if (if side = ''buy'' then p > b else p < b) then Some p else best) None orders"

definition ladderCapacity :: "order list \<Rightarrow> jsnum \<times> jsnum" where
  "ladderCapacity orders = foldl (\<lambda>(quantity, notional) o1.
     let q = parse_float (o_quantity o1); p = parse_float (o_price o1) in
     if \<not> q > Fin 0 \<or> \<not> p > Fin 0 then (quantity, notional)
     else (quantity + q, notional + q * p)) (Fin 0, Fin 0) orders"

definition recordLadder :: "pair_id \<Rightarrow> ladder \<Rightarrow> venue \<Rightarrow> venue" where
  "recordLadder pairId l v = v\<lparr>ladderState := (ladderState v)(pairId := Some l)\<rparr>"

definition getLadderState :: "pair_id \<Rightarrow> int \<Rightarrow> venue \<Rightarrow> ladder" where
  "getLadderState pairId now v = (case ladderState v pairId of
      None \<Rightarrow> NO_CAPACITY ''ladder_not_built'' 0
    | Some s \<Rightarrow>
        if la_present s \<and> now - la_at s > LADDER_STALE_MS then NO_CAPACITY ''ladder_stale'' (la_at s) else s)"

section \<open>Building the rows\<close>

text \<open>
  Levels are gathered until they are worth the least notional; the row takes the price of the last
  one gathered. At most \<open>LEVELS\<close> rows are built.
\<close>

fun paper_rows :: "jsval \<Rightarrow> level list \<Rightarrow> nat \<Rightarrow> jsnum \<Rightarrow> jsnum \<Rightarrow> (jsnum \<times> jsval) list" where
  "paper_rows digits [] room gq gn = []"
| "paper_rows digits (l # ls) room gq gn =
     (let p = parse_float (l_price l); q = parse_float (l_quantity l) in
      if room = 0 then []
      else if \<not> p > Fin 0 \<or> \<not> q > Fin 0 then paper_rows digits ls room gq gn
      else let groupQty = gq + q; groupNotional = gn + p * q in
        if groupNotional < MIN_NOTIONAL then paper_rows digits ls room groupQty groupNotional
        else let qty = toFixedDownBy (JNum (groupQty * SIZE_MULT)) digits in
          if \<not> to_number qty > Fin 0 then paper_rows digits ls room (Fin 0) (Fin 0)
          else (p, qty) # paper_rows digits ls (room - 1) (Fin 0) (Fin 0))"

definition paper_order :: "pair \<Rightarrow> string \<Rightarrow> user_id \<Rightarrow> int \<Rightarrow> oid \<Rightarrow> jsnum \<times> jsval \<Rightarrow> order" where
  "paper_order p side adminLiq now i pq =
     \<lparr>o_id = i, o_user = adminLiq, o_pair = p_id p, o_first_id = p_first_id p, o_first = p_first p,
      o_first_digits = p_first_digits p, o_second_id = p_second_id p, o_second = p_second p,
      o_second_digits = p_second_digits p, o_side = side, o_type = ''limit'', o_price = JNum (fst pq),
      o_quantity = snd pq, o_amount = snd pq, o_value = JNum (fst pq * to_number (snd pq)),
      o_open_quantity = snd pq, o_open_value = JNum (fst pq * to_number (snd pq)), o_average = JNum (Fin 0),
      o_ref_price = JUndef, o_filled = JNum (Fin 0), o_liquidity = ''off'', o_role = JUndef, o_is_maker = True,
      o_flag = False, o_is_paper = True, o_is_liquidity = False, o_status = ''open'', o_reserved = JUndef,
      o_released = JUndef, o_before = JUndef, o_after = JUndef, o_code = JNum (Fin 0), o_date = Some (now - 60000)\<rparr>"

definition buildPaperOrders ::
    "(nat \<Rightarrow> oid) \<Rightarrow> nat \<Rightarrow> pair \<Rightarrow> level list \<Rightarrow> string \<Rightarrow> user_id \<Rightarrow> int \<Rightarrow> order list" where
  "buildPaperOrders draw n p ls side adminLiq now =
     (let rows = paper_rows (p_first_digits p) ls LEVELS (Fin 0) (Fin 0)
      in map2 (paper_order p side adminLiq now) (map draw [n..<n + length rows]) rows)"

section \<open>Tearing the rows out\<close>

definition is_paper_row :: "order row \<Rightarrow> bool" where
  "is_paper_row r = (case r of Row o1 \<Rightarrow> o_is_paper o1 | Garbled \<Rightarrow> False)"

definition with_table :: "string \<Rightarrow> ((oid \<times> order row) list \<Rightarrow> (oid \<times> order row) list) \<Rightarrow> spot \<Rightarrow> spot" where
  "with_table key f st = st\<lparr>tables := (tables st)(key := f (tables st key))\<rparr>"

definition without_paper :: "(order \<Rightarrow> bool) \<Rightarrow> (oid \<times> order row) list \<Rightarrow> (oid \<times> order row) list" where
  "without_paper kept rows = filter (\<lambda>(_, r). case r of Row o1 \<Rightarrow> \<not> o_is_paper o1 \<or> kept o1 | Garbled \<Rightarrow> True) rows"

definition both_tables :: "pair_id \<Rightarrow> ((oid \<times> order row) list \<Rightarrow> (oid \<times> order row) list) \<Rightarrow> spot \<Rightarrow> spot" where
  "both_tables pid f st = with_table (open_table ''sell'' pid) f (with_table (open_table ''buy'' pid) f st)"

text \<open>The ladder is reported gone before the first row is deleted.\<close>

definition purgePaperBook :: "pair_id \<Rightarrow> string \<Rightarrow> venue \<Rightarrow> venue \<times> bool" where
  "purgePaperBook pid why v =
     (let v1 = recordLadder pid (NO_CAPACITY why (clock (exch v))) v in
      if \<not> online (exch v1) then (v1, False)
      else (v1\<lparr>exch := both_tables pid (without_paper (\<lambda>_. False)) (exch v1),
               lastIds := (lastIds v1)(pid := None), lastSyncAt := remove_field pid (lastSyncAt v1),
               purgedPairs := List.insert pid (purgedPairs v1)\<rparr>, True))"

definition dropLadder :: "pair_id \<Rightarrow> string \<Rightarrow> venue \<Rightarrow> venue \<times> bool" where
  "dropLadder pid why v =
     (if pid \<in> set (purgedPairs v) \<and> lastIds v pid = None
      then (recordLadder pid (NO_CAPACITY why (clock (exch v))) v, False)
      else purgePaperBook pid why v)"

definition isPaperEligible :: "pair option \<Rightarrow> bool" where
  "isPaperEligible pairData = (case pairData of
      None \<Rightarrow> False
    | Some p \<Rightarrow> p_botstatus p = ''binance'' \<and> (p_status p = [] \<or> p_status p = ''active''))"

fun sweep :: "pair_id option \<Rightarrow> int \<Rightarrow> (pair_id \<times> int) list \<Rightarrow> venue \<Rightarrow> venue" where
  "sweep skip now [] v = v"
| "sweep skip now ((pairId, syncedAt) # rest) v =
     (if skip = Some pairId \<or> now - syncedAt \<le> ORPHAN_MS then sweep skip now rest v
      else sweep skip now rest (fst (purgePaperBook pairId ''ladder_orphaned'' v)))"

definition sweepOrphanLadders :: "pair_id option \<Rightarrow> int \<Rightarrow> venue \<Rightarrow> venue" where
  "sweepOrphanLadders skip now v = sweep skip now (lastSyncAt v) v"

section \<open>The refresh\<close>

datatype sync = Synced nat nat | NotSynced string

text \<open>What was written before comes out, then any other paper row, then the new rows go in.\<close>

definition write_rows :: "string \<Rightarrow> order list \<Rightarrow> spot \<Rightarrow> spot" where
  "write_rows key orders st = fold (\<lambda>o1. hset_order key (o_id o1) o1) orders st"

definition replace_ladder :: "pair_id \<Rightarrow> oid list \<Rightarrow> order list \<Rightarrow> order list \<Rightarrow> spot \<Rightarrow> spot" where
  "replace_ladder pairId previous buyOrders sellOrders st =
     (let newIds = map o_id (buyOrders @ sellOrders);
          drop_previous = filter (\<lambda>row. fst row \<notin> set previous);
          st1 = both_tables pairId (without_paper (\<lambda>o1. o_id o1 \<in> set newIds) \<circ> drop_previous) st
      in write_rows (open_table ''sell'' pairId) sellOrders (write_rows (open_table ''buy'' pairId) buyOrders st1))"

definition measured :: "order list \<Rightarrow> order list \<Rightarrow> int \<Rightarrow> ladder" where
  "measured buyOrders sellOrders t =
     (let (bq, bn) = ladderCapacity buyOrders; (sq, sn) = ladderCapacity sellOrders; some_row = (buyOrders @ sellOrders \<noteq> []) in
      \<lparr>la_present = some_row, la_reason = (if some_row then None else Some ''ladder_not_built''), la_at = t,
       la_buy = length buyOrders, la_sell = length sellOrders, la_buy_quantity = bq, la_buy_notional = bn,
       la_sell_quantity = sq, la_sell_notional = sn, la_best_buy = ladderBestPrice buyOrders ''buy'',
       la_best_sell = ladderBestPrice sellOrders ''sell''\<rparr>)"

definition refresh :: "(nat \<Rightarrow> oid) \<Rightarrow> pair \<Rightarrow> depth_book \<Rightarrow> user_id \<Rightarrow> venue \<Rightarrow> venue \<times> sync" where
  "refresh draw p book adminLiq v =
     (let st = exch v; pairId = p_id p; now = clock st;
          buyOrders = buildPaperOrders draw (draws st) p (the (b_bids book)) ''buy'' adminLiq now;
          sellOrders = buildPaperOrders draw (draws st + length buyOrders) p (the (b_asks book)) ''sell'' adminLiq now;
          newIds = map o_id (buyOrders @ sellOrders);
          previous = (case lastIds v pairId of None \<Rightarrow> [] | Some ids \<Rightarrow> ids);
          st1 = replace_ladder pairId previous buyOrders sellOrders (st\<lparr>draws := draws st + length newIds\<rparr>);
          v1 = v\<lparr>exch := st1, lastIds := (lastIds v)(pairId := Some newIds),
                 lastSyncAt := put pairId now (lastSyncAt v), purgedPairs := removeAll pairId (purgedPairs v)\<rparr>
      in (recordLadder pairId (measured buyOrders sellOrders now) v1, Synced (length buyOrders) (length sellOrders)))"

text \<open>A fault of the store while refreshing reports the ladder gone and tries to tear it out.\<close>

definition sync_failed :: "pair_id \<Rightarrow> venue \<Rightarrow> venue \<times> sync" where
  "sync_failed pairId v =
     (fst (purgePaperBook pairId ''error'' (recordLadder pairId (NO_CAPACITY ''error'' (clock (exch v))) v)), NotSynced ''error'')"

definition sync_swept ::
    "(nat \<Rightarrow> oid) \<Rightarrow> (pair_id \<Rightarrow> depth_book option) \<Rightarrow> pair option \<Rightarrow> venue \<Rightarrow> venue \<times> sync" where
  "sync_swept draw resolve pairData v = (case pairData of
      None \<Rightarrow> (v, NotSynced ''no_pair'')
    | Some p \<Rightarrow>
        if \<not> isPaperEligible pairData
        then (fst (dropLadder (p_id p) ''pair_ineligible'' v),
              NotSynced (if p_botstatus p \<noteq> ''binance'' then ''not_binance'' else ''pair_inactive''))
        else (case assessDepthHealth (resolve (p_id p)) pairData (Fin (of_int (clock (exch v)))) of
          Some why \<Rightarrow> (fst (dropLadder (p_id p) why v), NotSynced why)
        | None \<Rightarrow> (case house_account (exch v) of
            Done (Some a) \<Rightarrow> refresh draw p (the (resolve (p_id p))) a v
          | Done None \<Rightarrow> (fst (dropLadder (p_id p) ''no_admin_liquidity'' v), NotSynced ''no_admin_liquidity'')
          | _ \<Rightarrow> sync_failed (p_id p) v)))"

definition syncPaperBook ::
    "(nat \<Rightarrow> oid) \<Rightarrow> (pair_id \<Rightarrow> depth_book option) \<Rightarrow> pair option \<Rightarrow> venue \<Rightarrow> venue \<times> sync" where
  "syncPaperBook draw resolve pairData v =
     sync_swept draw resolve pairData (sweepOrphanLadders (map_option p_id pairData) (clock (exch v)) v)"

section \<open>The rows of a ladder\<close>

lemma paper_rows_length: "length (paper_rows digits ls room gq gn) \<le> room"
proof (induction ls arbitrary: room gq gn)
  case (Cons l ls)
  have ih: "0 < room \<Longrightarrow> Suc (length (paper_rows digits ls (room - Suc 0) (Fin 0) (Fin 0))) \<le> room"
    using Cons.IH [of "room - Suc 0" "Fin 0" "Fin 0"] by linarith
  show ?case by (auto simp: Let_def Cons.IH ih)
qed simp

lemma paper_rows_positive:
  "pq \<in> set (paper_rows digits ls room gq gn) \<Longrightarrow> fst pq > Fin 0 \<and> to_number (snd pq) > Fin 0"
  by (induction digits ls room gq gn rule: paper_rows.induct) (auto simp: Let_def split: if_splits)

lemma paper_rows_subseq:
  "subseq (map fst (paper_rows digits ls room gq gn)) (map (\<lambda>l. parse_float (l_price l)) ls)"
proof (induction ls arbitrary: room gq gn)
  case (Cons l ls)
  note ih = Cons.IH
  show ?case
    by (simp add: Let_def del: subseq_Cons2_iff) (auto intro: ih list_emb_Cons subseq_Cons2)
qed simp

lemma build_length [simp]:
  "length (buildPaperOrders draw n p ls side a now) = length (paper_rows (p_first_digits p) ls LEVELS (Fin 0) (Fin 0))"
  by (simp add: buildPaperOrders_def Let_def)

lemma paper_order_sel [simp]:
  "o_is_paper (paper_order p side a now i pq)" "o_id (paper_order p side a now i pq) = i"
  "o_price (paper_order p side a now i pq) = JNum (fst pq)" "o_quantity (paper_order p side a now i pq) = snd pq"
  "o_user (paper_order p side a now i pq) = a" "o_flag (paper_order p side a now i pq) = False"
  by (simp_all add: paper_order_def)

lemma map_map2_left: "length xs = length ys \<Longrightarrow> map f (map2 (\<lambda>i pq. g i pq) xs ys) = map2 (\<lambda>i pq. f (g i pq)) xs ys"
  by (simp add: case_prod_unfold)

lemma build_ids: "map o_id (buildPaperOrders draw n p ls side a now) =
    map draw [n..<n + length (paper_rows (p_first_digits p) ls LEVELS (Fin 0) (Fin 0))]"
proof -
  have "map o_id (map2 (paper_order p side a now) xs ys) = xs" if "length xs = length ys" for xs ys
    using that by (induction xs ys rule: list_induct2) simp_all
  then show ?thesis by (simp add: buildPaperOrders_def Let_def)
qed

lemma build_prices: "map o_price (buildPaperOrders draw n p ls side a now) =
    map (JNum \<circ> fst) (paper_rows (p_first_digits p) ls LEVELS (Fin 0) (Fin 0))"
proof -
  have "map o_price (map2 (paper_order p side a now) xs ys) = map (JNum \<circ> fst) ys" if "length xs = length ys" for xs ys
    using that by (induction xs ys rule: list_induct2) simp_all
  then show ?thesis by (simp add: buildPaperOrders_def Let_def)
qed

lemma build_member:
  assumes "o1 \<in> set (buildPaperOrders draw n p ls side a now)"
  obtains i pq where "o1 = paper_order p side a now i pq"
    and "pq \<in> set (paper_rows (p_first_digits p) ls LEVELS (Fin 0) (Fin 0))"
  using assms by (auto simp: buildPaperOrders_def Let_def in_set_zip) (metis nth_mem)

lemma ladder_quotes_the_venue_paper: "list_all o_is_paper (buildPaperOrders draw n p ls side a now)"
  unfolding list_all_iff by (auto elim!: build_member)

text \<open>A side of the ladder has at most twelve rows, each marked as paper, owned by the house and of
  positive size, and their prices are the prices of venue levels in the venue's own order: the ladder
  never quotes a price the venue does not show, nor ahead of its turn.\<close>

theorem ladder_quotes_the_venue:
  "length (buildPaperOrders draw n p ls side a now) \<le> LEVELS \<and>
   list_all (\<lambda>o1. o_is_paper o1 \<and> o_user o1 = a \<and> to_number (o_quantity o1) > Fin 0)
     (buildPaperOrders draw n p ls side a now) \<and>
   subseq (map o_price (buildPaperOrders draw n p ls side a now)) (map (\<lambda>l. JNum (parse_float (l_price l))) ls)"
proof (intro conjI)
  show "length (buildPaperOrders draw n p ls side a now) \<le> LEVELS"
    using paper_rows_length by simp
  show "list_all (\<lambda>o1. o_is_paper o1 \<and> o_user o1 = a \<and> to_number (o_quantity o1) > Fin 0)
      (buildPaperOrders draw n p ls side a now)"
    unfolding list_all_iff by (auto elim!: build_member dest: paper_rows_positive)
  show "subseq (map o_price (buildPaperOrders draw n p ls side a now)) (map (\<lambda>l. JNum (parse_float (l_price l))) ls)"
    using subseq_map [OF paper_rows_subseq, of JNum "p_first_digits p" ls LEVELS "Fin 0" "Fin 0"]
    by (simp add: build_prices comp_def)
qed

section \<open>Tables\<close>

lemma with_table_sel [simp]:
  "tables (with_table key f st) = (tables st)(key := f (tables st key))"
  "hashes (with_table key f st) = hashes st" "online (with_table key f st) = online st"
  "clock (with_table key f st) = clock st"
  by (simp_all add: with_table_def)

lemma table_names [simp]: "open_table ''buy'' pid \<noteq> open_table ''sell'' pid'"
  by (simp add: open_table_def)

lemma both_tables_sel:
  "tables (both_tables pid f st) key =
    (if key = open_table ''buy'' pid \<or> key = open_table ''sell'' pid then f (tables st key) else tables st key)"
  using table_names [of pid pid] by (auto simp: both_tables_def simp del: table_names)

lemma both_tables_frame [simp]:
  "hashes (both_tables pid f st) = hashes st" "online (both_tables pid f st) = online st"
  "clock (both_tables pid f st) = clock st"
  by (simp_all add: both_tables_def)

definition user_rows :: "(oid \<times> order row) list \<Rightarrow> (oid \<times> order row) list" where
  "user_rows rows = filter (\<lambda>(_, r). \<not> is_paper_row r) rows"

definition paper_rows_of :: "(oid \<times> order row) list \<Rightarrow> (oid \<times> order row) list" where
  "paper_rows_of rows = filter (\<lambda>(_, r). is_paper_row r) rows"

lemma user_rows_without_paper [simp]: "user_rows (without_paper kept rows) = user_rows rows"
  by (induction rows) (auto simp: user_rows_def without_paper_def is_paper_row_def split: row.splits)

lemma paper_rows_without_paper [simp]: "paper_rows_of (without_paper (\<lambda>_. False) rows) = []"
  by (induction rows) (auto simp: paper_rows_of_def without_paper_def is_paper_row_def split: row.splits)

lemma user_rows_drop:
  "\<forall>(i, r) \<in> set rows. i \<in> D \<longrightarrow> is_paper_row r \<Longrightarrow> user_rows (filter (\<lambda>row. fst row \<notin> D) rows) = user_rows rows"
  by (induction rows) (auto simp: user_rows_def)

lemma user_rows_put_fresh:
  "i \<notin> fst ` set rows \<Longrightarrow> is_paper_row r \<Longrightarrow> user_rows (put i r rows) = user_rows rows"
  by (induction rows) (auto simp: user_rows_def)

lemma put_fresh: "i \<notin> fst ` set rows \<Longrightarrow> put i r rows = rows @ [(i, r)]"
  by (induction rows) auto

text \<open>Purging takes the paper rows of a pair out and leaves every other row of every table.\<close>

lemma purge_done:
  "online (exch v) \<Longrightarrow> purgePaperBook pid why v =
    (v\<lparr>ladderState := (ladderState v)(pid := Some (NO_CAPACITY why (clock (exch v)))),
       exch := both_tables pid (without_paper (\<lambda>_. False)) (exch v), lastIds := (lastIds v)(pid := None),
       lastSyncAt := remove_field pid (lastSyncAt v), purgedPairs := List.insert pid (purgedPairs v)\<rparr>, True)"
  by (simp add: purgePaperBook_def recordLadder_def)

lemma purge_user_rows:
  "user_rows (tables (exch (fst (purgePaperBook pid why v))) key) = user_rows (tables (exch v) key)"
  by (simp add: purgePaperBook_def recordLadder_def both_tables_sel Let_def)

lemma drop_user_rows:
  "user_rows (tables (exch (fst (dropLadder pid why v))) key) = user_rows (tables (exch v) key)"
  by (simp add: dropLadder_def purge_user_rows recordLadder_def)

lemma sweep_user_rows:
  "user_rows (tables (exch (sweep skip now rest v)) key) = user_rows (tables (exch v) key)"
  by (induction skip now rest v rule: sweep.induct) (simp_all add: purge_user_rows)

section \<open>The refresh and the user's rows\<close>

text \<open>
  The ids remembered for a pair name rows of the ladder, or rows that are gone; the ids still to be
  drawn name no row at all.
\<close>

definition remembers_paper :: "venue \<Rightarrow> bool" where
  "remembers_paper v \<longleftrightarrow> (\<forall>pid ids key. lastIds v pid = Some ids \<longrightarrow>
     (\<forall>(i, r) \<in> set (tables (exch v) key). i \<in> set ids \<longrightarrow> is_paper_row r))"

definition draws_fresh :: "(nat \<Rightarrow> oid) \<Rightarrow> spot \<Rightarrow> bool" where
  "draws_fresh draw st \<longleftrightarrow> inj draw \<and> (\<forall>n \<ge> draws st. \<forall>key. draw n \<notin> fst ` set (tables st key))"

lemma json_order_sel [simp]:
  "o_is_paper (json_order o1) = o_is_paper o1" "o_id (json_order o1) = o_id o1" "o_user (json_order o1) = o_user o1"
  "o_flag (json_order o1) = o_flag o1" "o_side (json_order o1) = o_side o1" "o_type (json_order o1) = o_type o1"
  "o_pair (json_order o1) = o_pair o1" "o_status (json_order o1) = o_status o1"
  by (simp_all add: json_order_def)

lemma hset_order_sel [simp]:
  "tables (hset_order key i o1 st) = (tables st)(key := put i (Row (json_order o1)) (tables st key))"
  "hashes (hset_order key i o1 st) = hashes st" "online (hset_order key i o1 st) = online st"
  "clock (hset_order key i o1 st) = clock st"
  by (simp_all add: hset_order_def)

lemma write_rows_tables:
  assumes "distinct (map o_id os)" and "o_id ` set os \<inter> fst ` set (tables st key) = {}"
  shows "tables (write_rows key os st) =
    (tables st)(key := tables st key @ map (\<lambda>o1. (o_id o1, Row (json_order o1))) os)"
  using assms
proof (induction os arbitrary: st)
  case (Cons o1 os)
  let ?st = "hset_order key (o_id o1) o1 st"
  have fresh: "o_id o1 \<notin> fst ` set (tables st key)" using Cons.prems(2) by simp
  have "write_rows key (o1 # os) st = write_rows key os ?st" by (simp add: write_rows_def)
  also have "tables \<dots> = (tables ?st)(key := tables ?st key @ map (\<lambda>o1. (o_id o1, Row (json_order o1))) os)"
    by (rule Cons.IH) (use Cons.prems fresh in \<open>auto simp: put_fresh\<close>)
  finally show ?case using fresh by (simp add: put_fresh fun_eq_iff)
qed (simp add: write_rows_def)

lemma user_rows_append [simp]: "user_rows (xs @ ys) = user_rows xs @ user_rows ys"
  by (simp add: user_rows_def)

lemma user_rows_paper: "list_all o_is_paper os \<Longrightarrow> user_rows (map (\<lambda>o1. (o_id o1, Row (json_order o1))) os) = []"
  by (induction os) (auto simp: user_rows_def is_paper_row_def)

lemma keys_without_paper: "fst ` set (without_paper kept rows) \<subseteq> fst ` set rows"
  by (auto simp: without_paper_def)

text \<open>The new rows as they lie in the tables after a refresh.\<close>

lemma replace_ladder_rows:
  assumes prev: "\<forall>key. \<forall>(i, r) \<in> set (tables st key). i \<in> set previous \<longrightarrow> is_paper_row r"
    and d: "distinct (map o_id (bs @ ss))"
    and fresh: "\<And>key. o_id ` set (bs @ ss) \<inter> fst ` set (tables st key) = {}"
    and paper: "list_all o_is_paper bs" "list_all o_is_paper ss"
  shows "user_rows (tables (replace_ladder pid previous bs ss st) key) = user_rows (tables st key)"
proof -
  let ?f = "without_paper (\<lambda>o1. o_id o1 \<in> set (map o_id (bs @ ss))) \<circ> filter (\<lambda>row. fst row \<notin> set previous)"
  define st1 where "st1 = both_tables pid ?f st"
  have keys1: "fst ` set (tables st1 k) \<subseteq> fst ` set (tables st k)" for k
  proof -
    have "fst ` set (?f rows) \<subseteq> fst ` set rows" for rows
      using keys_without_paper [of _ "filter (\<lambda>row. fst row \<notin> set previous) rows"] by auto
    then show ?thesis by (simp add: st1_def both_tables_sel)
  qed
  have apart: "o_id ` set (bs @ ss) \<inter> fst ` set (tables st1 k) = {}" for k
    using keys1 [of k] fresh [of k] by blast
  have user1: "user_rows (tables st1 k) = user_rows (tables st k)" for k
    using prev user_rows_drop by (simp add: st1_def both_tables_sel)
  define st2 where "st2 = write_rows (open_table ''buy'' pid) bs st1"
  have t2: "tables st2 = (tables st1)(open_table ''buy'' pid :=
      tables st1 (open_table ''buy'' pid) @ map (\<lambda>o1. (o_id o1, Row (json_order o1))) bs)"
    unfolding st2_def
  proof (rule write_rows_tables)
    show "distinct (map o_id bs)" using d by simp
    show "o_id ` set bs \<inter> fst ` set (tables st1 (open_table ''buy'' pid)) = {}"
      using apart [of "open_table ''buy'' pid"] by (simp add: image_Un Int_Un_distrib2)
  qed
  have sell2: "tables st2 (open_table ''sell'' pid) = tables st1 (open_table ''sell'' pid)"
    using table_names [of pid pid, symmetric] by (simp add: t2)
  have t3: "tables (replace_ladder pid previous bs ss st) = (tables st2)(open_table ''sell'' pid :=
      tables st2 (open_table ''sell'' pid) @ map (\<lambda>o1. (o_id o1, Row (json_order o1))) ss)"
    unfolding replace_ladder_def Let_def st1_def [symmetric] st2_def [symmetric]
  proof (rule write_rows_tables)
    show "distinct (map o_id ss)" using d by simp
    show "o_id ` set ss \<inter> fst ` set (tables st2 (open_table ''sell'' pid)) = {}"
      using apart [of "open_table ''sell'' pid"] by (simp add: sell2 image_Un Int_Un_distrib2)
  qed
  show ?thesis using user1 paper by (simp add: t3 t2 user_rows_paper)
qed

lemma keys_purge:
  "set (tables (exch (fst (purgePaperBook pid why v))) key) \<subseteq> set (tables (exch v) key)"
  by (auto simp: purgePaperBook_def recordLadder_def both_tables_sel Let_def without_paper_def)

lemma purge_remembers:
  assumes "remembers_paper v"
  shows "remembers_paper (fst (purgePaperBook pid why v))"
proof -
  have "lastIds v i = Some ids" if "lastIds (fst (purgePaperBook pid why v)) i = Some ids" for i ids
    using that by (auto simp: purgePaperBook_def recordLadder_def Let_def split: if_splits)
  then show ?thesis using assms keys_purge [of pid why v] unfolding remembers_paper_def by blast
qed

lemma draws_both [simp]: "draws (both_tables pid f st) = draws st"
  by (simp add: both_tables_def with_table_def)

lemma purge_draws:
  assumes "draws_fresh draw (exch v)"
  shows "draws_fresh draw (exch (fst (purgePaperBook pid why v)))"
proof -
  have "draws (exch (fst (purgePaperBook pid why v))) = draws (exch v)"
    by (simp add: purgePaperBook_def recordLadder_def Let_def)
  then show ?thesis using assms keys_purge [of pid why v] unfolding draws_fresh_def by (metis image_mono subsetD)
qed

lemma sweep_keeps:
  "remembers_paper v \<and> draws_fresh draw (exch v) \<Longrightarrow>
   remembers_paper (sweep skip now rest v) \<and> draws_fresh draw (exch (sweep skip now rest v))"
  by (induction skip now rest v rule: sweep.induct) (auto simp: purge_remembers purge_draws)

lemma draws_write [simp]: "draws (write_rows key os st) = draws st" "tables (st\<lparr>draws := n\<rparr>) = tables st"
  by (induction os arbitrary: st) (simp_all add: write_rows_def hset_order_def)

lemma refresh_user_rows:
  assumes "remembers_paper v" and "draws_fresh draw (exch v)"
  shows "user_rows (tables (exch (fst (refresh draw p book a v))) key) = user_rows (tables (exch v) key)"
proof -
  define st where "st = exch v"
  define bs where "bs = buildPaperOrders draw (draws st) p (the (b_bids book)) ''buy'' a (clock st)"
  define ss where "ss = buildPaperOrders draw (draws st + length bs) p (the (b_asks book)) ''sell'' a (clock st)"
  define previous where "previous = (case lastIds v (p_id p) of None \<Rightarrow> [] | Some ids \<Rightarrow> ids)"
  have ids: "map o_id (bs @ ss) = map draw [draws st..<draws st + (length bs + length ss)]"
  proof -
    have "[draws st..<draws st + (length bs + length ss)] =
        [draws st..<draws st + length bs] @ [draws st + length bs..<draws st + length bs + length ss]"
      using upt_add_eq_append [of "draws st" "draws st + length bs" "length ss"] by (simp add: add.assoc)
    moreover have "map o_id bs = map draw [draws st..<draws st + length bs]"
      by (simp add: bs_def build_ids)
    moreover have "map o_id ss = map draw [draws st + length bs..<draws st + length bs + length ss]"
      by (simp add: ss_def build_ids)
    ultimately show ?thesis by simp
  qed
  have inj: "inj draw" and new: "\<And>n key. draws st \<le> n \<Longrightarrow> draw n \<notin> fst ` set (tables st key)"
    using assms(2) by (simp_all add: draws_fresh_def st_def)
  have "distinct (map o_id (bs @ ss))"
    unfolding ids using inj_on_subset [OF inj] by (simp add: distinct_map)
  moreover have "o_id ` set (bs @ ss) \<inter> fst ` set (tables st k) = {}" for k
  proof -
    have "o_id ` set (bs @ ss) = draw ` {draws st..<draws st + (length bs + length ss)}"
      using ids by (metis list.set_map set_upt)
    moreover have "draw n \<notin> fst ` set (tables st k)" if "n \<in> {draws st..<draws st + (length bs + length ss)}" for n
      using new that by simp
    ultimately show ?thesis unfolding disjoint_iff by (metis imageE)
  qed
  moreover have "list_all o_is_paper bs" "list_all o_is_paper ss"
    using ladder_quotes_the_venue_paper by (simp_all add: bs_def ss_def)
  moreover have "\<forall>(i, r) \<in> set (tables st k). i \<in> set previous \<longrightarrow> is_paper_row r" for k
  proof (cases "lastIds v (p_id p)")
    case (Some ids)
    then have "\<forall>(i, r) \<in> set (tables (exch v) k). i \<in> set ids \<longrightarrow> is_paper_row r"
      using assms(1) unfolding remembers_paper_def by blast
    then show ?thesis using Some by (simp add: previous_def st_def)
  qed (simp add: previous_def)
  ultimately have "user_rows (tables (replace_ladder (p_id p) previous bs ss (st\<lparr>draws := n\<rparr>)) key) =
      user_rows (tables st key)" for n
    by (intro replace_ladder_rows [of "st\<lparr>draws := n\<rparr>", simplified]) simp_all
  moreover have "exch (fst (refresh draw p book a v)) =
      replace_ladder (p_id p) previous bs ss (st\<lparr>draws := draws st + length (map o_id (bs @ ss))\<rparr>)"
    by (simp add: refresh_def recordLadder_def Let_def bs_def ss_def previous_def st_def)
  ultimately show ?thesis by (simp add: st_def)
qed

lemma sync_cases:
  "(pd = None \<and> fst (sync_swept draw resolve pd v) = v) \<or>
   (\<exists>p why why'. pd = Some p \<and> fst (sync_swept draw resolve pd v) = fst (dropLadder (p_id p) why' v) \<and>
      snd (sync_swept draw resolve pd v) = NotSynced why) \<or>
   (\<exists>p. pd = Some p \<and> sync_swept draw resolve pd v = sync_failed (p_id p) v) \<or>
   (\<exists>p a. pd = Some p \<and> isPaperEligible pd \<and>
      assessDepthHealth (resolve (p_id p)) pd (Fin (of_int (clock (exch v)))) = None \<and>
      sync_swept draw resolve pd v = refresh draw p (the (resolve (p_id p))) a v)"
  unfolding sync_swept_def by (auto split: option.splits reply.splits)

text \<open>Whatever the refresh does - write a new ladder, drop the old one on a fault, sweep another pair's
  orphan - no table loses, gains or reorders a row that is not the ladder's.\<close>

theorem sync_keeps_user_rows:
  assumes "remembers_paper v" and "draws_fresh draw (exch v)"
  shows "user_rows (tables (exch (fst (syncPaperBook draw resolve pd v))) key) = user_rows (tables (exch v) key)"
proof -
  define w where "w = sweepOrphanLadders (map_option p_id pd) (clock (exch v)) v"
  have user: "user_rows (tables (exch w) key) = user_rows (tables (exch v) key)"
    by (simp add: w_def sweepOrphanLadders_def sweep_user_rows)
  have keep: "remembers_paper w \<and> draws_fresh draw (exch w)"
    unfolding w_def sweepOrphanLadders_def using assms by (intro sweep_keeps) simp
  have "user_rows (tables (exch (fst (sync_swept draw resolve pd w))) key) = user_rows (tables (exch w) key)"
    using sync_cases [of pd draw resolve w] keep
    by (auto simp: drop_user_rows sync_failed_def purge_user_rows refresh_user_rows recordLadder_def)
  then show ?thesis using user by (simp add: syncPaperBook_def w_def)
qed

definition quiet_venue :: venue where
  "quiet_venue = \<lparr>exch = hset_order (open_table ''buy'' ''p'') ''o1'' sample_order blank_spot,
     lastIds = \<lambda>_. None, lastSyncAt = [(''q'', -40000)], purgedPairs = [], ladderState = \<lambda>_. None\<rparr>"

theorem sync_keeps_user_rows_witness:
  "user_rows (tables (exch (fst (syncPaperBook (\<lambda>n. CHR ''x'' # replicate n CHR ''y'') (\<lambda>_. None) (Some sample_pair) quiet_venue)))
     (open_table ''buy'' ''p'')) = [(''o1'', Row (json_order sample_order))]"
proof -
  let ?draw = "\<lambda>n. CHR ''x'' # replicate n CHR ''y''"
  have "remembers_paper quiet_venue" by (simp add: remembers_paper_def quiet_venue_def)
  moreover have "inj ?draw" by (rule injI) (metis length_replicate list.inject)
  then have "draws_fresh ?draw (exch quiet_venue)"
    by (auto simp: draws_fresh_def quiet_venue_def)
  ultimately show ?thesis
    using sync_keeps_user_rows [of quiet_venue ?draw "\<lambda>_. None" "Some sample_pair" "open_table ''buy'' ''p''"]
    by (simp add: quiet_venue_def user_rows_def is_paper_row_def sample_order_def)
qed

section \<open>The ladder's state\<close>

definition no_capacity :: "ladder \<Rightarrow> bool" where
  "no_capacity l \<longleftrightarrow> \<not> la_present l \<and> la_buy_quantity l = Fin 0 \<and> la_buy_notional l = Fin 0 \<and>
     la_sell_quantity l = Fin 0 \<and> la_sell_notional l = Fin 0 \<and> la_best_buy l = None \<and> la_best_sell l = None"

lemma no_capacity_NO [simp]: "no_capacity (NO_CAPACITY why t)"
  by (simp add: no_capacity_def NO_CAPACITY_def)

lemma dropped_no_capacity: "no_capacity (getLadderState pid now (fst (dropLadder pid why v)))"
  by (simp add: dropLadder_def purgePaperBook_def recordLadder_def Let_def getLadderState_def NO_CAPACITY_def no_capacity_def)

lemma failed_no_capacity: "no_capacity (getLadderState pid now (fst (sync_failed pid v)))"
  by (simp add: sync_failed_def purgePaperBook_def recordLadder_def Let_def getLadderState_def NO_CAPACITY_def no_capacity_def)

text \<open>A refresh that answers a fault leaves the pair's ladder reported absent, with no capacity on
  either side, whatever the fault was and even when the store could not be reached.\<close>

theorem faults_leave_no_ladder:
  assumes "snd (syncPaperBook draw resolve (Some p) v) = NotSynced why"
  shows "no_capacity (getLadderState (p_id p) now (fst (syncPaperBook draw resolve (Some p) v)))"
proof -
  define w where "w = sweepOrphanLadders (map_option p_id (Some p)) (clock (exch v)) v"
  have "snd (refresh draw p b a w) \<noteq> NotSynced why" for b a by (simp add: refresh_def Let_def)
  then show ?thesis
    using assms sync_cases [of "Some p" draw resolve w]
    unfolding syncPaperBook_def w_def [symmetric] by (auto simp: dropped_no_capacity failed_no_capacity)
qed

theorem faults_leave_no_ladder_witness:
  "no_capacity (getLadderState ''p'' 0 (fst (syncPaperBook (\<lambda>_. []) (\<lambda>_. None) (Some sample_pair) quiet_venue)))"
proof -
  have "snd (syncPaperBook (\<lambda>_. []) (\<lambda>_. None) (Some sample_pair) quiet_venue) = NotSynced ''not_binance''"
    by (simp add: syncPaperBook_def sync_swept_def isPaperEligible_def sample_pair_def)
  from faults_leave_no_ladder [OF this, of 0] show ?thesis by (simp add: sample_pair_def)
qed

text \<open>Capacity is only ever shown with presence; every state the module records keeps to it.\<close>

definition ladder_honest :: "ladder \<Rightarrow> bool" where
  "ladder_honest l \<longleftrightarrow> la_present l \<or> no_capacity l"

definition ladders_honest :: "venue \<Rightarrow> bool" where
  "ladders_honest v \<longleftrightarrow> (\<forall>pid l. ladderState v pid = Some l \<longrightarrow> ladder_honest l)"

lemma shown_honest: "ladders_honest v \<Longrightarrow> ladder_honest (getLadderState pid now v)"
  by (auto simp: getLadderState_def ladders_honest_def ladder_honest_def split: option.splits)

lemma measured_honest: "ladder_honest (measured bs ss t)"
  by (cases "bs @ ss = []")
    (auto simp: measured_def ladder_honest_def no_capacity_def ladderCapacity_def ladderBestPrice_def split: prod.splits)

lemma purge_honest: "ladders_honest v \<Longrightarrow> ladders_honest (fst (purgePaperBook pid why v))"
  by (auto simp: ladders_honest_def purgePaperBook_def recordLadder_def Let_def ladder_honest_def split: if_splits)

lemma record_honest: "ladders_honest v \<Longrightarrow> ladder_honest l \<Longrightarrow> ladders_honest (recordLadder pid l v)"
  by (auto simp: ladders_honest_def recordLadder_def)

lemma sync_honest:
  assumes "ladders_honest v"
  shows "ladders_honest (fst (syncPaperBook draw resolve pd v))"
proof -
  define w where "w = sweepOrphanLadders (map_option p_id pd) (clock (exch v)) v"
  have "ladders_honest (sweep skip now rest u)" if "ladders_honest u" for skip now rest u
    using that by (induction skip now rest u rule: sweep.induct) (simp_all add: purge_honest)
  then have w: "ladders_honest w" using assms by (simp add: w_def sweepOrphanLadders_def)
  then have "ladders_honest (fst (dropLadder pid why w))" for pid why
    by (auto simp: dropLadder_def purge_honest intro: record_honest simp: ladder_honest_def)
  moreover have "ladders_honest (fst (sync_failed pid w))" for pid
    using w by (auto simp: sync_failed_def purge_honest record_honest ladder_honest_def)
  moreover have "ladders_honest (fst (refresh draw p b a w))" for p b a
    using w by (auto simp: refresh_def Let_def intro!: record_honest measured_honest) (simp add: ladders_honest_def)
  ultimately show ?thesis
    using sync_cases [of pd draw resolve w] w unfolding syncPaperBook_def w_def [symmetric] by auto
qed

end
