(* ===== verification/OrderGate.thy ===== *)
theory OrderGate
  imports PaperBook
begin

text \<open>
  The gate in front of an order (\<^verbatim>\<open>lib/orderGate.js\<close>): on a pair whose book is the paper ladder, a
  market order is accepted only while the depth is healthy, the ladder is there, and it is large
  enough; a limit order may rest in a degraded book. The sentence shown to the user is chosen by the
  reason alone and is left out.
\<close>

record gate =
  g_allowed :: bool
  g_reason :: "string option"
  g_degraded :: bool
  g_available :: "jsnum option"

definition PAPER_LADDER_BOTSTATUS :: string where
  "PAPER_LADDER_BOTSTATUS = ''binance''"

definition usesPaperLadder :: "pair option \<Rightarrow> bool" where
  "usesPaperLadder pairData = (case pairData of None \<Rightarrow> False | Some p \<Rightarrow> p_botstatus p = PAPER_LADDER_BOTSTATUS)"

definition TERMINAL_REASONS :: "string list" where
  "TERMINAL_REASONS = [''pair_ineligible'', ''no_pair'']"

definition ladderCapacityFor :: "ladder \<Rightarrow> jsval \<Rightarrow> jsnum option" where
  "ladderCapacityFor l side =
     (let available = (if side = JStr ''sell'' then la_buy_quantity l else la_sell_notional l)
      in if is_finite available then Some available else None)"

definition passes :: "string option \<Rightarrow> bool \<Rightarrow> gate" where
  "passes why degraded = \<lparr>g_allowed = True, g_reason = why, g_degraded = degraded, g_available = None\<rparr>"

definition refused :: "string \<Rightarrow> jsnum option \<Rightarrow> gate" where
  "refused why available = \<lparr>g_allowed = False, g_reason = Some why, g_degraded = True, g_available = available\<rparr>"

text \<open>What is wrong with the book: the depth first, then the ladder.\<close>

definition gate_fault :: "string option \<Rightarrow> ladder \<Rightarrow> string option" where
  "gate_fault depth_fault l = (case depth_fault of
      Some why \<Rightarrow> Some (if why = [] then ''error'' else why)
    | None \<Rightarrow>
        if la_present l then None
        else Some (case la_reason l of None \<Rightarrow> ''ladder_not_built''
          | Some why \<Rightarrow> if why = [] then ''ladder_not_built'' else why))"

definition evaluateOrderGate ::
    "jsval \<Rightarrow> string option \<Rightarrow> ladder \<Rightarrow> jsval \<Rightarrow> jsnum option \<Rightarrow> gate" where
  "evaluateOrderGate ty depth_fault l side size1 =
     (let isMarket = (ty = JStr ''market'') in
      case gate_fault depth_fault l of
        None \<Rightarrow>
          (case size1 of
            None \<Rightarrow> passes None False
          | Some requested \<Rightarrow>
              if \<not> isMarket then passes None False
              else let available = ladderCapacityFor l side in
                if \<not> is_finite requested \<or> requested \<le> Fin 0 \<or> available = None
                then refused ''error'' None
                else if requested > the available then refused ''insufficient_liquidity'' available
                else passes None False)
      | Some why \<Rightarrow>
          if \<not> isMarket \<and> why \<notin> set TERMINAL_REASONS then passes (Some why) True
          else refused why None)"

definition assertOrderTradable ::
    "(pair_id \<Rightarrow> depth_book option) \<Rightarrow> pair option \<Rightarrow> jsval \<Rightarrow> jsval \<Rightarrow> jsnum option \<Rightarrow> int \<Rightarrow> venue \<Rightarrow> gate" where
  "assertOrderTradable resolve pairData ty side size1 now v =
     (if \<not> usesPaperLadder pairData then passes None False
      else let pairId = p_id (the pairData);
               depth_fault = assessDepthHealth (resolve pairId) pairData (Fin (of_int now));
               l = getLadderState pairId now v
           in evaluateOrderGate ty depth_fault l side size1)"

section \<open>What the gate lets through\<close>

lemma gate_fault_none: "gate_fault d l = None \<longleftrightarrow> d = None \<and> la_present l"
  by (auto simp: gate_fault_def split: option.splits)

text \<open>A market order that passes the gate of a paper pair meets a healthy depth snapshot and a ladder
  that is there, and asks for a positive amount no larger than what rests on the side it takes:
  the base quantity of the bids for a sell, the quote notional of the asks for a buy.\<close>

theorem market_order_can_fill:
  assumes "usesPaperLadder (Some p)"
    and "g_allowed (assertOrderTradable resolve (Some p) (JStr ''market'') side (Some n) now v)"
  shows "assessDepthHealth (resolve (p_id p)) (Some p) (Fin (of_int now)) = None \<and>
    la_present (getLadderState (p_id p) now v) \<and> n > Fin 0 \<and>
    n \<le> (if side = JStr ''sell'' then la_buy_quantity (getLadderState (p_id p) now v)
          else la_sell_notional (getLadderState (p_id p) now v))"
proof -
  define l where "l = getLadderState (p_id p) now v"
  define d where "d = assessDepthHealth (resolve (p_id p)) (Some p) (Fin (of_int now))"
  have e: "g_allowed (evaluateOrderGate (JStr ''market'') d l side (Some n))"
    using assms by (simp add: assertOrderTradable_def l_def d_def Let_def)
  then have f: "gate_fault d l = None"
    by (cases "gate_fault d l") (simp_all add: evaluateOrderGate_def refused_def)
  then have g: "is_finite n" "\<not> n \<le> Fin 0" "ladderCapacityFor l side \<noteq> None" "\<not> n > the (ladderCapacityFor l side)"
    using e by (auto simp: evaluateOrderGate_def refused_def Let_def split: if_splits)
  obtain c x where c: "ladderCapacityFor l side = Some c" "c = Fin x"
    using g(3) by (auto simp: ladderCapacityFor_def Let_def split: if_splits elim: is_finite.elims)
  obtain y where y: "n = Fin y" using g(1) by (cases n) simp_all
  have "n > Fin 0" "n \<le> c" using g(2,4) c y by simp_all
  moreover have "c = (if side = JStr ''sell'' then la_buy_quantity l else la_sell_notional l)"
    using c(1) by (simp add: ladderCapacityFor_def Let_def split: if_splits)
  ultimately show ?thesis
    unfolding l_def [symmetric] d_def [symmetric] using f by (simp add: gate_fault_none)
qed

definition deep_ladder :: ladder where
  "deep_ladder = \<lparr>la_present = True, la_reason = None, la_at = 0, la_buy = 1, la_sell = 1, la_buy_quantity = Fin 4,
     la_buy_notional = Fin 40, la_sell_quantity = Fin 4, la_sell_notional = Fin 44, la_best_buy = Some (Fin 10),
     la_best_sell = Some (Fin 11)\<rparr>"

definition deep_book :: depth_book where
  "deep_book = \<lparr>b_updated = JNum (Fin 0), b_bids = Some [level_of (Fin 10, Fin 4)],
     b_asks = Some [level_of (Fin 11, Fin 4)], b_update_id = JNum (Fin 1)\<rparr>"

definition paper_pair :: pair where
  "paper_pair = sample_pair\<lparr>p_botstatus := ''binance'', p_mark := JNum (Fin 11)\<rparr>"

definition deep_venue :: venue where
  "deep_venue = quiet_venue\<lparr>ladderState := (\<lambda>_. None)(''p'' := Some deep_ladder)\<rparr>"

theorem market_order_can_fill_witness:
  "la_present (getLadderState ''p'' 0 deep_venue) \<and>
    Fin 3 \<le> (if JStr ''buy'' = JStr ''sell'' then la_buy_quantity (getLadderState ''p'' 0 deep_venue)
          else la_sell_notional (getLadderState ''p'' 0 deep_venue))"
proof -
  have d: "assessDepthHealth (Some deep_book) (Some paper_pair) (Fin (of_int 0)) = None" by code_simp
  have "g_allowed (assertOrderTradable (\<lambda>_. Some deep_book) (Some paper_pair) (JStr ''market'') (JStr ''buy'') (Some (Fin 3)) 0 deep_venue)"
    by (simp only: assertOrderTradable_def d Let_def)
      (simp add: usesPaperLadder_def paper_pair_def sample_pair_def PAPER_LADDER_BOTSTATUS_def getLadderState_def
        deep_venue_def deep_ladder_def evaluateOrderGate_def gate_fault_def ladderCapacityFor_def passes_def LADDER_STALE_MS_def)
  from market_order_can_fill [OF _ this]
  show ?thesis by (simp add: usesPaperLadder_def paper_pair_def sample_pair_def PAPER_LADDER_BOTSTATUS_def)
qed

text \<open>A limit order is refused only when the pair itself is not trading.\<close>

lemma limit_order_refused:
  assumes "\<not> g_allowed (assertOrderTradable resolve pd (JStr ''limit'') side size1 now v)"
  shows "\<exists>why \<in> set TERMINAL_REASONS.
    gate_fault (assessDepthHealth (resolve (p_id (the pd))) pd (Fin (of_int now))) (getLadderState (p_id (the pd)) now v) = Some why"
  using assms
  by (auto simp: assertOrderTradable_def evaluateOrderGate_def Let_def passes_def refused_def split: if_splits option.splits)

text \<open>A stale ladder is no ladder: nothing passes on a measurement older than its bound.\<close>

lemma stale_ladder_refuses_market:
  assumes "usesPaperLadder (Some p)" and "ladderState v (p_id p) = Some l" and "now - la_at l > LADDER_STALE_MS"
    and "g_allowed (assertOrderTradable resolve (Some p) (JStr ''market'') side (Some n) now v)" and "la_present l"
  shows False
proof -
  have "\<not> la_present (getLadderState (p_id p) now v)"
    using assms(2,3,5) by (simp add: getLadderState_def NO_CAPACITY_def)
  then obtain why where "gate_fault (assessDepthHealth (resolve (p_id p)) (Some p) (Fin (of_int now)))
      (getLadderState (p_id p) now v) = Some why"
    using gate_fault_none by (metis not_None_eq)
  then show False
    using assms(1,4) by (simp add: assertOrderTradable_def evaluateOrderGate_def refused_def Let_def)
qed

end
