(* ===== verification/Money.thy ===== *)
theory Money
  imports Reservation
begin

text \<open>
  What the movements of value leave alone. Every script of the ledger and every release of a
  reservation changes balance fields and ledger streams and nothing else: not the clock, the claims
  and flights, nor any of the exchange's own tables.
\<close>

section \<open>Sizes are doubles\<close>

lemma is_num_parse_unsigned: "parse_unsigned s = Some (v, r) \<Longrightarrow> is_num v"
  by (auto simp: parse_unsigned_def Let_def split: if_splits prod.splits)

lemma is_num_parse_float_str [simp]: "is_num (parse_float_str s)"
  by (auto simp: parse_float_str_def parse_signed_def split: option.splits if_splits dest: is_num_parse_unsigned)

lemma is_num_toFixedDown: "toFixedDown v d = JNum n \<Longrightarrow> is_num (parse_float v) \<Longrightarrow> is_num n"
  by (auto simp: toFixedDown_def Let_def split: if_splits option.splits)

lemma is_num_quantise: "num_val v \<Longrightarrow> is_num (quantiseOrderSize v digits)"
  by (auto simp: quantiseOrderSize_def finite_result_def num_val_def Let_def split: option.splits jsval.splits
      dest: is_num_toFixedDown)

section \<open>Movements\<close>

definition only_value :: "'a redis_scheme \<Rightarrow> 'a redis_scheme \<Rightarrow> bool" where
  "only_value st st' \<longleftrightarrow> redis.more st' = redis.more st \<and> online st' = online st \<and> clock st' = clock st \<and>
     keys st' = keys st \<and> flights st' = flights st"

lemma only_value_refl [simp]: "only_value st st"
  by (simp add: only_value_def)

lemma only_value_trans [trans]: "only_value st st1 \<Longrightarrow> only_value st1 st2 \<Longrightarrow> only_value st st2"
  by (simp add: only_value_def)

lemma only_value_put_hash [simp]: "only_value st (put_hash key f v st)"
  by (simp add: only_value_def put_hash_def)

lemma only_value_HINCRBYFLOAT:
  "HINCRBYFLOAT svc key f a st = Some (st', v) \<Longrightarrow> only_value st st'"
  by (auto simp: HINCRBYFLOAT_def Let_def split: option.splits rval.splits if_splits)

lemma only_value_XADD: "XADD svc f d b a why r st = (st', n) \<Longrightarrow> only_value st st'"
  by (auto simp: XADD_def only_value_def Let_def)

lemma only_value_hincbyfloat [simp]: "only_value st (fst (hincbyfloat svc key f v st))"
  by (auto simp: hincbyfloat_def split: option.splits dest: only_value_HINCRBYFLOAT)

text \<open>A movement that does not answer a balance has moved nothing.\<close>

lemma debit_only:
  "LEDGER_DEBIT_LUA svc key fz f arg why r st = (st', rep) \<Longrightarrow>
   only_value st st' \<and> ((\<forall>v. rep \<noteq> Done v) \<longrightarrow> st' = st)"
  by (auto simp: LEDGER_DEBIT_LUA_def Let_def split: option.splits if_splits prod.splits
      dest!: only_value_HINCRBYFLOAT only_value_XADD intro: only_value_trans)

lemma credit_only:
  "LEDGER_CREDIT_LUA svc key f arg why r st = (st', rep) \<Longrightarrow>
   only_value st st' \<and> ((\<forall>v. rep \<noteq> Done v) \<longrightarrow> st' = st)"
  by (auto simp: LEDGER_CREDIT_LUA_def Let_def split: option.splits if_splits prod.splits
      dest!: only_value_HINCRBYFLOAT only_value_XADD intro: only_value_trans)

lemma apply_only:
  "LEDGER_APPLY_LUA svc key f arg why r st = (st', rep) \<Longrightarrow>
   only_value st st' \<and> ((\<forall>v. rep \<noteq> Done v) \<longrightarrow> st' = st)"
  by (auto simp: LEDGER_APPLY_LUA_def Let_def split: option.splits if_splits prod.splits
      dest!: only_value_HINCRBYFLOAT only_value_XADD intro: only_value_trans)

lemma moveBalanceLogged_only:
  assumes "moveBalanceLogged svc key f v dir why r fk st = (st', rep)"
  shows "only_value st st'" and "\<forall>x. rep \<noteq> Done x \<Longrightarrow> st' = st"
  using assms
  by (auto simp: moveBalanceLogged_def Let_def split: if_splits direction.splits dest!: debit_only credit_only)

lemma caught_eq: "caught p = (st', rep) \<Longrightarrow> fst p = st' \<and> ((\<forall>x. rep \<noteq> Done x) \<longrightarrow> (\<forall>x. snd p \<noteq> Done x))"
  by (cases p rule: caught.cases) auto

lemma moveBalanceSigned_only:
  assumes "moveBalanceSigned svc key f v why r st = (st', rep)"
  shows "only_value st st'" and "\<forall>x. rep \<noteq> Done x \<Longrightarrow> st' = st"
proof -
  have "only_value st st' \<and> ((\<forall>x. rep \<noteq> Done x) \<longrightarrow> st' = st)"
  proof (cases "\<not> is_finite (to_number v) \<or> \<not> online st")
    case True
    then show ?thesis using assms by (auto simp: moveBalanceSigned_def)
  next
    case False
    obtain st1 rep1 where l: "LEDGER_APPLY_LUA svc key f (spelled (to_number v)) why r st = (st1, rep1)"
      by (metis surj_pair)
    then have "caught (st1, rep1) = (st', rep)" using assms False by (simp add: moveBalanceSigned_def)
    from caught_eq [OF this] apply_only [OF l] show ?thesis by auto
  qed
  then show "only_value st st'" "\<forall>x. rep \<noteq> Done x \<Longrightarrow> st' = st" by blast+
qed

lemma sweep_only [simp]: "only_value st (sweepResidualInOrder svc u c st)"
  by (simp add: sweepResidualInOrder_def Let_def)

lemma retire_only: "retire svc final c (st, o1) = (st', o2) \<Longrightarrow> only_value st st'"
  by (auto simp: retire_def split: if_splits)

lemma releaseInOrder_only:
  assumes "releaseInOrder svc o1 c v final st = (st', o2, rep)"
  shows "only_value st st'"
  using assms
  by (auto simp: releaseInOrder_def Let_def split: if_splits prod.splits dest!: retire_only
      intro: only_value_trans [OF only_value_hincbyfloat])

text \<open>The identity of an order, its side and its document fields survive a release.\<close>

definition released_only :: "order \<Rightarrow> order \<Rightarrow> bool" where
  "released_only o1 o2 \<longleftrightarrow> (\<exists>x. o2 = o1\<lparr>o_released := x\<rparr>)"

lemma released_only_refl [simp]: "released_only o1 o1"
  unfolding released_only_def by (rule exI [of _ "o_released o1"]) simp

lemma released_only_set [simp]: "released_only o1 (o1\<lparr>o_released := x\<rparr>)"
  by (auto simp: released_only_def)

lemma released_only_trans: "released_only o1 o2 \<Longrightarrow> released_only o2 o3 \<Longrightarrow> released_only o1 o3"
  by (auto simp: released_only_def)

lemma released_only_retired [simp]: "released_only o1 (markReservationRetired o1)"
  by (simp add: markReservationRetired_def Let_def)

lemma retire_order: "retire svc final c (st, o1) = (st', o2) \<Longrightarrow> released_only o1 o2"
  by (auto simp: retire_def split: if_splits)

lemma releaseInOrder_order:
  assumes "releaseInOrder svc o1 c v final st = (st', o2, rep)"
  shows "released_only o1 o2"
  using assms
  by (auto simp: releaseInOrder_def Let_def split: if_splits prod.splits dest!: retire_order
      intro: released_only_trans [OF released_only_set])

lemma releaseInOrder_frame:
  "releaseInOrder svc o1 c v final st = (st', o2, rep) \<Longrightarrow> only_value st st' \<and> released_only o1 o2"
  using releaseInOrder_only releaseInOrder_order by blast

lemma released_only_sel:
  assumes "released_only o1 o2"
  shows "o_id o2 = o_id o1" "o_user o2 = o_user o1" "o_pair o2 = o_pair o1" "o_side o2 = o_side o1"
    "o_type o2 = o_type o1" "o_status o2 = o_status o1" "o_reserved o2 = o_reserved o1" "o_flag o2 = o_flag o1"
    "o_is_paper o2 = o_is_paper o1" "o_first_id o2 = o_first_id o1" "o_second_id o2 = o_second_id o1"
    "o_quantity o2 = o_quantity o1" "o_price o2 = o_price o1" "o_first o2 = o_first o1" "o_second o2 = o_second o1"
  using assms by (auto simp: released_only_def)

lemma only_value_tables:
  "only_value st st' \<Longrightarrow> tables st' = tables st \<and> pairs st' = pairs st \<and> history st' = history st \<and> sent st' = sent st \<and>
    draws st' = draws st \<and> admin st' = admin st \<and> order_docs st' = order_docs st \<and> pair_docs st' = pair_docs st \<and>
    tradePair st' = tradePair st"
  by (cases st; cases st') (simp add: only_value_def)

text \<open>A release moves the in-order field of one user and one currency, and no ledger stream.\<close>

definition same_hashes_but :: "string \<Rightarrow> field \<Rightarrow> 'a redis_scheme \<Rightarrow> 'a redis_scheme \<Rightarrow> bool" where
  "same_hashes_but key f st st' \<longleftrightarrow> streams st' = streams st \<and>
     (\<forall>k g. k \<noteq> key \<or> g \<noteq> f \<longrightarrow> hashes st' k g = hashes st k g)"

lemma same_hashes_but_refl [simp]: "same_hashes_but key f st st"
  by (simp add: same_hashes_but_def)

lemma same_hashes_but_trans: "same_hashes_but key f st st1 \<Longrightarrow> same_hashes_but key f st1 st2 \<Longrightarrow> same_hashes_but key f st st2"
  by (auto simp: same_hashes_but_def)

lemma same_hashes_HINCRBYFLOAT: "HINCRBYFLOAT svc key f a st = Some (st', v) \<Longrightarrow> same_hashes_but key f st st'"
  by (auto simp: HINCRBYFLOAT_def same_hashes_but_def Let_def split: option.splits rval.splits if_splits)

lemma same_hashes_hincbyfloat [simp]: "same_hashes_but key f st (fst (hincbyfloat svc key f v st))"
  by (auto simp: hincbyfloat_def split: option.splits dest: same_hashes_HINCRBYFLOAT)

lemma same_hashes_sweep [simp]: "same_hashes_but IN_ORDER (u, c) st (sweepResidualInOrder svc u c st)"
  by (simp add: sweepResidualInOrder_def Let_def)

lemma same_hashes_retire: "retire svc final c (st, o1) = (st', o2) \<Longrightarrow> same_hashes_but IN_ORDER (o_user o1, c) st st'"
  by (auto simp: retire_def split: if_splits)

lemma releaseInOrder_hashes:
  assumes "releaseInOrder svc o1 c v final st = (st', o2, rep)"
  shows "same_hashes_but IN_ORDER (o_user o1, c) st st'"
proof -
  have u: "o_user (if P then o1\<lparr>o_released := x\<rparr> else o1) = o_user o1" for P x by simp
  show ?thesis
    using assms
    by (auto simp: releaseInOrder_def Let_def u split: if_splits prod.splits dest!: same_hashes_retire
        intro: same_hashes_but_trans [OF same_hashes_hincbyfloat])
qed

lemma releaseInOrder_keeps:
  assumes "releaseInOrder svc o1 c v final st = (st', o2, rep)" and "key \<noteq> IN_ORDER"
  shows "hashes st' key = hashes st key"
  using releaseInOrder_hashes [OF assms(1)] assms(2) by (auto simp: same_hashes_but_def)

end
