(* ===== verification/Cancelling.thy ===== *)
theory Cancelling
  imports Records Money
begin

text \<open>
  Cancelling an order (\<^verbatim>\<open>cancelOrder\<close> and \<^verbatim>\<open>cancelMarketOrder\<close> of \<^verbatim>\<open>controllers/spot.controller.js\<close>). The
  user's cancel has two halves, and other handlers may run between them: \<open>cancelPreview\<close> reads the row
  and refuses what it may not touch, \<open>cancelClaim\<close> takes the row out of the book in one script and only
  then moves value. What the request decrypts to is an argument; a request that decrypts to nothing is
  None.
\<close>

type_synonym response = "int \<times> string"

definition hex24 :: "string \<Rightarrow> bool" where
  "hex24 s \<longleftrightarrow> length s = 24 \<and> list_all is_hex s"

definition OPEN_ORDER_TABLE :: "string \<Rightarrow> bool" where
  "OPEN_ORDER_TABLE t \<longleftrightarrow>
     (take 14 t = ''buyOpenOrders_'' \<and> hex24 (drop 14 t)) \<or> (take 15 t = ''sellOpenOrders_'' \<and> hex24 (drop 15 t))"

definition starts_with :: "string \<Rightarrow> string \<Rightarrow> bool" where
  "starts_with p s \<longleftrightarrow> take (length p) s = p"

definition cancelAuthorised :: "order option \<Rightarrow> user_id \<Rightarrow> string \<Rightarrow> bool" where
  "cancelAuthorised oo userId tableId = (case oo of
      None \<Rightarrow> False
    | Some o1 \<Rightarrow> \<not> o_is_paper o1 \<and> o_user o1 = userId \<and> starts_with (o_side o1 @ ''OpenOrders_'') tableId)"

definition pair_of_table :: "string \<Rightarrow> pair_id" where
  "pair_of_table t = (case split_fields (\<lambda>c. c = CHR ''_'') t of _ # p # _ \<Rightarrow> p | _ \<Rightarrow> [])"

definition not_found :: response where
  "not_found = (400, ''Order not found'')"

text \<open>The first half: either a response, or the table and the key to claim.\<close>

definition cancelPreview :: "user_id \<Rightarrow> (jsval \<times> jsval) option \<Rightarrow> spot \<Rightarrow> response + (string \<times> oid)" where
  "cancelPreview userId data st = (case data of
      None \<Rightarrow> Inl not_found
    | Some (tableId, orderId) \<Rightarrow>
        if isEmpty tableId \<or> isEmpty orderId then Inl not_found
        else (case tableId of
          JStr t \<Rightarrow>
            if \<not> OPEN_ORDER_TABLE t then Inl not_found
            else if \<not> online st then Inl (500, ''Error occured'')
            else let i = to_string orderId; preview = parseOrder (hget_order t i st) in
              if tradePair st = pair_of_table t then Inl (400, ''Order has been excute processing ...'')
              else if \<not> cancelAuthorised preview userId t then Inl not_found
              else Inr (t, i)
        | _ \<Rightarrow> Inl not_found))"

section \<open>What a cancelled order gives back\<close>

definition cancelCurrency :: "order \<Rightarrow> currency_id" where
  "cancelCurrency o1 = (if o_side o1 = ''buy'' then o_second_id o1 else o_first_id o1)"

definition cancelValue :: "order \<Rightarrow> jsnum" where
  "cancelValue o1 =
     (let orderValue = (if o_side o1 = ''buy'' then JNum (to_number (o_price o1) * to_number (o_quantity o1)) else o_quantity o1);
          marketValue = (if o_type o1 = ''market'' \<and> o_side o1 = ''buy'' then o_value o1 else o_amount o1)
      in parse_float (if o_type o1 = ''limit'' then orderValue else marketValue))"

definition retriveValue :: "order \<Rightarrow> jsnum" where
  "retriveValue o1 =
     (if o_type o1 = ''limit''
      then (case reservationRemaining o1 of Some stillHeld \<Rightarrow> stillHeld | None \<Rightarrow> cancelValue o1)
      else cancelValue o1)"

text \<open>A balance in an answer: null when the movement failed, and zero where it is computed with.\<close>

definition reply_value :: "'a reply \<Rightarrow> 'a option" where
  "reply_value r = (case r of Done v \<Rightarrow> Some v | _ \<Rightarrow> None)"

definition wallet_number :: "rval option \<Rightarrow> jsnum" where
  "wallet_number v = (case v of None \<Rightarrow> Fin 0 | Some _ \<Rightarrow> field_float v)"

definition wallet_value :: "rval option \<Rightarrow> jsval" where
  "wallet_value v = (case v of None \<Rightarrow> JNull | Some _ \<Rightarrow> JNum (field_float v))"

definition cancelled :: "order \<Rightarrow> order" where
  "cancelled o1 = o1\<lparr>o_status := ''cancel''\<rparr>"

definition cancel_coin :: "order \<Rightarrow> string" where
  "cancel_coin o1 = (if o_side o1 = ''buy'' then o_second o1 else o_first o1)"

text \<open>The refund: the balance first, then, of a limit order, its reservation.\<close>

definition cancelRefund ::
    "service \<Rightarrow> string \<Rightarrow> order \<Rightarrow> jsnum \<Rightarrow> spot \<Rightarrow> spot \<times> order \<times> rval option" where
  "cancelRefund svc why o1 retrive st =
     (let c = cancelCurrency o1;
          (st1, rep) = moveBalanceSigned svc ''walletbalance_spot'' (o_user o1, c) (JNum retrive) why [] st;
          (st2, o2) = (if o_type o1 = ''limit''
             then (case releaseInOrder svc o1 c (JNum retrive) True st1 of (st', o', _) \<Rightarrow> (st', o'))
             else (st1, o1))
      in (st2, o2, reply_value rep))"

section \<open>The user's cancel\<close>

text \<open>The second half, on the state it finds: what it says, shows and stores once the row is its own.\<close>

definition cancelClaimed :: "service \<Rightarrow> order \<Rightarrow> spot \<Rightarrow> spot \<times> response" where
  "cancelClaimed svc claimed st =
     (let o1 = cancelled claimed; retrive = retriveValue o1;
          (st1, pr) = FetchpairData (Some (o_pair o1)) st
      in case pr of
        Done cancelPairData \<Rightarrow>
          (let st2 = (if o_liquidity o1 = ''off'' \<and> o_type o1 \<noteq> ''market'' \<and>
                 (case cancelPairData of None \<Rightarrow> True | Some p \<Rightarrow> p_botstatus p \<noteq> ''binance'')
               then send (BookChange (o_side o1) (o_pair o1) (o_price o1) (o_quantity o1) (o_first_digits o1)) st1
               else st1);
               (st3, o2, userWallet) = cancelRefund svc ''cancel_refund'' o1 retrive st2;
               st4 = hset_history (o_user o2) (o_id o2) o2 st3;
               before = wallet_number userWallet - retrive
           in (sends ([SaveHistory o2] @
                 (if o_liquidity o2 = ''binance'' then [VenueCancel (o_id o2)] else []) @
                 [Passbook \<lparr>pb_user = o_user o2, pb_coin = cancel_coin o2, pb_currency = cancelCurrency o2,
                    pb_table = o_id o2, pb_before = JStr (to_fixed_str before 8), pb_after = wallet_value userWallet,
                    pb_amount = JNum retrive, pb_type = ''order_Cancel'', pb_category = ''credit''\<rparr>,
                  AssetPush (o_user o2) (cancelCurrency o2) (wallet_value userWallet)]) st4,
               (200, ''Order cancelled successfully'')))
      | _ \<Rightarrow> (st1, (500, ''Error occured'')))"

definition cancelClaim :: "service \<Rightarrow> user_id \<Rightarrow> string \<times> oid \<Rightarrow> spot \<Rightarrow> spot \<times> response" where
  "cancelClaim svc userId key st =
     (if \<not> online st then (st, (500, ''Error occured''))
      else case hgetdel (fst key) (snd key) st of (st1, raw) \<Rightarrow>
        (case parseOrder raw of
          None \<Rightarrow> (st1, not_found)
        | Some checkOrder \<Rightarrow>
            if \<not> cancelAuthorised (Some checkOrder) userId (fst key)
            then (hset_order (fst key) (snd key) checkOrder st1, not_found)
            else cancelClaimed svc checkOrder st1))"

definition cancelOrder :: "service \<Rightarrow> user_id \<Rightarrow> (jsval \<times> jsval) option \<Rightarrow> spot \<Rightarrow> spot \<times> response" where
  "cancelOrder svc userId data st = (case cancelPreview userId data st of
      Inl r \<Rightarrow> (st, r) | Inr key \<Rightarrow> cancelClaim svc userId key st)"

section \<open>The matcher's cancel of a market order\<close>

definition cancelMarketOrder :: "service \<Rightarrow> string \<Rightarrow> oid \<Rightarrow> spot \<Rightarrow> spot \<times> bool" where
  "cancelMarketOrder svc tableId orderId st =
     (if \<not> online st then (st, False)
      else case hgetdel tableId orderId st of (st1, raw) \<Rightarrow>
        (case parseOrder raw of
          None \<Rightarrow> (st1, True)
        | Some claimed \<Rightarrow>
            (let o1 = cancelled claimed; retrive = cancelValue o1;
                 (st2, o2, userWallet) = cancelRefund svc ''cancel_market_refund'' o1 retrive st1;
                 st3 = send (Passbook \<lparr>pb_user = o_user o2, pb_coin = cancel_coin o2, pb_currency = cancelCurrency o2,
                    pb_table = o_id o2, pb_before = JNum (wallet_number userWallet - retrive),
                    pb_after = wallet_value userWallet, pb_amount = JNum retrive, pb_type = ''orderCancel'',
                    pb_category = ''credit''\<rparr>) st2;
                 st4 = hset_history (o_user o2) (o_id o2) o2 st3
             in (sends [SaveHistory o2, AssetPush (o_user o2) (cancelCurrency o2) (wallet_value userWallet)] st4, True))))"

section \<open>What a cancel does to the book and to the balance\<close>

lemma cancelRefund_only:
  assumes "cancelRefund svc why o1 r st = (st', o2, w)"
  shows "only_value st st'" and "released_only o1 o2"
  using assms
  by (auto simp: cancelRefund_def Let_def split: prod.splits if_splits
      dest!: moveBalanceSigned_only(1) releaseInOrder_frame intro: only_value_trans)

lemma sends_sel [simp]:
  "tables (sends es st) = tables st" "hashes (sends es st) = hashes st" "streams (sends es st) = streams st"
  "tables (send e st) = tables st" "hashes (send e st) = hashes st" "streams (send e st) = streams st"
  "online (send e st) = online st" "online (sends es st) = online st"
  by (simp_all add: sends_def send_def)

lemma hset_history_sel [simp]:
  "tables (hset_history u i o1 st) = tables st" "hashes (hset_history u i o1 st) = hashes st"
  "streams (hset_history u i o1 st) = streams st"
  by (simp_all add: hset_history_def)

lemma cancelClaimed_tables: "tables (fst (cancelClaimed svc o1 st)) = tables st"
  using FetchpairData_frame(3) [of "Some (o_pair o1)" st]
  by (auto simp: cancelClaimed_def Let_def cancelled_def split: prod.splits reply.splits if_splits
      dest!: cancelRefund_only(1) only_value_tables)

lemma claimed_row_gone:
  assumes "cancelClaim svc u key st = (st1, (200, m))"
  shows "hget_order (fst key) (snd key) st1 = None"
proof -
  obtain st0 raw where h: "hgetdel (fst key) (snd key) st = (st0, raw)" by (metis surj_pair)
  then obtain o1 where o1: "raw = Some (Row o1)" and c: "cancelClaimed svc o1 st0 = (st1, (200, m))"
    using assms by (auto simp: cancelClaim_def not_found_def split: if_splits option.splits)
  have "tables st1 = tables st0" using cancelClaimed_tables [of svc o1 st0] c by simp
  then show ?thesis using hgetdel_row [OF h] by (simp add: hget_order_def)
qed

lemma absent_claim:
  assumes "hget_order (fst key) (snd key) st = None" and "online st"
  shows "cancelClaim svc u key st = (st, not_found)"
  using assms by (simp add: cancelClaim_def hgetdel_def hget_order_def parseOrder_def)


lemma cancelClaimed_answers: "online st \<Longrightarrow> snd (cancelClaimed svc o1 st) = (200, ''Order cancelled successfully'')"
  by (auto simp: cancelClaimed_def FetchpairData_def Let_def split: prod.splits option.splits row.splits)

lemma FetchpairData_answers: "online st \<Longrightarrow> \<exists>pr. snd (FetchpairData i st) = Done pr"
  by (simp add: FetchpairData_def split: option.split row.split)

lemma hgetdel_online [simp]: "online (fst (hgetdel key i st)) = online st"
  by (simp add: hgetdel_def split: option.splits)

lemma cancelClaim_row:
  assumes "online st" "hget_order t i st = Some (Row o1)" "cancelAuthorised (Some o1) u t"
  shows "cancelClaim svc u (t, i) st = cancelClaimed svc o1 (hdel_order t i st)"
  using assms by (simp add: cancelClaim_def hgetdel_def hget_order_def hdel_order_def parseOrder_def)

definition book_with :: "order \<Rightarrow> spot" where
  "book_with o1 = hset_order (open_table (o_side o1) (o_pair o1)) (o_id o1) o1 blank_spot"

lemma book_with_row:
  "hget_order (open_table (o_side o1) (o_pair o1)) (o_id o1) (book_with o1) = Some (Row (json_order o1))"
  "online (book_with o1)"
  by (simp_all add: book_with_def hset_order_def hget_order_def)

lemma sample_authorised: "cancelAuthorised (Some (json_order sample_order)) ''u'' (open_table ''buy'' ''p'')"
  by (simp add: cancelAuthorised_def json_order_def sample_order_def starts_with_def open_table_def)

lemma sample_row: "hget_order (open_table ''buy'' ''p'') ''o1'' (book_with sample_order) = Some (Row (json_order sample_order))"
  using book_with_row(1) [of sample_order] by (simp add: sample_order_def)


lemma cancelled_remaining: "reservationRemaining (cancelled o1) = reservationRemaining o1"
  by (simp add: reservationRemaining_def cancelled_def Let_def)

lemma cancelled_type: "o_type (cancelled o1) = o_type o1"
  by (simp add: cancelled_def)

text \<open>The refund of a limit order is what its reservation still holds.\<close>

lemma retrive_remaining:
  "o_type o1 = ''limit'' \<Longrightarrow> reservationRemaining o1 = Some r \<Longrightarrow> retriveValue (cancelled o1) = r"
  using cancelled_remaining [of o1] by (simp add: retriveValue_def cancelled_type)

lemma cancelRefund_paid:
  assumes "is_num (Fin m)" "m \<noteq> 0" "online st" "holds ''walletbalance_spot'' (o_user o1, cancelCurrency o1) q st"
  obtains st' o2 where "cancelRefund svc why o1 (Fin m) st = (st', o2, Some (RDec (incr_round svc (q + spelling m))))"
    and "hashes st' ''walletbalance_spot'' = (hashes st ''walletbalance_spot'')
      ((o_user o1, cancelCurrency o1) \<mapsto> RDec (incr_round svc (q + spelling m)))"
    and "released_only o1 o2"
proof -
  obtain st' o2 w where r: "cancelRefund svc why o1 (Fin m) st = (st', o2, w)" by (metis surj_pair)
  note move = shift_done [OF assms, of svc why "[]"]
  have w: "w = Some (RDec (incr_round svc (q + spelling m)))"
    using r move by (auto simp: cancelRefund_def reply_value_def Let_def split: prod.splits)
  have "hashes st' ''walletbalance_spot'' = (hashes st ''walletbalance_spot'')
      ((o_user o1, cancelCurrency o1) \<mapsto> RDec (incr_round svc (q + spelling m)))"
    using r move
    by (auto simp: cancelRefund_def IN_ORDER_def Let_def split: prod.splits if_splits dest!: releaseInOrder_keeps [where key = "''walletbalance_spot''"])
  then show thesis using that r w cancelRefund_only(2) [OF r] by blast
qed

lemma cancelled_sel [simp]:
  "o_user (cancelled o1) = o_user o1" "o_id (cancelled o1) = o_id o1" "o_pair (cancelled o1) = o_pair o1"
  "o_status (cancelled o1) = ''cancel''" "cancelCurrency (cancelled o1) = cancelCurrency o1"
  "o_side (cancelled o1) = o_side o1"
  by (simp_all add: cancelled_def cancelCurrency_def)

lemma hdel_order_sel [simp]:
  "hashes (hdel_order t i st) = hashes st" "online (hdel_order t i st) = online st" "streams (hdel_order t i st) = streams st"
  "history (hdel_order t i st) = history st"
  by (simp_all add: hdel_order_def)

text \<open>The balances after a claimed cancel are those after its refund.\<close>

lemma cancelClaimed_hashes:
  assumes "online st"
  obtains st2 where "hashes st2 = hashes st" and "online st2"
    and "hashes (fst (cancelClaimed svc o1 st)) =
      hashes (fst (cancelRefund svc ''cancel_refund'' (cancelled o1) (retriveValue (cancelled o1)) st2))"
proof -
  obtain st1 pr where f: "FetchpairData (Some (o_pair o1)) st = (st1, Done pr)"
    using FetchpairData_answers [OF assms] by (metis prod.collapse)
  have f1: "hashes st1 = hashes st" "online st1" using FetchpairData_frame(1,4) [OF f] assms by simp_all
  define st2 where "st2 = (if o_liquidity (cancelled o1) = ''off'' \<and> o_type (cancelled o1) \<noteq> ''market'' \<and>
      (case pr of None \<Rightarrow> True | Some p \<Rightarrow> p_botstatus p \<noteq> ''binance'')
    then send (BookChange (o_side (cancelled o1)) (o_pair (cancelled o1)) (o_price (cancelled o1))
      (o_quantity (cancelled o1)) (o_first_digits (cancelled o1))) st1 else st1)"
  have "hashes st2 = hashes st" "online st2" using f1 by (simp_all add: st2_def)
  moreover obtain st3 o2 w where
    "cancelRefund svc ''cancel_refund'' (cancelled o1) (retriveValue (cancelled o1)) st2 = (st3, o2, w)"
    by (metis surj_pair)
  then have "hashes (fst (cancelClaimed svc o1 st)) =
      hashes (fst (cancelRefund svc ''cancel_refund'' (cancelled o1) (retriveValue (cancelled o1)) st2))"
    using f by (simp add: cancelClaimed_def Let_def st2_def [symmetric])
  ultimately show thesis by (rule that)
qed

lemma cancel_pays_back:
  assumes "online st" "hget_order t i st = Some (Row o1)" "cancelAuthorised (Some o1) u t" "o_type o1 = ''limit''"
    and "reservationRemaining o1 = Some (Fin m)" "is_num (Fin m)" "0 < m"
    and "holds ''walletbalance_spot'' (u, cancelCurrency o1) q st"
  shows "snd (cancelClaim svc u (t, i) st) = (200, ''Order cancelled successfully'') \<and>
    hget_order t i (fst (cancelClaim svc u (t, i) st)) = None \<and>
    hashes (fst (cancelClaim svc u (t, i) st)) ''walletbalance_spot'' =
      (hashes st ''walletbalance_spot'')((u, cancelCurrency o1) \<mapsto> RDec (incr_round svc (q + spelling m)))"
proof -
  let ?st = "hdel_order t i st"
  have user: "o_user o1 = u" using assms(3) by (simp add: cancelAuthorised_def)
  have claim: "cancelClaim svc u (t, i) st = cancelClaimed svc o1 ?st"
    using cancelClaim_row [OF assms(1-3)] .
  obtain st2 where st2: "hashes st2 = hashes ?st" "online st2"
    and after_refund: "hashes (fst (cancelClaimed svc o1 ?st)) =
      hashes (fst (cancelRefund svc ''cancel_refund'' (cancelled o1) (retriveValue (cancelled o1)) st2))"
    by (rule cancelClaimed_hashes [of ?st svc o1]) (use assms(1) in auto)
  have r: "retriveValue (cancelled o1) = Fin m" by (rule retrive_remaining [OF assms(4,5)])
  have held: "holds ''walletbalance_spot'' (o_user (cancelled o1), cancelCurrency (cancelled o1)) q st2"
    using assms(8) user st2(1) by (simp add: holds_def)
  have "m \<noteq> 0" using assms(7) by simp
  from cancelRefund_paid [OF assms(6) this st2(2) held, of svc "''cancel_refund''"]
  obtain st3 o2 where c: "cancelRefund svc ''cancel_refund'' (cancelled o1) (Fin m) st2 =
      (st3, o2, Some (RDec (incr_round svc (q + spelling m))))"
    and h: "hashes st3 ''walletbalance_spot'' = (hashes st2 ''walletbalance_spot'')
      ((o_user (cancelled o1), cancelCurrency (cancelled o1)) \<mapsto> RDec (incr_round svc (q + spelling m)))"
    by blast
  have "hashes (fst (cancelClaimed svc o1 ?st)) ''walletbalance_spot'' = hashes st3 ''walletbalance_spot''"
    using after_refund c r by simp
  moreover have a: "snd (cancelClaimed svc o1 ?st) = (200, ''Order cancelled successfully'')"
    by (rule cancelClaimed_answers) (simp add: assms(1))
  moreover have "hget_order t i (fst (cancelClaim svc u (t, i) st)) = None"
    using claimed_row_gone [of svc u "(t, i)" st] a claim by (metis fst_conv prod.collapse snd_conv)
  ultimately show ?thesis using h st2(1) user claim by simp
qed

text \<open>C19: Cancelling an open limit order gives back to its owner, in the currency it was placed in, what its
  reservation still holds, recomputed from nothing else; the row leaves the book and no other balance
  field changes.\<close>

theorem cancel_refunds_reservation:
  assumes "online st" "hget_order t i st = Some (Row o1)" "cancelAuthorised (Some o1) u t" "o_type o1 = ''limit''"
    and "reservationRemaining o1 = Some (Fin m)" "is_num (Fin m)" "0 < m"
    and "holds ''walletbalance_spot'' (u, cancelCurrency o1) q st"
  shows "snd (cancelClaim svc u (t, i) st) = (200, ''Order cancelled successfully'') \<and>
    hget_order t i (fst (cancelClaim svc u (t, i) st)) = None \<and>
    hashes (fst (cancelClaim svc u (t, i) st)) ''walletbalance_spot'' =
      (hashes st ''walletbalance_spot'')((u, cancelCurrency o1) \<mapsto> RDec (incr_round svc (q + spelling m)))"
  by (rule cancel_pays_back [OF assms])

theorem cancel_refunds_reservation_witness:
  "hashes (fst (cancelClaim reference_service ''u'' (open_table ''buy'' ''p'', ''o1'') (book_with sample_order)))
     ''walletbalance_spot'' (''u'', ''q'') = Some (RDec (dec17 (0 + spelling 10)))"
proof -
  have r: "reservationRemaining (json_order sample_order) = Some (Fin 10)" by code_simp
  have n: "is_num (Fin 10)" by code_simp
  have c: "o_type (json_order sample_order) = ''limit''" "cancelCurrency (json_order sample_order) = ''q''"
    by (simp_all add: cancelCurrency_def json_order_def sample_order_def)
  have h: "holds ''walletbalance_spot'' (''u'', cancelCurrency (json_order sample_order)) 0 (book_with sample_order)"
    by (simp add: holds_def book_with_def hset_order_def)
  show ?thesis
    using cancel_refunds_reservation [OF book_with_row(2) sample_row sample_authorised c(1) r n _ h, of reference_service]
    by (simp add: c(2) reference_service_def)
qed

section \<open>A cancel that pays nothing\<close>

definition unreadable_balance :: spot where
  "unreadable_balance = put_hash ''walletbalance_spot'' (''u'', ''q'') (Some (RText ''null'')) (book_with sample_order)"

text \<open>The answer does not depend on the refund: with a balance field that no longer reads as a number (the
  word null, which is what a balance that is not finite is stored as) the refund fails, and the handler
  still takes the order out of the book, stores it as cancelled, and reports success.\<close>

theorem cancel_confirms_failed_refund:
  "snd (cancelClaim svc ''u'' (open_table ''buy'' ''p'', ''o1'') unreadable_balance) = (200, ''Order cancelled successfully'') \<and>
   hget_order (open_table ''buy'' ''p'') ''o1''
     (fst (cancelClaim svc ''u'' (open_table ''buy'' ''p'', ''o1'') unreadable_balance)) = None \<and>
   hashes (fst (cancelClaim svc ''u'' (open_table ''buy'' ''p'', ''o1'') unreadable_balance)) ''walletbalance_spot'' =
     hashes unreadable_balance ''walletbalance_spot''"
proof -
  let ?key = "(open_table ''buy'' ''p'', ''o1'')" and ?o1 = "json_order sample_order"
  let ?st = "hdel_order (open_table ''buy'' ''p'') ''o1'' unreadable_balance"
  have on: "online unreadable_balance" by (simp add: unreadable_balance_def book_with_row)
  have row: "hget_order (open_table ''buy'' ''p'') ''o1'' unreadable_balance = Some (Row ?o1)"
    using sample_row by (simp add: unreadable_balance_def hget_order_def put_hash_def)
  note claim = cancelClaim_row [OF on row sample_authorised, of svc]
  have a: "snd (cancelClaimed svc ?o1 ?st) = (200, ''Order cancelled successfully'')"
    by (rule cancelClaimed_answers) (simp add: on)
  then have "cancelClaim svc ''u'' ?key unreadable_balance =
      (fst (cancelClaim svc ''u'' ?key unreadable_balance), (200, ''Order cancelled successfully''))"
    using claim by (metis prod.collapse)
  from claimed_row_gone [OF this] have gone: "hget_order (fst ?key) (snd ?key)
      (fst (cancelClaim svc ''u'' ?key unreadable_balance)) = None" .
  have r: "retriveValue (cancelled ?o1) = Fin 10" by code_simp
  have u: "o_user ?o1 = ''u''" "cancelCurrency ?o1 = ''q''"
    by (simp_all add: cancelCurrency_def json_order_def sample_order_def cancelled_def)
  have refund: "hashes (fst (cancelRefund svc why (cancelled ?o1) (Fin 10) st2)) ''walletbalance_spot'' =
      hashes unreadable_balance ''walletbalance_spot''"
    if st2: "hashes st2 = hashes unreadable_balance" "online st2" for why st2
  proof -
    have "hashes st2 ''walletbalance_spot'' (''u'', ''q'') = Some (RText ''null'')"
      by (simp add: st2(1) unreadable_balance_def)
    then have "fst (moveBalanceSigned svc ''walletbalance_spot'' (''u'', ''q'') (JNum (Fin 10)) why [] st2) = st2"
      by (auto simp: moveBalanceSigned_def LEDGER_APPLY_LUA_def HINCRBYFLOAT_def Let_def st2(2)
          simp del: spelled.simps split: option.splits)
    then show ?thesis
      by (auto simp: cancelRefund_def u Let_def IN_ORDER_def st2(1) split: prod.splits if_splits
          dest!: releaseInOrder_keeps [where key = "''walletbalance_spot''"])
  qed
  have "hashes (fst (cancelClaimed svc ?o1 ?st)) ''walletbalance_spot'' = hashes unreadable_balance ''walletbalance_spot''"
  proof -
    obtain st2 where "hashes st2 = hashes ?st" "online st2"
      and "hashes (fst (cancelClaimed svc ?o1 ?st)) =
        hashes (fst (cancelRefund svc ''cancel_refund'' (cancelled ?o1) (retriveValue (cancelled ?o1)) st2))"
      by (rule cancelClaimed_hashes [of ?st svc ?o1]) (use on in auto)
    then show ?thesis using refund [of st2] r by simp
  qed
  then show ?thesis using a gone claim by simp
qed

end
