(* ===== verification/ValueFlight.thy ===== *)
theory ValueFlight
  imports RedisStore
begin

text \<open>
  The exclusion between a demo-account reset, which writes absolute balances, and the requests
  that move the same account's money: \<^verbatim>\<open>cryptodex-spotapi/lib/valueFlight.js\<close>,
  \<^verbatim>\<open>lib/marginFreeze.js\<close> and the middleware \<^verbatim>\<open>controllers/valueFlightGuard.js\<close>. Requests
  register a flight, the reset takes the freeze and then asks for the flights. The step relation
  \<open>flight_step\<close> interleaves any number of both for one account, with time passing between
  steps; the theorem is that a reset that may write meets no request inside its time bound.
\<close>

section \<open>The registry\<close>

definition MARGIN_FREEZE_TTL_MS :: int where
  "MARGIN_FREEZE_TTL_MS = 15000"

definition marginFreezeKey :: "user_id \<Rightarrow> string" where
  "marginFreezeKey userId = ''margin_freeze_'' @ userId"

definition VALUE_FLIGHT_TTL_MS :: int where
  "VALUE_FLIGHT_TTL_MS = 30000"

definition valueFlightKey :: "user_id \<Rightarrow> string" where
  "valueFlightKey userId = ''value_flight_'' @ userId"

text \<open>The token is the random identifier the service draws.\<close>

datatype flight = Frozen | Token string

definition beginValueFlight ::
    "user_id \<Rightarrow> string \<Rightarrow> 'a redis_scheme \<Rightarrow> 'a redis_scheme \<times> flight reply" where
  "beginValueFlight userId token st =
     (case beginFlight (valueFlightKey userId) (marginFreezeKey userId) token
         (spelled (Fin (of_int (clock st + VALUE_FLIGHT_TTL_MS)))) VALUE_FLIGHT_TTL_MS st of
        (st', FROZEN) \<Rightarrow> (st', Done Frozen)
      | (st', Raised) \<Rightarrow> (st', Raised)
      | (st', _) \<Rightarrow> (st', Done (Token token)))"

text \<open>Deleting a field keeps the expiry of the hash; deleting the last one removes the hash.\<close>

definition hdel_flight :: "string \<Rightarrow> string \<Rightarrow> 'a redis_scheme \<Rightarrow> 'a redis_scheme" where
  "hdel_flight key token st =
     (let rows = remove_field token (live_hash st key)
      in st\<lparr>flights := (flights st)(key :=
            (rows, if rows = [] then None else snd (flights st key)))\<rparr>)"

definition endValueFlight ::
    "user_id \<Rightarrow> string option \<Rightarrow> 'a redis_scheme \<Rightarrow> 'a redis_scheme \<times> unit reply" where
  "endValueFlight userId token st = (case token of
      None \<Rightarrow> (st, Done ())
    | Some t \<Rightarrow>
        if t = [] then (st, Done ())
        else if online st then (hdel_flight (valueFlightKey userId) t st, Done ()) else (st, Raised))"

fun field_number :: "rval \<Rightarrow> jsnum" where
  "field_number (RDec q) = to_num q"
| "field_number (RText s) = number_str s"

text \<open>A deadline that cannot be read counts as live.\<close>

definition counts_live :: "jsnum \<Rightarrow> rval \<Rightarrow> bool" where
  "counts_live t deadline =
     (let due = field_number deadline in \<not> is_finite due \<or> due > t)"

definition readLiveValueFlights ::
    "user_id \<Rightarrow> jsnum \<Rightarrow> 'a redis_scheme \<Rightarrow> (string \<times> jsnum) list reply" where
  "readLiveValueFlights userId t st =
     (if \<not> online st then Raised
      else Done (map (\<lambda>(token, d). (token, field_number d))
        (filter (\<lambda>(token, d). counts_live t d) (live_hash st (valueFlightKey userId)))))"

section \<open>The middleware\<close>

text \<open>
  A request without a user goes on untracked; otherwise it goes on with its token, which is
  handed back when the response is finished, or is refused with a status and a code.
\<close>

datatype guard = Next "string option" | Refuse int string

definition trackValueFlight ::
    "user_id option \<Rightarrow> string \<Rightarrow> 'a redis_scheme \<Rightarrow> 'a redis_scheme \<times> guard" where
  "trackValueFlight user token st = (case user of
      None \<Rightarrow> (st, Next None)
    | Some userId \<Rightarrow> (case beginValueFlight userId token st of
        (st', Done Frozen) \<Rightarrow> (st', Refuse 409 ''RESET_IN_PROGRESS'')
      | (st', Done (Token t)) \<Rightarrow> (st', Next (Some t))
      | (st', _) \<Rightarrow> (st', Refuse 503 ''FLIGHT_UNAVAILABLE'')))"

section \<open>Requests and resets of one account\<close>

text \<open>
  The requests in progress with the time each began, and the resets with whether they have
  found the account quiet and may write.
\<close>

record exclusion =
  store :: redis
  requests :: "(string \<times> int) list"
  resets :: "(string \<times> bool) list"

inductive flight_step :: "user_id \<Rightarrow> exclusion \<Rightarrow> exclusion \<Rightarrow> bool" for userId where
  enter: "trackValueFlight (Some userId) token (store s) = (st', Next (Some token)) \<Longrightarrow>
    token \<notin> fst ` set (requests s) \<Longrightarrow>
    flight_step userId s (s\<lparr>store := st', requests := (token, clock (store s)) # requests s\<rparr>)"
| leave: "token \<in> fst ` set (requests s) \<Longrightarrow>
    endValueFlight userId (Some token) (store s) = (st', r) \<Longrightarrow>
    flight_step userId s (s\<lparr>store := st', requests := remove_field token (requests s)\<rparr>)"
| take: "claimOnce (marginFreezeKey userId) token MARGIN_FREEZE_TTL_MS (store s) = (st', True) \<Longrightarrow>
    token \<notin> fst ` set (resets s) \<Longrightarrow>
    flight_step userId s (s\<lparr>store := st', resets := (token, False) # resets s\<rparr>)"
| quiet: "map_of (resets s) token = Some False \<Longrightarrow>
    readLiveValueFlights userId (Fin (of_int (clock (store s)))) (store s) = Done [] \<Longrightarrow>
    flight_step userId s (s\<lparr>resets := put token True (resets s)\<rparr>)"
| finish: "token \<in> fst ` set (resets s) \<Longrightarrow>
    releaseClaim (marginFreezeKey userId) token (store s) = (st', b) \<Longrightarrow>
    flight_step userId s (s\<lparr>store := st', resets := remove_field token (resets s)\<rparr>)"
| tick: "clock (store s) \<le> t \<Longrightarrow> t \<le> 2 ^ 52 \<Longrightarrow>
    flight_step userId s (s\<lparr>store := (store s)\<lparr>clock := t\<rparr>\<rparr>)"
| outage: "flight_step userId s (s\<lparr>store := (store s)\<lparr>online := b\<rparr>\<rparr>)"

inductive_cases flight_stepE: "flight_step userId s s'"

inductive flight_reachable :: "user_id \<Rightarrow> exclusion \<Rightarrow> exclusion \<Rightarrow> bool" for userId s0 where
  start: "flight_reachable userId s0 s0"
| more: "flight_reachable userId s0 s \<Longrightarrow> flight_step userId s s' \<Longrightarrow> flight_reachable userId s0 s'"

text \<open>
  Every request still inside its bound is registered under a deadline that has not passed; and
  while a reset that may write holds the freeze, no request is inside its bound.
\<close>

definition deadline :: "int \<Rightarrow> rval" where
  "deadline t0 = spelled (Fin (of_int (t0 + VALUE_FLIGHT_TTL_MS)))"

definition registered_at :: "user_id \<Rightarrow> 'a redis_scheme \<Rightarrow> string \<Rightarrow> int \<Rightarrow> bool" where
  "registered_at userId st token t0 \<longleftrightarrow>
     map_of (fst (flights st (valueFlightKey userId))) token = Some (deadline t0) \<and>
     (case snd (flights st (valueFlightKey userId)) of None \<Rightarrow> True | Some e \<Rightarrow> t0 + VALUE_FLIGHT_TTL_MS \<le> e)"

definition in_bound :: "'a redis_scheme \<Rightarrow> int \<Rightarrow> bool" where
  "in_bound st t0 \<longleftrightarrow> clock st < t0 + VALUE_FLIGHT_TTL_MS"

definition registered :: "user_id \<Rightarrow> exclusion \<Rightarrow> bool" where
  "registered userId s \<longleftrightarrow> 0 \<le> clock (store s) \<and> clock (store s) \<le> 2 ^ 52 \<and>
     (\<forall>(token, t0) \<in> set (requests s). 0 \<le> t0 \<and> t0 \<le> clock (store s) \<and>
        (in_bound (store s) t0 \<longrightarrow> registered_at userId (store s) token t0))"

definition may_write :: "user_id \<Rightarrow> exclusion \<Rightarrow> string \<Rightarrow> bool" where
  "may_write userId s token \<longleftrightarrow>
     map_of (resets s) token = Some True \<and> live_key (store s) (marginFreezeKey userId) = Some token"

definition exclusive :: "user_id \<Rightarrow> exclusion \<Rightarrow> bool" where
  "exclusive userId s \<longleftrightarrow>
     (\<forall>w. may_write userId s w \<longrightarrow> (\<forall>(token, t0) \<in> set (requests s). \<not> in_bound (store s) t0))"

section \<open>The steps keep the exclusion\<close>

lemma registered_live:
  assumes "registered_at userId st token t0" and "in_bound st t0"
  shows "map_of (live_hash st (valueFlightKey userId)) token = Some (deadline t0)"
    and "(token, deadline t0) \<in> set (live_hash st (valueFlightKey userId))"
proof -
  have "\<not> expired (clock st) (snd (flights st (valueFlightKey userId)))"
    using assms by (auto simp: registered_at_def in_bound_def expired_def split: option.splits)
  then show m: "map_of (live_hash st (valueFlightKey userId)) token = Some (deadline t0)"
    using assms(1) by (simp add: live_hash_def registered_at_def)
  then show "(token, deadline t0) \<in> set (live_hash st (valueFlightKey userId))"
    by (rule map_of_SomeD)
qed

lemma deadline_number:
  assumes "0 \<le> t0" and "t0 \<le> 2 ^ 52"
  shows "field_number (deadline t0) = Fin (of_int (t0 + VALUE_FLIGHT_TTL_MS))"
proof -
  have "\<bar>t0 + VALUE_FLIGHT_TTL_MS\<bar> \<le> 2 ^ 53" using assms by (simp add: VALUE_FLIGHT_TTL_MS_def)
  then have d: "rnd64 (of_int (t0 + VALUE_FLIGHT_TTL_MS)) = of_int (t0 + VALUE_FLIGHT_TTL_MS)"
    by (intro rnd64_fix is_dbl_of_int)
  have "\<bar>of_int (t0 + VALUE_FLIGHT_TTL_MS) :: rat\<bar> \<le> 2 ^ 53"
    using \<open>\<bar>t0 + VALUE_FLIGHT_TTL_MS\<bar> \<le> 2 ^ 53\<close> by (metis of_int_abs of_int_le_iff of_int_numeral of_int_power)
  moreover have "(2 :: rat) ^ 53 < 2 ^ 1024" by simp
  ultimately have "is_num (Fin (of_int (t0 + VALUE_FLIGHT_TTL_MS)))" using d by (simp del: of_int_add)
  from to_num_spelling [OF this] show ?thesis
    by (simp add: deadline_def spelled_spelling del: spelled.simps(1))
qed

lemma quiet_out_of_bound:
  assumes "registered userId s" and "(token, t0) \<in> set (requests s)"
    and "readLiveValueFlights userId (Fin (of_int (clock (store s)))) (store s) = Done []"
  shows "\<not> in_bound (store s) t0"
proof
  assume b: "in_bound (store s) t0"
  have r: "0 \<le> t0" "t0 \<le> 2 ^ 52" "registered_at userId (store s) token t0"
    using assms(1,2) b by (auto simp: registered_def)
  have "counts_live (Fin (of_int (clock (store s)))) (deadline t0)"
    using b deadline_number [OF r(1,2)] by (simp add: counts_live_def in_bound_def)
  moreover have "filter (\<lambda>(token, d). counts_live (Fin (of_int (clock (store s)))) d)
      (live_hash (store s) (valueFlightKey userId)) = []"
    using assms(3) by (auto simp: readLiveValueFlights_def split: if_splits)
  ultimately show False using registered_live(2) [OF r(3) b] by (auto simp: filter_empty_conv)
qed

lemma begin_next:
  assumes "trackValueFlight (Some userId) token st = (st', Next (Some token))"
  shows "live_key st (marginFreezeKey userId) = None"
    and "st' = st\<lparr>flights := (flights st)(valueFlightKey userId :=
      (put token (deadline (clock st)) (live_hash st (valueFlightKey userId)),
       Some (clock st + VALUE_FLIGHT_TTL_MS)))\<rparr>"
  using assms
  by (auto simp: trackValueFlight_def beginValueFlight_def beginFlight_def BEGIN_FLIGHT_LUA_def
      deadline_def VALUE_FLIGHT_TTL_MS_def split: if_splits)

lemma registered_enter:
  assumes "registered userId s" and "trackValueFlight (Some userId) token (store s) = (st', Next (Some token))"
    and "token \<notin> fst ` set (requests s)"
  shows "registered userId (s\<lparr>store := st', requests := (token, clock (store s)) # requests s\<rparr>)"
proof -
  let ?k = "valueFlightKey userId"
  note st' = begin_next(2) [OF assms(2)]
  have "registered_at userId st' t t0"
    if "(t, t0) \<in> set (requests s)" "in_bound (store s) t0" for t t0
  proof -
    have r: "registered_at userId (store s) t t0" "t0 \<le> clock (store s)"
      using assms(1) that by (auto simp: registered_def)
    have "t \<noteq> token" using assms(3) that(1) by force
    then show ?thesis
      using registered_live(1) [OF r(1) that(2)] r(2) by (simp add: st' registered_at_def)
  qed
  moreover have "registered_at userId st' token (clock (store s))"
    by (simp add: st' registered_at_def)
  moreover have "clock st' = clock (store s)" by (simp add: st')
  ultimately show ?thesis
    using assms(1) by (auto simp: registered_def in_bound_def)
qed

lemma registered_leave:
  assumes "registered userId s" and "endValueFlight userId (Some token) (store s) = (st', r)"
  shows "registered userId (s\<lparr>store := st', requests := remove_field token (requests s)\<rparr>)"
proof -
  have "st' = store s \<or> st' = hdel_flight (valueFlightKey userId) token (store s)"
    using assms(2) by (auto simp: endValueFlight_def split: if_splits)
  then show ?thesis
  proof
    assume "st' = store s"
    then show ?thesis using assms(1) by (auto simp: registered_def)
  next
    assume st': "st' = hdel_flight (valueFlightKey userId) token (store s)"
    then have c: "clock st' = clock (store s)" by (simp add: hdel_flight_def Let_def)
    have "registered_at userId st' t t0"
      if "(t, t0) \<in> set (requests s)" "t \<noteq> token" "in_bound (store s) t0" for t t0
    proof -
      have r: "registered_at userId (store s) t t0" using assms(1) that by (auto simp: registered_def)
      have m: "map_of (remove_field token (live_hash (store s) (valueFlightKey userId))) t = Some (deadline t0)"
        using registered_live(1) [OF r that(3)] that(2) by simp
      then have "remove_field token (live_hash (store s) (valueFlightKey userId)) \<noteq> []"
        by (metis map_of.simps(1) option.distinct(1))
      then show ?thesis using m r by (simp add: st' hdel_flight_def registered_at_def Let_def)
    qed
    then show ?thesis using assms(1) c by (auto simp: registered_def in_bound_def)
  qed
qed

lemma claim_true:
  assumes "claimOnce key token ttl st = (st', True)"
  shows "live_key st key = None" "flights st' = flights st" "clock st' = clock st"
    and "live_key st' key = Some token"
  using assms
  by (auto simp: claimOnce_def CLAIM_ONCE_LUA_def live_key_def expired_def split: if_splits)

lemma release_cases:
  assumes "releaseClaim key token st = (st', b)"
  shows "flights st' = flights st" "clock st' = clock st"
    and "live_key st' key = live_key st key \<or> live_key st' key = None"
  using assms
  by (auto simp: releaseClaim_def RELEASE_CLAIM_LUA_def live_key_def split: if_splits option.splits)

lemma registered_same:
  assumes "registered userId s" and "flights st' = flights (store s)" and "clock (store s) \<le> clock st'"
    and "clock st' \<le> 2 ^ 52"
  shows "registered userId (s\<lparr>store := st', resets := rs\<rparr>)"
  using assms by (fastforce simp: registered_def registered_at_def in_bound_def)

lemma registered_step: "flight_step userId s s' \<Longrightarrow> registered userId s \<Longrightarrow> registered userId s'"
proof (induction rule: flight_step.induct)
  case (enter token s st')
  then show ?case using registered_enter by blast
next
  case (leave token s st' r)
  then show ?case using registered_leave by blast
next
  case (take token s st')
  then show ?case
    using registered_same [of userId s st'] claim_true [OF take(1)] by (simp add: registered_def)
next
  case (quiet s token)
  then show ?case by (simp add: registered_def)
next
  case (finish token s st' b)
  then show ?case
    using registered_same [of userId s st'] release_cases [OF finish(2)] by (simp add: registered_def)
next
  case (tick s t)
  then show ?case
    using registered_same [of userId s "(store s)\<lparr>clock := t\<rparr>" "resets s"] by simp
next
  case (outage s b)
  then show ?case
    using registered_same [of userId s "(store s)\<lparr>online := b\<rparr>" "resets s"] by (simp add: registered_def)
qed

lemma live_key_cong:
  "keys st' = keys st \<Longrightarrow> clock st' = clock st \<Longrightarrow> live_key st' k = live_key st k"
  by (simp add: live_key_def split: option.splits)

lemma exclusive_step:
  "flight_step userId s s' \<Longrightarrow> registered userId s \<Longrightarrow> exclusive userId s \<Longrightarrow> exclusive userId s'"
proof (induction rule: flight_step.induct)
  case (enter token s st')
  then have "live_key st' (marginFreezeKey userId) = None"
    using begin_next [OF enter(1)] live_key_cong [of st' "store s" "marginFreezeKey userId"] by simp
  then show ?case by (simp add: exclusive_def may_write_def)
next
  case (leave token s st' r)
  then have "live_key st' k = live_key (store s) k" "clock st' = clock (store s)" for k
    by (auto simp: endValueFlight_def hdel_flight_def live_key_def Let_def split: if_splits option.splits)
  then show ?case
    using leave by (auto simp: exclusive_def may_write_def in_bound_def)
next
  case (take token s st')
  then show ?case
    using claim_true [OF take(1)] by (auto simp: exclusive_def may_write_def)
next
  case (quiet s token)
  then show ?case
    using quiet_out_of_bound [OF quiet(3) _ quiet(2)] by (auto simp: exclusive_def)
next
  case (finish token s st' b)
  then show ?case
    using release_cases [OF finish(2)]
    by (fastforce simp: exclusive_def may_write_def in_bound_def split: if_splits)
next
  case (tick s t)
  have "live_key (store s) k = Some w" if "live_key ((store s)\<lparr>clock := t\<rparr>) k = Some w" for k w
    using that tick(1) by (auto simp: live_key_def expired_def split: option.splits if_splits)
  then show ?case
    using tick by (fastforce simp: exclusive_def may_write_def in_bound_def)
next
  case (outage s b)
  have "live_key ((store s)\<lparr>online := b\<rparr>) k = live_key (store s) k" for k
    by (rule live_key_cong) simp_all
  then show ?case using outage by (simp add: exclusive_def may_write_def in_bound_def)
qed

definition fresh_account :: "exclusion \<Rightarrow> bool" where
  "fresh_account s \<longleftrightarrow> requests s = [] \<and> resets s = [] \<and> 0 \<le> clock (store s) \<and> clock (store s) \<le> 2 ^ 52"

lemma reachable_exclusive:
  "flight_reachable userId s0 s \<Longrightarrow> fresh_account s0 \<Longrightarrow> registered userId s \<and> exclusive userId s"
proof (induction rule: flight_reachable.induct)
  case start
  then show ?case by (simp add: fresh_account_def registered_def exclusive_def)
next
  case (more s s')
  then show ?case using registered_step exclusive_step by blast
qed

lemma frozen_refused:
  "live_key st (marginFreezeKey userId) \<noteq> None \<Longrightarrow>
   trackValueFlight (Some userId) token st =
     (st, if online st then Refuse 409 ''RESET_IN_PROGRESS'' else Refuse 503 ''FLIGHT_UNAVAILABLE'')"
  by (auto simp: trackValueFlight_def beginValueFlight_def beginFlight_def BEGIN_FLIGHT_LUA_def)

section \<open>Properties\<close>

text \<open>C3: In every interleaving of requests, resets, outages and passing time, a reset that found the
  account quiet and still holds the freeze meets no request younger than the flight bound, and
  a request that asks to begin then is refused without a trace.\<close>

theorem reset_excludes_requests:
  assumes "flight_reachable userId s0 s" and "fresh_account s0" and "may_write userId s w"
  shows "(\<forall>(token, t0) \<in> set (requests s). t0 + VALUE_FLIGHT_TTL_MS \<le> clock (store s)) \<and>
    fst (trackValueFlight (Some userId) token (store s)) = store s \<and>
    (\<forall>t. snd (trackValueFlight (Some userId) token (store s)) \<noteq> Next t)"
proof (intro conjI)
  show "\<forall>(token, t0) \<in> set (requests s). t0 + VALUE_FLIGHT_TTL_MS \<le> clock (store s)"
    using reachable_exclusive [OF assms(1,2)] assms(3) by (fastforce simp: exclusive_def in_bound_def)
  have "live_key (store s) (marginFreezeKey userId) \<noteq> None" using assms(3) by (simp add: may_write_def)
  from frozen_refused [OF this]
  show "fst (trackValueFlight (Some userId) token (store s)) = store s"
    and "\<forall>t. snd (trackValueFlight (Some userId) token (store s)) \<noteq> Next t" by simp_all
qed

definition idle_account :: exclusion where
  "idle_account = \<lparr>store = blank_store, requests = [], resets = []\<rparr>"

definition late_store :: redis where
  "late_store = (fst (trackValueFlight (Some ''u'') ''q'' blank_store))\<lparr>clock := 30000\<rparr>"

definition quiet_store :: redis where
  "quiet_store = late_store\<lparr>keys := (\<lambda>_. None)(marginFreezeKey ''u'' := Some (''r'', Some 45000))\<rparr>"

lemma late_store: "late_store = blank_store\<lparr>flights := (\<lambda>_. ([], None))
    (valueFlightKey ''u'' := ([(''q'', deadline 0)], Some 30000)), clock := 30000\<rparr>"
  by (simp add: late_store_def trackValueFlight_def beginValueFlight_def beginFlight_def BEGIN_FLIGHT_LUA_def
      blank_store_def live_key_def live_hash_def expired_def deadline_def VALUE_FLIGHT_TTL_MS_def del: spelled.simps)

lemma quiet_reached:
  "flight_reachable ''u'' idle_account \<lparr>store = quiet_store, requests = [(''q'', 0)], resets = [(''r'', True)]\<rparr>"
proof -
  define st1 where "st1 = fst (trackValueFlight (Some ''u'') ''q'' blank_store)"
  define s1 where "s1 = \<lparr>store = st1, requests = [(''q'', 0)], resets = []\<rparr>"
  define s2 where "s2 = \<lparr>store = late_store, requests = [(''q'', 0)], resets = []\<rparr>"
  define s3 where "s3 = \<lparr>store = quiet_store, requests = [(''q'', 0)], resets = [(''r'', False)]\<rparr>"
  have "snd (trackValueFlight (Some ''u'') ''q'' blank_store) = Next (Some ''q'')"
    by (simp add: trackValueFlight_def beginValueFlight_def beginFlight_def BEGIN_FLIGHT_LUA_def
        blank_store_def live_key_def del: spelled.simps)
  then have t: "trackValueFlight (Some ''u'') ''q'' blank_store = (st1, Next (Some ''q''))"
    by (simp add: st1_def prod_eq_iff)
  have 1: "flight_step ''u'' idle_account s1"
    using flight_step.enter [of "''u''" "''q''" idle_account st1] t
    by (simp add: idle_account_def s1_def blank_store_def)
  have "clock st1 = 0" using begin_next(2) [OF t] by (simp add: blank_store_def)
  then have 2: "flight_step ''u'' s1 s2"
    using flight_step.tick [of s1 30000 "''u''"] by (simp add: s1_def s2_def late_store_def st1_def)
  have 3: "flight_step ''u'' s2 s3"
    using flight_step.take [of "''u''" "''r''" s2 quiet_store]
    by (simp add: s2_def s3_def quiet_store_def late_store claimOnce_def CLAIM_ONCE_LUA_def live_key_def
        blank_store_def MARGIN_FREEZE_TTL_MS_def)
  have "field_number (deadline 0) = Fin 30000"
    using deadline_number [of 0] by (simp add: VALUE_FLIGHT_TTL_MS_def)
  then have 4: "flight_step ''u'' s3 \<lparr>store = quiet_store, requests = [(''q'', 0)], resets = [(''r'', True)]\<rparr>"
    using flight_step.quiet [of s3 "''r''" "''u''"]
    by (simp add: s3_def quiet_store_def late_store readLiveValueFlights_def live_hash_def blank_store_def
        expired_def counts_live_def)
  note step = flight_reachable.more
  show ?thesis by (rule step [OF step [OF step [OF step [OF flight_reachable.start 1] 2] 3] 4])
qed

theorem reset_excludes_requests_witness:
  "0 + VALUE_FLIGHT_TTL_MS \<le> clock quiet_store \<and>
    fst (trackValueFlight (Some ''u'') ''z'' quiet_store) = quiet_store \<and>
    (\<forall>t. snd (trackValueFlight (Some ''u'') ''z'' quiet_store) \<noteq> Next t)"
proof -
  have f: "fresh_account idle_account" by (simp add: fresh_account_def idle_account_def blank_store_def)
  have w: "may_write ''u'' \<lparr>store = quiet_store, requests = [(''q'', 0)], resets = [(''r'', True)]\<rparr> ''r''"
    by (simp add: may_write_def quiet_store_def late_store live_key_def expired_def)
  show ?thesis using reset_excludes_requests [OF quiet_reached f w, of "''z''"] by simp
qed

text \<open>The exclusion is bounded by the freeze's own fifteen seconds: a reset that has found the
  account quiet and takes longer can have a request of the account begin beside it.\<close>

theorem slow_reset_overlaps:
  "\<exists>s. flight_reachable ''u'' \<lparr>store = blank_store, requests = [], resets = []\<rparr> s \<and>
     map_of (resets s) ''r'' = Some True \<and> requests s = [(''q'', 15001)] \<and> clock (store s) = 15001"
proof -
  define k where "k = marginFreezeKey ''u''"
  define s0 where "s0 = \<lparr>store = blank_store, requests = [], resets = []\<rparr>"
  define st1 where "st1 = blank_store\<lparr>keys := (\<lambda>_. None)(k := Some (''r'', Some 15000))\<rparr>"
  define s1 where "s1 = \<lparr>store = st1, requests = [], resets = [(''r'', False)]\<rparr>"
  define s2 where "s2 = \<lparr>store = st1, requests = [], resets = [(''r'', True)]\<rparr>"
  define st3 where "st3 = st1\<lparr>clock := 15001\<rparr>"
  define s3 where "s3 = \<lparr>store = st3, requests = [], resets = [(''r'', True)]\<rparr>"
  define st4 where "st4 = fst (trackValueFlight (Some ''u'') ''q'' st3)"
  define s4 where "s4 = \<lparr>store = st4, requests = [(''q'', 15001)], resets = [(''r'', True)]\<rparr>"
  have 1: "flight_step ''u'' s0 s1"
    using flight_step.take [of "''u''" "''r''" s0 st1]
    by (simp add: s0_def s1_def st1_def k_def claimOnce_def CLAIM_ONCE_LUA_def live_key_def blank_store_def
        MARGIN_FREEZE_TTL_MS_def)
  have 2: "flight_step ''u'' s1 s2"
    using flight_step.quiet [of s1 "''r''" "''u''"]
    by (simp add: s1_def s2_def st1_def readLiveValueFlights_def live_hash_def blank_store_def expired_def)
  have 3: "flight_step ''u'' s2 s3"
    using flight_step.tick [of s2 15001 "''u''"]
    by (simp add: s2_def s3_def st3_def st1_def blank_store_def)
  have "snd (trackValueFlight (Some ''u'') ''q'' st3) = Next (Some ''q'')"
    by (simp add: trackValueFlight_def beginValueFlight_def beginFlight_def BEGIN_FLIGHT_LUA_def st3_def
        st1_def k_def blank_store_def live_key_def expired_def del: spelled.simps)
  then have "trackValueFlight (Some ''u'') ''q'' (store s3) = (st4, Next (Some ''q''))"
    by (simp add: st4_def s3_def prod_eq_iff)
  from flight_step.enter [OF this] have 4: "flight_step ''u'' s3 s4"
    by (simp add: s3_def s4_def st3_def)
  have "clock st4 = 15001"
    using begin_next(2) [of "''u''" "''q''" st3 st4] \<open>trackValueFlight (Some ''u'') ''q'' (store s3) = _\<close>
    by (simp add: s3_def st3_def)
  note step = flight_reachable.more
  have "flight_reachable ''u'' s0 s4"
    by (rule step [OF step [OF step [OF step [OF flight_reachable.start 1] 2] 3] 4])
  then show ?thesis unfolding s0_def using \<open>clock st4 = 15001\<close> by (intro exI [of _ s4]) (simp add: s4_def)
qed

end
