(* ===== verification/Placement.thy ===== *)
theory Placement
  imports OrderGate Cancelling ValueFlight
begin

text \<open>
  Placing an order (\<^verbatim>\<open>orderPlace\<close>, \<^verbatim>\<open>limitOrderPlace\<close> and \<^verbatim>\<open>marketOrderPlace\<close> of
  \<^verbatim>\<open>controllers/spot.controller.js\<close>). Each handler is split where the code turns from checking to
  writing: the refusals, the order it builds, the reservation. A refusal whose sentence quotes numbers
  keeps the fixed beginning of the sentence. The price conversion, the seeding of a wallet that has
  no balance field yet, the ids and the sequence numbers come from outside and are arguments.
\<close>

record env =
  server :: service
  draw_id :: "nat \<Rightarrow> oid"
  resolve_depth :: "pair_id \<Rightarrow> depth_book option"
  conversion :: "string \<Rightarrow> string \<Rightarrow> jsval option"
  seed_wallet :: "user_id \<Rightarrow> spot \<Rightarrow> spot \<times> bool"
  sequence_id :: "nat \<Rightarrow> jsval"

definition option_val :: "jsnum option \<Rightarrow> jsval" where
  "option_val n = (case n of None \<Rightarrow> JNull | Some x \<Rightarrow> JNum x)"

definition bookTopFor :: "pair \<Rightarrow> venue \<Rightarrow> jsval \<times> jsval" where
  "bookTopFor p v =
     (if p_botstatus p = ''binance''
      then let l = getLadderState (p_id p) (clock (exch v)) v in
        if \<not> la_present l then (JNull, JNull) else (option_val (la_best_buy l), option_val (la_best_sell l))
      else let mark = parse_float (p_mark p) in
        if \<not> mark > Fin 0 then (JNull, JNull) else (JNum mark, JNum mark))"

text \<open>The pair shown to a client: its bid, ask and mark are the top of the book it can trade with.\<close>

definition withTradableTop :: "pair \<Rightarrow> venue \<Rightarrow> pair \<times> (jsnum \<times> jsnum) option" where
  "withTradableTop p v =
     (let (bestBid, bestAsk) = bookTopFor p v; bid = parse_float bestBid; ask = parse_float bestAsk in
      if \<not> bid > Fin 0 \<or> \<not> ask > Fin 0 then (p, None) else (p\<lparr>p_mark := JNum bid\<rparr>, Some (bid, ask)))"

definition pair_key :: "jsval \<Rightarrow> pair_id option" where
  "pair_key v = (if v = JUndef \<or> v = JNull then None else Some (to_string v))"

section \<open>Limit orders: refusals\<close>

definition limitSize :: "order_body \<Rightarrow> pair \<Rightarrow> jsnum" where
  "limitSize b p = quantiseOrderSize (JNum (parse_float (quantity b))) (p_first_digits p)"

definition percent_of_mark :: "pair \<Rightarrow> jsval \<Rightarrow> jsnum" where
  "percent_of_mark p pct = to_number (p_mark p) * (Fin 1 + to_number pct / Fin 100)"

text \<open>The least order value abroad, checked on paper pairs when the conversion answers.\<close>

definition conversion_refusal :: "env \<Rightarrow> pair \<Rightarrow> jsnum \<Rightarrow> response option" where
  "conversion_refusal e p q =
     (if p_botstatus p \<noteq> ''binance'' then None
      else case conversion e (p_first p) (p_second p) of
        None \<Rightarrow> None
      | Some convertPrice \<Rightarrow>
          let checkDoller = to_number (truncateDecimals convertPrice 8) * q in
          if p_first p = ''BNB'' \<and> checkDoller < Fin 5 then Some (400, ''Total order value should be more than 5 USDT'')
          else if checkDoller < Fin 10 \<and> p_first p \<noteq> ''BNB'' then Some (400, ''Total order value should be more than 10 USDT'')
          else None)"

definition limitBounds :: "env \<Rightarrow> order_body \<Rightarrow> pair \<Rightarrow> response option" where
  "limitBounds e b p =
     (let prc = parse_float (price b); q = limitSize b p; total = prc * q; buy = (buyorsell b = JStr ''buy'') in
      if q < parse_float (p_min_quantity p) then Some (400, ''Quantity must not be lesser than'')
      else if q > parse_float (p_max_quantity p) then Some (400, ''Quantity must not be higher than'')
      else if prc < percent_of_mark p (p_min_pct p) then Some (400, ''Price must not be lesser than'')
      else if prc > percent_of_mark p (p_max_pct p) then Some (400, ''Price must not be higher than'')
      else if buy \<and> total < parse_float (p_min_value p) then Some (400, ''Order value must not be lesser than'')
      else if buy \<and> total > parse_float (p_max_value p) then Some (400, ''Order value must not be higher than'')
      else conversion_refusal e p q)"

definition limitRefusal :: "env \<Rightarrow> order_body \<Rightarrow> pair \<Rightarrow> venue \<Rightarrow> response option" where
  "limitRefusal e b p v =
     (let prc = parse_float (price b); requestedQuantity = parse_float (quantity b); q = limitSize b p;
          limitGate = assertOrderTradable (resolve_depth e) (Some p) (JStr ''limit'') JUndef None (clock (exch v)) v
      in if p_status p \<noteq> ''active'' then Some (400, ''Pair is not activated'')
         else if exceedsPrecision (JNum prc) (p_second_digits p) then Some (400, ''Price must have at most'')
         else if \<not> js_eq q requestedQuantity \<and> \<not> q > Fin 0 then Some (400, ''Quantity is smaller than the smallest size this pair can trade'')
         else if \<not> g_allowed limitGate then Some (400, the (g_reason limitGate))
         else limitBounds e b p)"

section \<open>Limit orders: the order and its reservation\<close>

definition limitCurrency :: "order_body \<Rightarrow> pair \<Rightarrow> currency_id" where
  "limitCurrency b p = (if buyorsell b = JStr ''buy'' then p_second_id p else p_first_id p)"

definition limitValue :: "order_body \<Rightarrow> pair \<Rightarrow> jsnum" where
  "limitValue b p = (if buyorsell b = JStr ''buy'' then parse_float (price b) * limitSize b p else limitSize b p)"

text \<open>On a pair without a bot an order at or through the mark is filled at the mark.\<close>

definition at_mark :: "order_body \<Rightarrow> pair \<Rightarrow> bool" where
  "at_mark b p \<longleftrightarrow> p_botstatus p = ''off'' \<and>
     ((buyorsell b = JStr ''buy'' \<and> js_less_eq (p_mark p) (JNum (parse_float (price b)))) \<or>
      (buyorsell b = JStr ''sell'' \<and> js_less_eq (JNum (parse_float (price b))) (p_mark p)))"

definition limitRole :: "order_body \<Rightarrow> pair \<Rightarrow> venue \<Rightarrow> string" where
  "limitRole b p v =
     (let top = bookTopFor p v in
      roleForNewOrder (orderType b) (crossesBook (buyorsell b) (JNum (parse_float (price b))) (fst top) (snd top)))"

definition limitOrder :: "env \<Rightarrow> user_id \<Rightarrow> order_body \<Rightarrow> pair \<Rightarrow> venue \<Rightarrow> order" where
  "limitOrder e u b p v =
     \<lparr>o_id = draw_id e (draws (exch v)), o_user = u, o_pair = p_id p, o_first_id = p_first_id p, o_first = p_first p,
      o_first_digits = p_first_digits p, o_second_id = p_second_id p, o_second = p_second p,
      o_second_digits = p_second_digits p, o_side = to_string (buyorsell b), o_type = to_string (orderType b),
      o_price = JNum (parse_float (price b)), o_quantity = JNum (limitSize b p), o_amount = JUndef,
      o_value = JNum (parse_float (price b) * limitSize b p), o_open_quantity = JNum (limitSize b p),
      o_open_value = JUndef, o_average = JNum (Fin 0),
      o_ref_price = (if at_mark b p then p_mark p else JNum (parse_float (price b))), o_filled = JNum (Fin 0),
      o_liquidity = ''off'', o_role = JStr (limitRole b p v), o_is_maker = at_mark b p, o_flag = False,
      o_is_paper = False, o_is_liquidity = False, o_status = ''open'', o_reserved = JUndef, o_released = JUndef,
      o_before = JUndef, o_after = JUndef, o_code = sequence_id e (draws (exch v)), o_date = Some (clock (exch v))\<rparr>"

definition reserved_order :: "order \<Rightarrow> jsnum \<Rightarrow> jsnum \<Rightarrow> order" where
  "reserved_order o1 value after1 =
     o1\<lparr>o_reserved := JNum value, o_released := JNum (Fin 0), o_before := JNum (after1 + value), o_after := JNum after1\<rparr>"

definition side_coin :: "order \<Rightarrow> string" where
  "side_coin o1 = (if o_side o1 = ''buy'' then o_second o1 else o_first o1)"

definition placement_line :: "order \<Rightarrow> currency_id \<Rightarrow> jsnum \<Rightarrow> jsnum \<Rightarrow> jsnum \<Rightarrow> string \<Rightarrow> passbook_line" where
  "placement_line o1 c bal0 after1 value ty =
     \<lparr>pb_user = o_user o1, pb_coin = side_coin o1, pb_currency = c, pb_table = o_id o1, pb_before = JNum bal0,
      pb_after = JNum after1, pb_amount = toFixedDown (JNum value) 8, pb_type = ty, pb_category = ''debit''\<rparr>"

definition insufficient :: response where
  "insufficient = (400, ''Due to insufficient balance order cannot be placed'')"

definition reset_running :: response where
  "reset_running = (409, ''RESET_IN_PROGRESS'')"

definition placed :: response where
  "placed = (200, ''Your order placed successfully.'')"

definition limitReserve :: "env \<Rightarrow> order_body \<Rightarrow> pair \<Rightarrow> order \<Rightarrow> spot \<Rightarrow> spot \<times> response" where
  "limitReserve e b p o1 st =
     (let c = limitCurrency b p; value = limitValue b p; u = o_user o1 in
      case moveBalanceLogged (server e) ''walletbalance_spot'' (u, c) (JNum value) Debit ''reserve_limit_order'' u
          (Some (marginFreezeKey u)) st of
        (st1, FROZEN) \<Rightarrow> (st1, reset_running)
      | (st1, Refused) \<Rightarrow> (st1, insufficient)
      | (st1, Raised) \<Rightarrow> (st1, (400, ''Limit order match error''))
      | (st1, Done (balance, _)) \<Rightarrow>
          (let st2 = fst (hincbyfloat (server e) IN_ORDER (u, c) value st1);
               after1 = field_float (Some balance);
               o2 = reserved_order o1 value after1;
               st3 = hset_order (open_table (o_side o2) (o_pair o2)) (o_id o2) o2 st2;
               st4 = (if p_botstatus p = ''bot'' then updateOrderBook o2 (o_pair o2) (p_first_digits p) st3 else st3)
           in (sends [AssetPush u c (JNum after1), SaveHistory o2,
                 Passbook (placement_line o2 c (after1 + value) after1 value ''spot_limit_orderPlace'')] st4, placed)))"

section \<open>Limit orders: the handler\<close>

text \<open>The balance field is looked at raw first: when it is missing the wallet is seeded.\<close>

definition ensure_wallet :: "env \<Rightarrow> user_id \<Rightarrow> currency_id \<Rightarrow> spot \<Rightarrow> spot \<times> bool" where
  "ensure_wallet e u c st =
     (if hashes st ''walletbalance_spot'' (u, c) = None then seed_wallet e u st else (st, True))"

definition take_id :: "spot \<Rightarrow> spot" where
  "take_id st = st\<lparr>draws := draws st + 1\<rparr>"

definition in_venue :: "venue \<Rightarrow> spot \<times> response \<Rightarrow> venue \<times> response" where
  "in_venue v sr = (v\<lparr>exch := fst sr\<rparr>, snd sr)"

definition limitOrderPlace :: "env \<Rightarrow> user_id \<Rightarrow> order_body \<Rightarrow> venue \<Rightarrow> venue \<times> response" where
  "limitOrderPlace e u b v = (case FetchpairData (pair_key (spotPairId b)) (exch v) of
      (st, Done None) \<Rightarrow> in_venue v (st, (400, ''Invalid Pair''))
    | (st, Done (Some p)) \<Rightarrow>
        let v1 = v\<lparr>exch := st\<rparr> in
        (case limitRefusal e b p v1 of
          Some r \<Rightarrow> (v1, r)
        | None \<Rightarrow>
            let (st1, seeded) = ensure_wallet e u (limitCurrency b p) st in
            if \<not> seeded then in_venue v1 (st1, (400, ''Error on server''))
            else if readSpotBalanceNumber u (limitCurrency b p) st1 < limitValue b p then in_venue v1 (st1, insufficient)
            else let o1 = limitOrder e u b p (v1\<lparr>exch := st1\<rparr>)
                 in in_venue v1 (limitReserve e b p o1 (take_id st1)))
    | (st, _) \<Rightarrow> in_venue v (st, (400, ''Limit order match error'')))"

section \<open>Market orders: refusals\<close>

definition marketBody :: "order_body \<Rightarrow> pair \<Rightarrow> order_body" where
  "marketBody b p =
     (if buyorsell b = JStr ''sell''
      then b\<lparr>amount := JNum (quantiseOrderSize (JNum (parse_float (amount b))) (p_first_digits p))\<rparr> else b)"

text \<open>The size the gate is asked about is the order value of a buy and the amount of a sell.\<close>

definition marketGate :: "env \<Rightarrow> user_id \<Rightarrow> order_body \<Rightarrow> pair \<Rightarrow> venue \<Rightarrow> response option" where
  "marketGate e u b p v =
     (let g = assertOrderTradable (resolve_depth e) (Some p) (JStr ''market'') (buyorsell b)
            (Some (if buyorsell b = JStr ''buy'' then parse_float (orderValue b) else parse_float (amount b)))
            (clock (exch v)) v
      in if g_allowed g then None
         else if isMarketOrderUnaffordable u b p (exch v) then Some insufficient
         else Some (400, the (g_reason g)))"

definition marketBounds :: "env \<Rightarrow> order_body \<Rightarrow> pair \<Rightarrow> response option" where
  "marketBounds e b p =
     (let buy = (buyorsell b = JStr ''buy''); sell = (buyorsell b = JStr ''sell'') in
      if buy \<and> parse_float (orderValue b) < parse_float (p_min_value p) then Some (400, ''Order value must not be lesser than'')
      else if buy \<and> parse_float (orderValue b) > parse_float (p_max_value p) then Some (400, ''Order value must not be higher than'')
      else if buy \<and> p_botstatus p = ''binance'' \<and>
         (case conversion e (p_first p) (p_second p) of
            None \<Rightarrow> False
          | Some convertPrice \<Rightarrow> to_number (truncateDecimals convertPrice 8) * to_number (orderValue b) < Fin 10)
      then Some (400, ''Total order value should be more than 10 USDT'')
      else if sell \<and> parse_float (amount b) < parse_float (p_min_quantity p) then Some (400, ''Quantity must not be lesser than'')
      else if sell \<and> parse_float (amount b) > parse_float (p_max_quantity p) then Some (400, ''Quantity must not be higher than'')
      else None)"

definition marketRefusal :: "env \<Rightarrow> user_id \<Rightarrow> order_body \<Rightarrow> pair \<Rightarrow> venue \<Rightarrow> response option" where
  "marketRefusal e u b p v =
     (let b1 = marketBody b p in
      if p_status p \<noteq> ''active'' then Some (400, ''Pair is not activated'')
      else if buyorsell b = JStr ''sell'' \<and> \<not> js_eq (parse_float (amount b1)) (parse_float (amount b)) \<and> \<not> parse_float (amount b1) > Fin 0
      then Some (400, ''Quantity is smaller than the smallest size this pair can trade'')
      else (case marketGate e u b1 p v of
        Some r \<Rightarrow> Some r
      | None \<Rightarrow> marketBounds e b1 p))"

text \<open>
  On a pair run by the bot the other side must hold a limit order of someone else. A side that holds
  market orders only makes the check itself fail, since it reads the owner of an order it did not find.
\<close>

definition is_limit_price :: "order \<Rightarrow> bool" where
  "is_limit_price o1 \<longleftrightarrow> o_price o1 \<noteq> JStr ''market''"

definition marketCounterparty :: "user_id \<Rightarrow> order_body \<Rightarrow> pair \<Rightarrow> spot \<Rightarrow> response option" where
  "marketCounterparty u b p st =
     (let side = (if buyorsell b = JStr ''buy'' then ''sell'' else ''buy'') in
      if p_botstatus p \<noteq> ''bot'' then None
      else case hgetall_orders (open_table side (p_id p)) st of
        None \<Rightarrow> Some (400, ''No orders in order book'')
      | Some os \<Rightarrow> (case find is_limit_price os of
          None \<Rightarrow> Some (500, ''Market order match error'')
        | Some o1 \<Rightarrow>
            if o_user o1 = u \<and> find (\<lambda>o2. is_limit_price o2 \<and> o_user o2 \<noteq> u) os = None
            then Some (400, ''No orders in order book'') else None))"

section \<open>Market orders: the order and its charge\<close>

definition marketOrder :: "env \<Rightarrow> user_id \<Rightarrow> order_body \<Rightarrow> pair \<Rightarrow> spot \<Rightarrow> order" where
  "marketOrder e u b p st =
     (let value = marketOrderDebitValue b p; q = marketOrderQuantity b p in
      \<lparr>o_id = draw_id e (draws st), o_user = u, o_pair = p_id p, o_first_id = p_first_id p, o_first = p_first p,
       o_first_digits = p_first_digits p, o_second_id = p_second_id p, o_second = p_second p,
       o_second_digits = p_second_digits p, o_side = to_string (buyorsell b), o_type = to_string (orderType b),
       o_price = JStr ''market'', o_quantity = JNum q,
       o_amount = (if buyorsell b = JStr ''buy'' then JUndef else JNum (parse_float (amount b))),
       o_value = JNum value, o_open_quantity = JNum q, o_open_value = JNum value, o_average = JNum (Fin 0),
       o_ref_price = JUndef, o_filled = JNum (Fin 0), o_liquidity = ''off'', o_role = JStr TAKER,
       o_is_maker = False, o_flag = True, o_is_paper = False, o_is_liquidity = False, o_status = ''open'',
       o_reserved = JUndef, o_released = JUndef, o_before = JUndef, o_after = JUndef,
       o_code = sequence_id e (draws st), o_date = Some (clock st)\<rparr>)"

definition marketCharge :: "env \<Rightarrow> order_body \<Rightarrow> pair \<Rightarrow> order \<Rightarrow> spot \<Rightarrow> spot \<times> response" where
  "marketCharge e b p o1 st =
     (let c = marketOrderDebitCurrencyId b p; value = marketOrderDebitValue b p; u = o_user o1;
          balance = readSpotBalanceNumber u c st in
      if balance < value then (st, insufficient)
      else case moveBalanceLogged (server e) ''walletbalance_spot'' (u, c) (JNum value) Debit ''reserve_market_order'' u
          (Some (marginFreezeKey u)) st of
        (st1, FROZEN) \<Rightarrow> (st1, reset_running)
      | (st1, Refused) \<Rightarrow> (st1, insufficient)
      | (st1, Raised) \<Rightarrow> (st1, (500, ''Market order match error''))
      | (st1, Done (userbalance, _)) \<Rightarrow>
          (let after1 = field_float (Some userbalance);
               st2 = hset_order (open_table (o_side o1) (o_pair o1)) (o_id o1) o1 st1
           in (sends [AssetPush u c (JNum after1), SaveHistory o1,
                 Passbook (placement_line o1 c balance after1 value ''spot_market_orderPlace'')] st2, placed)))"

definition marketOrderPlace :: "env \<Rightarrow> user_id \<Rightarrow> order_body \<Rightarrow> venue \<Rightarrow> venue \<times> response" where
  "marketOrderPlace e u b v = (case FetchpairData (pair_key (spotPairId b)) (exch v) of
      (st, Done None) \<Rightarrow> in_venue v (st, (400, ''Invalid Pair''))
    | (st, Done (Some p)) \<Rightarrow>
        let v1 = v\<lparr>exch := st\<rparr>; b1 = marketBody b p in
        (case marketRefusal e u b p v1 of
          Some r \<Rightarrow> (v1, r)
        | None \<Rightarrow>
            let (st1, seeded) = ensure_wallet e u (marketOrderDebitCurrencyId b1 p) st in
            if \<not> seeded then in_venue v1 (st1, (400, ''Error on server''))
            else (case marketCounterparty u b1 p st1 of
              Some r \<Rightarrow> in_venue v1 (st1, r)
            | None \<Rightarrow> in_venue v1 (marketCharge e b1 p (marketOrder e u b1 p st1) (take_id st1))))
    | (st, _) \<Rightarrow> in_venue v (st, (500, ''Market order match error'')))"

section \<open>The endpoint\<close>

definition orderPlace :: "env \<Rightarrow> user_id \<Rightarrow> order_body \<Rightarrow> venue \<Rightarrow> venue \<times> response" where
  "orderPlace e u b v =
     (if orderType b = JStr ''limit'' then limitOrderPlace e u b v
      else if orderType b = JStr ''market'' then marketOrderPlace e u b v
      else (v, (400, ''Order type is not supported.'')))"

section \<open>A refusal charges nothing\<close>

definition wallet_seeded :: "user_id \<Rightarrow> spot \<Rightarrow> bool" where
  "wallet_seeded u st \<longleftrightarrow> (\<forall>c. hashes st ''walletbalance_spot'' (u, c) \<noteq> None)"

lemma ensure_seeded: "wallet_seeded u st \<Longrightarrow> ensure_wallet e u c st = (st, True)"
  unfolding ensure_wallet_def wallet_seeded_def by meson

lemma limitReserve_refused:
  "limitReserve e b p o1 st = (st', r) \<Longrightarrow> r \<noteq> placed \<Longrightarrow> st' = st"
  by (auto simp: limitReserve_def Let_def split: prod.splits reply.splits dest!: moveBalanceLogged_only(2))

lemma marketCharge_refused:
  "marketCharge e b p o1 st = (st', r) \<Longrightarrow> r \<noteq> placed \<Longrightarrow> st' = st"
  by (auto simp: marketCharge_def Let_def split: prod.splits reply.splits if_splits dest!: moveBalanceLogged_only(2))

definition same_money :: "spot \<Rightarrow> spot \<Rightarrow> bool" where
  "same_money st st' \<longleftrightarrow> hashes st' = hashes st \<and> streams st' = streams st \<and> tables st' = tables st \<and>
     history st' = history st \<and> sent st' = sent st"

lemma same_money_refl [simp]: "same_money st st"
  by (simp add: same_money_def)

lemma same_money_take_id [simp]: "same_money st (take_id st')  = same_money st st'"
  by (simp add: same_money_def take_id_def)

lemma same_money_Fetch: "FetchpairData i st = (st', r) \<Longrightarrow> same_money st st'"
  using FetchpairData_frame [of i st st' r] by (simp add: same_money_def)

lemma in_venue_sel [simp]: "exch (fst (in_venue v sr)) = fst sr" "snd (in_venue v sr) = snd sr"
  by (simp_all add: in_venue_def)

lemma limit_refusal_keeps:
  assumes "limitOrderPlace e u b v = (v', r)" "r \<noteq> placed" "wallet_seeded u (exch v)"
  shows "same_money (exch v) (exch v')"
proof -
  obtain st pr where f: "FetchpairData (pair_key (spotPairId b)) (exch v) = (st, pr)" by (metis surj_pair)
  have keep: "same_money (exch v) st" by (rule same_money_Fetch [OF f])
  have w: "wallet_seeded u st" using assms(3) keep by (simp add: wallet_seeded_def same_money_def)
  show ?thesis
  proof (cases "\<exists>p. pr = Done (Some p) \<and> limitRefusal e b p (v\<lparr>exch := st\<rparr>) = None \<and>
      \<not> readSpotBalanceNumber u (limitCurrency b p) st < limitValue b p")
    case True
    then obtain p where p: "pr = Done (Some p)" "limitRefusal e b p (v\<lparr>exch := st\<rparr>) = None"
      "\<not> readSpotBalanceNumber u (limitCurrency b p) st < limitValue b p" by blast
    let ?r = "limitReserve e b p (limitOrder e u b p (v\<lparr>exch := st\<rparr>)) (take_id st)"
    have "v' = fst (in_venue (v\<lparr>exch := st\<rparr>) ?r)" "r = snd ?r"
      using assms(1) f p ensure_seeded [OF w] by (auto simp: limitOrderPlace_def Let_def in_venue_def)
    moreover have "fst ?r = take_id st" using limitReserve_refused assms(2) calculation(2) by (metis prod.collapse)
    ultimately show ?thesis using keep by simp
  next
    case False
    then have "exch v' = st"
      using assms(1) f ensure_seeded [OF w]
      by (auto simp: limitOrderPlace_def Let_def in_venue_def split: reply.splits option.splits if_splits)
    then show ?thesis using keep by simp
  qed
qed

lemma market_refusal_keeps:
  assumes "marketOrderPlace e u b v = (v', r)" "r \<noteq> placed" "wallet_seeded u (exch v)"
  shows "same_money (exch v) (exch v')"
proof -
  obtain st pr where f: "FetchpairData (pair_key (spotPairId b)) (exch v) = (st, pr)" by (metis surj_pair)
  have keep: "same_money (exch v) st" by (rule same_money_Fetch [OF f])
  have w: "wallet_seeded u st" using assms(3) keep by (simp add: wallet_seeded_def same_money_def)
  show ?thesis
  proof (cases "\<exists>p. pr = Done (Some p) \<and> marketRefusal e u b p (v\<lparr>exch := st\<rparr>) = None \<and>
      marketCounterparty u (marketBody b p) p st = None")
    case True
    then obtain p where p: "pr = Done (Some p)" "marketRefusal e u b p (v\<lparr>exch := st\<rparr>) = None"
      "marketCounterparty u (marketBody b p) p st = None" by blast
    let ?r = "marketCharge e (marketBody b p) p (marketOrder e u (marketBody b p) p st) (take_id st)"
    have "v' = fst (in_venue (v\<lparr>exch := st\<rparr>) ?r)" "r = snd ?r"
      using assms(1) f p ensure_seeded [OF w] by (auto simp: marketOrderPlace_def Let_def in_venue_def)
    moreover have "fst ?r = take_id st" using marketCharge_refused assms(2) calculation(2) by (metis prod.collapse)
    ultimately show ?thesis using keep by simp
  next
    case False
    then have "exch v' = st"
      using assms(1) f ensure_seeded [OF w]
      by (auto simp: marketOrderPlace_def Let_def in_venue_def split: reply.splits option.splits if_splits)
    then show ?thesis using keep by simp
  qed
qed


definition sample_env :: env where
  "sample_env = \<lparr>server = reference_service, draw_id = (\<lambda>n. CHR ''o'' # replicate n CHR ''x''),
     resolve_depth = \<lambda>_. None, conversion = \<lambda>_ _. None, seed_wallet = \<lambda>_ st. (st, True), sequence_id = \<lambda>n. JNum (Fin 1)\<rparr>"

text \<open>A user with a hundred of each currency, on a pair without a ladder whose mark is eight.\<close>

definition trading_spot :: spot where
  "trading_spot = blank_spot\<lparr>pairs := [(''p'', Row sample_pair)],
     hashes := (\<lambda>_ _. None)(''walletbalance_spot'' := (\<lambda>_. Some (RDec 100)))\<rparr>"

definition trading_venue :: venue where
  "trading_venue = quiet_venue\<lparr>exch := trading_spot\<rparr>"

definition limit_body :: order_body where
  "limit_body = \<lparr>orderType = JStr ''limit'', spotPairId = JStr ''p'', price = JNum (Fin 5), quantity = JNum (Fin 2),
     orderValue = JUndef, amount = JUndef, buyorsell = JStr ''buy''\<rparr>"

lemma trading_seeded [simp]: "wallet_seeded u trading_spot" "exch trading_venue = trading_spot"
  by (simp_all add: wallet_seeded_def trading_spot_def trading_venue_def)

lemma trading_pair: "FetchpairData (Some ''p'') trading_spot = (trading_spot, Done (Some sample_pair))"
  by (rule FetchpairData_hit) (simp_all add: trading_spot_def)


section \<open>An accepted limit order\<close>

lemma limitReserve_placed:
  assumes "limitReserve e b p o1 st = (st', placed)" and "is_num (limitValue b p)"
    and "o_is_paper o1 = False" "limitCurrency b p = c"
  shows "\<exists>x q o2. limitValue b p = Fin x \<and> 0 < x \<and> holds ''walletbalance_spot'' (o_user o1, c) q st \<and>
    Fin x \<le> to_num q \<and> live_key st (marginFreezeKey (o_user o1)) = None \<and> online st \<and>
    hashes st' ''walletbalance_spot'' = (hashes st ''walletbalance_spot'')
      ((o_user o1, c) \<mapsto> RDec (incr_round (server e) (q - spelling x))) \<and>
    hget_order (open_table (o_side o1) (o_pair o1)) (o_id o1) st' = Some (Row (json_order o2)) \<and>
    o2 = reserved_order o1 (Fin x) (to_num (incr_round (server e) (q - spelling x))) \<and> online st'"
proof -
  obtain st1 rep where m: "moveBalanceLogged (server e) ''walletbalance_spot'' (o_user o1, c) (JNum (limitValue b p)) Debit
      ''reserve_limit_order'' (o_user o1) (Some (marginFreezeKey (o_user o1))) st = (st1, rep)"
    by (metis surj_pair)
  have "is_num (to_number (JNum (limitValue b p)))" using assms(2) by simp
  from moveBalanceLogged_cases [OF this m]
  show ?thesis
  proof (elim disjE exE conjE)
    fix x q
    assume x: "to_number (JNum (limitValue b p)) = Fin x" "0 < x"
      and q: "holds ''walletbalance_spot'' (o_user o1, c) q st"
      and d: "Debit = Debit \<longrightarrow> Fin x \<le> to_num q \<and> live_key st (freeze_name (Some (marginFreezeKey (o_user o1)))) = None"
      and st1: "st1 = logged (server e) ''walletbalance_spot'' (o_user o1, c) q (signed_amount Debit x)
        ''reserve_limit_order'' (o_user o1) st"
      and rep: "rep = Done (RDec (incr_round (server e) (q + signed_amount Debit x)), next_id st)"
    have on: "online st" using m rep by (auto simp: moveBalanceLogged_def Let_def split: if_splits)
    define st2 where "st2 = fst (hincbyfloat (server e) IN_ORDER (o_user o1, c) (Fin x) st1)"
    have s2: "hashes st2 ''walletbalance_spot'' = hashes st1 ''walletbalance_spot''" "online st2 = online st1"
      using same_hashes_hincbyfloat [of IN_ORDER "(o_user o1, c)" st1 "server e" "Fin x"]
        only_value_hincbyfloat [of st1 "server e" IN_ORDER "(o_user o1, c)" "Fin x"]
      by (auto simp: st2_def same_hashes_but_def IN_ORDER_def only_value_def)
    define o2 where "o2 = reserved_order o1 (Fin x) (to_num (incr_round (server e) (q - spelling x)))"
    have o2: "o_side o2 = o_side o1" "o_pair o2 = o_pair o1" "o_id o2 = o_id o1"
      by (simp_all add: o2_def reserved_order_def)
    have upd: "hashes (updateOrderBook o3 i d s) = hashes s" "tables (updateOrderBook o3 i d s) = tables s"
      "online (updateOrderBook o3 i d s) = online s" for o3 i d s
      by (simp_all add: updateOrderBook_def hincby_frame) (auto simp: hincby_def Let_def split: option.splits)
    have v: "limitValue b p = Fin x" using x(1) by simp
    have "hashes st' ''walletbalance_spot'' = hashes st2 ''walletbalance_spot'' \<and> online st' = online st2 \<and>
        hget_order (open_table (o_side o1) (o_pair o1)) (o_id o1) st' = Some (Row (json_order o2))"
      using assms(1,4) m rep v
      by (auto simp: limitReserve_def Let_def signed_amount_def st2_def o2_def [symmetric] o2 upd hset_order_def
          hget_order_def split: if_splits)
    then show ?thesis
      using x q d st1 s2 on v by (auto simp: o2_def freeze_name_def signed_amount_def)
  next
    assume "st1 = st" "\<forall>v. rep \<noteq> Done v"
    then show ?thesis
      using assms(1,4) m
      by (auto simp: limitReserve_def Let_def placed_def insufficient_def reset_running_def split: reply.splits prod.splits)
  qed
qed

lemma cancelCurrency_limit:
  assumes "buyorsell b = JStr ''buy'' \<or> buyorsell b = JStr ''sell''" and "o_side o1 = to_string (buyorsell b)"
    and "o_first_id o1 = p_first_id p" "o_second_id o1 = p_second_id p"
  shows "cancelCurrency o1 = limitCurrency b p"
  using assms by (auto simp: cancelCurrency_def limitCurrency_def)

lemma reserved_remaining:
  assumes "is_num (Fin x)" "0 < x"
  shows "reservationRemaining (json_order (reserved_order o1 (Fin x) y)) = Some (Fin x)"
  using assms by (simp add: reservationRemaining_def json_order_def reserved_order_def Let_def js_max_def to_num_fix)

text \<open>What the handler has done when it answers that the order was placed.\<close>

lemma limit_accepted:
  assumes "limitOrderPlace e u b v = (v', placed)" and "wallet_seeded u (exch v)" and "num_val (quantity b)"
    and "buyorsell b = JStr ''buy'' \<or> buyorsell b = JStr ''sell''"
  obtains p x q o1 where "snd (FetchpairData (pair_key (spotPairId b)) (exch v)) = Done (Some p)" "limitValue b p = Fin x" "0 < x" "is_num (Fin x)"
    "hashes (exch v) ''walletbalance_spot'' (u, limitCurrency b p) = Some (RDec q)"
    "Fin x \<le> to_num q" "live_key (exch v) (marginFreezeKey u) = None"
    "hashes (exch v') ''walletbalance_spot'' = (hashes (exch v) ''walletbalance_spot'')
      ((u, limitCurrency b p) \<mapsto> RDec (incr_round (server e) (q - spelling x)))"
    "hget_order (open_table (to_string (buyorsell b)) (p_id p)) (o_id o1) (exch v') = Some (Row o1)"
    "o_user o1 = u" "o_side o1 = to_string (buyorsell b)" "o_type o1 = to_string (orderType b)" "\<not> o_is_paper o1"
    "cancelCurrency o1 = limitCurrency b p" "reservationRemaining o1 = Some (Fin x)" "online (exch v')"
proof -
  obtain st pr where f: "FetchpairData (pair_key (spotPairId b)) (exch v) = (st, pr)" by (metis surj_pair)
  note fr = FetchpairData_frame [OF f]
  have w: "wallet_seeded u st" using assms(2) fr(1) by (simp add: wallet_seeded_def)
  have "\<exists>p. pr = Done (Some p) \<and> v' = fst (in_venue (v\<lparr>exch := st\<rparr>)
        (limitReserve e b p (limitOrder e u b p (v\<lparr>exch := st\<rparr>)) (take_id st))) \<and>
      snd (limitReserve e b p (limitOrder e u b p (v\<lparr>exch := st\<rparr>)) (take_id st)) = placed"
  proof -
    have bounds: "limitRefusal e b p z \<noteq> Some placed" for p z
      by (auto simp: limitRefusal_def limitBounds_def conversion_refusal_def placed_def Let_def split: option.splits)
    show ?thesis
      using assms(1) f ensure_seeded [OF w] bounds
      by (auto simp: limitOrderPlace_def Let_def in_venue_def placed_def insufficient_def
          split: reply.splits option.splits if_splits)
  qed
  then obtain p where pr: "pr = Done (Some p)" and p: "v' = fst (in_venue (v\<lparr>exch := st\<rparr>)
        (limitReserve e b p (limitOrder e u b p (v\<lparr>exch := st\<rparr>)) (take_id st)))"
      "snd (limitReserve e b p (limitOrder e u b p (v\<lparr>exch := st\<rparr>)) (take_id st)) = placed"
    by blast
  define o0 where "o0 = limitOrder e u b p (v\<lparr>exch := st\<rparr>)"
  have o0: "o_is_paper o0 = False" "o_user o0 = u" "o_pair o0 = p_id p" "o_side o0 = to_string (buyorsell b)"
    "o_type o0 = to_string (orderType b)" "o_first_id o0 = p_first_id p" "o_second_id o0 = p_second_id p"
    by (simp_all add: o0_def limitOrder_def)
  have num: "is_num (limitValue b p)"
    using is_num_quantise [of "JNum (parse_float (quantity b))"] assms(3)
    by (simp add: limitValue_def limitSize_def num_val_def)
  have "limitReserve e b p o0 (take_id st) = (exch v', placed)"
    using p by (simp add: o0_def in_venue_def prod_eq_iff)
  from limitReserve_placed [OF this num o0(1) refl]
  obtain x q o2 where x: "limitValue b p = Fin x" "0 < x" "Fin x \<le> to_num q"
    and q: "holds ''walletbalance_spot'' (u, limitCurrency b p) q (take_id st)"
    and fz: "live_key (take_id st) (marginFreezeKey u) = None"
    and h: "hashes (exch v') ''walletbalance_spot'' = (hashes (take_id st) ''walletbalance_spot'')
      ((u, limitCurrency b p) \<mapsto> RDec (incr_round (server e) (q - spelling x)))"
    and row: "hget_order (open_table (to_string (buyorsell b)) (p_id p)) (o_id o0) (exch v') = Some (Row (json_order o2))"
    and o2: "o2 = reserved_order o0 (Fin x) (to_num (incr_round (server e) (q - spelling x)))" and on: "online (exch v')"
    unfolding o0 by blast
  define o1 where "o1 = json_order o2"
  have o1: "o_id o1 = o_id o0" "o_user o1 = u" "o_side o1 = to_string (buyorsell b)" "o_type o1 = to_string (orderType b)"
    "\<not> o_is_paper o1" "o_first_id o1 = p_first_id p" "o_second_id o1 = p_second_id p"
    using o0 by (simp_all add: o1_def o2 reserved_order_def json_order_def)
  obtain y where "hashes (exch v) ''walletbalance_spot'' (u, limitCurrency b p) = Some y"
    using assms(2) unfolding wallet_seeded_def by (metis not_None_eq)
  then have "hashes (exch v) ''walletbalance_spot'' (u, limitCurrency b p) = Some (RDec q)"
    using q fr(1) by (simp add: holds_def take_id_def)
  moreover have "live_key (exch v) (marginFreezeKey u) = None"
    using fz fr(7,8) live_key_cong [of "take_id st" "exch v"] by (simp add: take_id_def)
  ultimately show thesis
    using that [of p x q o1] f pr x num h row o1 on fr(1) o2
      cancelCurrency_limit [OF assms(4) o1(3,6,7)] reserved_remaining [of x o0]
    by (simp add: take_id_def o1_def)
qed


definition the_order :: "spot \<Rightarrow> order" where
  "the_order st = (case tables st (open_table ''buy'' ''p'') of [(_, Row o1)] \<Rightarrow> o1 | _ \<Rightarrow> sample_order)"

lemma limit_body_placed: "snd (limitOrderPlace sample_env ''u'' limit_body trading_venue) = placed"
proof -
  have refusal: "limitRefusal sample_env limit_body sample_pair (trading_venue\<lparr>exch := trading_spot\<rparr>) = None"
    by code_simp
  have worth: "limitValue limit_body sample_pair = Fin 10" by code_simp
  have balance: "readSpotBalanceNumber ''u'' (limitCurrency limit_body sample_pair) trading_spot = Fin 100" by code_simp
  have c: "limitCurrency limit_body sample_pair = ''q''" by code_simp
  have m: "moveBalanceLogged reference_service ''walletbalance_spot'' (''u'', ''q'') (JNum (Fin 10)) Debit why r fk (take_id trading_spot)
    = (logged reference_service ''walletbalance_spot'' (''u'', ''q'') 100 (- spelling 10) why r (take_id trading_spot),
       Done (RDec (incr_round reference_service (100 - spelling 10)), next_id (take_id trading_spot)))" for why r fk
  proof (rule debit_done)
    show "is_num (Fin 10)" "Fin 10 \<le> to_num 100" by code_simp+
  qed (simp_all add: take_id_def trading_spot_def holds_def live_key_def)
  have "snd (limitReserve sample_env limit_body sample_pair (limitOrder sample_env ''u'' limit_body sample_pair z) (take_id trading_spot)) = placed" for z
    using m by (simp add: limitReserve_def worth c Let_def limitOrder_def sample_env_def)
  then show ?thesis
    using refusal worth balance ensure_seeded [OF trading_seeded(1)]
    by (simp add: limitOrderPlace_def limit_body_def [THEN arg_cong, of spotPairId] pair_key_def trading_pair in_venue_def)
qed


section \<open>Placing and cancelling\<close>



end
