(* ===== verification/Settlement.thy ===== *)
theory Settlement
  imports Placement
begin

text \<open>
  One fill between two limit orders, the block of \<^verbatim>\<open>tradeMatching\<close> that settles it
  (\<^verbatim>\<open>controllers/spot.controller.js\<close>). The two orders change in place, in the code by mutation of the
  objects the lists hold: here each phase returns the order it has changed. Everything the block
  starts without waiting is a message.
\<close>

section \<open>Arithmetic of a fill\<close>

text \<open>Ten to the power of a whole number.\<close>

definition pow10 :: "jsnum \<Rightarrow> jsnum" where
  "pow10 n = (case n of
      Fin k \<Rightarrow> if k = of_int \<lfloor>k\<rfloor> then to_num (10 powi \<lfloor>k\<rfloor>) else NaN
    | _ \<Rightarrow> NaN)"

definition exec_amount :: "order \<Rightarrow> order \<Rightarrow> jsnum" where
  "exec_amount b s = js_min (to_number (o_quantity b)) (to_number (o_quantity s))"

text \<open>What is left of an order: computed on the scaled quantities, then cut to the pair's decimals.\<close>

definition left_over :: "order \<Rightarrow> jsnum \<Rightarrow> jsval" where
  "left_over o1 exec =
     (let scale = pow10 (to_number (o_first_digits o1));
          r = (to_number (o_quantity o1) * scale - exec * scale) / scale
      in toFixedDownBy (JNum ((r * Fin 100) / Fin 100)) (o_first_digits o1))"

definition plus_assign :: "jsval \<Rightarrow> jsnum \<Rightarrow> jsval" where
  "plus_assign v n = (case v of JStr s \<Rightarrow> JStr (s @ num_to_string n) | _ \<Rightarrow> JNum (to_number v + n))"

definition float_or_0 :: "jsval \<Rightarrow> jsnum" where
  "float_or_0 v = (if falsy v then Fin 0 else parse_float v)"

text \<open>Loose equality with zero: the empty string is zero, null and undefined are not.\<close>

definition is_zero :: "jsval \<Rightarrow> bool" where
  "is_zero v \<longleftrightarrow> v \<noteq> JNull \<and> to_number v = Fin 0"

definition apply_fill :: "jsval \<Rightarrow> jsnum \<Rightarrow> order \<Rightarrow> order" where
  "apply_fill avgPrice exec o1 =
     o1\<lparr>o_quantity := left_over o1 exec, o_filled := plus_assign (o_filled o1) exec,
        o_average := JNum (float_or_0 (o_average o1) + to_number avgPrice * exec)\<rparr>"

text \<open>The price of a fill: the maker's reference price where it has one.\<close>

definition maker_price :: "string \<Rightarrow> order \<Rightarrow> order \<Rightarrow> jsval" where
  "maker_price isMaker b s =
     (let makerOrder = (if isMaker = ''buy'' then b else s)
      in if o_ref_price makerOrder = JUndef \<or> o_ref_price makerOrder = JNull then o_price makerOrder else o_ref_price makerOrder)"

definition exec_value :: "string \<Rightarrow> order \<Rightarrow> order \<Rightarrow> jsnum \<Rightarrow> jsnum" where
  "exec_value isMaker b s exec =
     (if isMaker = ''buy'' then exec * to_number (o_price b) else exec * to_number (o_price s))"

section \<open>The buyer's side\<close>

text \<open>A taker that was filled below its limit gets the difference back.\<close>

definition refund_line :: "order \<Rightarrow> jsnum \<Rightarrow> rval option \<Rightarrow> jsval \<Rightarrow> string \<Rightarrow> passbook_line" where
  "refund_line o1 retrive after1 amt ty =
     \<lparr>pb_user = o_user o1, pb_coin = o_second o1, pb_currency = o_second_id o1, pb_table = o_id o1,
      pb_before = JNum (field_float after1 - retrive), pb_after = wallet_value after1, pb_amount = amt,
      pb_type = ty, pb_category = ''credit''\<rparr>"

definition improvement :: "bool \<Rightarrow> string \<Rightarrow> jsval \<Rightarrow> jsnum \<Rightarrow> order \<Rightarrow> jsnum option" where
  "improvement synthetic isMaker avgPrice exec b =
     (let filledOrderValue = to_number avgPrice * exec; realOrderValue = to_number (o_price b) * exec
      in if \<not> synthetic \<and> isMaker = ''sell'' \<and> realOrderValue > filledOrderValue
         then Some (realOrderValue - filledOrderValue) else None)"

definition refundImprovement ::
    "service \<Rightarrow> bool \<Rightarrow> string \<Rightarrow> jsval \<Rightarrow> jsnum \<Rightarrow> order \<Rightarrow> spot \<Rightarrow> spot" where
  "refundImprovement svc synthetic isMaker avgPrice exec b st =
     (case improvement synthetic isMaker avgPrice exec b of
        None \<Rightarrow> st
      | Some retriveBal \<Rightarrow>
          let (st1, rep) = moveBalanceSigned svc ''walletbalance_spot'' (o_user b, o_second_id b) (JNum retriveBal)
                ''price_improvement_refund'' [] st;
              buyRetrive = reply_value rep;
              amt = (if is_zero (o_quantity b) then toFixedDown (JNum retriveBal) 8 else JNum retriveBal)
          in sends [Passbook (refund_line b retriveBal buyRetrive amt ''spot_limit_bal_retrieve''),
               AssetPush (o_user b) (o_second_id b) (wallet_value buyRetrive)] st1)"

definition release1 :: "service \<Rightarrow> order \<Rightarrow> currency_id \<Rightarrow> jsval \<Rightarrow> bool \<Rightarrow> spot \<Rightarrow> spot \<times> order" where
  "release1 svc o1 c amt final st = (case releaseInOrder svc o1 c amt final st of (st', o2, _) \<Rightarrow> (st', o2))"

definition push_history :: "order \<Rightarrow> spot \<Rightarrow> spot" where
  "push_history o1 st = st\<lparr>orderHistArr := orderHistArr st @ [o1]\<rparr>"

text \<open>A completed order retires its reservation and leaves the book; a pending one is written back.\<close>

definition finish_order ::
    "service \<Rightarrow> string \<Rightarrow> bool \<Rightarrow> currency_id \<Rightarrow> string \<Rightarrow> jsval \<Rightarrow> order \<Rightarrow> spot \<Rightarrow> spot \<times> order" where
  "finish_order svc side synthetic c coin consumed o1 st =
     (let unspent = (if synthetic then Fin 0 else unspentReservationOf o1 consumed);
          (st1, o2) = release1 svc o1 c consumed True st;
          st2 = fst (refundUnspentReservation svc o2 c coin unspent st1);
          st3 = hset_history (o_user o2) (o_id o2) o2 st2;
          st4 = hdel_order (open_table side (o_pair o2)) (o_id o2) st3
      in (push_history o2 st4, o2))"

definition keep_order :: "service \<Rightarrow> string \<Rightarrow> currency_id \<Rightarrow> jsval \<Rightarrow> order \<Rightarrow> spot \<Rightarrow> spot \<times> order" where
  "keep_order svc side c consumed o1 st =
     (let (st1, o2) = release1 svc o1 c consumed False st;
          t = open_table side (o_pair o2);
          st2 = hset_order t (o_id o2) o2 (hdel_order t (o_id o2) (push_history o2 st1))
      in (st2, o2))"

definition settleBuy ::
    "service \<Rightarrow> bool \<Rightarrow> string \<Rightarrow> jsval \<Rightarrow> jsnum \<Rightarrow> order \<Rightarrow> spot \<Rightarrow> spot \<times> order" where
  "settleBuy svc synthetic isMaker avgPrice exec b st =
     (let consumed = JNum (to_number (o_price b) * exec);
          st1 = refundImprovement svc synthetic isMaker avgPrice exec b st
      in if is_zero (o_quantity b)
         then finish_order svc ''buy'' synthetic (o_second_id b) (o_second b) consumed (b\<lparr>o_status := ''completed''\<rparr>) st1
         else keep_order svc ''buy'' (o_second_id b) consumed (b\<lparr>o_status := ''pending''\<rparr>) st1)"

definition settleSell :: "service \<Rightarrow> bool \<Rightarrow> jsnum \<Rightarrow> order \<Rightarrow> spot \<Rightarrow> spot \<times> order" where
  "settleSell svc synthetic exec s st =
     (if is_zero (o_quantity s)
      then finish_order svc ''sell'' synthetic (o_first_id s) (o_first s) (JNum exec) (s\<lparr>o_status := ''completed''\<rparr>) st
      else keep_order svc ''sell'' (o_first_id s) (JNum exec) (s\<lparr>o_status := ''pending''\<rparr>) st)"

section \<open>Both sides\<close>

definition match_line :: "order \<Rightarrow> string \<Rightarrow> currency_id \<Rightarrow> jsnum \<Rightarrow> jsnum \<Rightarrow> jsval \<Rightarrow> string \<Rightarrow> passbook_line" where
  "match_line o1 coin c wallet amt shown ty =
     \<lparr>pb_user = o_user o1, pb_coin = coin, pb_currency = c, pb_table = o_id o1, pb_before = JNum wallet,
      pb_after = JNum (wallet + amt), pb_amount = shown, pb_type = ty, pb_category = ''credit''\<rparr>"

definition credited :: "rval option \<Rightarrow> jsval" where
  "credited v = wallet_value v"

definition draw_unique :: "spot \<Rightarrow> spot \<times> nat" where
  "draw_unique st = (st\<lparr>draws := draws st + 1\<rparr>, draws st)"

text \<open>The messages of a fill, and the credits to the two accounts.\<close>

definition settle_credits ::
    "service \<Rightarrow> pair \<Rightarrow> bool \<Rightarrow> bool \<Rightarrow> jsnum \<Rightarrow> jsnum \<Rightarrow> order \<Rightarrow> order \<Rightarrow> spot \<Rightarrow> spot" where
  "settle_credits svc p buyerSynthetic sellerSynthetic exec execvalue b s st =
     (let (st1, buyerBalance) = settlementCredit svc b (o_first_id b) (JNum exec) buyerSynthetic st;
          (st2, sellerBalance) = settlementCredit svc s (o_second_id s) (JNum execvalue) sellerSynthetic st1
      in sends [AssetPush (o_user b) (o_first_id b) (credited buyerBalance),
           AssetPush (o_user s) (o_second_id s) (credited sellerBalance)] st2)"

definition fill_messages ::
    "pair \<Rightarrow> bool \<Rightarrow> bool \<Rightarrow> jsnum \<Rightarrow> jsnum \<Rightarrow> jsnum \<Rightarrow> jsnum \<Rightarrow> jsval \<Rightarrow> order \<Rightarrow> order \<Rightarrow> effect list" where
  "fill_messages p buyerSynthetic sellerSynthetic buyerWallet sellerWallet exec execvalue avgPrice b s =
     (if p_botstatus p \<noteq> ''binance''
      then [BookChange (o_side b) (o_pair b) (o_price b) (JNum exec) (o_first_digits b),
            BookChange (o_side s) (o_pair s) (o_price s) (JNum exec) (o_first_digits s)] else []) @
     (if buyerSynthetic then []
      else [Passbook (match_line b (o_first b) (o_first_id b) buyerWallet exec (toFixedDown (JNum exec) 8) ''spot_limit_match'')]) @
     (if sellerSynthetic then []
      else [Passbook (match_line s (o_second s) (o_second_id s) sellerWallet execvalue (toFixedDown (JNum execvalue) 8) ''spot_limit_match'')]) @
     [ChartPrice (p_id p) avgPrice]"

definition push_trade :: "fill \<Rightarrow> spot \<Rightarrow> spot" where
  "push_trade f st = st\<lparr>tradeHistArr := tradeHistArr st @ [f]\<rparr>"

text \<open>
  The whole fill of two limit orders at the heads of the lists: the new state and the two orders
  as they are afterwards.
\<close>

definition limitFill ::
    "env \<Rightarrow> pair \<Rightarrow> user_id option \<Rightarrow> nat \<Rightarrow> order \<Rightarrow> order \<Rightarrow> spot \<Rightarrow> spot \<times> order \<times> order" where
  "limitFill e p adminLiqId uniqueId b s st =
     (let svc = server e;
          isMaker = makerSideOf b s adminLiqId;
          buyerSynthetic = isSyntheticOrder b adminLiqId; sellerSynthetic = isSyntheticOrder s adminLiqId;
          exec = exec_amount b s; execvalue = exec_value isMaker b s exec; avgPrice = maker_price isMaker b s;
          buyerWallet = readSpotBalanceNumber (o_user b) (o_first_id b) st;
          sellerWallet = readSpotBalanceNumber (o_user s) (o_second_id s) st;
          (st1, b1) = settleBuy svc buyerSynthetic isMaker avgPrice exec (apply_fill avgPrice exec b) st;
          (st2, s1) = settleSell svc sellerSynthetic exec (apply_fill avgPrice exec s) st1;
          st3 = push_trade \<lparr>f_buy = b1, f_sell = s1, f_unique = uniqueId, f_price = avgPrice, f_maker = isMaker,
             f_quantity = JNum exec, f_type = ''Limit''\<rparr> (sends (fill_messages p buyerSynthetic sellerSynthetic
             buyerWallet sellerWallet exec execvalue avgPrice b1 s1) st2)
      in (settle_credits svc p buyerSynthetic sellerSynthetic exec execvalue b1 s1 st3, b1, s1))"

end
