(* ===== verification/MarketMatching.thy ===== *)
theory MarketMatching
  imports Settlement
begin

text \<open>
  One fill in which a market order takes part (\<^verbatim>\<open>marketMatching\<close> of \<^verbatim>\<open>controllers/spot.controller.js\<close>). The
  matcher has stamped the market order with the price and quantity it is about to trade, and passes
  its two lists along: a completed order is shifted off the head of its list, and whether another
  counterparty is left decides what becomes of a market order that is not yet filled. An error inside
  is caught and ends the call; since the store either answers a whole call or none of it, nothing
  has happened then. The answer is the lists and the two orders as they are afterwards.
\<close>

record book =
  b_store :: spot
  b_buys :: "order list"
  b_sells :: "order list"

text \<open>The lists hold references: a changed order is seen changed wherever it is listed.\<close>

definition refresh_order :: "order \<Rightarrow> order list \<Rightarrow> order list" where
  "refresh_order o1 os = map (\<lambda>o2. if o_id o2 = o_id o1 then o1 else o2) os"

definition rewrite_row :: "string \<Rightarrow> order \<Rightarrow> spot \<Rightarrow> spot" where
  "rewrite_row side o1 st =
     (let t = open_table side (o_pair o1) in hset_order t (o_id o1) o1 (hdel_order t (o_id o1) st))"

section \<open>The buyer\<close>

definition retrieve_line :: "order \<Rightarrow> string \<Rightarrow> currency_id \<Rightarrow> jsnum \<Rightarrow> rval option \<Rightarrow> bool \<Rightarrow> string \<Rightarrow> passbook_line" where
  "retrieve_line o1 coin c retrive after1 short ty =
     \<lparr>pb_user = o_user o1, pb_coin = coin, pb_currency = c, pb_table = o_id o1,
      pb_before = (if short then toFixedDown (JNum (field_float after1 - retrive)) 8 else JNum (field_float after1 - retrive)),
      pb_after = (if short then toFixedDown (wallet_value after1) 8 else wallet_value after1), pb_amount = JNum retrive,
      pb_type = ty, pb_category = ''credit''\<rparr>"

definition unspentBudget :: "order \<Rightarrow> jsnum" where
  "unspentBudget b = parse_float (o_open_value b) - parse_float (o_average b)"

text \<open>A filled order retires; what the budget of a market buy has left goes back.\<close>

definition marketBuyDone :: "service \<Rightarrow> bool \<Rightarrow> jsnum \<Rightarrow> order \<Rightarrow> spot \<Rightarrow> spot \<times> order" where
  "marketBuyDone svc synthetic exec b0 st =
     (let b = b0\<lparr>o_status := ''completed''\<rparr>; consumed = JNum (to_number (o_price b) * exec);
          unspent = (if synthetic then Fin 0 else unspentReservationOf b consumed);
          (st1, b1) = release1 svc b (o_second_id b) consumed True st;
          st2 = fst (refundUnspentReservation svc b1 (o_second_id b1) (o_second b1) unspent st1);
          retriveBal = unspentBudget b1;
          st3 = (if retriveBal > Fin 0 \<and> \<not> synthetic \<and> o_liquidity b1 = ''off'' \<and> \<not> o_is_liquidity b1
             then let (st', rep) = moveBalanceSigned svc ''walletbalance_spot'' (o_user b1, o_second_id b1) (JNum retriveBal)
                        ''price_improvement_refund'' [] st2;
                      buyRetrive = reply_value rep
                  in sends [Passbook (retrieve_line b1 (o_second b1) (o_second_id b1) retriveBal buyRetrive True ''spot_market_bal_retrieve_buy''),
                       AssetPush (o_user b1) (o_second_id b1) (wallet_value buyRetrive)] st'
             else st2);
          st4 = hdel_order (open_table ''buy'' (o_pair b1)) (o_id b1) (hset_history (o_user b1) (o_id b1) b1 st3)
      in (send (SaveHistory b1) st4, b1))"

text \<open>
  A market buy that is not filled keeps the rest of its budget; when no other sell order is left it
  is closed and the rest refunded, otherwise it becomes a market order again.
\<close>

definition marketBuyRest :: "service \<Rightarrow> bool \<Rightarrow> bool \<Rightarrow> order \<Rightarrow> spot \<Rightarrow> spot \<times> order" where
  "marketBuyRest svc synthetic alone b0 st =
     (let retriveBal = unspentBudget b0;
          b = b0\<lparr>o_value := JNum retriveBal, o_quantity := JNum (Fin 0)\<rparr>
      in if retriveBal > Fin 0 \<and> alone
         then if \<not> synthetic \<and> o_liquidity b = ''off'' \<and> \<not> o_is_liquidity b
           then let b1 = b\<lparr>o_status := ''completed''\<rparr>;
                    st1 = hset_history (o_user b1) (o_id b1) b1 st;
                    (st2, rep) = moveBalanceSigned svc ''walletbalance_spot'' (o_user b1, o_second_id b1) (JNum retriveBal)
                       ''price_improvement_refund'' [] st1;
                    buyRetrive = reply_value rep;
                    st3 = hdel_order (open_table ''buy'' (o_pair b1)) (o_id b1) st2
                in (sends [Passbook (retrieve_line b1 (o_second b1) (o_second_id b1) retriveBal buyRetrive False ''spot_market_bal_retrieve_buy''),
                      SaveHistory b1, AssetPush (o_user b1) (o_second_id b1) (wallet_value buyRetrive)] st3, b1)
           else (st, b)
         else let b1 = b\<lparr>o_price := JStr ''market'', o_status := ''pending''\<rparr>
           in (send (SaveHistory b1) (rewrite_row ''buy'' b1 st), b1))"

definition limitRest :: "service \<Rightarrow> string \<Rightarrow> currency_id \<Rightarrow> jsval \<Rightarrow> order \<Rightarrow> spot \<Rightarrow> spot \<times> order" where
  "limitRest svc side c consumed o0 st =
     (let (st1, o1) = release1 svc (o0\<lparr>o_status := ''pending''\<rparr>) c consumed False st
      in (send (SaveHistory o1) (rewrite_row side o1 st1), o1))"

definition marketBuy ::
    "service \<Rightarrow> bool \<Rightarrow> bool \<Rightarrow> jsnum \<Rightarrow> order \<Rightarrow> spot \<Rightarrow> spot \<times> order \<times> bool" where
  "marketBuy svc synthetic alone exec b st =
     (if is_zero (o_quantity b) then case marketBuyDone svc synthetic exec b st of (st', b') \<Rightarrow> (st', b', True)
      else if o_flag b then case marketBuyRest svc synthetic alone b st of (st', b') \<Rightarrow> (st', b', False)
      else case limitRest svc ''buy'' (o_second_id b) (JNum (to_number (o_price b) * exec)) b st of
        (st', b') \<Rightarrow> (st', b', False))"

section \<open>The seller\<close>

definition marketSellDone :: "service \<Rightarrow> bool \<Rightarrow> jsnum \<Rightarrow> order \<Rightarrow> spot \<Rightarrow> spot \<times> order" where
  "marketSellDone svc synthetic exec s0 st =
     (let s = s0\<lparr>o_status := ''completed''\<rparr>;
          unspent = (if synthetic then Fin 0 else unspentReservationOf s (JNum exec));
          (st1, s1) = release1 svc s (o_first_id s) (JNum exec) True st;
          st2 = fst (refundUnspentReservation svc s1 (o_first_id s1) (o_first s1) unspent st1);
          st3 = hdel_order (open_table ''sell'' (o_pair s1)) (o_id s1) (hset_history (o_user s1) (o_id s1) s1 st2)
      in (send (SaveHistory s1) st3, s1))"

definition marketSellRest :: "service \<Rightarrow> bool \<Rightarrow> bool \<Rightarrow> jsnum \<Rightarrow> order \<Rightarrow> spot \<Rightarrow> spot \<times> order \<times> bool" where
  "marketSellRest svc synthetic alone retriveBal s0 st =
     (let s = s0\<lparr>o_price := JStr ''market'', o_amount := o_quantity s0\<rparr>
      in if retriveBal > Fin 0 \<and> alone
         then if \<not> synthetic \<and> o_liquidity s = ''off''
           then let s1 = s\<lparr>o_status := ''completed''\<rparr>;
                    st1 = hset_history (o_user s1) (o_id s1) s1 st;
                    (st2, rep) = moveBalanceSigned svc ''walletbalance_spot'' (o_user s1, o_first_id s1) (JNum retriveBal)
                       ''price_improvement_refund'' [] st1;
                    sellRetrive = reply_value rep;
                    st3 = hdel_order (open_table ''sell'' (o_pair s1)) (o_id s1) st2
                in (sends [Passbook (retrieve_line s1 (o_first s1) (o_first_id s1) retriveBal sellRetrive False ''spot_market_bal_retrieve_sell''),
                      SaveHistory s1, AssetPush (o_user s1) (o_first_id s1) (wallet_value sellRetrive)] st3, s1, False)
           else (st, s, False)
         else (send (SaveHistory s) (rewrite_row ''sell'' s st), s, True))"

text \<open>The answer's flags: the order is filled; the buyer was marked completed by this branch.\<close>

definition marketSell ::
    "service \<Rightarrow> bool \<Rightarrow> bool \<Rightarrow> jsnum \<Rightarrow> jsnum \<Rightarrow> order \<Rightarrow> spot \<Rightarrow> spot \<times> order \<times> bool \<times> bool" where
  "marketSell svc synthetic alone exec sellamount s st =
     (if is_zero (o_quantity s) then case marketSellDone svc synthetic exec s st of (st', s') \<Rightarrow> (st', s', True, False)
      else if o_flag s then case marketSellRest svc synthetic alone (sellamount - exec) s st of
        (st', s', marks) \<Rightarrow> (st', s', False, marks)
      else case limitRest svc ''sell'' (o_first_id s) (JNum exec) s st of (st', s') \<Rightarrow> (st', s', False, False))"

section \<open>The fill\<close>

definition market_messages ::
    "pair \<Rightarrow> bool \<Rightarrow> bool \<Rightarrow> jsnum \<Rightarrow> jsnum \<Rightarrow> jsnum \<Rightarrow> jsnum \<Rightarrow> fill \<Rightarrow> effect list" where
  "market_messages p buyerSynthetic sellerSynthetic buyerWallet sellerWallet exec execvalue f =
     (let b = f_buy f; s = f_sell f in
      (if o_flag s \<and> p_botstatus p \<noteq> ''binance''
       then [BookChange (o_side b) (o_pair b) (o_price b) (JNum exec) (p_first_digits p)] else []) @
      (if buyerSynthetic then []
       else [Passbook (match_line b (o_first b) (o_first_id b) buyerWallet exec (JNum exec) ''spot_market_match'')]) @
      (if o_flag b \<and> p_botstatus p \<noteq> ''binance''
       then [BookChange (o_side s) (o_pair s) (o_price s) (JNum exec) (p_first_digits p)] else []) @
      (if sellerSynthetic then []
       else [Passbook (match_line s (o_second s) (o_second_id s) sellerWallet execvalue (JNum execvalue) ''spot_market_match'')]) @
      [NewTrade f, ChartPrice (p_id p) (f_price f)])"

definition shift_if :: "bool \<Rightarrow> 'a list \<Rightarrow> 'a list" where
  "shift_if gone xs = (if gone then tl xs else xs)"

definition only_counterparty :: "order list \<Rightarrow> order \<Rightarrow> bool" where
  "only_counterparty os o1 \<longleftrightarrow> (\<forall>o2 \<in> set os. o_id o2 = o_id o1)"

definition marketFill :: "env \<Rightarrow> pair \<Rightarrow> user_id option \<Rightarrow> order \<Rightarrow> order \<Rightarrow> book \<Rightarrow> book \<times> order \<times> order" where
  "marketFill e p adminLiqId b0 s0 bk =
     (let svc = server e; st0 = b_store bk; (st, uniqueId) = draw_unique st0;
          isMaker = makerSideOf b0 s0 adminLiqId;
          buyerSynthetic = isSyntheticOrder b0 adminLiqId; sellerSynthetic = isSyntheticOrder s0 adminLiqId;
          sellamount = to_number (o_quantity s0);
          buyerWallet = readSpotBalanceNumber (o_user b0) (o_first_id b0) st;
          sellerWallet = readSpotBalanceNumber (o_user s0) (o_second_id s0) st;
          exec = exec_amount b0 s0
      in if \<not> exec > Fin 0 then (bk\<lparr>b_store := st\<rparr>, b0, s0)
         else let execvalue = exec_value isMaker b0 s0 exec;
                  avgPrice = (if isMaker = ''buy'' then o_price b0 else o_price s0);
                  b1 = apply_fill avgPrice exec b0; s1 = apply_fill avgPrice exec s0;
                  (st1, b2, bought) = marketBuy svc buyerSynthetic (only_counterparty (b_sells bk) s0) exec b1 st;
                  buys = shift_if bought (refresh_order b2 (b_buys bk));
                  (st2, s2, sold, marks) = marketSell svc sellerSynthetic (only_counterparty buys s0) exec sellamount s1 st1;
                  b3 = (if marks then b2\<lparr>o_status := ''completed''\<rparr> else b2);
                  f = \<lparr>f_buy = b3, f_sell = s2, f_unique = uniqueId, f_price = avgPrice, f_maker = isMaker,
                       f_quantity = JNum exec, f_type = ''Market''\<rparr>;
                  st3 = sends (market_messages p buyerSynthetic sellerSynthetic buyerWallet sellerWallet exec execvalue f) st2
              in (\<lparr>b_store = settle_credits svc p buyerSynthetic sellerSynthetic exec execvalue b3 s2 st3,
                   b_buys = refresh_order b3 buys, b_sells = shift_if sold (refresh_order s2 (b_sells bk))\<rparr>, b3, s2))"

definition marketMatching :: "env \<Rightarrow> pair \<Rightarrow> order \<Rightarrow> order \<Rightarrow> book \<Rightarrow> book \<times> order \<times> order" where
  "marketMatching e p b s bk =
     (if o_liquidity b \<noteq> ''off'' \<or> o_liquidity s \<noteq> ''off'' then (bk, b, s)
      else case house_account (b_store bk) of
        Done adminLiqId \<Rightarrow> marketFill e p adminLiqId b s bk
      | _ \<Rightarrow> (bk, b, s))"

end
