(* ===== verification/Matching.thy ===== *)
theory Matching
  imports MarketMatching
begin

text \<open>
  The matcher (\<^verbatim>\<open>matchingcall\<close>, \<^verbatim>\<open>liqOrdCreation\<close> and \<^verbatim>\<open>tradeMatching\<close> of
  \<^verbatim>\<open>controllers/spot.controller.js\<close>). A pass loads the two open-order tables of one pair, on a pair
  without a bot lets the house mirror the first order that reaches the mark, sorts the two sides by
  price and then turns a loop that fills, drops or cancels at the heads of the lists. Nothing bounds
  that loop, so it is given fuel and running out of it is an answer of its own; the theorems say
  which books are finished within which fuel, and which are never finished.
\<close>

section \<open>Sorting\<close>

text \<open>
  The first sort subtracts dates. In the store a date is the text of a timestamp, and subtracting
  texts that are no numerals gives NaN.
\<close>

definition date_text_number :: "order \<Rightarrow> jsnum" where
  "date_text_number o1 = NaN"

definition by_date :: "order list \<Rightarrow> order list" where
  "by_date os = sort_before (\<lambda>a b. date_text_number a - date_text_number b < Fin 0) os"

definition is_market :: "order \<Rightarrow> bool" where
  "is_market o1 \<longleftrightarrow> o_price o1 = JStr ''market''"

definition buy_before :: "order \<Rightarrow> order \<Rightarrow> bool" where
  "buy_before a b \<longleftrightarrow> is_market a \<or> to_number (o_price b) - to_number (o_price a) < Fin 0"

definition sell_before :: "order \<Rightarrow> order \<Rightarrow> bool" where
  "sell_before a b \<longleftrightarrow> is_market a \<or> to_number (o_price a) - to_number (o_price b) < Fin 0"

section \<open>The orders of the house\<close>

text \<open>
  On a pair without a bot an order at or through the mark is mirrored: the house places the same
  order on the other side, at the reference price of a limit order. Without a house account
  nothing is placed, and the house's own orders are not mirrored.
\<close>

definition mirrorOrder :: "env \<Rightarrow> user_id \<Rightarrow> string \<Rightarrow> order \<Rightarrow> spot \<Rightarrow> order" where
  "mirrorOrder e adminLiq side data st =
     data\<lparr>o_id := draw_id e (draws st), o_code := sequence_id e (draws st), o_side := side,
       o_price := (if o_type data = ''limit'' \<and> o_ref_price data \<noteq> JUndef \<and> o_ref_price data \<noteq> JNull
         then o_ref_price data else o_price data),
       o_flag := False, o_date := Some (clock st), o_user := adminLiq\<rparr>"

definition liqOrdCreation :: "env \<Rightarrow> order \<Rightarrow> string \<Rightarrow> spot \<Rightarrow> spot" where
  "liqOrdCreation e data side st = (case house_account st of
      Done (Some adminLiq) \<Rightarrow>
        if o_user data = adminLiq then st
        else let newOpenOrder = mirrorOrder e adminLiq side data st
             in send (SaveHistory newOpenOrder)
                  (hset_order (open_table side (o_pair newOpenOrder)) (o_id newOpenOrder) newOpenOrder (take_id st))
    | _ \<Rightarrow> st)"

definition reread :: "string \<Rightarrow> pair_id \<Rightarrow> order list option \<Rightarrow> spot \<Rightarrow> order list option" where
  "reread side pid os st = (case hgetall_orders (open_table side pid) st of
      Some os' \<Rightarrow> Some (by_date os') | None \<Rightarrow> os)"

definition mirror_first :: "env \<Rightarrow> (order \<Rightarrow> bool) \<Rightarrow> string \<Rightarrow> order list \<Rightarrow> spot \<Rightarrow> spot" where
  "mirror_first e reaches side os st = (case find (\<lambda>o1. \<not> is_market o1 \<and> reaches o1 \<and> \<not> o_is_maker o1) os of
      Some o1 \<Rightarrow> liqOrdCreation e o1 side st | None \<Rightarrow> st)"

definition house_liquidity ::
    "env \<Rightarrow> pair \<Rightarrow> order list option \<Rightarrow> order list option \<Rightarrow> spot \<Rightarrow> spot \<times> order list option \<times> order list option" where
  "house_liquidity e p bOrders sOrders st =
     (if p_botstatus p \<noteq> ''off'' then (st, bOrders, sOrders)
      else let (st1, buys) = (case sOrders of
                 None \<Rightarrow> (st, bOrders)
               | Some ss \<Rightarrow> let st' = mirror_first e (\<lambda>o1. js_less_eq (o_price o1) (p_mark p)) ''buy'' ss st
                             in (st', reread ''buy'' (p_id p) bOrders st'));
               (st2, sells) = (case buys of
                 None \<Rightarrow> (st1, sOrders)
               | Some bs \<Rightarrow> let st' = mirror_first e (\<lambda>o1. js_less_eq (p_mark p) (o_price o1)) ''sell'' bs st1
                             in (st', reread ''sell'' (p_id p) sOrders st'))
           in (st2, buys, sells))"

section \<open>One turn of the loop\<close>

datatype 'a turn = Continue 'a | Break 'a | Abort 'a

definition first_limit :: "order list \<Rightarrow> order option" where
  "first_limit os = find (\<lambda>o1. \<not> is_market o1) os"

text \<open>Removing by index; minus one, the index of nothing found, removes the last element.\<close>

definition splice_first :: "(order \<Rightarrow> bool) \<Rightarrow> order list \<Rightarrow> order list" where
  "splice_first P os = (case find P os of None \<Rightarrow> butlast os | Some o1 \<Rightarrow> takeWhile (\<lambda>o2. \<not> P o2) os @ tl (dropWhile (\<lambda>o2. \<not> P o2) os))"

definition both_off :: "order \<Rightarrow> order \<Rightarrow> bool" where
  "both_off b s \<longleftrightarrow> o_liquidity b = ''off'' \<and> o_liquidity s = ''off''"

definition with_store :: "(spot \<Rightarrow> spot) \<Rightarrow> book \<Rightarrow> book" where
  "with_store f bk = bk\<lparr>b_store := f (b_store bk)\<rparr>"

definition cancel_buy :: "order \<Rightarrow> effect" where
  "cancel_buy o1 = CancelMarket (open_table ''buy'' (o_pair o1)) (o_id o1)"

definition cancel_sell :: "order \<Rightarrow> effect" where
  "cancel_sell o1 = CancelMarket (open_table ''sell'' (o_pair o1)) (o_id o1)"

definition stamp_buy :: "order \<Rightarrow> book \<Rightarrow> book" where
  "stamp_buy o1 bk = bk\<lparr>b_buys := refresh_order o1 (b_buys bk)\<rparr>"

definition stamp_sell :: "order \<Rightarrow> book \<Rightarrow> book" where
  "stamp_sell o1 bk = bk\<lparr>b_sells := refresh_order o1 (b_sells bk)\<rparr>"

text \<open>
  Two market orders: each is matched with the first limit order of the other side, if there is one.
  The answer carries the lists and the two heads as they are afterwards; None continues the loop.
\<close>

definition market_meets_market ::
    "env \<Rightarrow> pair \<Rightarrow> order \<Rightarrow> order \<Rightarrow> book \<Rightarrow> book + (book \<times> order \<times> order)" where
  "market_meets_market e p b s bk =
     (let bl = first_limit (b_buys bk); sl = first_limit (b_sells bk) in
      if map_option o_user sl = Some (o_user b)
      then Inl (bk\<lparr>b_buys := tl (b_buys bk), b_sells := splice_first (\<lambda>o1. \<not> is_market o1) (b_sells bk)\<rparr>)
      else if map_option o_user bl = Some (o_user s)
      then Inl (bk\<lparr>b_buys := splice_first (\<lambda>o1. \<not> is_market o1) (b_buys bk), b_sells := tl (b_sells bk)\<rparr>)
      else let (bk1, b1) = (case sl of
                 None \<Rightarrow> (bk, b)
               | Some l \<Rightarrow>
                   let b' = b\<lparr>o_price := o_price l,
                         o_quantity := toFixedDownBy (JNum (to_number (o_value b) / to_number (o_price l))) (p_first_digits p)\<rparr>
                   in (case marketMatching e p b' l (stamp_buy b' bk) of (bk', b'', _) \<Rightarrow> (bk', b'')));
               (bk2, s1) = (case bl of
                 None \<Rightarrow> (bk1, s)
               | Some l \<Rightarrow>
                   let s' = s\<lparr>o_price := o_price l, o_quantity := o_amount s\<rparr>
                   in (case marketMatching e p l s' (stamp_sell s' bk1) of (bk', _, s'') \<Rightarrow> (bk', s'')))
           in Inr (bk2, b1, s1))"

definition someone_else :: "order \<Rightarrow> order \<Rightarrow> bool" where
  "someone_else o1 o2 \<longleftrightarrow> \<not> is_market o2 \<and> o_user o2 \<noteq> o_user o1"

definition market_buy_meets_limit ::
    "env \<Rightarrow> pair \<Rightarrow> order \<Rightarrow> order \<Rightarrow> book \<Rightarrow> book + (book \<times> order \<times> order)" where
  "market_buy_meets_limit e p b s bk =
     (if o_user b = o_user s
      then if find (someone_else b) (b_sells bk) \<noteq> None then Inl (bk\<lparr>b_sells := tl (b_sells bk)\<rparr>)
           else Inl \<lparr>b_store = send (CancelMarket (open_table ''buy'' (o_pair s)) (o_id b)) (b_store bk),
                     b_buys = tl (b_buys bk), b_sells = butlast (b_sells bk)\<rparr>
      else let exec = to_number (o_value b) / to_number (o_price s) in
        if \<not> exec > Fin 0
        then Inl (with_store (send (cancel_buy b)) (bk\<lparr>b_buys := tl (b_buys bk)\<rparr>))
        else let b' = b\<lparr>o_price := o_price s, o_quantity := JNum (parse_float (JNum exec))\<rparr>
             in Inr (marketMatching e p b' s (stamp_buy b' bk)))"

definition limit_meets_market_sell ::
    "env \<Rightarrow> pair \<Rightarrow> order \<Rightarrow> order \<Rightarrow> book \<Rightarrow> book + (book \<times> order \<times> order)" where
  "limit_meets_market_sell e p b s bk =
     (if o_user b = o_user s
      then if find (someone_else b) (b_buys bk) \<noteq> None then Inl (bk\<lparr>b_buys := tl (b_buys bk)\<rparr>)
           else Inl \<lparr>b_store = send (cancel_sell s) (b_store bk),
                     b_buys = butlast (b_buys bk), b_sells = tl (b_sells bk)\<rparr>
      else let s' = s\<lparr>o_price := o_price b, o_quantity := JNum (parse_float (o_amount s))\<rparr>
           in Inr (marketMatching e p b s' (stamp_sell s' bk)))"

definition market_turn :: "env \<Rightarrow> pair \<Rightarrow> order \<Rightarrow> order \<Rightarrow> book \<Rightarrow> book + (book \<times> order \<times> order)" where
  "market_turn e p b s bk =
     (if \<not> both_off b s then Inr (bk, b, s)
      else if is_market b \<and> is_market s then market_meets_market e p b s bk
      else if is_market b then market_buy_meets_limit e p b s bk
      else if is_market s then limit_meets_market_sell e p b s bk
      else Inr (bk, b, s))"

text \<open>
  Two limit orders that cross are filled once and the loop ends; it also ends when they do not
  cross. Of two orders of one user the longer list loses its head.
\<close>

definition limit_turn :: "env \<Rightarrow> pair \<Rightarrow> nat \<Rightarrow> order \<Rightarrow> order \<Rightarrow> book \<Rightarrow> book turn" where
  "limit_turn e p uniqueId b s bk =
     (if o_flag b \<or> o_flag s \<or> \<not> both_off b s then Continue bk
      else if \<not> js_less_eq (o_price s) (o_price b) then Break bk
      else case house_account (b_store bk) of
        Done adminLiqId \<Rightarrow>
          if o_user b = o_user s
          then Continue (if length (b_sells bk) < length (b_buys bk) then bk\<lparr>b_buys := tl (b_buys bk)\<rparr>
                         else bk\<lparr>b_sells := tl (b_sells bk)\<rparr>)
          else (case limitFill e p adminLiqId uniqueId b s (b_store bk) of
            (st, b', s') \<Rightarrow> Break \<lparr>b_store = st, b_buys = refresh_order b' (b_buys bk), b_sells = refresh_order s' (b_sells bk)\<rparr>)
      | _ \<Rightarrow> Abort bk)"

definition match_turn :: "env \<Rightarrow> pair \<Rightarrow> order \<Rightarrow> order \<Rightarrow> book \<Rightarrow> book turn" where
  "match_turn e p b s bk0 =
     (let (st, uniqueId) = draw_unique (b_store bk0) in
      case market_turn e p b s (bk0\<lparr>b_store := st\<rparr>) of
        Inl bk \<Rightarrow> Continue bk
      | Inr (bk, b1, s1) \<Rightarrow> limit_turn e p uniqueId b1 s1 bk)"

section \<open>The loop\<close>

text \<open>The answer: the book, and whether the loop ended without an error; None when the fuel ran out.\<close>

fun match_loop :: "nat \<Rightarrow> env \<Rightarrow> pair \<Rightarrow> book \<Rightarrow> (book \<times> bool) option" where
  "match_loop fuel e p bk = (case (b_buys bk, b_sells bk) of
      (b # _, s # _) \<Rightarrow> (case fuel of
          0 \<Rightarrow> None
        | Suc n \<Rightarrow> (case match_turn e p b s bk of
            Continue bk' \<Rightarrow> match_loop n e p bk'
          | Break bk' \<Rightarrow> Some (bk', True)
          | Abort bk' \<Rightarrow> Some (bk', False)))
    | _ \<Rightarrow> Some (bk, True))"

declare match_loop.simps [simp del]

section \<open>A pass over a pair\<close>

definition stranded :: "(order \<Rightarrow> bool) \<Rightarrow> (order \<Rightarrow> effect) \<Rightarrow> order list \<Rightarrow> effect list" where
  "stranded spared cancel os = map cancel (filter (\<lambda>o1. is_market o1 \<and> o_liquidity o1 = ''off'' \<and> \<not> spared o1) os)"

definition flush_histories :: "spot \<Rightarrow> spot" where
  "flush_histories st =
     (sends (map SaveHistory (orderHistArr st) @ map NewTrade (tradeHistArr st)) st)\<lparr>orderHistArr := [], tradeHistArr := []\<rparr>"

definition free_pair :: "pair \<Rightarrow> spot \<Rightarrow> spot" where
  "free_pair p st = (if tradePair st = p_id p then st\<lparr>tradePair := []\<rparr> else st)"

definition end_match :: "pair \<Rightarrow> book \<Rightarrow> spot" where
  "end_match p bk =
     free_pair p (sends ((if b_buys bk = [] then stranded o_is_liquidity cancel_sell (b_sells bk) else []) @
       (if b_sells bk = [] then stranded o_is_liquidity cancel_buy (b_buys bk) else []))
       (flush_histories ((b_store bk)\<lparr>isRun := False\<rparr>)))"

definition top_cross :: "order list \<Rightarrow> order list \<Rightarrow> bool" where
  "top_cross bs ss \<longleftrightarrow> (bs \<noteq> [] \<and> is_market (hd bs)) \<or> (ss \<noteq> [] \<and> is_market (hd ss)) \<or>
     (bs \<noteq> [] \<and> ss \<noteq> [] \<and> (case (o_price (hd bs), o_price (hd ss)) of (JNum x, JNum y) \<Rightarrow> y \<le> x | _ \<Rightarrow> False))"

definition tradeMatching ::
    "nat \<Rightarrow> env \<Rightarrow> pair \<Rightarrow> order list option \<Rightarrow> order list option \<Rightarrow> spot \<Rightarrow> spot option" where
  "tradeMatching fuel e p bOrders sOrders st0 =
     (case house_liquidity e p bOrders sOrders (st0\<lparr>isRun := True\<rparr>) of
        (st, None, None) \<Rightarrow> Some (st\<lparr>isRun := False\<rparr>)
      | (st, None, Some ss) \<Rightarrow> Some ((sends (stranded (\<lambda>_. False) cancel_sell ss) st)\<lparr>isRun := False\<rparr>)
      | (st, Some bs, None) \<Rightarrow> Some ((sends (stranded (\<lambda>_. False) cancel_buy bs) st)\<lparr>isRun := False\<rparr>)
      | (st, Some bs, Some ss) \<Rightarrow>
          (let buys = sort_before buy_before bs; sells = sort_before sell_before ss;
               st1 = (if buys \<noteq> [] \<and> sells \<noteq> [] \<and> top_cross buys sells then st\<lparr>tradePair := p_id p\<rparr> else st)
           in case match_loop fuel e p \<lparr>b_store = st1, b_buys = buys, b_sells = sells\<rparr> of
                None \<Rightarrow> None
              | Some (bk, True) \<Rightarrow> Some (end_match p bk)
              | Some (bk, False) \<Rightarrow> Some (free_pair p ((b_store bk)\<lparr>isRun := False\<rparr>))))"

text \<open>
  A pass: the pair is locked, its document fetched, its ladder refreshed, the tables loaded. The
  answer to a pair that cannot be found, and to an unreachable store, is that nothing happens.
\<close>

definition load_side :: "string \<Rightarrow> pair_id \<Rightarrow> spot \<Rightarrow> order list option" where
  "load_side side pid st = map_option by_date (hgetall_orders (open_table side pid) st)"

definition unlock :: "pair_id \<Rightarrow> spot \<Rightarrow> spot" where
  "unlock pairId st =
     (let st1 = st\<lparr>pairLocks := removeAll pairId (pairLocks st)\<rparr>
      in if tradePair st1 = pairId then st1\<lparr>tradePair := []\<rparr> else st1)"

definition matchLocked :: "nat \<Rightarrow> env \<Rightarrow> pair_id \<Rightarrow> venue \<Rightarrow> venue option" where
  "matchLocked fuel e pairId v = (case FetchpairData (Some pairId) (exch v) of
      (st, Done (Some p)) \<Rightarrow>
        (let v1 = fst (syncPaperBook (draw_id e) (resolve_depth e) (Some p) (v\<lparr>exch := st\<rparr>));
             st1 = (exch v1)\<lparr>tradePair := p_id p\<rparr>
         in if \<not> online st1 then Some (v1\<lparr>exch := st1\<rparr>)
            else map_option (\<lambda>st2. v1\<lparr>exch := st2\<rparr>)
              (tradeMatching fuel e p (load_side ''buy'' (p_id p) st1) (load_side ''sell'' (p_id p) st1) st1))
    | (st, _) \<Rightarrow> Some (v\<lparr>exch := st\<rparr>))"

definition matchingcall :: "nat \<Rightarrow> env \<Rightarrow> pair_id \<Rightarrow> venue \<Rightarrow> venue option" where
  "matchingcall fuel e pairId v =
     (if pairId \<in> set (pairLocks (exch v)) then Some v
      else map_option (\<lambda>v1. v1\<lparr>exch := unlock pairId (exch v1)\<rparr>)
        (matchLocked fuel e pairId (v\<lparr>exch := (exch v)\<lparr>pairLocks := pairLocks (exch v) @ [pairId]\<rparr>\<rparr>)))"

end
