(* ===== verification/Fills.thy ===== *)
theory Fills
  imports Matching
begin

text \<open>
  What the fill of two limit orders changes: in the book the rows of the two orders, in the balances
  the fields of the users who stand behind them, and of each order its status, its size and what it
  has released.
\<close>

section \<open>Balances\<close>

definition wallet_only :: "field set \<Rightarrow> spot \<Rightarrow> spot \<Rightarrow> bool" where
  "wallet_only A st st' \<longleftrightarrow>
     (\<forall>f. f \<notin> A \<longrightarrow> hashes st' ''walletbalance_spot'' f = hashes st ''walletbalance_spot'' f)"

lemma wallet_only_refl [simp]: "wallet_only A st st"
  by (simp add: wallet_only_def)

lemma wallet_only_trans [trans]: "wallet_only A st st1 \<Longrightarrow> wallet_only A st1 st2 \<Longrightarrow> wallet_only A st st2"
  by (simp add: wallet_only_def)

lemma wallet_only_mono: "wallet_only A st st' \<Longrightarrow> A \<subseteq> B \<Longrightarrow> wallet_only B st st'"
  by (auto simp: wallet_only_def)

lemma wallet_only_same: "hashes st' = hashes st \<Longrightarrow> wallet_only A st st'"
  by (simp add: wallet_only_def)

lemma HINCRBYFLOAT_field:
  "HINCRBYFLOAT svc key f a st = Some (st', v) \<Longrightarrow> k \<noteq> key \<or> g \<noteq> f \<Longrightarrow> hashes st' k g = hashes st k g"
  using same_hashes_HINCRBYFLOAT [of svc key f a st st' v] unfolding same_hashes_but_def by blast

lemma XADD_hashes: "XADD svc f d b a why r st = (st', n) \<Longrightarrow> hashes st' = hashes st"
  by (auto simp: XADD_def Let_def)

lemma credit_field:
  "LEDGER_CREDIT_LUA svc key f arg why r st = (st', rep) \<Longrightarrow> g \<noteq> f \<Longrightarrow> hashes st' key g = hashes st key g"
  by (auto simp: LEDGER_CREDIT_LUA_def Let_def split: option.splits if_splits prod.splits
      dest!: HINCRBYFLOAT_field [where k = key and g = g] XADD_hashes)

lemma apply_field:
  "LEDGER_APPLY_LUA svc key f arg why r st = (st', rep) \<Longrightarrow> g \<noteq> f \<Longrightarrow> hashes st' key g = hashes st key g"
  by (auto simp: LEDGER_APPLY_LUA_def Let_def split: option.splits if_splits prod.splits
      dest!: HINCRBYFLOAT_field [where k = key and g = g] XADD_hashes)

lemma signed_field:
  assumes "moveBalanceSigned svc key f v why r st = (st', rep)" and "g \<noteq> f"
  shows "hashes st' key g = hashes st key g"
proof (cases "\<not> is_finite (to_number v) \<or> \<not> online st")
  case True
  then show ?thesis using assms by (auto simp: moveBalanceSigned_def)
next
  case False
  obtain st1 rep1 where l: "LEDGER_APPLY_LUA svc key f (spelled (to_number v)) why r st = (st1, rep1)"
    by (metis surj_pair)
  then have "caught (st1, rep1) = (st', rep)" using assms False by (simp add: moveBalanceSigned_def)
  from caught_eq [OF this] apply_field [OF l assms(2)] show ?thesis by auto
qed

lemma signed_wallet:
  "moveBalanceSigned svc ''walletbalance_spot'' f v why r st = (st', rep) \<Longrightarrow> wallet_only {f} st st'"
  by (auto simp: wallet_only_def signed_field)

lemma credited_field:
  assumes "moveBalanceLogged svc key f v Credit why r fk st = (st', rep)" and "g \<noteq> f"
  shows "hashes st' key g = hashes st key g"
  using assms by (auto simp: moveBalanceLogged_def Let_def split: if_splits dest: credit_field)

lemma settlementCredit_wallet:
  assumes "settlementCredit svc o1 c amt synthetic st = (st', w)"
  shows "wallet_only (if synthetic then {} else {(o_user o1, c)}) st st' \<and> only_value st st'"
proof (cases synthetic)
  case False
  obtain st1 rep where m: "moveBalanceLogged svc ''walletbalance_spot'' (o_user o1, c) amt Credit
      ''fill_settlement'' (o_id o1) None st = (st1, rep)" by (metis surj_pair)
  then have "st' = st1" using assms False by (auto simp: settlementCredit_def split: reply.splits prod.splits)
  then show ?thesis
    using False credited_field [OF m] moveBalanceLogged_only(1) [OF m] by (simp add: wallet_only_def)
qed (use assms in \<open>simp add: settlementCredit_def\<close>)

lemma refundUnspent_wallet:
  assumes "refundUnspentReservation svc o1 c coin u st = (st', w)"
  shows "wallet_only (if u > Fin 0 then {(o_user o1, c)} else {}) st st' \<and> tables st' = tables st"
proof (cases "u > Fin 0")
  case True
  obtain st1 rep where m: "moveBalanceSigned svc ''walletbalance_spot'' (o_user o1, c) (JNum u)
      ''unspent_reservation_refund'' (o_id o1) st = (st1, rep)" by (metis surj_pair)
  then have "hashes st' = hashes st1 \<and> tables st' = tables st1"
    using assms True by (auto simp: refundUnspentReservation_def Let_def)
  then show ?thesis
    using signed_wallet [OF m] only_value_tables [OF moveBalanceSigned_only(1) [OF m]] True
    by (simp add: wallet_only_def)
qed (use assms in \<open>simp add: refundUnspentReservation_def\<close>)

lemma release1_effect:
  assumes "release1 svc o1 c v final st = (st', o2)"
  shows "wallet_only A st st' \<and> tables st' = tables st \<and> released_only o1 o2"
proof -
  obtain rep where r: "releaseInOrder svc o1 c v final st = (st', o2, rep)"
    using assms by (auto simp: release1_def split: prod.splits)
  have "hashes st' ''walletbalance_spot'' = hashes st ''walletbalance_spot''"
    by (rule releaseInOrder_keeps [OF r]) (simp add: IN_ORDER_def)
  then show ?thesis using releaseInOrder_frame [OF r] only_value_tables by (simp add: wallet_only_def) blast
qed

section \<open>The two sides\<close>

definition row_of :: "order \<Rightarrow> order row option" where
  "row_of o1 = (if is_zero (o_quantity o1) then None else Some (Row (json_order o1)))"

definition set_row :: "string \<Rightarrow> order \<Rightarrow> spot \<Rightarrow> spot \<Rightarrow> bool" where
  "set_row t o1 st st' \<longleftrightarrow> (\<forall>key i. map_of (tables st' key) i =
     (if key = t \<and> i = o_id o1 then row_of o1 else map_of (tables st key) i))"

lemma set_row_same: "tables st1 = tables st \<Longrightarrow> set_row t o1 st1 st' \<longleftrightarrow> set_row t o1 st st'"
  by (simp add: set_row_def)

lemma finish_order_effect:
  assumes "finish_order svc side synthetic c coin consumed o1 st = (st', o2)" and "is_zero (o_quantity o1)"
  shows "set_row (open_table side (o_pair o1)) o2 st st' \<and> released_only o1 o2 \<and>
    wallet_only (if synthetic then {} else {(o_user o1, c)}) st st'"
proof -
  let ?u = "if synthetic then Fin 0 else unspentReservationOf o1 consumed"
  obtain st1 o3 where r: "release1 svc o1 c consumed True st = (st1, o3)" by (metis surj_pair)
  obtain st2 w where u: "refundUnspentReservation svc o3 c coin ?u st1 = (st2, w)" by (metis surj_pair)
  have o2: "o2 = o3" and st': "tables st' = (tables st2)(open_table side (o_pair o3) := remove_field (o_id o3) (tables st2 (open_table side (o_pair o3))))"
    and h: "hashes st' = hashes st2"
    using assms(1) r u
    by (auto simp: finish_order_def push_history_def hdel_order_def hset_history_def Let_def simp del: prod.collapse)
  note rel = release1_effect [OF r] and ref = refundUnspent_wallet [OF u]
  note sel = released_only_sel [OF rel [THEN conjunct2, THEN conjunct2]]
  have "wallet_only (if synthetic then {} else {(o_user o1, c)}) st st2"
    using wallet_only_trans [OF rel [THEN conjunct1] ref [THEN conjunct1]] sel(2)
    by (auto simp: wallet_only_def split: if_splits)
  then show ?thesis
    using rel ref assms(2) st' h sel by (simp add: o2 set_row_def row_of_def wallet_only_def)
qed

lemma keep_order_effect:
  assumes "keep_order svc side c consumed o1 st = (st', o2)" and "\<not> is_zero (o_quantity o1)"
  shows "set_row (open_table side (o_pair o1)) o2 st st' \<and> released_only o1 o2 \<and> wallet_only {} st st'"
proof -
  obtain st1 o3 where r: "release1 svc o1 c consumed False st = (st1, o3)" by (metis surj_pair)
  have "o2 = o3" and "tables st' = (tables st1)(open_table side (o_pair o3) :=
      put (o_id o3) (Row (json_order o3)) (remove_field (o_id o3) (tables st1 (open_table side (o_pair o3)))))"
    and "hashes st' = hashes st1"
    using assms(1) r
    by (auto simp: keep_order_def push_history_def hdel_order_def hset_order_def Let_def)
  moreover note rel = release1_effect [OF r, of "{}"]
  note released_only_sel [OF rel [THEN conjunct2, THEN conjunct2]]
  ultimately show ?thesis using rel assms(2) by (simp add: set_row_def row_of_def wallet_only_def)
qed

lemma refundImprovement_effect:
  "tables (refundImprovement svc synthetic mk avg ex b st) = tables st \<and>
   wallet_only (if synthetic then {} else {(o_user b, o_second_id b)}) st (refundImprovement svc synthetic mk avg ex b st)"
proof (cases "improvement synthetic mk avg ex b")
  case None
  then show ?thesis by (simp add: refundImprovement_def)
next
  case (Some r)
  then have syn: "\<not> synthetic" by (auto simp: improvement_def Let_def split: if_splits)
  obtain st1 rep where m: "moveBalanceSigned svc ''walletbalance_spot'' (o_user b, o_second_id b) (JNum r)
      ''price_improvement_refund'' [] st = (st1, rep)" by (metis surj_pair)
  show ?thesis
    using Some syn m signed_wallet [OF m] only_value_tables [OF moveBalanceSigned_only(1) [OF m]]
    by (simp add: refundImprovement_def Let_def wallet_only_def)
qed

definition same_identity :: "order \<Rightarrow> order \<Rightarrow> bool" where
  "same_identity o1 o2 \<longleftrightarrow> o_id o2 = o_id o1 \<and> o_user o2 = o_user o1 \<and> o_pair o2 = o_pair o1 \<and>
     o_first_id o2 = o_first_id o1 \<and> o_second_id o2 = o_second_id o1 \<and> o_quantity o2 = o_quantity o1"

lemma settleBuy_effect:
  assumes "settleBuy svc synthetic mk avg ex b st = (st', b')"
  shows "set_row (open_table ''buy'' (o_pair b)) b' st st' \<and> same_identity b b' \<and>
    o_status b' = (if is_zero (o_quantity b) then ''completed'' else ''pending'') \<and>
    wallet_only (if synthetic then {} else {(o_user b, o_second_id b)}) st st'"
proof -
  let ?st = "refundImprovement svc synthetic mk avg ex b st"
  note imp = refundImprovement_effect [of svc synthetic mk avg ex b st]
  show ?thesis
  proof (cases "is_zero (o_quantity b)")
    case True
    then have "finish_order svc ''buy'' synthetic (o_second_id b) (o_second b) (JNum (to_number (o_price b) * ex))
        (b\<lparr>o_status := ''completed''\<rparr>) ?st = (st', b')"
      using assms by (simp add: settleBuy_def Let_def)
    from finish_order_effect [OF this] True
    have "set_row (open_table ''buy'' (o_pair b)) b' ?st st' \<and> released_only (b\<lparr>o_status := ''completed''\<rparr>) b' \<and>
        wallet_only (if synthetic then {} else {(o_user b, o_second_id b)}) ?st st'" by (cases synthetic) simp_all
    moreover from this have "wallet_only (if synthetic then {} else {(o_user b, o_second_id b)}) st st'"
      using wallet_only_trans [OF conjunct2 [OF imp]] by blast
    ultimately show ?thesis
      using True conjunct1 [OF imp] released_only_sel [of "b\<lparr>o_status := ''completed''\<rparr>" b']
      by (simp add: set_row_same [OF conjunct1 [OF imp]] same_identity_def)
  next
    case False
    then have "keep_order svc ''buy'' (o_second_id b) (JNum (to_number (o_price b) * ex))
        (b\<lparr>o_status := ''pending''\<rparr>) ?st = (st', b')"
      using assms by (simp add: settleBuy_def Let_def)
    from keep_order_effect [OF this] False
    have "set_row (open_table ''buy'' (o_pair b)) b' ?st st' \<and> released_only (b\<lparr>o_status := ''pending''\<rparr>) b' \<and>
        wallet_only (if synthetic then {} else {(o_user b, o_second_id b)}) ?st st'"
      by (auto intro: wallet_only_mono)
    moreover from this have "wallet_only (if synthetic then {} else {(o_user b, o_second_id b)}) st st'"
      using wallet_only_trans [OF conjunct2 [OF imp]] by blast
    ultimately show ?thesis
      using False conjunct1 [OF imp] released_only_sel [of "b\<lparr>o_status := ''pending''\<rparr>" b']
      by (simp add: set_row_same [OF conjunct1 [OF imp]] same_identity_def)
  qed
qed

lemma settleSell_effect:
  assumes "settleSell svc synthetic ex s st = (st', s')"
  shows "set_row (open_table ''sell'' (o_pair s)) s' st st' \<and> same_identity s s' \<and>
    o_status s' = (if is_zero (o_quantity s) then ''completed'' else ''pending'') \<and>
    wallet_only (if synthetic then {} else {(o_user s, o_first_id s)}) st st'"
proof (cases "is_zero (o_quantity s)")
  case True
  then have "finish_order svc ''sell'' synthetic (o_first_id s) (o_first s) (JNum ex) (s\<lparr>o_status := ''completed''\<rparr>) st = (st', s')"
    using assms by (simp add: settleSell_def)
  from finish_order_effect [OF this] True show ?thesis
    using released_only_sel [of "s\<lparr>o_status := ''completed''\<rparr>" s']
    by (cases synthetic) (simp_all add: same_identity_def)
next
  case False
  then have "keep_order svc ''sell'' (o_first_id s) (JNum ex) (s\<lparr>o_status := ''pending''\<rparr>) st = (st', s')"
    using assms by (simp add: settleSell_def)
  from keep_order_effect [OF this] False
  have "set_row (open_table ''sell'' (o_pair s)) s' st st' \<and> released_only (s\<lparr>o_status := ''pending''\<rparr>) s' \<and>
      wallet_only (if synthetic then {} else {(o_user s, o_first_id s)}) st st'"
    by (auto intro: wallet_only_mono)
  then show ?thesis
    using False released_only_sel [of "s\<lparr>o_status := ''pending''\<rparr>" s'] by (simp add: same_identity_def)
qed


section \<open>The whole fill\<close>

lemma settle_credits_effect:
  "wallet_only ((if bs then {} else {(o_user b, o_first_id b)}) \<union> (if ss then {} else {(o_user s, o_second_id s)})) st
     (settle_credits svc p bs ss ex ev b s st) \<and>
   tables (settle_credits svc p bs ss ex ev b s st) = tables st"
proof -
  obtain st1 w1 where c1: "settlementCredit svc b (o_first_id b) (JNum ex) bs st = (st1, w1)" by (metis surj_pair)
  obtain st2 w2 where c2: "settlementCredit svc s (o_second_id s) (JNum ev) ss st1 = (st2, w2)" by (metis surj_pair)
  note e1 = settlementCredit_wallet [OF c1] and e2 = settlementCredit_wallet [OF c2]
  have "tables st2 = tables st" using only_value_tables [of st st1] only_value_tables [of st1 st2] e1 e2 by simp
  moreover have "wallet_only ((if bs then {} else {(o_user b, o_first_id b)}) \<union> (if ss then {} else {(o_user s, o_second_id s)})) st st2"
    using wallet_only_trans [OF wallet_only_mono [OF conjunct1 [OF e1]] wallet_only_mono [OF conjunct1 [OF e2]]] by blast
  ultimately show ?thesis using c1 c2 by (simp add: settle_credits_def wallet_only_def)
qed

definition account_fields_of :: "bool \<Rightarrow> order \<Rightarrow> field set" where
  "account_fields_of synthetic o1 = (if synthetic then {} else {(o_user o1, o_first_id o1), (o_user o1, o_second_id o1)})"

lemma open_tables_differ [simp]: "open_table ''buy'' p \<noteq> open_table ''sell'' q"
  by (simp add: open_table_def)

lemma apply_fill_sel [simp]:
  "o_id (apply_fill a x o1) = o_id o1" "o_user (apply_fill a x o1) = o_user o1" "o_pair (apply_fill a x o1) = o_pair o1"
  "o_first_id (apply_fill a x o1) = o_first_id o1" "o_second_id (apply_fill a x o1) = o_second_id o1"
  "o_quantity (apply_fill a x o1) = left_over o1 x"
  by (simp_all add: apply_fill_def)

lemma limitFill_effect:
  assumes "limitFill e p a n b s st = (st', b', s')"
  defines "ex \<equiv> exec_amount b s"
  shows "(\<forall>key i. map_of (tables st' key) i =
      (if key = open_table ''buy'' (o_pair b) \<and> i = o_id b then row_of b'
       else if key = open_table ''sell'' (o_pair s) \<and> i = o_id s then row_of s' else map_of (tables st key) i)) \<and>
    o_quantity b' = left_over b ex \<and> o_quantity s' = left_over s ex \<and>
    o_status b' = (if is_zero (left_over b ex) then ''completed'' else ''pending'') \<and>
    o_status s' = (if is_zero (left_over s ex) then ''completed'' else ''pending'') \<and>
    wallet_only (account_fields_of (isSyntheticOrder b a) b \<union> account_fields_of (isSyntheticOrder s a) s) st st'"
proof -
  define mk where "mk = makerSideOf b s a"
  define avg where "avg = maker_price mk b s"
  define ev where "ev = exec_value mk b s ex"
  obtain st1 b1 where sb: "settleBuy (server e) (isSyntheticOrder b a) mk avg ex (apply_fill avg ex b) st = (st1, b1)"
    by (metis surj_pair)
  obtain st2 s1 where ss: "settleSell (server e) (isSyntheticOrder s a) ex (apply_fill avg ex s) st1 = (st2, s1)"
    by (metis surj_pair)
  have "\<exists>F M. limitFill e p a n b s st =
      (settle_credits (server e) p (isSyntheticOrder b a) (isSyntheticOrder s a) ex ev b1 s1 (push_trade F (sends M st2)), b1, s1)"
    unfolding limitFill_def Let_def ex_def [symmetric] mk_def [symmetric] avg_def [symmetric] ev_def [symmetric] sb ss
      prod.case by (intro exI) (rule refl)
  then obtain F M where "limitFill e p a n b s st =
      (settle_credits (server e) p (isSyntheticOrder b a) (isSyntheticOrder s a) ex ev b1 s1 (push_trade F (sends M st2)), b1, s1)"
    by blast
  moreover define st3 where "st3 = push_trade F (sends M st2)"
  ultimately have st3: "tables st3 = tables st2 \<and> hashes st3 = hashes st2"
    and fill: "st' = settle_credits (server e) p (isSyntheticOrder b a) (isSyntheticOrder s a) ex ev b1 s1 st3"
    and orders: "b' = b1" "s' = s1"
    using assms(1) by (simp_all add: push_trade_def)
  note eb = settleBuy_effect [OF sb, simplified] and es = settleSell_effect [OF ss, simplified]
  have idb: "o_id b1 = o_id b" "o_user b1 = o_user b" "o_first_id b1 = o_first_id b" "o_quantity b1 = left_over b ex"
    using eb by (simp_all add: same_identity_def)
  have ids: "o_id s1 = o_id s" "o_user s1 = o_user s" "o_second_id s1 = o_second_id s" "o_quantity s1 = left_over s ex"
    using es by (simp_all add: same_identity_def)
  let ?A = "account_fields_of (isSyntheticOrder b a) b \<union> account_fields_of (isSyntheticOrder s a) s"
  have "wallet_only ?A st st1"
    by (rule wallet_only_mono [where A = "if isSyntheticOrder b a then {} else {(o_user b, o_second_id b)}"])
      (use eb in \<open>auto simp: account_fields_of_def\<close>)
  moreover have "wallet_only ?A st1 st2"
    by (rule wallet_only_mono [where A = "if isSyntheticOrder s a then {} else {(o_user s, o_first_id s)}"])
      (use es in \<open>auto simp: account_fields_of_def\<close>)
  moreover have "wallet_only ?A st3 st'"
    unfolding fill by (rule wallet_only_mono [OF conjunct1 [OF settle_credits_effect]])
      (auto simp: account_fields_of_def idb ids)
  ultimately have "wallet_only ?A st st'" using st3 by (simp add: wallet_only_def)
  moreover have "tables st' = tables st2" using st3 settle_credits_effect fill by simp
  ultimately show ?thesis using eb es idb ids orders by (simp add: set_row_def)
qed

text \<open>C13: A fill of two limit orders changes in the book the rows of these two orders and no other: an order with
  nothing left is completed and its row gone, the other is pending and its row is the order as it is now.
  In the balances it changes only the two currencies of the users behind the orders; the house, whose
  orders are synthetic, is never credited or charged.\<close>

theorem fill_keeps_to_its_parties:
  assumes "limitFill e p a n b s st = (st', b', s')"
  shows "(\<forall>key i. map_of (tables st' key) i =
      (if key = open_table ''buy'' (o_pair b) \<and> i = o_id b then row_of b'
       else if key = open_table ''sell'' (o_pair s) \<and> i = o_id s then row_of s' else map_of (tables st key) i)) \<and>
    o_status b' = (if is_zero (o_quantity b') then ''completed'' else ''pending'') \<and>
    o_status s' = (if is_zero (o_quantity s') then ''completed'' else ''pending'') \<and>
    wallet_only (account_fields_of (isSyntheticOrder b a) b \<union> account_fields_of (isSyntheticOrder s a) s) st st'"
  using limitFill_effect [OF assms] by simp

section \<open>The smaller order is completed\<close>

text \<open>The sizes of a fill are scaled to whole units of the pair before they are subtracted.\<close>

definition sized :: "order \<Rightarrow> rat \<Rightarrow> bool" where
  "sized o1 q \<longleftrightarrow> to_number (o_quantity o1) = Fin q \<and> is_finite (Fin q * pow10 (to_number (o_first_digits o1))) \<and>
     (\<exists>d. o_first_digits o1 = JNum (Fin (of_nat d)))"

lemma pow10_nat: "pow10 (Fin (of_nat d)) = to_num (10 ^ d)"
  by (simp add: pow10_def)

lemma pow10_pos: "to_num (10 ^ d) = Fin k \<Longrightarrow> 0 < k"
proof -
  assume "to_num (10 ^ d) = Fin k"
  then have "k = rnd64 (10 ^ d)" by (simp add: to_num_Fin)
  moreover have "rnd64 1 \<le> rnd64 (10 ^ d)" by (rule rnd64_mono) simp
  ultimately show ?thesis using is_dbl_of_int [of 1] by (simp add: is_dbl_iff)
qed

lemma toFixedDown_zero: "toFixedDownBy (JNum (Fin 0)) (JNum (Fin (of_nat d))) = JNum (Fin 0)"
proof -
  obtain y where "toFixedDownBy (JNum (Fin 0)) (JNum (Fin (of_nat d))) = JNum (Fin y)" "0 \<le> y" "y \<le> 0"
    by (rule toFixedDownBy_cut [of 0]) auto
  then show ?thesis by simp
qed

lemma left_over_nothing:
  assumes "sized o1 q"
  shows "is_zero (left_over o1 (Fin q))"
proof -
  obtain d where d: "o_first_digits o1 = JNum (Fin (of_nat d))" and q: "to_number (o_quantity o1) = Fin q"
    and fin: "is_finite (Fin q * to_num (10 ^ d))"
    using assms pow10_nat by (auto simp: sized_def)
  obtain k where k: "to_num (10 ^ d) = Fin k"
    using fin by (cases "to_num (10 ^ d)") (auto split: if_splits)
  obtain x where "Fin q * Fin k = Fin x" using fin k by (cases "to_num (q * k)") auto
  then have "left_over o1 (Fin q) = toFixedDownBy (JNum (Fin 0)) (JNum (Fin (of_nat d)))"
    using pow10_pos [OF k] d q k by (simp add: left_over_def pow10_nat Let_def)
  then show ?thesis by (simp add: toFixedDown_zero is_zero_def)
qed

text \<open>A fill takes the smaller of the two sizes, and the order that was the smaller is completed and gone from
  the book; of two equal orders both are.\<close>

theorem smaller_order_completes:
  assumes "limitFill e p a n b s st = (st', b', s')" and "sized b qb" and "sized s qs"
  shows "(qb \<le> qs \<longrightarrow> o_status b' = ''completed'' \<and> hget_order (open_table ''buy'' (o_pair b)) (o_id b) st' = None) \<and>
    (qs \<le> qb \<longrightarrow> o_status s' = ''completed'' \<and> hget_order (open_table ''sell'' (o_pair s)) (o_id s) st' = None)"
proof -
  have ex: "exec_amount b s = Fin (min qb qs)"
    using assms(2,3) by (simp add: exec_amount_def js_min_def sized_def min_def)
  have "qb \<le> qs \<Longrightarrow> is_zero (o_quantity b')" "qs \<le> qb \<Longrightarrow> is_zero (o_quantity s')"
    using limitFill_effect [OF assms(1)] left_over_nothing [OF assms(2)] left_over_nothing [OF assms(3)]
    by (simp_all add: ex min_def split: if_splits)
  moreover have "open_table ''sell'' (o_pair s) \<noteq> open_table ''buy'' (o_pair b)"
    using open_tables_differ by metis
  ultimately show ?thesis
    using limitFill_effect [OF assms(1)] by (simp add: hget_order_def row_of_def)
qed


text \<open>A sell order of another user, larger than the buy order of the sample.\<close>

definition sample_sell :: order where
  "sample_sell = sample_order\<lparr>o_id := ''o2'', o_user := ''v'', o_side := ''sell'', o_quantity := JNum (Fin 3), o_price := JNum (Fin 4),
     o_ref_price := JNum (Fin 4), o_reserved := JNum (Fin 3)\<rparr>"

definition funded_spot :: spot where
  "funded_spot = blank_spot\<lparr>hashes := (\<lambda>_ _. None)(''walletbalance_spot'' := (\<lambda>_. Some (RDec 100)))\<rparr>"

lemma sample_sides [simp]:
  "o_user sample_order = ''u''" "o_user sample_sell = ''v''" "o_pair sample_order = ''p''" "o_pair sample_sell = ''p''"
  "o_id sample_order = ''o1''" "o_id sample_sell = ''o2''"
  "o_first_id sample_order = ''b''" "o_second_id sample_order = ''q''" "o_first_id sample_sell = ''b''" "o_second_id sample_sell = ''q''"
  by (simp_all add: sample_sell_def sample_order_def)

theorem fill_keeps_to_its_parties_witness:
  "hashes (fst (limitFill sample_env sample_pair None 0 sample_order sample_sell funded_spot)) ''walletbalance_spot'' (''w'', ''q'')
     = Some (RDec 100)"
proof -
  obtain st' b' s' where f: "limitFill sample_env sample_pair None 0 sample_order sample_sell funded_spot = (st', b', s')"
    by (metis surj_pair)
  have "(''w'', ''q'') \<notin> account_fields_of x sample_order \<union> account_fields_of y sample_sell" for x y
    by (simp add: account_fields_of_def)
  then show ?thesis
    using fill_keeps_to_its_parties [OF f] by (simp add: f wallet_only_def) (simp add: funded_spot_def)
qed

theorem smaller_order_completes_witness:
  "o_status (fst (snd (limitFill sample_env sample_pair None 0 sample_order sample_sell funded_spot))) = ''completed''"
proof -
  obtain st' b' s' where f: "limitFill sample_env sample_pair None 0 sample_order sample_sell funded_spot = (st', b', s')"
    by (metis surj_pair)
  have d: "o_first_digits sample_order = JNum (Fin (of_nat 8))" "o_first_digits sample_sell = JNum (Fin (of_nat 8))"
    by (simp_all add: sample_sell_def sample_order_def)
  have "to_number (o_quantity sample_order) = Fin 2" "to_number (o_quantity sample_sell) = Fin 3"
    "is_finite (Fin 2 * pow10 (to_number (o_first_digits sample_order)))"
    "is_finite (Fin 3 * pow10 (to_number (o_first_digits sample_sell)))" by code_simp+
  then have "sized sample_order 2" "sized sample_sell 3" using d unfolding sized_def by blast+
  from smaller_order_completes [OF f this] show ?thesis by (simp add: f)
qed

section \<open>Who pays what\<close>

lemma times_comm: "(a :: jsnum) * b = b * a"
  by (cases a; cases b) (auto simp: mult.commute)

lemma to_num_mono: "x \<le> y \<Longrightarrow> to_num x \<le> to_num y"
  using rnd64_mono [of x y] by (auto simp: to_num_def Let_def)

lemma times_mono: "0 \<le> x \<Longrightarrow> y \<le> z \<Longrightarrow> Fin x * Fin y \<le> Fin x * Fin z"
  by (simp add: to_num_mono mult_left_mono)



text \<open>The buyer's own price for the filled size is split between the seller and the buyer's refund, when the
  maker's reference price is its price: the refund is exactly what the seller did not get.\<close>

theorem fill_splits_the_price:
  assumes "mk = ''buy'' \<or> mk = ''sell''"
    and "maker_price mk b s = (if mk = ''buy'' then o_price b else o_price s)"
  shows "improvement False mk (maker_price mk b s) ex b =
    (let consumed = to_number (o_price b) * ex; paid = exec_value mk b s ex
     in if paid < consumed then Some (consumed - paid) else None)"
proof (cases "mk = ''buy''")
  case True
  then have "exec_value mk b s ex = to_number (o_price b) * ex" by (simp add: exec_value_def times_comm)
  then show ?thesis using True by (simp add: improvement_def Let_def less_jsnum_def)
next
  case False
  then have mk: "mk = ''sell''" using assms(1) by simp
  then have "exec_value mk b s ex = to_number (o_price s) * ex" by (simp add: exec_value_def times_comm)
  then show ?thesis using mk assms(2) by (simp add: improvement_def Let_def)
qed

theorem fill_splits_the_price_witness:
  "improvement False ''sell'' (maker_price ''sell'' sample_order sample_sell) (Fin 2) sample_order = Some (Fin 10 - Fin 8)"
proof -
  have v: "to_number (o_price sample_order) * Fin 2 = Fin 10" "exec_value ''sell'' sample_order sample_sell (Fin 2) = Fin 8"
    by code_simp+
  have m: "maker_price ''sell'' sample_order sample_sell = o_price sample_sell"
    by (simp add: maker_price_def sample_sell_def)
  show ?thesis
    using fill_splits_the_price [of "''sell''" sample_order sample_sell "Fin 2"] m by (simp add: v)
qed

text \<open>On a pair without a bot a maker may carry a reference price other than its limit, the mark it was placed
  through. A resting sell at 99 with reference 100 that meets a bid of 101 is paid 99, the buyer is given
  back 1 of the 101 it reserved, and the rest of the price reaches nobody.\<close>

theorem reference_price_loses_quote:
  "maker_price ''sell'' b (s\<lparr>o_price := JNum (Fin 99), o_ref_price := JNum (Fin 100)\<rparr>) = JNum (Fin 100) \<and>
   exec_value ''sell'' b (s\<lparr>o_price := JNum (Fin 99), o_ref_price := JNum (Fin 100)\<rparr>) (Fin 1) = Fin 99 \<and>
   improvement False ''sell'' (JNum (Fin 100)) (Fin 1) (b\<lparr>o_price := JNum (Fin 101)\<rparr>) = Some (Fin 1)"
proof -
  have n: "to_num 99 = Fin 99" "to_num 101 = Fin 101" "to_num 100 = Fin 100" "to_num 1 = Fin 1" by code_simp+
  show ?thesis by (simp add: maker_price_def exec_value_def improvement_def Let_def n)
qed

end
