(* ===== verification/Matched.thy ===== *)
theory Matched
  imports Fills
begin

text \<open>
  What a pass of the matcher does: which books it finishes and which it never finishes, what a book
  that does not cross keeps, what a fill pays to whom, and what a cancel can do between the moment
  the matcher has read its lists and the moment it fills from them.
\<close>

section \<open>Ends of the loop\<close>

lemma match_loop_empty [simp]:
  "b_buys bk = [] \<Longrightarrow> match_loop n e p bk = Some (bk, True)"
  "b_sells bk = [] \<Longrightarrow> match_loop n e p bk = Some (bk, True)"
  by (subst match_loop.simps; simp split: list.split)+

lemma match_loop_heads:
  "b_buys bk = b # bs \<Longrightarrow> b_sells bk = s # ss \<Longrightarrow>
   match_loop (Suc n) e p bk = (case match_turn e p b s bk of
      Continue bk' \<Rightarrow> match_loop n e p bk' | Break bk' \<Rightarrow> Some (bk', True) | Abort bk' \<Rightarrow> Some (bk', False))"
  "b_buys bk = b # bs \<Longrightarrow> b_sells bk = s # ss \<Longrightarrow> match_loop 0 e p bk = None"
  by (subst match_loop.simps; simp)+

definition plain_limit :: "order \<Rightarrow> bool" where
  "plain_limit o1 \<longleftrightarrow> \<not> is_market o1 \<and> \<not> o_flag o1 \<and> o_liquidity o1 = ''off''"

definition plain_book :: "book \<Rightarrow> bool" where
  "plain_book bk \<longleftrightarrow> (\<forall>o1 \<in> set (b_buys bk) \<union> set (b_sells bk). plain_limit o1)"

definition redraw :: "book \<Rightarrow> book" where
  "redraw bk = bk\<lparr>b_store := fst (draw_unique (b_store bk))\<rparr>"

lemma redraw_sel [simp]: "b_buys (redraw bk) = b_buys bk" "b_sells (redraw bk) = b_sells bk"
  "b_store (redraw bk) = fst (draw_unique (b_store bk))"
  by (simp_all add: redraw_def)

lemma plain_turn:
  "plain_limit b \<Longrightarrow> plain_limit s \<Longrightarrow>
   match_turn e p b s bk = limit_turn e p (snd (draw_unique (b_store bk))) b s (redraw bk)"
  by (simp add: match_turn_def market_turn_def both_off_def plain_limit_def redraw_def split: prod.split)

text \<open>A turn over limit orders ends the loop or takes the head of one list.\<close>

lemma plain_turn_cases:
  assumes "plain_limit b" "plain_limit s" "match_turn e p b s bk = Continue bk'"
  shows "bk' = redraw bk\<lparr>b_buys := tl (b_buys bk)\<rparr> \<or> bk' = redraw bk\<lparr>b_sells := tl (b_sells bk)\<rparr>"
  using assms(3) unfolding plain_turn [OF assms(1,2)]
  using assms(1,2) by (auto simp: limit_turn_def plain_limit_def both_off_def
      split: if_splits reply.splits prod.splits)

lemma set_tl_subset: "x \<in> set (tl xs) \<Longrightarrow> x \<in> set xs"
  by (cases xs) simp_all

lemma plain_shift: "plain_book bk \<Longrightarrow> plain_book (redraw bk\<lparr>b_buys := tl (b_buys bk)\<rparr>)"
  "plain_book bk \<Longrightarrow> plain_book (redraw bk\<lparr>b_sells := tl (b_sells bk)\<rparr>)"
  by (auto simp: plain_book_def dest!: set_tl_subset)

text \<open>C15: A book of limit orders is finished: as many turns as it has orders are enough, whatever the prices,
  the owners and the store.\<close>

theorem limit_books_are_finished:
  assumes "plain_book bk" and "length (b_buys bk) + length (b_sells bk) \<le> n"
  shows "match_loop n e p bk \<noteq> None"
  using assms
proof (induction n arbitrary: bk)
  case 0
  then show ?case by simp
next
  case (Suc n)
  show ?case
  proof (cases "b_buys bk = [] \<or> b_sells bk = []")
    case True
    then show ?thesis by auto
  next
    case False
    then obtain b bs s ss where heads: "b_buys bk = b # bs" "b_sells bk = s # ss"
      by (auto simp: neq_Nil_conv)
    then have plain: "plain_limit b" "plain_limit s" using Suc.prems(1) by (auto simp: plain_book_def)
    show ?thesis
    proof (cases "match_turn e p b s bk")
      case (Continue bk')
      then have "plain_book bk' \<and> length (b_buys bk') + length (b_sells bk') \<le> n"
        using plain_turn_cases [OF plain Continue] plain_shift [OF Suc.prems(1)] Suc.prems(2) heads by auto
      then show ?thesis using Suc.IH [of bk'] Continue by (simp add: match_loop_heads(1) [OF heads])
    qed (simp_all add: match_loop_heads(1) [OF heads])
  qed
qed

definition sample_book :: book where
  "sample_book = \<lparr>b_store = funded_spot, b_buys = [sample_order], b_sells = [sample_sell]\<rparr>"

theorem limit_books_are_finished_witness:
  "match_loop 2 sample_env sample_pair sample_book \<noteq> None"
  by (rule limit_books_are_finished)
    (simp_all add: plain_book_def plain_limit_def is_market_def sample_book_def sample_sell_def sample_order_def)

section \<open>Books that are never finished\<close>

definition stuck :: "book \<Rightarrow> bool" where
  "stuck bk \<longleftrightarrow> b_buys bk \<noteq> [] \<and> b_sells bk \<noteq> [] \<and>
     (let b = hd (b_buys bk); s = hd (b_sells bk) in
      \<not> both_off b s \<or> ((\<forall>o1 \<in> set (b_buys bk) \<union> set (b_sells bk). is_market o1) \<and> (o_flag b \<or> o_flag s)))"

lemma first_limit_none: "\<forall>o1 \<in> set os. is_market o1 \<Longrightarrow> first_limit os = None"
  by (simp add: first_limit_def find_None_iff)

lemma stuck_turn:
  assumes "stuck bk"
  shows "match_turn e p (hd (b_buys bk)) (hd (b_sells bk)) bk = Continue (redraw bk)"
  using assms
  by (auto simp: stuck_def Let_def match_turn_def market_turn_def redraw_def limit_turn_def
      market_meets_market_def first_limit_none split: prod.split)

lemma stuck_redraw: "stuck bk \<Longrightarrow> stuck (redraw bk)"
  by (simp add: stuck_def Let_def)

text \<open>C16: A book whose head is routed abroad, or that holds market orders only, is never finished: the loop turns
  without changing a list, whatever the fuel. It awaits nothing on that way, so it holds the process.\<close>

theorem stuck_books_spin:
  assumes "stuck bk"
  shows "match_loop n e p bk = None"
  using assms
proof (induction n arbitrary: bk)
  case 0
  then show ?case by (cases "b_buys bk"; cases "b_sells bk") (simp_all add: stuck_def match_loop_heads)
next
  case (Suc n)
  from Suc.prems obtain b bs s ss where heads: "b_buys bk = b # bs" "b_sells bk = s # ss"
    by (auto simp: stuck_def neq_Nil_conv)
  show ?case
    using stuck_turn [OF Suc.prems, of e p] Suc.IH [OF stuck_redraw [OF Suc.prems]]
    by (simp add: match_loop_heads(1) [OF heads] heads)
qed


definition market_book :: book where
  "market_book = \<lparr>b_store = funded_spot, b_buys = [sample_order\<lparr>o_price := JStr ''market'', o_flag := True\<rparr>],
     b_sells = [sample_sell\<lparr>o_price := JStr ''market'', o_flag := True\<rparr>]\<rparr>"

theorem stuck_books_spin_witness: "match_loop 1000 sample_env sample_pair market_book = None"
  by (rule stuck_books_spin) (simp add: stuck_def Let_def market_book_def is_market_def)

section \<open>A book that does not cross\<close>

text \<open>When the best buy order, by price, is below the best sell order a pass fills nothing and moves nothing:
  balances, ledgers, tables and histories are as they were, and of the messages only the ones that were
  already waiting are sent.\<close>

theorem uncrossed_book_is_left_alone:
  assumes "p_botstatus p \<noteq> ''off''"
    and "sort_before buy_before bs = b # bs'" and "sort_before sell_before ss = s # ss'"
    and "plain_limit b" and "plain_limit s" and "\<not> js_less_eq (o_price s) (o_price b)"
  shows "\<exists>st'. tradeMatching (Suc n) e p (Some bs) (Some ss) st = Some st' \<and> hashes st' = hashes st \<and>
    streams st' = streams st \<and> tables st' = tables st \<and> history st' = history st \<and>
    sent st' = sent st @ map SaveHistory (orderHistArr st) @ map NewTrade (tradeHistArr st)"
proof -
  define st1 where "st1 = (if top_cross (b # bs') (s # ss') then (st\<lparr>isRun := True\<rparr>)\<lparr>tradePair := p_id p\<rparr> else st\<lparr>isRun := True\<rparr>)"
  define bk where "bk = \<lparr>b_store = st1, b_buys = b # bs', b_sells = s # ss'\<rparr>"
  have h: "b_buys bk = b # bs'" "b_sells bk = s # ss'" by (simp_all add: bk_def)
  have "match_loop (Suc n) e p bk = Some (redraw bk, True)"
    using assms(4-6) plain_turn [OF assms(4,5), of e p bk] match_loop_heads(1) [OF h, of n e p]
    by (simp add: limit_turn_def plain_limit_def both_off_def)
  then have "tradeMatching (Suc n) e p (Some bs) (Some ss) st = Some (end_match p (redraw bk))"
    using assms(1-3) by (simp add: tradeMatching_def house_liquidity_def bk_def st1_def Let_def)
  then show ?thesis
    by (simp add: end_match_def free_pair_def flush_histories_def sends_def bk_def st1_def draw_unique_def redraw_def)
qed

definition bot_pair :: pair where
  "bot_pair = sample_pair\<lparr>p_botstatus := ''bot''\<rparr>"

theorem uncrossed_book_is_left_alone_witness:
  "\<exists>st'. tradeMatching 1 sample_env bot_pair (Some [sample_order\<lparr>o_price := JNum (Fin 3)\<rparr>]) (Some [sample_sell]) funded_spot = Some st' \<and>
    hashes st' = hashes funded_spot \<and> streams st' = streams funded_spot \<and> tables st' = tables funded_spot \<and>
    history st' = history funded_spot \<and>
    sent st' = sent funded_spot @ map SaveHistory (orderHistArr funded_spot) @ map NewTrade (tradeHistArr funded_spot)"
proof -
  have "plain_limit sample_sell" "plain_limit (sample_order\<lparr>o_price := JNum (Fin 3)\<rparr>)"
    by (simp_all add: plain_limit_def is_market_def sample_sell_def sample_order_def)
  moreover have "\<not> js_less_eq (o_price sample_sell) (JNum (Fin 3))" by (simp add: sample_sell_def)
  ultimately show ?thesis
    using uncrossed_book_is_left_alone [of bot_pair "[sample_order\<lparr>o_price := JNum (Fin 3)\<rparr>]" _ "[]" "[sample_sell]" _ "[]"
        0 sample_env funded_spot]
    by (simp add: bot_pair_def sort_before_def)
qed

section \<open>What the house mirrors\<close>

text \<open>The two sorts by date leave the lists as they are: the order in the table decides among equal prices.\<close>

lemma insert_last: "\<forall>a b. \<not> lt a b \<Longrightarrow> insert_before lt x xs = xs @ [x]"
  by (induction xs) auto

lemma by_date_keeps: "by_date os = os"
proof -
  have "foldl (\<lambda>acc x. insert_before (\<lambda>a b. date_text_number a - date_text_number b < Fin 0) x acc) acc os = acc @ os" for acc
    by (induction os arbitrary: acc) (simp_all add: insert_last date_text_number_def)
  then show ?thesis by (simp add: by_date_def sort_before_def)
qed

text \<open>The order the house mirrors is never one that was at or through the mark when it was placed: those are
  stamped as makers, and the mirror passes makers over. An order that could be filled at once waits for
  another user, while an order placed away from the mark is mirrored when the mark has come to it.\<close>

theorem marketable_orders_are_not_mirrored:
  assumes "mirror_first e reaches side os st \<noteq> st"
  shows "\<exists>o1 \<in> set os. \<not> o_is_maker o1 \<and> reaches o1 \<and>
    mirror_first e reaches side os st = liqOrdCreation e o1 side st \<and>
    (\<forall>u b p v. o1 = limitOrder e u b p v \<longrightarrow> \<not> at_mark b p)"
proof (cases "find (\<lambda>o1. \<not> is_market o1 \<and> reaches o1 \<and> \<not> o_is_maker o1) os")
  case None
  then show ?thesis using assms by (simp add: mirror_first_def)
next
  case (Some o1)
  then have "o1 \<in> set os" "reaches o1" "\<not> o_is_maker o1" by (auto simp: find_Some_iff)
  moreover have "mirror_first e reaches side os st = liqOrdCreation e o1 side st"
    using Some by (simp add: mirror_first_def)
  moreover have "\<not> at_mark b p" if "o1 = limitOrder e u b p v" for u b p v
    using \<open>\<not> o_is_maker o1\<close> that by (simp add: limitOrder_def)
  ultimately show ?thesis by blast
qed

theorem marketable_orders_are_not_mirrored_witness:
  "mirror_first sample_env (\<lambda>_. True) ''buy'' [sample_sell] (funded_spot\<lparr>admin := Some (Row ''house'')\<rparr>) =
   liqOrdCreation sample_env sample_sell ''buy'' (funded_spot\<lparr>admin := Some (Row ''house'')\<rparr>)"
proof -
  let ?st = "funded_spot\<lparr>admin := Some (Row ''house'')\<rparr>"
  have "sent (liqOrdCreation sample_env sample_sell ''buy'' ?st) \<noteq> sent ?st"
    by (simp add: liqOrdCreation_def house_account_def send_def funded_spot_def hset_order_def take_id_def Let_def)
  moreover have "mirror_first sample_env (\<lambda>_. True) ''buy'' [sample_sell] ?st = liqOrdCreation sample_env sample_sell ''buy'' ?st"
    by (simp add: mirror_first_def is_market_def sample_sell_def sample_order_def)
  ultimately have "mirror_first sample_env (\<lambda>_. True) ''buy'' [sample_sell] ?st \<noteq> ?st" by metis
  from marketable_orders_are_not_mirrored [OF this] show ?thesis by auto
qed

section \<open>A cancel between the lists and the fill\<close>

text \<open>C17: The cancel looks at the pair being matched once, before it takes the row. When the matcher starts on the
  pair after that look, and reads its lists before the row is taken, the cancel pays the reservation back
  although the matcher's list still holds the order.\<close>

theorem cancel_overtakes_the_lists:
  assumes "cancelPreview u (Some (JStr t, JStr i)) st = Inr (t, i)"
    and "hget_order t i st = Some (Row o1)" and "t = open_table ''buy'' pid" and "o_type o1 = ''limit''"
    and "reservationRemaining o1 = Some (Fin m)" "is_num (Fin m)" "0 < m"
    and "holds ''walletbalance_spot'' (u, cancelCurrency o1) q st"
  shows "(\<exists>os. load_side ''buy'' pid (st\<lparr>tradePair := pid\<rparr>) = Some os \<and> o1 \<in> set os) \<and>
    snd (cancelClaim svc u (t, i) (st\<lparr>tradePair := pid\<rparr>)) = (200, ''Order cancelled successfully'') \<and>
    hget_order t i (fst (cancelClaim svc u (t, i) (st\<lparr>tradePair := pid\<rparr>))) = None \<and>
    hashes (fst (cancelClaim svc u (t, i) (st\<lparr>tradePair := pid\<rparr>))) ''walletbalance_spot'' (u, cancelCurrency o1) =
      Some (RDec (incr_round svc (q + spelling m)))"
proof -
  let ?st = "st\<lparr>tradePair := pid\<rparr>"
  have on: "online st" and auth: "cancelAuthorised (Some o1) u t"
    using assms(1,2) by (auto simp: cancelPreview_def parseOrder_def Let_def split: if_splits)
  have row: "hget_order t i ?st = Some (Row o1)" using assms(2) by (simp add: hget_order_def)
  then have "(i, Row o1) \<in> set (tables st t)" by (auto simp: hget_order_def dest: map_of_SomeD)
  then have "hgetall_orders t ?st = Some (orders_of (tables st t)) \<and> o1 \<in> set (orders_of (tables st t))"
    by (force simp: hgetall_orders_def orders_of_def List.map_filter_def image_iff)
  moreover have "holds ''walletbalance_spot'' (u, cancelCurrency o1) q ?st" using assms(8) by (simp add: holds_def)
  ultimately show ?thesis
    using cancel_pays_back [of ?st t i o1 u m q svc] on row auth assms(3-7)
    by (simp add: load_side_def by_date_keeps)
qed


definition hex_order :: order where
  "hex_order = json_order (sample_order\<lparr>o_pair := ''aaaaaaaaaaaaaaaaaaaaaaaa''\<rparr>)"

definition hex_table :: string where
  "hex_table = open_table ''buy'' ''aaaaaaaaaaaaaaaaaaaaaaaa''"

definition hex_book :: spot where
  "hex_book = funded_spot\<lparr>tables := (\<lambda>_. [])(hex_table := [(''o1'', Row hex_order)])\<rparr>"

theorem cancel_overtakes_the_lists_witness:
  "hashes (fst (cancelClaim reference_service ''u'' (hex_table, ''o1'') (hex_book\<lparr>tradePair := ''aaaaaaaaaaaaaaaaaaaaaaaa''\<rparr>)))
     ''walletbalance_spot'' (''u'', ''q'') = Some (RDec (dec17 (100 + spelling 10)))"
proof -
  have t: "OPEN_ORDER_TABLE hex_table" "pair_of_table hex_table = ''aaaaaaaaaaaaaaaaaaaaaaaa''" by code_simp+
  have a: "cancelAuthorised (Some hex_order) ''u'' hex_table"
    by (simp add: cancelAuthorised_def hex_order_def hex_table_def json_order_def sample_order_def starts_with_def open_table_def)
  have h: "hget_order hex_table ''o1'' hex_book = Some (Row hex_order)"
    by (simp add: hget_order_def hex_book_def)
  have e: "\<not> isEmpty (JStr hex_table)" "\<not> isEmpty (JStr ''o1'')" by code_simp+
  have p: "cancelPreview ''u'' (Some (JStr hex_table, JStr ''o1'')) hex_book = Inr (hex_table, ''o1'')"
    using t a h by (simp add: cancelPreview_def parseOrder_def e Let_def del: isEmpty.simps)
      (simp add: hex_book_def funded_spot_def hex_table_def open_table_def)
  have r: "reservationRemaining hex_order = Some (Fin 10)" by code_simp
  have n: "is_num (Fin 10)" by code_simp
  have c: "cancelCurrency hex_order = ''q''" "o_type hex_order = ''limit''"
    by (simp_all add: cancelCurrency_def hex_order_def json_order_def sample_order_def)
  have q: "holds ''walletbalance_spot'' (''u'', cancelCurrency hex_order) 100 hex_book"
    by (simp add: holds_def hex_book_def funded_spot_def)
  show ?thesis
    using cancel_overtakes_the_lists [OF p h hex_table_def c(2) r n _ q, of reference_service] c(1)
    by (simp add: reference_service_def)
qed

end
