(* ===== verification/Wallets.thy ===== *)
theory Wallets
  imports Matched
begin

text \<open>
  The seeding of a wallet (\<^verbatim>\<open>updateUserWallet\<close> of \<^verbatim>\<open>cryptodex-walletapi/controllers/wallet.js\<close> with \<^verbatim>\<open>hsetnx\<close>
  of its \<^verbatim>\<open>controllers/redis.controller.js\<close>), which the order endpoint asks for over the network when a
  balance field is missing. The wallet documents of the database are an argument. Each asset seeds
  two fields, and a field that exists is left alone. Of an asset of a wallet document \<open>a_currency\<close> is its own id,
  under which its balances are stored, and \<open>a_currency_ref\<close> the currency it names.
\<close>

record asset =
  a_currency :: currency_id
  a_coin :: string
  a_currency_ref :: "currency_id option"
  a_spot_bal :: jsval
  a_in_order :: jsval
  a_locked :: jsval

text \<open>A text is stored as it is, everything else as its JSON text.\<close>

definition json_text :: "jsval \<Rightarrow> rval" where
  "json_text v = (case v of
      JNum n \<Rightarrow> json_number n | JStr s \<Rightarrow> RText s
    | JBool b \<Rightarrow> RText (if b then ''true'' else ''false'') | _ \<Rightarrow> RText ''null'')"

definition hsetnx :: "string \<Rightarrow> field \<Rightarrow> jsval \<Rightarrow> spot \<Rightarrow> spot \<times> bool" where
  "hsetnx key f v st = (if hashes st key f = None then (put_hash key f (Some (json_text v)) st, True) else (st, False))"

definition or_else_zero :: "jsval \<Rightarrow> jsval" where
  "or_else_zero v = (if v = JUndef \<or> v = JNull then JNum (Fin 0) else v)"

definition seed_asset :: "user_id \<Rightarrow> asset \<Rightarrow> spot \<Rightarrow> spot" where
  "seed_asset u a st =
     fst (hsetnx IN_ORDER (u, a_currency a) (or_else_zero (a_in_order a))
       (fst (hsetnx ''walletbalance_spot'' (u, a_currency a) (or_else_zero (a_spot_bal a)) st)))"

definition updateUserWallet :: "(user_id \<Rightarrow> asset list option) \<Rightarrow> user_id \<Rightarrow> spot \<Rightarrow> spot \<times> bool" where
  "updateUserWallet docs u st = (case docs u of
      None \<Rightarrow> (st, False)
    | Some assets \<Rightarrow>
        if assets = [] \<or> \<not> online st then (st, False) else (fold (seed_asset u) assets st, True))"

text \<open>
  The order endpoint compares the answer with false. The answer is an object in every case, also
  when the service cannot be reached, so the comparison never holds and the endpoint goes on.
\<close>

definition seeds_from :: "(user_id \<Rightarrow> asset list option) \<Rightarrow> user_id \<Rightarrow> spot \<Rightarrow> spot \<times> bool" where
  "seeds_from docs u st = (fst (updateUserWallet docs u st), True)"

section \<open>Seeding changes no field that exists\<close>

definition only_fills :: "spot \<Rightarrow> spot \<Rightarrow> bool" where
  "only_fills st st' \<longleftrightarrow> st' = st\<lparr>hashes := hashes st'\<rparr> \<and>
     (\<forall>key f v. hashes st key f = Some v \<longrightarrow> hashes st' key f = Some v)"

lemma only_fills_refl [simp]: "only_fills st st"
  by (simp add: only_fills_def)

lemma only_fills_trans:
  assumes "only_fills st st1" "only_fills st1 st2"
  shows "only_fills st st2"
proof -
  from assms have "st1 = st\<lparr>hashes := hashes st1\<rparr>" "st2 = st1\<lparr>hashes := hashes st2\<rparr>"
    by (simp_all add: only_fills_def)
  then have "st2 = st\<lparr>hashes := hashes st2\<rparr>" by (metis redis.update_convs(3) redis.surjective)
  then show ?thesis using assms by (auto simp: only_fills_def)
qed

lemma only_fills_hsetnx: "only_fills st (fst (hsetnx key f v st))"
  by (auto simp: hsetnx_def only_fills_def put_hash_def)

lemma only_fills_seed: "only_fills st (seed_asset u a st)"
  unfolding seed_asset_def by (rule only_fills_trans [OF only_fills_hsetnx only_fills_hsetnx])

lemma only_fills_all: "only_fills st (fold (seed_asset u) as st)"
  by (induction as arbitrary: st) (auto intro: only_fills_trans [OF only_fills_seed])

lemma seeding_only_fills: "only_fills st (fst (updateUserWallet docs u st))"
  by (simp add: updateUserWallet_def only_fills_all split: option.split)

lemma hsetnx_fills: "hashes (fst (hsetnx key f v st)) key f \<noteq> None"
  by (auto simp: hsetnx_def put_hash_def)

lemma only_fills_keeps: "only_fills st st' \<Longrightarrow> hashes st key f \<noteq> None \<Longrightarrow> hashes st' key f \<noteq> None"
  unfolding only_fills_def by blast

lemma seed_asset_fills: "hashes (seed_asset u a st) ''walletbalance_spot'' (u, a_currency a) \<noteq> None"
  unfolding seed_asset_def by (rule only_fills_keeps [OF only_fills_hsetnx hsetnx_fills])

lemma all_seeded:
  "a \<in> set as \<Longrightarrow> hashes (fold (seed_asset u) as st) ''walletbalance_spot'' (u, a_currency a) \<noteq> None"
proof (induction as arbitrary: st)
  case (Cons b bs)
  show ?case
  proof (cases "a = b")
    case True
    show ?thesis using only_fills_keeps [OF only_fills_all seed_asset_fills] by (simp add: True)
  qed (use Cons in auto)
qed simp

text \<open>Seeding a wallet changes no balance and no reservation that exists: it fills fields that are missing and
  nothing else of the store. Afterwards every asset of the wallet has its balance field.\<close>

theorem seeding_overwrites_nothing:
  assumes "updateUserWallet docs u st = (st', seeded)"
  shows "only_fills st st' \<and>
    (seeded \<longrightarrow> (\<forall>a \<in> set (the (docs u)). hashes st' ''walletbalance_spot'' (u, a_currency a) \<noteq> None))"
  using seeding_only_fills [of st docs u] all_seeded assms
  by (auto simp: updateUserWallet_def split: option.splits if_splits)

definition sample_wallet :: "user_id \<Rightarrow> asset list option" where
  "sample_wallet u = Some [\<lparr>a_currency = ''b'', a_coin = ''BTC'', a_currency_ref = None, a_spot_bal = JNum (Fin 7), a_in_order = JUndef,
     a_locked = JUndef\<rparr>]"

theorem seeding_overwrites_nothing_witness:
  "hashes (fst (updateUserWallet sample_wallet ''u'' funded_spot)) ''walletbalance_spot'' (''u'', ''b'') = Some (RDec 100)"
proof -
  obtain st' seeded where r: "updateUserWallet sample_wallet ''u'' funded_spot = (st', seeded)" by (metis surj_pair)
  have "hashes funded_spot ''walletbalance_spot'' (''u'', ''b'') = Some (RDec 100)" by (simp add: funded_spot_def)
  then show ?thesis using seeding_overwrites_nothing [OF r] r by (simp add: only_fills_def)
qed

end
