(* ===== verification/Accounting.thy ===== *)
theory Accounting
  imports Wallets
begin

text \<open>
  That every handler changes spot balances by logged movements only, and that the sizes stored in
  the book are doubles, which the movements need. \<open>money_moves\<close> is the contract of a handler
  towards the ledger: each handler is taken through it once, and the chain of every ledger follows
  for all of them from the one lemma of the locale \<open>value_handler\<close>.
\<close>

section \<open>The contract\<close>

definition same_wallet :: "spot \<Rightarrow> spot \<Rightarrow> bool" where
  "same_wallet st st' \<longleftrightarrow> hashes st' ''walletbalance_spot'' = hashes st ''walletbalance_spot'' \<and>
     streams st' = streams st \<and> next_id st' = next_id st"

inductive money_moves :: "service \<Rightarrow> spot \<Rightarrow> spot \<Rightarrow> bool" for svc where
  still: "same_wallet st st' \<Longrightarrow> money_moves svc st st'"
| seeded: "only_fills st st' \<Longrightarrow> money_moves svc st st'"
| moved: "movement_ok m \<Longrightarrow> money_moves svc st (run_movement svc ''walletbalance_spot'' m st)"
| followed: "money_moves svc st st1 \<Longrightarrow> money_moves svc st1 st2 \<Longrightarrow> money_moves svc st st2"

lemma same_wallet_refl [simp]: "same_wallet st st"
  by (simp add: same_wallet_def)

lemma chained_same:
  "chained svc key f st \<Longrightarrow> hashes st' key f = hashes st key f \<Longrightarrow> streams st' = streams st \<Longrightarrow>
   next_id st' = next_id st \<Longrightarrow> chained svc key f st'"
  by (simp add: chained_def)

lemma money_moves_chained:
  assumes "redis_server svc"
  shows "money_moves svc st st' \<Longrightarrow> chained svc ''walletbalance_spot'' f st \<Longrightarrow> chained svc ''walletbalance_spot'' f st'"
proof (induction rule: money_moves.induct)
  case (still st st')
  then show ?case by (auto simp: same_wallet_def intro: chained_same)
next
  case (seeded st st')
  then have "streams st' = streams st" "next_id st' = next_id st"
    by (auto simp: only_fills_def) (metis redis.select_convs(4,5) redis.surjective redis.update_convs(3))+
  moreover have "hashes st' ''walletbalance_spot'' f = Some (after (last (streams st f)))" if "streams st f \<noteq> []"
  proof -
    have "hashes st ''walletbalance_spot'' f = Some (after (last (streams st f)))"
      using seeded(2) that by (simp add: chained_def Let_def)
    then show ?thesis using seeded(1) unfolding only_fills_def by blast
  qed
  ultimately show ?case using seeded(2) by (auto simp: chained_def Let_def)
next
  case (moved m st)
  then show ?case using redis_server.chained_movement [OF assms] by blast
qed blast

text \<open>Sizes: the numbers among the fields a fill or a refund is computed from are doubles.\<close>

definition double_val :: "jsval \<Rightarrow> bool" where
  "double_val v \<longleftrightarrow> (\<forall>n. v = JNum n \<longrightarrow> is_num n)"

lemma is_num_parse_base: "is_num (parse_base b s)"
  by (simp add: parse_base_def Let_def)

lemma is_num_number_str [simp]: "is_num (number_str s)"
  by (auto simp: number_str_def parse_signed_def is_num_parse_base Let_def
      split: option.splits list.splits if_splits dest: is_num_parse_unsigned)

lemma is_num_0_1 [simp]: "is_num (Fin 0)" "is_num (Fin 1)"
  by code_simp+

lemma is_num_to_number: "double_val v \<Longrightarrow> is_num (to_number v)"
  by (cases v) (auto simp: double_val_def simp del: is_num.simps(1))

lemma is_num_parse_float: "double_val v \<Longrightarrow> is_num (parse_float v)"
  by (cases v) (auto simp: double_val_def)

lemma double_val_simps [simp]: "double_val (JNum n) \<longleftrightarrow> is_num n" "double_val (JStr s)" "double_val JUndef" "double_val JNull"
  by (simp_all add: double_val_def)

lemma double_json_val [simp]: "double_val v \<Longrightarrow> double_val (json_val v)"
  by (cases v) (auto simp: double_val_def)

lemma double_cut: "is_num (parse_float v) \<Longrightarrow> double_val (toFixedDownBy v d)"
  using is_num_toFixedDown
  by (auto simp: toFixedDownBy_def double_val_def split: option.splits if_splits)

definition doubles :: "order \<Rightarrow> bool" where
  "doubles o1 \<longleftrightarrow> double_val (o_quantity o1) \<and> double_val (o_amount o1) \<and> double_val (o_value o1)"

definition doubles_stored :: "spot \<Rightarrow> bool" where
  "doubles_stored st \<longleftrightarrow> (\<forall>key i o1. (i, Row o1) \<in> set (tables st key) \<longrightarrow> doubles o1)"

lemma doubles_json [simp]: "doubles o1 \<Longrightarrow> doubles (json_order o1)"
  by (simp add: doubles_def json_order_def)

text \<open>A handler keeps to both: from a book of doubles it moves money as it should and leaves a book of doubles.\<close>

definition kept :: "service \<Rightarrow> spot \<Rightarrow> spot \<Rightarrow> bool" where
  "kept svc st st' \<longleftrightarrow> (doubles_stored st \<longrightarrow> doubles_stored st' \<and> money_moves svc st st')"

lemma kept_refl [simp]: "kept svc st st"
  by (simp add: kept_def money_moves.still)

lemma kept_trans [trans]: "kept svc st st1 \<Longrightarrow> kept svc st1 st2 \<Longrightarrow> kept svc st st2"
  by (auto simp: kept_def intro: money_moves.followed)

lemma kept_same:
  assumes "hashes st' ''walletbalance_spot'' = hashes st ''walletbalance_spot''" "streams st' = streams st"
    "next_id st' = next_id st" "tables st' = tables st"
  shows "kept svc st st'"
  using assms by (auto simp: kept_def doubles_stored_def same_wallet_def intro: money_moves.still)

text \<open>
  The contract on a relation: the steps of whatever holds the exchange's store, under a proviso.
\<close>

locale value_handler =
  fixes svc :: service and wallet :: "'s \<Rightarrow> spot" and proviso :: bool and step :: "'s \<Rightarrow> 's \<Rightarrow> bool"
  assumes keeps: "proviso \<Longrightarrow> step s s' \<Longrightarrow> kept svc (wallet s) (wallet s')"
begin

lemma run_kept: "step\<^sup>*\<^sup>* s s' \<Longrightarrow> proviso \<Longrightarrow> kept svc (wallet s) (wallet s')"
  by (induction rule: rtranclp.induct) (auto intro: kept_trans keeps)

lemma run_chained:
  assumes "redis_server svc" "proviso" "step\<^sup>*\<^sup>* s s'" "doubles_stored (wallet s)"
    and "chained svc ''walletbalance_spot'' f (wallet s)"
  shows "chained svc ''walletbalance_spot'' f (wallet s')"
  by (rule money_moves_chained [OF assms(1) _ assms(5)]) (use run_kept [OF assms(3,2)] assms(4) in \<open>simp add: kept_def\<close>)

lemma run_doubles:
  "proviso \<Longrightarrow> step\<^sup>*\<^sup>* s s' \<Longrightarrow> doubles_stored (wallet s) \<Longrightarrow> doubles_stored (wallet s')"
  using run_kept by (simp add: kept_def)

end

end
