(* ===== verification/Conduct.thy ===== *)
theory Conduct
  imports Handlers
begin

text \<open>
  The fills and the matcher meet the contract: from orders of doubles they move money by logged
  movements, and the orders they leave in the lists and in the book are of doubles again.
\<close>

section \<open>The limit fill\<close>

lemma doubles_fill: "doubles o1 \<Longrightarrow> doubles (apply_fill a x o1)"
  by (simp add: doubles_def apply_fill_def left_over_def Let_def double_cut)

lemma doubles_status [simp]:
  "doubles (o1\<lparr>o_status := s\<rparr>) \<longleftrightarrow> doubles o1" "doubles (o1\<lparr>o_price := p\<rparr>) \<longleftrightarrow> doubles o1"
  by (simp_all add: doubles_def)

lemma kept_push [simp]: "kept svc st (push_history o1 st)" "kept svc st (push_trade f st)"
  by (simp_all add: push_history_def push_trade_def kept_same)

lemma kept_improvement: "kept svc st (refundImprovement svc synthetic mk avg ex b st)"
proof (cases "improvement synthetic mk avg ex b")
  case None
  then show ?thesis by (simp add: refundImprovement_def)
next
  case (Some r)
  obtain st1 rep where m: "moveBalanceSigned svc ''walletbalance_spot'' (o_user b, o_second_id b) (JNum r)
      ''price_improvement_refund'' [] st = (st1, rep)" by (metis surj_pair)
  have "refundImprovement svc synthetic mk avg ex b st = sends [Passbook (refund_line b r (reply_value rep)
      (if is_zero (o_quantity b) then toFixedDown (JNum r) 8 else JNum r) ''spot_limit_bal_retrieve''),
      AssetPush (o_user b) (o_second_id b) (wallet_value (reply_value rep))] st1"
    using Some m by (simp add: refundImprovement_def Let_def)
  then show ?thesis
    using kept_trans [OF kept_signed [OF m is_num_improvement [OF Some]] kept_sends(1)] by simp
qed

lemma kept_finish:
  assumes "finish_order svc side synthetic c coin consumed o1 st = (st', o2)"
  shows "kept svc st st' \<and> (doubles o2 \<longleftrightarrow> doubles o1)"
proof -
  let ?u = "if synthetic then Fin 0 else unspentReservationOf o1 consumed"
  obtain st1 o3 where r: "release1 svc o1 c consumed True st = (st1, o3)" by (metis surj_pair)
  obtain st2 w where u: "refundUnspentReservation svc o3 c coin ?u st1 = (st2, w)" by (metis surj_pair)
  have eq: "o2 = o3" "st' = push_history o3 (hdel_order (open_table side (o_pair o3)) (o_id o3)
      (hset_history (o_user o3) (o_id o3) o3 st2))"
    using assms r u by (auto simp: finish_order_def Let_def)
  have "is_num ?u" by (simp add: is_num_unspent del: is_num.simps(1))
  from kept_trans [OF conjunct1 [OF kept_release1 [OF r]] kept_unspent [OF u this]]
  have "kept svc st st2" .
  also have "kept svc st2 (hset_history (o_user o3) (o_id o3) o3 st2)" by simp
  also have "kept svc \<dots> (hdel_order (open_table side (o_pair o3)) (o_id o3) (hset_history (o_user o3) (o_id o3) o3 st2))" by simp
  also have "kept svc \<dots> st'" by (simp add: eq)
  finally show ?thesis using kept_release1 [OF r] by (simp add: eq)
qed

lemma kept_keep:
  assumes "keep_order svc side c consumed o1 st = (st', o2)" and "doubles o1"
  shows "kept svc st st' \<and> doubles o2"
proof -
  obtain st1 o3 where r: "release1 svc o1 c consumed False st = (st1, o3)" by (metis surj_pair)
  let ?t = "open_table side (o_pair o3)"
  have eq: "o2 = o3" "st' = hset_order ?t (o_id o3) o3 (hdel_order ?t (o_id o3) (push_history o3 st1))"
    using assms(1) r by (auto simp: keep_order_def Let_def)
  have d: "doubles o3" using kept_release1 [OF r] assms(2) by simp
  have "kept svc st st1" using kept_release1 [OF r] by simp
  also have "kept svc st1 (push_history o3 st1)" by simp
  also have "kept svc \<dots> (hdel_order ?t (o_id o3) (push_history o3 st1))" by simp
  also have "kept svc \<dots> st'" by (simp add: eq kept_hset d)
  finally show ?thesis using d by (simp add: eq)
qed

lemma kept_settleBuy:
  assumes "settleBuy svc synthetic mk avg ex b st = (st', b')" and "doubles b"
  shows "kept svc st st' \<and> doubles b'"
proof (cases "is_zero (o_quantity b)")
  case True
  then have "finish_order svc ''buy'' synthetic (o_second_id b) (o_second b) (JNum (to_number (o_price b) * ex))
      (b\<lparr>o_status := ''completed''\<rparr>) (refundImprovement svc synthetic mk avg ex b st) = (st', b')"
    using assms(1) by (simp add: settleBuy_def Let_def)
  from kept_finish [OF this] show ?thesis
    using assms(2) kept_trans [OF kept_improvement] by auto
next
  case False
  then have "keep_order svc ''buy'' (o_second_id b) (JNum (to_number (o_price b) * ex))
      (b\<lparr>o_status := ''pending''\<rparr>) (refundImprovement svc synthetic mk avg ex b st) = (st', b')"
    using assms(1) by (simp add: settleBuy_def Let_def)
  from kept_keep [OF this] show ?thesis
    using assms(2) kept_trans [OF kept_improvement] by auto
qed

lemma kept_settleSell:
  assumes "settleSell svc synthetic ex s st = (st', s')" and "doubles s"
  shows "kept svc st st' \<and> doubles s'"
proof (cases "is_zero (o_quantity s)")
  case True
  then show ?thesis using assms kept_finish by (fastforce simp: settleSell_def)
next
  case False
  then have "keep_order svc ''sell'' (o_first_id s) (JNum ex) (s\<lparr>o_status := ''pending''\<rparr>) st = (st', s')"
    using assms(1) by (simp add: settleSell_def)
  from kept_keep [OF this] assms(2) show ?thesis by simp
qed

lemma kept_credits:
  assumes "is_num ex" "is_num ev"
  shows "kept svc st (settle_credits svc p bs ss ex ev b s st)"
proof -
  obtain st1 w1 where c1: "settlementCredit svc b (o_first_id b) (JNum ex) bs st = (st1, w1)" by (metis surj_pair)
  obtain st2 w2 where c2: "settlementCredit svc s (o_second_id s) (JNum ev) ss st1 = (st2, w2)" by (metis surj_pair)
  have "kept svc st st2" by (rule kept_trans [OF kept_settlement [OF c1 assms(1)] kept_settlement [OF c2 assms(2)]])
  then have "kept svc st (sends es st2)" for es by (rule kept_trans) simp
  then show ?thesis using c1 c2 by (simp add: settle_credits_def)
qed

lemma kept_limitFill:
  assumes "limitFill e p a n b s st = (st', b', s')" and "doubles b" "doubles s"
  shows "kept (server e) st st' \<and> doubles b' \<and> doubles s'"
proof -
  define mk where "mk = makerSideOf b s a"
  define ex where "ex = exec_amount b s"
  define avg where "avg = maker_price mk b s"
  define ev where "ev = exec_value mk b s ex"
  obtain st1 b1 where sb: "settleBuy (server e) (isSyntheticOrder b a) mk avg ex (apply_fill avg ex b) st = (st1, b1)"
    by (metis surj_pair)
  obtain st2 s1 where ss: "settleSell (server e) (isSyntheticOrder s a) ex (apply_fill avg ex s) st1 = (st2, s1)"
    by (metis surj_pair)
  have "\<exists>F M. limitFill e p a n b s st =
      (settle_credits (server e) p (isSyntheticOrder b a) (isSyntheticOrder s a) ex ev b1 s1 (push_trade F (sends M st2)), b1, s1)"
    unfolding limitFill_def Let_def ex_def [symmetric] mk_def [symmetric] avg_def [symmetric] ev_def [symmetric] sb ss
      prod.case by (intro exI) (rule refl)
  then obtain F M where eq: "b' = b1" "s' = s1"
      "st' = settle_credits (server e) p (isSyntheticOrder b a) (isSyntheticOrder s a) ex ev b1 s1 (push_trade F (sends M st2))"
    using assms(1) by auto
  note kb = kept_settleBuy [OF sb doubles_fill [OF assms(2)]] and ks = kept_settleSell [OF ss doubles_fill [OF assms(3)]]
  have "kept (server e) st st2" using kb ks kept_trans by blast
  also have "kept (server e) st2 (sends M st2)" by simp
  also have "kept (server e) \<dots> (push_trade F (sends M st2))" by simp
  also have "kept (server e) \<dots> st'"
    unfolding eq by (rule kept_credits) (simp_all add: ex_def ev_def is_num_exec assms(2,3) is_num_exec_value)
  finally show ?thesis using kb ks eq by simp
qed

end
