(* ===== verification/MarketConduct.thy ===== *)
theory MarketConduct
  imports Conduct
begin

text \<open>The market fill, the loop and the pass meet the contract.\<close>

section \<open>The market fill\<close>

lemma doubles_update [simp]:
  "doubles (o1\<lparr>o_quantity := v\<rparr>) \<longleftrightarrow> double_val v \<and> double_val (o_amount o1) \<and> double_val (o_value o1)"
  "doubles (o1\<lparr>o_amount := v\<rparr>) \<longleftrightarrow> double_val v \<and> double_val (o_quantity o1) \<and> double_val (o_value o1)"
  "doubles (o1\<lparr>o_value := v\<rparr>) \<longleftrightarrow> double_val v \<and> double_val (o_quantity o1) \<and> double_val (o_amount o1)"
  by (auto simp: doubles_def)

lemma doubles_parts: "doubles o1 \<Longrightarrow> double_val (o_quantity o1) \<and> double_val (o_amount o1) \<and> double_val (o_value o1)"
  by (simp add: doubles_def)

lemma is_num_budget: "is_num (unspentBudget b)"
  by (simp add: unspentBudget_def)

text \<open>A refund outside the reservation: a signed movement and its messages.\<close>

definition refund_shift :: "service \<Rightarrow> field \<Rightarrow> jsnum \<Rightarrow> (rval option \<Rightarrow> effect list) \<Rightarrow> spot \<Rightarrow> spot" where
  "refund_shift svc f n es st =
     (let (st1, rep) = moveBalanceSigned svc ''walletbalance_spot'' f (JNum n) ''price_improvement_refund'' [] st
      in sends (es (reply_value rep)) st1)"

lemma kept_shift: "is_num n \<Longrightarrow> kept svc st (refund_shift svc f n es st)"
  unfolding refund_shift_def
  by (auto split: prod.split intro: kept_trans [OF kept_signed kept_sends(1)])

lemma kept_marketBuyDone:
  assumes "marketBuyDone svc synthetic ex b0 st = (st', b')"
  shows "kept svc st st' \<and> (doubles b' \<longleftrightarrow> doubles b0)"
proof -
  let ?b = "b0\<lparr>o_status := ''completed''\<rparr>" and ?c = "JNum (to_number (o_price b0) * ex)"
  let ?u = "if synthetic then Fin 0 else unspentReservationOf ?b ?c"
  obtain st1 b1 where r: "release1 svc ?b (o_second_id b0) ?c True st = (st1, b1)" by (metis surj_pair)
  obtain st2 w where u: "refundUnspentReservation svc b1 (o_second_id b1) (o_second b1) ?u st1 = (st2, w)" by (metis surj_pair)
  have n: "is_num ?u" by (simp add: is_num_unspent del: is_num.simps(1))
  define st3 where "st3 = (if unspentBudget b1 > Fin 0 \<and> \<not> synthetic \<and> o_liquidity b1 = ''off'' \<and> \<not> o_is_liquidity b1
      then refund_shift svc (o_user b1, o_second_id b1) (unspentBudget b1)
        (\<lambda>w. [Passbook (retrieve_line b1 (o_second b1) (o_second_id b1) (unspentBudget b1) w True ''spot_market_bal_retrieve_buy''),
              AssetPush (o_user b1) (o_second_id b1) (wallet_value w)]) st2 else st2)"
  have eq: "b' = b1" "st' = send (SaveHistory b1) (hdel_order (open_table ''buy'' (o_pair b1)) (o_id b1)
      (hset_history (o_user b1) (o_id b1) b1 st3))"
    using assms r u by (auto simp: marketBuyDone_def st3_def refund_shift_def Let_def split: prod.splits)
  have "kept svc st st2" by (rule kept_trans [OF conjunct1 [OF kept_release1 [OF r]] kept_unspent [OF u n]])
  also have "kept svc st2 st3" by (simp add: st3_def kept_shift is_num_budget)
  also have "kept svc st3 (hset_history (o_user b1) (o_id b1) b1 st3)" by simp
  also have "kept svc \<dots> (hdel_order (open_table ''buy'' (o_pair b1)) (o_id b1) (hset_history (o_user b1) (o_id b1) b1 st3))" by simp
  also have "kept svc \<dots> st'" by (simp add: eq)
  finally show ?thesis using kept_release1 [OF r] by (simp add: eq)
qed

lemma kept_rewrite_row: "doubles o1 \<Longrightarrow> kept svc st (rewrite_row side o1 st)"
  unfolding rewrite_row_def Let_def by (rule kept_trans [OF kept_hdel kept_hset])

lemma kept_marketBuyRest:
  assumes "marketBuyRest svc synthetic alone b0 st = (st', b')" and "doubles b0"
  shows "kept svc st st' \<and> doubles b'"
proof -
  let ?r = "unspentBudget b0"
  define b where "b = b0\<lparr>o_value := JNum ?r, o_quantity := JNum (Fin 0)\<rparr>"
  have d: "doubles b" using doubles_parts [OF assms(2)] by (simp add: b_def is_num_budget doubles_def del: is_num.simps(1))
  show ?thesis
  proof (cases "?r > Fin 0 \<and> alone")
    case True
    show ?thesis
    proof (cases "\<not> synthetic \<and> o_liquidity b = ''off'' \<and> \<not> o_is_liquidity b")
      case refunds: True
      let ?b = "b\<lparr>o_status := ''completed''\<rparr>"
      let ?st = "hset_history (o_user b) (o_id b) ?b st"
      obtain st2 rep where m: "moveBalanceSigned svc ''walletbalance_spot'' (o_user b, o_second_id b) (JNum ?r)
          ''price_improvement_refund'' [] ?st = (st2, rep)" by (metis surj_pair)
      have eq: "b' = ?b" "\<exists>es. st' = sends es (hdel_order (open_table ''buy'' (o_pair b)) (o_id b) st2)"
        using assms(1) True refunds m by (auto simp: marketBuyRest_def b_def [symmetric] Let_def)
      have "kept svc st ?st" by simp
      also have "kept svc ?st st2" by (rule kept_signed [OF m is_num_budget])
      also have "kept svc st2 (hdel_order (open_table ''buy'' (o_pair b)) (o_id b) st2)" by simp
      also have "kept svc \<dots> st'" using eq(2) by auto
      finally show ?thesis using eq(1) d by simp
    next
      case False
      then show ?thesis using assms(1) True d by (auto simp: marketBuyRest_def b_def [symmetric] Let_def)
    qed
  next
    case False
    let ?b = "b\<lparr>o_price := JStr ''market'', o_status := ''pending''\<rparr>"
    have "b' = ?b" "st' = send (SaveHistory ?b) (rewrite_row ''buy'' ?b st)"
      using assms(1) False by (auto simp: marketBuyRest_def b_def [symmetric] Let_def)
    moreover have "kept svc st (rewrite_row ''buy'' ?b st)" by (rule kept_rewrite_row) (simp add: d)
    ultimately show ?thesis using kept_trans [OF _ kept_sends(2)] d by simp
  qed
qed

lemma kept_limitRest:
  assumes "limitRest svc side c consumed o0 st = (st', o')" and "doubles o0"
  shows "kept svc st st' \<and> doubles o'"
proof -
  obtain st1 o1 where r: "release1 svc (o0\<lparr>o_status := ''pending''\<rparr>) c consumed False st = (st1, o1)" by (metis surj_pair)
  have eq: "o' = o1" "st' = send (SaveHistory o1) (rewrite_row side o1 st1)"
    using assms(1) r by (auto simp: limitRest_def Let_def)
  have d: "doubles o1" using kept_release1 [OF r] assms(2) by simp
  have "kept svc st st1" using kept_release1 [OF r] by simp
  also have "kept svc st1 (rewrite_row side o1 st1)" by (rule kept_rewrite_row [OF d])
  also have "kept svc \<dots> st'" by (simp add: eq)
  finally show ?thesis using d by (simp add: eq)
qed

lemma kept_marketBuy:
  assumes "marketBuy svc synthetic alone ex b st = (st', b', bought)" and "doubles b"
  shows "kept svc st st' \<and> doubles b'"
  using assms kept_marketBuyDone kept_marketBuyRest kept_limitRest
  by (auto simp: marketBuy_def split: if_splits prod.splits)

lemma kept_marketSellDone:
  assumes "marketSellDone svc synthetic ex s0 st = (st', s')"
  shows "kept svc st st' \<and> (doubles s' \<longleftrightarrow> doubles s0)"
proof -
  let ?s = "s0\<lparr>o_status := ''completed''\<rparr>"
  let ?u = "if synthetic then Fin 0 else unspentReservationOf ?s (JNum ex)"
  obtain st1 s1 where r: "release1 svc ?s (o_first_id s0) (JNum ex) True st = (st1, s1)" by (metis surj_pair)
  obtain st2 w where u: "refundUnspentReservation svc s1 (o_first_id s1) (o_first s1) ?u st1 = (st2, w)" by (metis surj_pair)
  have n: "is_num ?u" by (simp add: is_num_unspent del: is_num.simps(1))
  have eq: "s' = s1" "st' = send (SaveHistory s1) (hdel_order (open_table ''sell'' (o_pair s1)) (o_id s1)
      (hset_history (o_user s1) (o_id s1) s1 st2))"
    using assms r u by (auto simp: marketSellDone_def Let_def split: prod.splits)
  have "kept svc st st2" by (rule kept_trans [OF conjunct1 [OF kept_release1 [OF r]] kept_unspent [OF u n]])
  also have "kept svc st2 (hset_history (o_user s1) (o_id s1) s1 st2)" by simp
  also have "kept svc \<dots> (hdel_order (open_table ''sell'' (o_pair s1)) (o_id s1) (hset_history (o_user s1) (o_id s1) s1 st2))" by simp
  also have "kept svc \<dots> st'" by (simp add: eq)
  finally show ?thesis using kept_release1 [OF r] by (simp add: eq)
qed

lemma kept_marketSellRest:
  assumes "marketSellRest svc synthetic alone r s0 st = (st', s', marks)" and "doubles s0" and "is_num r"
  shows "kept svc st st' \<and> doubles s'"
proof -
  define s where "s = s0\<lparr>o_price := JStr ''market'', o_amount := o_quantity s0\<rparr>"
  have d: "doubles s" using assms(2) by (simp add: s_def doubles_def)
  show ?thesis
  proof (cases "r > Fin 0 \<and> alone")
    case True
    show ?thesis
    proof (cases "\<not> synthetic \<and> o_liquidity s = ''off''")
      case refunds: True
      let ?s = "s\<lparr>o_status := ''completed''\<rparr>"
      let ?st = "hset_history (o_user s) (o_id s) ?s st"
      obtain st2 rep where m: "moveBalanceSigned svc ''walletbalance_spot'' (o_user s, o_first_id s) (JNum r)
          ''price_improvement_refund'' [] ?st = (st2, rep)" by (metis surj_pair)
      have eq: "s' = ?s" "\<exists>es. st' = sends es (hdel_order (open_table ''sell'' (o_pair s)) (o_id s) st2)"
        using assms(1) True refunds m by (auto simp: marketSellRest_def s_def [symmetric] Let_def)
      have "kept svc st ?st" by simp
      also have "kept svc ?st st2" by (rule kept_signed [OF m assms(3)])
      also have "kept svc st2 (hdel_order (open_table ''sell'' (o_pair s)) (o_id s) st2)" by simp
      also have "kept svc \<dots> st'" using eq(2) by auto
      finally show ?thesis using eq(1) d by simp
    next
      case False
      then show ?thesis using assms(1) True d by (auto simp: marketSellRest_def s_def [symmetric] Let_def)
    qed
  next
    case False
    then have "s' = s" "st' = send (SaveHistory s) (rewrite_row ''sell'' s st)"
      using assms(1) by (auto simp: marketSellRest_def s_def [symmetric] Let_def)
    then show ?thesis using kept_trans [OF kept_rewrite_row [OF d] kept_sends(2)] d by simp
  qed
qed

lemma kept_marketSell:
  assumes "marketSell svc synthetic alone ex amt s st = (st', s', sold, marks)" and "doubles s"
  shows "kept svc st st' \<and> doubles s'"
  using assms kept_marketSellDone kept_marketSellRest [of svc synthetic alone "amt - ex" s st] kept_limitRest
  by (auto simp: marketSell_def split: if_splits prod.splits)


section \<open>Books\<close>

definition book_doubles :: "book \<Rightarrow> bool" where
  "book_doubles bk \<longleftrightarrow> (\<forall>o1 \<in> set (b_buys bk) \<union> set (b_sells bk). doubles o1)"

definition book_kept :: "service \<Rightarrow> book \<Rightarrow> book \<Rightarrow> bool" where
  "book_kept svc bk bk' \<longleftrightarrow> book_doubles bk' \<and> kept svc (b_store bk) (b_store bk')"

lemma refresh_doubles: "\<forall>o1 \<in> set os. doubles o1 \<Longrightarrow> doubles o2 \<Longrightarrow> \<forall>o1 \<in> set (refresh_order o2 os). doubles o1"
  by (auto simp: refresh_order_def)

lemma shift_doubles: "\<forall>o1 \<in> set os. doubles o1 \<Longrightarrow> \<forall>o1 \<in> set (shift_if gone os). doubles o1"
  by (auto simp: shift_if_def dest: set_tl_subset)

lemma kept_draw [simp]: "kept svc st (fst (draw_unique st))"
  by (simp add: draw_unique_def kept_same)

lemma kept_marketFill:
  assumes "marketFill e p a b s bk = (bk', b', s')" and "doubles b" "doubles s" "book_doubles bk"
  shows "book_kept (server e) bk bk' \<and> doubles b' \<and> doubles s'"
proof -
  let ?svc = "server e"
  define mk where "mk = makerSideOf b s a"
  define ex where "ex = exec_amount b s"
  define avg where "avg = (if mk = ''buy'' then o_price b else o_price s)"
  define ev where "ev = exec_value mk b s ex"
  define bs where "bs = isSyntheticOrder b a"
  define ss where "ss = isSyntheticOrder s a"
  obtain st n where dr: "draw_unique (b_store bk) = (st, n)" by (metis surj_pair)
  have d0: "kept ?svc (b_store bk) st" using kept_draw [of ?svc "b_store bk"] dr by simp
  show ?thesis
  proof (cases "ex > Fin 0")
    case False
    then have "bk' = bk\<lparr>b_store := st\<rparr>" "b' = b" "s' = s"
      using assms(1) dr by (auto simp: marketFill_def ex_def [symmetric] Let_def)
    then show ?thesis using d0 assms(2-4) by (simp add: book_kept_def book_doubles_def)
  next
    case True
    obtain st1 b2 bought where mb: "marketBuy ?svc bs (only_counterparty (b_sells bk) s) ex (apply_fill avg ex b) st = (st1, b2, bought)"
      by (metis surj_pair)
    define buys where "buys = shift_if bought (refresh_order b2 (b_buys bk))"
    obtain st2 s2 sold marks where ms: "marketSell ?svc ss (only_counterparty buys s) ex (to_number (o_quantity s))
        (apply_fill avg ex s) st1 = (st2, s2, sold, marks)"
      by (metis surj_pair)
    define b3 where "b3 = (if marks then b2\<lparr>o_status := ''completed''\<rparr> else b2)"
    have "\<exists>M. marketFill e p a b s bk = (\<lparr>b_store = settle_credits ?svc p bs ss ex ev b3 s2 (sends M st2),
        b_buys = refresh_order b3 buys, b_sells = shift_if sold (refresh_order s2 (b_sells bk))\<rparr>, b3, s2)"
      using True unfolding marketFill_def Let_def dr prod.case ex_def [symmetric] mk_def [symmetric] avg_def [symmetric]
        ev_def [symmetric] bs_def [symmetric] ss_def [symmetric] mb buys_def [symmetric] ms b3_def [symmetric]
      by (auto intro!: exI)
    then obtain M where eq: "bk' = \<lparr>b_store = settle_credits ?svc p bs ss ex ev b3 s2 (sends M st2),
        b_buys = refresh_order b3 buys, b_sells = shift_if sold (refresh_order s2 (b_sells bk))\<rparr>" "b' = b3" "s' = s2"
      using assms(1) by auto
    note kb = kept_marketBuy [OF mb doubles_fill [OF assms(2)]] and ks = kept_marketSell [OF ms doubles_fill [OF assms(3)]]
    have d3: "doubles b3" using kb by (simp add: b3_def)
    have lists: "\<forall>o1 \<in> set (refresh_order b3 buys). doubles o1" "\<forall>o1 \<in> set (shift_if sold (refresh_order s2 (b_sells bk))). doubles o1"
      unfolding buys_def using assms(4) kb ks d3
      by (intro refresh_doubles shift_doubles; simp add: book_doubles_def)+
    note d0
    also have "kept ?svc st st1" using kb by simp
    also have "kept ?svc st1 st2" using ks by simp
    also have "kept ?svc st2 (sends M st2)" by simp
    also have "kept ?svc \<dots> (settle_credits ?svc p bs ss ex ev b3 s2 (sends M st2))"
      by (rule kept_credits) (simp_all add: ex_def ev_def is_num_exec assms(2,3) is_num_exec_value)
    finally show ?thesis using lists d3 ks unfolding eq book_kept_def book_doubles_def by auto
  qed
qed

lemma kept_marketMatching:
  assumes "marketMatching e p b s bk = (bk', b', s')" and "doubles b" "doubles s" "book_doubles bk"
  shows "book_kept (server e) bk bk' \<and> doubles b' \<and> doubles s'"
  using assms kept_marketFill [of e p _ b s bk bk' b' s']
  by (auto simp: marketMatching_def book_kept_def split: if_splits reply.splits)

end
