(* ===== verification/PassConduct.thy ===== *)
theory PassConduct
  imports MarketConduct
begin

text \<open>The loop of the matcher, a whole pass and the refresh of the ladder meet the contract.\<close>

section \<open>Turns\<close>

lemma book_kept_trans: "book_kept svc bk bk1 \<Longrightarrow> book_kept svc bk1 bk2 \<Longrightarrow> book_kept svc bk bk2"
  by (auto simp: book_kept_def intro: kept_trans)

lemma book_kept_lists:
  assumes "book_doubles bk" "set bs \<subseteq> set (b_buys bk)" "set ss \<subseteq> set (b_sells bk)" "kept svc (b_store bk) st"
  shows "book_kept svc bk \<lparr>b_store = st, b_buys = bs, b_sells = ss\<rparr>"
  using assms by (auto simp: book_kept_def book_doubles_def)

lemma splice_subset: "set (splice_first P os) \<subseteq> set os"
  by (auto simp: splice_first_def dest: in_set_butlastD set_takeWhileD set_tl_subset set_dropWhileD split: option.splits)

lemma butlast_subset: "set (butlast os) \<subseteq> set os"
  by (auto dest: in_set_butlastD)

lemma tl_subset: "set (tl os) \<subseteq> set os"
  by (auto dest: set_tl_subset)

lemmas list_subsets = splice_subset butlast_subset tl_subset

lemma refresh_cases: "o1 \<in> set (refresh_order o2 os) \<Longrightarrow> o1 = o2 \<or> o1 \<in> set os"
  by (auto simp: refresh_order_def split: if_splits)

lemma stamp_doubles: "book_doubles bk \<Longrightarrow> doubles o1 \<Longrightarrow> book_doubles (stamp_buy o1 bk) \<and> book_doubles (stamp_sell o1 bk)"
  by (auto simp: book_doubles_def stamp_buy_def stamp_sell_def dest!: refresh_cases)

lemma stamp_store [simp]: "b_store (stamp_buy o1 bk) = b_store bk" "b_store (stamp_sell o1 bk) = b_store bk"
  by (simp_all add: stamp_buy_def stamp_sell_def)

text \<open>A market order stamped with a price and a size, matched with an order of the book.\<close>

lemma kept_stamped:
  assumes "marketMatching e p b s bk1 = (bk', b', s')" and "bk1 = stamp_buy b bk \<or> bk1 = stamp_sell s bk"
    and "doubles b" "doubles s" "book_doubles bk"
  shows "book_kept (server e) bk bk' \<and> doubles b' \<and> doubles s'"
  using kept_marketMatching [OF assms(1,3,4)] assms(2,5) stamp_doubles [OF assms(5,3)] stamp_doubles [OF assms(5,4)]
  by (auto simp: book_kept_def)

lemma first_limit_doubles:
  assumes "book_doubles bk"
  shows "first_limit (b_buys bk) = Some o1 \<Longrightarrow> doubles o1" "first_limit (b_sells bk) = Some o1 \<Longrightarrow> doubles o1"
  using assms by (auto simp: first_limit_def find_Some_iff book_doubles_def)

definition turn_kept :: "service \<Rightarrow> book \<Rightarrow> book + (book \<times> order \<times> order) \<Rightarrow> bool" where
  "turn_kept svc bk r = (case r of Inl bk' \<Rightarrow> book_kept svc bk bk'
     | Inr (bk', b', s') \<Rightarrow> book_kept svc bk bk' \<and> doubles b' \<and> doubles s')"

lemma book_kept_same: "book_doubles bk \<Longrightarrow> book_kept svc bk bk"
  by (simp add: book_kept_def)

lemma double_div: "double_val (toFixedDownBy (JNum (a / b)) d)"
  by (rule double_cut) simp

lemma kept_buy_limit:
  assumes "doubles b" "doubles s" "book_doubles bk"
  shows "turn_kept (server e) bk (market_buy_meets_limit e p b s bk)"
proof -
  let ?b = "b\<lparr>o_price := o_price s, o_quantity := JNum (parse_float (JNum (to_number (o_value b) / to_number (o_price s))))\<rparr>"
  obtain bk' b' s' where m: "marketMatching e p ?b s (stamp_buy ?b bk) = (bk', b', s')" by (metis surj_pair)
  have d: "doubles ?b" using assms(1) by (simp add: doubles_def)
  have lists: "book_kept (server e) bk (bk\<lparr>b_sells := tl (b_sells bk)\<rparr>)"
    "book_kept (server e) bk \<lparr>b_store = send x (b_store bk), b_buys = tl (b_buys bk), b_sells = butlast (b_sells bk)\<rparr>"
    "book_kept (server e) bk (with_store (send x) (bk\<lparr>b_buys := tl (b_buys bk)\<rparr>))" for x
    using assms(3) by (auto simp: book_kept_def book_doubles_def with_store_def dest: set_tl_subset in_set_butlastD)
  show ?thesis
    using kept_stamped [OF m _ d assms(2,3)] m lists
    by (simp add: market_buy_meets_limit_def turn_kept_def Let_def del: parse_float.simps)
qed

lemma kept_limit_sell:
  assumes "doubles b" "doubles s" "book_doubles bk"
  shows "turn_kept (server e) bk (limit_meets_market_sell e p b s bk)"
proof -
  let ?s = "s\<lparr>o_price := o_price b, o_quantity := JNum (parse_float (o_amount s))\<rparr>"
  obtain bk' b' s' where m: "marketMatching e p b ?s (stamp_sell ?s bk) = (bk', b', s')" by (metis surj_pair)
  have d: "doubles ?s" using assms(2) by (simp add: doubles_def is_num_parse_float)
  have lists: "book_kept (server e) bk (bk\<lparr>b_buys := tl (b_buys bk)\<rparr>)"
    "book_kept (server e) bk \<lparr>b_store = send x (b_store bk), b_buys = butlast (b_buys bk), b_sells = tl (b_sells bk)\<rparr>" for x
    using assms(3) by (auto simp: book_kept_def book_doubles_def dest: set_tl_subset in_set_butlastD)
  show ?thesis
    using kept_stamped [OF m _ assms(1) d assms(3)] m lists
    by (simp add: limit_meets_market_sell_def turn_kept_def Let_def)
qed

lemma kept_market_market:
  assumes "doubles b" "doubles s" "book_doubles bk"
  shows "turn_kept (server e) bk (market_meets_market e p b s bk)"
proof -
  let ?bl = "first_limit (b_buys bk)" and ?sl = "first_limit (b_sells bk)"
  have lists: "book_kept (server e) bk (bk\<lparr>b_buys := tl (b_buys bk), b_sells := splice_first P (b_sells bk)\<rparr>)"
    "book_kept (server e) bk (bk\<lparr>b_buys := splice_first P (b_buys bk), b_sells := tl (b_sells bk)\<rparr>)" for P
    using assms(3) by (auto simp: book_kept_def book_doubles_def dest: set_tl_subset splice_subset [THEN subsetD])
  define r1 where "r1 = (case ?sl of None \<Rightarrow> (bk, b) | Some l \<Rightarrow>
     let b' = b\<lparr>o_price := o_price l, o_quantity := toFixedDownBy (JNum (to_number (o_value b) / to_number (o_price l))) (p_first_digits p)\<rparr>
     in (case marketMatching e p b' l (stamp_buy b' bk) of (bk', b'', _) \<Rightarrow> (bk', b'')))"
  have 1: "book_kept (server e) bk (fst r1) \<and> doubles (snd r1)"
  proof (cases ?sl)
    case None
    then show ?thesis using assms by (simp add: r1_def book_kept_same)
  next
    case (Some l)
    let ?b = "b\<lparr>o_price := o_price l, o_quantity := toFixedDownBy (JNum (to_number (o_value b) / to_number (o_price l))) (p_first_digits p)\<rparr>"
    obtain bk' b' s' where m: "marketMatching e p ?b l (stamp_buy ?b bk) = (bk', b', s')" by (metis surj_pair)
    have "doubles ?b" using assms(1) by (simp add: doubles_def double_div)
    from kept_stamped [OF m _ this first_limit_doubles(2) [OF assms(3) Some] assms(3)]
    show ?thesis using Some m by (simp add: r1_def Let_def)
  qed
  define r2 where "r2 = (case ?bl of None \<Rightarrow> (fst r1, s) | Some l \<Rightarrow>
     let s' = s\<lparr>o_price := o_price l, o_quantity := o_amount s\<rparr>
     in (case marketMatching e p l s' (stamp_sell s' (fst r1)) of (bk', _, s'') \<Rightarrow> (bk', s'')))"
  have 2: "book_kept (server e) bk (fst r2) \<and> doubles (snd r2)"
  proof (cases ?bl)
    case None
    then show ?thesis using assms(2) 1 by (simp add: r2_def)
  next
    case (Some l)
    let ?s = "s\<lparr>o_price := o_price l, o_quantity := o_amount s\<rparr>"
    obtain bk' b' s' where m: "marketMatching e p l ?s (stamp_sell ?s (fst r1)) = (bk', b', s')" by (metis surj_pair)
    have "doubles ?s" using assms(2) by (simp add: doubles_def)
    moreover have "book_doubles (fst r1)" using 1 by (simp add: book_kept_def)
    ultimately have "book_kept (server e) (fst r1) bk' \<and> doubles b' \<and> doubles s'"
      using kept_stamped [OF m _ first_limit_doubles(1) [OF assms(3) Some]] by blast
    then show ?thesis using Some m 1 book_kept_trans by (auto simp: r2_def Let_def)
  qed
  have "market_meets_market e p b s bk =
     (if map_option o_user ?sl = Some (o_user b)
      then Inl (bk\<lparr>b_buys := tl (b_buys bk), b_sells := splice_first (\<lambda>o1. \<not> is_market o1) (b_sells bk)\<rparr>)
      else if map_option o_user ?bl = Some (o_user s)
      then Inl (bk\<lparr>b_buys := splice_first (\<lambda>o1. \<not> is_market o1) (b_buys bk), b_sells := tl (b_sells bk)\<rparr>)
      else Inr (fst r2, snd r1, snd r2))"
    unfolding market_meets_market_def Let_def r2_def r1_def by (simp split: prod.split option.split)
  then show ?thesis using lists 1 2 by (simp add: turn_kept_def)
qed


lemma kept_market_turn:
  assumes "doubles b" "doubles s" "book_doubles bk"
  shows "turn_kept (server e) bk (market_turn e p b s bk)"
  using kept_market_market [OF assms] kept_buy_limit [OF assms] kept_limit_sell [OF assms] assms
  by (simp add: market_turn_def turn_kept_def book_kept_same)

fun turn_book :: "'a turn \<Rightarrow> 'a" where
  "turn_book (Continue bk) = bk"
| "turn_book (Break bk) = bk"
| "turn_book (Abort bk) = bk"

lemma kept_limit_turn:
  assumes "doubles b" "doubles s" "book_doubles bk"
  shows "book_kept (server e) bk (turn_book (limit_turn e p n b s bk))"
proof -
  have lists: "book_kept (server e) bk (bk\<lparr>b_buys := tl (b_buys bk)\<rparr>)" "book_kept (server e) bk (bk\<lparr>b_sells := tl (b_sells bk)\<rparr>)"
    using assms(3) by (auto simp: book_kept_def book_doubles_def dest: set_tl_subset)
  have fill: "book_kept (server e) bk \<lparr>b_store = st', b_buys = refresh_order b' (b_buys bk), b_sells = refresh_order s' (b_sells bk)\<rparr>"
    if "limitFill e p a n b s (b_store bk) = (st', b', s')" for a st' b' s'
    using kept_limitFill [OF that assms(1,2)] assms(3) by (auto simp: book_kept_def book_doubles_def dest!: refresh_cases)
  show ?thesis
    using lists fill book_kept_same [OF assms(3)]
    by (auto simp: limit_turn_def split: reply.splits prod.splits)
qed

lemma kept_match_turn:
  assumes "doubles b" "doubles s" "book_doubles bk"
  shows "book_kept (server e) bk (turn_book (match_turn e p b s bk))"
proof -
  obtain st n where dr: "draw_unique (b_store bk) = (st, n)" by (metis surj_pair)
  let ?bk = "bk\<lparr>b_store := st\<rparr>"
  have start: "book_kept (server e) bk ?bk"
    using kept_draw [of "server e" "b_store bk"] dr assms(3) by (simp add: book_kept_def book_doubles_def)
  have d: "book_doubles ?bk" using assms(3) by (simp add: book_doubles_def)
  show ?thesis
  proof (cases "market_turn e p b s ?bk")
    case (Inl bk1)
    then have "book_kept (server e) ?bk bk1"
      using kept_market_turn [OF assms(1,2) d, of e p] by (simp add: turn_kept_def)
    then show ?thesis using start Inl dr by (auto simp: match_turn_def intro: book_kept_trans)
  next
    case (Inr r)
    then obtain bk1 b1 s1 where r: "r = (bk1, b1, s1)" by (metis surj_pair)
    then have k: "book_kept (server e) ?bk bk1" "doubles b1" "doubles s1"
      using kept_market_turn [OF assms(1,2) d, of e p] Inr by (simp_all add: turn_kept_def)
    then have "book_doubles bk1" by (simp add: book_kept_def)
    from kept_limit_turn [OF k(2,3) this] show ?thesis
      using start k(1) Inr r dr by (auto simp: match_turn_def intro: book_kept_trans)
  qed
qed

lemma kept_match_loop:
  "match_loop n e p bk = Some (bk', ended) \<Longrightarrow> book_doubles bk \<Longrightarrow> book_kept (server e) bk bk'"
proof (induction n arbitrary: bk)
  case 0
  then show ?case
    by (cases "b_buys bk"; cases "b_sells bk") (auto simp: match_loop_heads(2) book_kept_same)
next
  case (Suc n)
  show ?case
  proof (cases "b_buys bk = [] \<or> b_sells bk = []")
    case True
    then show ?thesis using Suc.prems by (auto simp: book_kept_same)
  next
    case False
    then obtain b bs s ss where h: "b_buys bk = b # bs" "b_sells bk = s # ss" by (auto simp: neq_Nil_conv)
    then have "doubles b" "doubles s" using Suc.prems(2) by (auto simp: book_doubles_def)
    note k = kept_match_turn [OF this Suc.prems(2), of e p]
    show ?thesis
    proof (cases "match_turn e p b s bk")
      case (Continue bk1)
      then have "book_kept (server e) bk bk1" using k by simp
      moreover have "match_loop n e p bk1 = Some (bk', ended)"
        using Suc.prems(1) Continue by (simp add: match_loop_heads(1) [OF h])
      ultimately show ?thesis
        using Suc.IH book_kept_trans unfolding book_kept_def by blast
    qed (use Suc.prems(1) k in \<open>simp_all add: match_loop_heads(1) [OF h]\<close>)
  qed
qed

section \<open>The pass\<close>

definition opt_doubles :: "order list option \<Rightarrow> bool" where
  "opt_doubles os \<longleftrightarrow> (\<forall>xs. os = Some xs \<longrightarrow> (\<forall>o1 \<in> set xs. doubles o1))"

lemma kept_take_id [simp]: "kept svc st (take_id st)"
  by (simp add: take_id_def kept_same)

lemma kept_liq: "doubles o1 \<Longrightarrow> kept (server e) st (liqOrdCreation e o1 side st)"
proof -
  assume d: "doubles o1"
  have m: "doubles (mirrorOrder e a side o1 st)" for a using d by (simp add: mirrorOrder_def doubles_def)
  have "kept (server e) st (hset_order t i (mirrorOrder e a side o1 st) (take_id st))" for t i a
    by (rule kept_trans [OF kept_take_id kept_hset [OF m]])
  then show ?thesis
    by (auto simp: liqOrdCreation_def Let_def split: reply.split option.split intro: kept_trans [OF _ kept_sends(2)])
qed

lemma kept_mirror: "\<forall>o1 \<in> set os. doubles o1 \<Longrightarrow> kept (server e) st (mirror_first e reaches side os st)"
  by (auto simp: mirror_first_def find_Some_iff split: option.split intro!: kept_liq)

lemma reread_doubles: "doubles_stored st \<Longrightarrow> opt_doubles os \<Longrightarrow> opt_doubles (reread side pid os st)"
  using list_doubles [of st "open_table side pid"]
  by (auto simp: reread_def opt_doubles_def by_date_keeps split: option.splits)

lemma kept_house:
  assumes "house_liquidity e p bo so st = (st', buys, sells)" and "doubles_stored st" "opt_doubles bo" "opt_doubles so"
  shows "kept (server e) st st' \<and> opt_doubles buys \<and> opt_doubles sells"
proof (cases "p_botstatus p = ''off''")
  case False
  then show ?thesis using assms by (simp add: house_liquidity_def)
next
  case True
  define r where "r = (case so of None \<Rightarrow> (st, bo)
    | Some ss \<Rightarrow> let st' = mirror_first e (\<lambda>o1. js_less_eq (o_price o1) (p_mark p)) ''buy'' ss st
                  in (st', reread ''buy'' (p_id p) bo st'))"
  have 1: "kept (server e) st (fst r) \<and> doubles_stored (fst r) \<and> opt_doubles (snd r)"
  proof (cases so)
    case None
    then show ?thesis using assms by (simp add: r_def)
  next
    case (Some ss)
    let ?st = "mirror_first e (\<lambda>o1. js_less_eq (o_price o1) (p_mark p)) ''buy'' ss st"
    have k: "kept (server e) st ?st" using assms(4) Some by (intro kept_mirror) (simp add: opt_doubles_def)
    then have "doubles_stored ?st" using assms(2) by (simp add: kept_def)
    then show ?thesis using k reread_doubles [OF _ assms(3)] Some by (simp add: r_def Let_def)
  qed
  define q where "q = (case snd r of None \<Rightarrow> (fst r, so)
    | Some bs \<Rightarrow> let st' = mirror_first e (\<lambda>o1. js_less_eq (p_mark p) (o_price o1)) ''sell'' bs (fst r)
                  in (st', reread ''sell'' (p_id p) so st'))"
  have 2: "kept (server e) (fst r) (fst q) \<and> opt_doubles (snd q)"
  proof (cases "snd r")
    case None
    then show ?thesis using assms by (simp add: q_def)
  next
    case (Some bs)
    let ?st = "mirror_first e (\<lambda>o1. js_less_eq (p_mark p) (o_price o1)) ''sell'' bs (fst r)"
    have k: "kept (server e) (fst r) ?st" using 1 Some by (intro kept_mirror) (simp add: opt_doubles_def)
    then have "doubles_stored ?st" using 1 by (simp add: kept_def)
    then show ?thesis using k reread_doubles [OF _ assms(4)] Some by (simp add: q_def Let_def)
  qed
  have "house_liquidity e p bo so st = (fst q, snd r, snd q)"
    using True unfolding house_liquidity_def q_def r_def Let_def by (simp split: prod.split option.split)
  then show ?thesis using assms(1) 1 2 kept_trans by auto
qed

lemma kept_end: "kept svc (b_store bk) (end_match p bk)"
  by (rule kept_same) (simp_all add: end_match_def free_pair_def flush_histories_def sends_def)

lemma kept_tradeMatching:
  assumes "tradeMatching n e p bo so st = Some st'" and "opt_doubles bo" "opt_doubles so"
  shows "kept (server e) st st'"
proof (cases "doubles_stored st")
  case True
  let ?st = "st\<lparr>isRun := True\<rparr>"
  obtain st1 buys sells where h: "house_liquidity e p bo so ?st = (st1, buys, sells)" by (metis surj_pair)
  have "doubles_stored ?st" using True by (simp add: doubles_stored_def)
  note k = kept_house [OF h this assms(2,3)]
  have s: "kept (server e) st st1"
    by (rule kept_trans [OF _ conjunct1 [OF k]]) (simp add: kept_same)
  have run: "kept (server e) st2 (st2\<lparr>isRun := False\<rparr>)" "kept (server e) st2 (st2\<lparr>tradePair := x\<rparr>)"
    "kept (server e) st2 (free_pair p st2)" for st2 x
    by (simp_all add: kept_same free_pair_def)
  show ?thesis
  proof (cases "buys = None \<or> sells = None")
    case True
    then have "\<exists>es. st' = (sends es st1)\<lparr>isRun := False\<rparr> \<or> st' = st1\<lparr>isRun := False\<rparr>"
      using assms(1) h by (cases buys; cases sells) (auto simp: tradeMatching_def)
    then show ?thesis using s run(1) kept_sends(1) kept_trans by metis
  next
    case False
    then obtain bs ss where lists: "buys = Some bs" "sells = Some ss" by auto
    let ?bs = "sort_before buy_before bs" and ?ss = "sort_before sell_before ss"
    define st2 where "st2 = (if ?bs \<noteq> [] \<and> ?ss \<noteq> [] \<and> top_cross ?bs ?ss then st1\<lparr>tradePair := p_id p\<rparr> else st1)"
    let ?bk = "\<lparr>b_store = st2, b_buys = ?bs, b_sells = ?ss\<rparr>"
    have s2: "kept (server e) st st2" using s kept_trans [OF s run(2)] by (simp add: st2_def)
    have d: "book_doubles ?bk" using k lists by (auto simp: book_doubles_def opt_doubles_def)
    obtain bk ended where l: "match_loop n e p ?bk = Some (bk, ended)"
      and st': "st' = (if ended then end_match p bk else free_pair p ((b_store bk)\<lparr>isRun := False\<rparr>))"
      using assms(1) h lists
      by (auto simp: tradeMatching_def st2_def [symmetric] Let_def split: option.splits bool.splits)
    have "kept (server e) st2 (b_store bk)" using kept_match_loop [OF l d] by (simp add: book_kept_def)
    from kept_trans [OF s2 this] show ?thesis
      using st' kept_end kept_trans [OF run(1) run(3)] kept_trans by metis
  qed
qed (simp add: kept_def)

end
