(* ===== verification/Endpoints.thy ===== *)
theory Endpoints
  imports PassConduct
begin

text \<open>
  The handlers that clients call meet the contract of \<open>Accounting\<close>: the pass of the matcher with the
  refresh of the paper ladder in front, the two cancels, the order endpoint, and the messages that
  handlers leave behind.
\<close>

section \<open>The paper ladder\<close>

lemma keptI: "(doubles_stored st \<Longrightarrow> kept svc st st') \<Longrightarrow> kept svc st st'"
  by (auto simp: kept_def)

text \<open>A change of the tables that only removes rows, or adds rows of doubles.\<close>

lemma kept_tables:
  assumes "hashes st' = hashes st" "streams st' = streams st" "next_id st' = next_id st"
    and "\<And>key i o1. (i, Row o1) \<in> set (tables st' key) \<Longrightarrow> (i, Row o1) \<in> set (tables st key) \<or> doubles o1"
  shows "kept svc st st'"
proof -
  have "money_moves svc st st'" by (rule money_moves.still) (simp add: same_wallet_def assms)
  moreover have "doubles_stored st'" if "doubles_stored st"
    using that assms(4) unfolding doubles_stored_def by blast
  ultimately show ?thesis by (simp add: kept_def)
qed

lemma kept_both_tables:
  "(\<And>rows. set (f rows) \<subseteq> set rows) \<Longrightarrow> kept svc st (both_tables pid f st)"
  by (rule kept_tables) (auto simp: both_tables_def with_table_def split: if_splits)

lemma kept_purge: "kept svc (exch v) (exch (fst (purgePaperBook pid why v)))"
  by (auto simp: purgePaperBook_def recordLadder_def Let_def without_paper_def intro!: kept_both_tables)

lemma kept_drop: "kept svc (exch v) (exch (fst (dropLadder pid why v)))"
  by (simp add: dropLadder_def recordLadder_def kept_purge)

lemma kept_sweep: "kept svc (exch v) (exch (sweep skip now rows v))"
proof (induction skip now rows v rule: sweep.induct)
  case (2 skip now pairId syncedAt rest v)
  then show ?case by (auto intro: kept_trans [OF kept_purge])
qed simp

lemma paper_row_double: "(q, d) \<in> set (paper_rows digits ls room gq gn) \<Longrightarrow> double_val d"
  by (induction digits ls room gq gn rule: paper_rows.induct)
    (auto simp: Let_def double_cut split: if_splits)

lemma ladder_doubles: "o1 \<in> set (buildPaperOrders draw n p ls side a now) \<Longrightarrow> doubles o1"
  by (auto simp: buildPaperOrders_def Let_def doubles_def paper_order_def dest!: set_zip_rightD intro: paper_row_double)

lemma kept_write_rows: "\<forall>o1 \<in> set os. doubles o1 \<Longrightarrow> kept svc st (write_rows key os st)"
  by (induction os arbitrary: st) (auto simp: write_rows_def intro: kept_trans [OF kept_hset])

lemma kept_replace:
  assumes "\<forall>o1 \<in> set bs. doubles o1" "\<forall>o1 \<in> set ss. doubles o1"
  shows "kept svc st (replace_ladder pid previous bs ss st)"
proof -
  have "kept svc st (both_tables pid (without_paper k \<circ> filter (\<lambda>row. fst row \<notin> set previous)) st)" for k
    by (rule kept_both_tables) (auto simp: without_paper_def)
  then show ?thesis
    unfolding replace_ladder_def Let_def
    by (intro kept_trans [OF _ kept_trans [OF kept_write_rows [OF assms(1)] kept_write_rows [OF assms(2)]]])
qed

lemma kept_refresh: "kept svc (exch v) (exch (fst (refresh draw p book a v)))"
proof -
  have "kept svc (exch v) ((exch v)\<lparr>draws := n\<rparr>)" for n by (simp add: kept_same)
  then show ?thesis
    unfolding refresh_def Let_def
    by (auto simp: recordLadder_def intro!: kept_trans [OF _ kept_replace] dest!: ladder_doubles)
qed

lemma kept_sync: "kept svc (exch v) (exch (fst (syncPaperBook draw resolve pd v)))"
proof -
  define w where "w = sweepOrphanLadders (map_option p_id pd) (clock (exch v)) v"
  have "kept svc (exch v) (exch w)" by (simp add: w_def sweepOrphanLadders_def kept_sweep)
  moreover have "kept svc (exch w) (exch (fst (sync_failed pid w)))" for pid
    using kept_purge [of svc "recordLadder pid (NO_CAPACITY ''error'' (clock (exch w))) w"]
    by (simp add: sync_failed_def recordLadder_def)
  ultimately show ?thesis
    using sync_cases [of pd draw resolve w] kept_drop kept_refresh kept_trans
    unfolding syncPaperBook_def w_def [symmetric] by (metis fst_conv prod.collapse)
qed

lemma kept_Fetch: "FetchpairData i st = (st', r) \<Longrightarrow> kept svc st st'"
  by (rule kept_same)
    (auto simp: FetchpairData_def put_pair_def split: option.splits if_splits row.splits)

section \<open>A whole pass\<close>

lemma load_doubles: "doubles_stored st \<Longrightarrow> opt_doubles (load_side side pid st)"
  using list_doubles [of st "open_table side pid"]
  by (auto simp: load_side_def opt_doubles_def by_date_keeps split: option.splits)

lemma kept_matchLocked:
  assumes "matchLocked n e pid v = Some v'"
  shows "kept (server e) (exch v) (exch v')"
proof (rule keptI)
  assume d: "doubles_stored (exch v)"
  obtain st r where f: "FetchpairData (Some pid) (exch v) = (st, r)" by (metis surj_pair)
  show ?thesis
  proof (cases "\<exists>p. r = Done (Some p)")
    case False
    then have "v' = v\<lparr>exch := st\<rparr>" using assms f by (auto simp: matchLocked_def split: reply.splits option.splits)
    then show ?thesis using kept_Fetch [OF f] by simp
  next
    case True
    then obtain p where r: "r = Done (Some p)" by blast
    define v1 where "v1 = fst (syncPaperBook (draw_id e) (resolve_depth e) (Some p) (v\<lparr>exch := st\<rparr>))"
    let ?st1 = "(exch v1)\<lparr>tradePair := p_id p\<rparr>"
    have "kept (server e) (exch v) (exch v1)"
      using kept_trans [OF kept_Fetch [OF f]] kept_sync [of _ "v\<lparr>exch := st\<rparr>"] by (simp add: v1_def)
    also have "kept (server e) \<dots> ?st1" by (simp add: kept_same)
    finally have k: "kept (server e) (exch v) ?st1" .
    then have d1: "doubles_stored ?st1" using d by (simp add: kept_def)
    have "v' = v1\<lparr>exch := ?st1\<rparr> \<or> (\<exists>st2. tradeMatching n e p (load_side ''buy'' (p_id p) ?st1)
        (load_side ''sell'' (p_id p) ?st1) ?st1 = Some st2 \<and> v' = v1\<lparr>exch := st2\<rparr>)"
      using assms f r by (auto simp: matchLocked_def Let_def v1_def split: if_splits)
    then show ?thesis using k kept_trans [OF k kept_tradeMatching] load_doubles [OF d1] by auto
  qed
qed

lemma kept_matchingcall:
  assumes "matchingcall n e pid v = Some v'"
  shows "kept (server e) (exch v) (exch v')"
proof (cases "pid \<in> set (pairLocks (exch v))")
  case False
  let ?v0 = "v\<lparr>exch := (exch v)\<lparr>pairLocks := pairLocks (exch v) @ [pid]\<rparr>\<rparr>"
  obtain v1 where m: "matchLocked n e pid ?v0 = Some v1" and v': "v' = v1\<lparr>exch := unlock pid (exch v1)\<rparr>"
    using assms False by (auto simp: matchingcall_def)
  have "kept (server e) (exch v) (exch ?v0)" by (simp add: kept_same)
  also have "kept (server e) \<dots> (exch v1)" by (rule kept_matchLocked [OF m])
  also have "kept (server e) \<dots> (exch v')" by (rule kept_same) (simp_all add: v' unlock_def Let_def)
  finally show ?thesis .
qed (use assms in \<open>simp add: matchingcall_def\<close>)

section \<open>Cancels\<close>

lemma is_num_cancelValue: "doubles o1 \<Longrightarrow> is_num (cancelValue o1)"
  by (auto simp: cancelValue_def Let_def doubles_def is_num_parse_float)

lemma is_num_retriveValue: "doubles o1 \<Longrightarrow> is_num (retriveValue o1)"
  by (auto simp: retriveValue_def is_num_cancelValue is_num_remaining simp del: is_num.simps(1) split: option.split)

lemma doubles_cancelled [simp]: "doubles (cancelled o1) \<longleftrightarrow> doubles o1"
  by (simp add: cancelled_def doubles_def)

lemma kept_cancelRefund:
  assumes "cancelRefund svc why o1 r st = (st', o2, w)" and "is_num r"
  shows "kept svc st st'"
proof -
  obtain st1 rep where m: "moveBalanceSigned svc ''walletbalance_spot'' (o_user o1, cancelCurrency o1) (JNum r)
      why [] st = (st1, rep)" by (metis surj_pair)
  have "kept svc st1 st'"
    using assms(1) m by (auto simp: cancelRefund_def Let_def split: if_splits prod.splits dest: kept_release)
  then show ?thesis by (rule kept_trans [OF kept_signed [OF m assms(2)]])
qed

lemma kept_hgetdel: "hgetdel t i st = (st', raw) \<Longrightarrow> kept svc st st'"
  using kept_hdel [of svc st t i] by (auto simp: hgetdel_def hdel_order_def split: option.splits)

lemma taken_doubles: "hgetdel t i st = (st', Some (Row o1)) \<Longrightarrow> doubles_stored st \<Longrightarrow> doubles o1"
  using row_doubles [of st t i o1] by (auto simp: hgetdel_def hget_order_def split: option.splits)

lemma kept_cancelClaimed:
  assumes "doubles o1"
  shows "kept svc st (fst (cancelClaimed svc o1 st))"
proof -
  obtain st1 pr where f: "FetchpairData (Some (o_pair (cancelled o1))) st = (st1, pr)" by (metis surj_pair)
  have n: "is_num (retriveValue (cancelled o1))" using assms by (simp add: is_num_retriveValue)
  have r: "kept svc st1 st3" if "cancelRefund svc why (cancelled o1) (retriveValue (cancelled o1)) st1 = (st3, o2, w)"
    for st3 o2 w why by (rule kept_cancelRefund [OF that n])
  have r': "kept svc st1 st3" if "cancelRefund svc why (cancelled o1) (retriveValue (cancelled o1)) (send x st1) = (st3, o2, w)"
    for x st3 o2 w why by (rule kept_trans [OF kept_sends(2) kept_cancelRefund [OF that n]])
  have s: "kept svc st1 (sends es (hset_history u i o2 st3))" if "kept svc st1 st3" for es u i o2 st3
    by (rule kept_trans [OF that kept_trans [OF kept_sends(3) kept_sends(1)]])
  have "kept svc st1 (fst (cancelClaimed svc o1 st))"
    using f by (auto simp: cancelClaimed_def Let_def split: reply.split prod.split intro!: s dest: r r')
  then show ?thesis by (rule kept_trans [OF kept_Fetch [OF f]])
qed

lemma kept_cancelClaim: "kept svc st (fst (cancelClaim svc u key st))"
proof (rule keptI)
  assume d: "doubles_stored st"
  obtain st1 raw where h: "hgetdel (fst key) (snd key) st = (st1, raw)" by (metis surj_pair)
  note k = kept_hgetdel [OF h, of svc]
  show ?thesis
  proof (cases "parseOrder raw")
    case None
    then show ?thesis using k h by (simp add: cancelClaim_def)
  next
    case (Some o1)
    then have "doubles o1" using taken_doubles [of "fst key" "snd key" st st1 o1] h d by simp
    then show ?thesis
      using h Some kept_trans [OF k kept_cancelClaimed] kept_trans [OF k kept_hset]
      by (simp add: cancelClaim_def parseOrder_def)
  qed
qed

lemma kept_cancelMarketOrder: "kept svc st (fst (cancelMarketOrder svc t i st))"
proof (rule keptI)
  assume d: "doubles_stored st"
  obtain st1 raw where h: "hgetdel t i st = (st1, raw)" by (metis surj_pair)
  note k = kept_hgetdel [OF h, of svc]
  show ?thesis
  proof (cases "parseOrder raw")
    case None
    then show ?thesis using k h by (simp add: cancelMarketOrder_def)
  next
    case (Some o1)
    then have "doubles o1" using taken_doubles [of t i st st1 o1] h d by simp
    then have n: "is_num (cancelValue (cancelled o1))" by (simp add: is_num_cancelValue)
    obtain st2 o2 w where r: "cancelRefund svc ''cancel_market_refund'' (cancelled o1) (cancelValue (cancelled o1)) st1 = (st2, o2, w)"
      by (metis surj_pair)
    have "kept svc st1 (sends es (hset_history u j o2 (send x st2)))" for es u j x
      by (rule kept_trans [OF kept_cancelRefund [OF r n] kept_trans [OF kept_sends(2) kept_trans [OF kept_sends(3) kept_sends(1)]]])
    then show ?thesis using h Some r kept_trans [OF k] by (simp add: cancelMarketOrder_def Let_def parseOrder_def)
  qed
qed

section \<open>The order endpoint\<close>

lemma double_option [simp]: "double_val v \<Longrightarrow> num_val v"
  by (simp add: num_val_def is_num_parse_float)

lemma kept_ensure:
  assumes "ensure_wallet e u c st = (st', r)" "seed_wallet e = seeds_from docs"
  shows "kept svc st st'"
proof -
  have "only_fills st st'"
    using assms seeding_only_fills [of st docs u] by (auto simp: ensure_wallet_def seeds_from_def split: if_splits)
  moreover from this have "tables st' = tables st"
    unfolding only_fills_def by (metis spot.select_convs(1) spot.surjective redis.update_convs(3))
  ultimately show ?thesis by (simp add: kept_def doubles_stored_def money_moves.seeded)
qed

text \<open>A request body carries doubles: JSON has no other numbers.\<close>

definition body_doubles :: "order_body \<Rightarrow> bool" where
  "body_doubles b \<longleftrightarrow> double_val (quantity b) \<and> double_val (amount b)"

lemma is_num_limitSize: "body_doubles b \<Longrightarrow> is_num (limitSize b p)"
  by (simp add: limitSize_def body_doubles_def is_num_quantise is_num_parse_float)

lemma is_num_limitValue: "body_doubles b \<Longrightarrow> is_num (limitValue b p)"
  by (simp add: limitValue_def is_num_limitSize)

lemma body_doubles_market: "body_doubles b \<Longrightarrow> body_doubles (marketBody b p)"
  by (simp add: marketBody_def body_doubles_def is_num_quantise is_num_parse_float)

lemma is_num_market:
  "body_doubles b \<Longrightarrow> is_num (marketOrderQuantity b p)" "body_doubles b \<Longrightarrow> is_num (marketOrderDebitValue b p)"
  by (auto simp: marketOrderQuantity_def marketOrderDebitValue_def finite_result_def body_doubles_def Let_def
      is_num_parse_float toFixedDownBy_def split: jsval.split option.splits if_splits dest!: is_num_toFixedDown)

lemma doubles_limitOrder: "body_doubles b \<Longrightarrow> doubles (limitOrder e u b p v)"
  by (simp add: limitOrder_def doubles_def is_num_limitSize)

lemma doubles_marketOrder: "body_doubles b \<Longrightarrow> doubles (marketOrder e u b p st)"
  by (simp add: marketOrder_def doubles_def Let_def is_num_market is_num_parse_float body_doubles_def)

lemma kept_updateOrderBook: "kept svc st (updateOrderBook o1 pid d st)"
  by (rule kept_same) (simp_all add: updateOrderBook_def hincby_def Let_def split: option.split)

lemma kept_limitReserve:
  assumes "body_doubles b" "doubles o1"
  shows "kept (server e) st (fst (limitReserve e b p o1 st))"
proof -
  let ?c = "limitCurrency b p" and ?v = "limitValue b p" and ?u = "o_user o1"
  obtain st1 rep where m: "moveBalanceLogged (server e) ''walletbalance_spot'' (?u, ?c) (JNum ?v) Debit
      ''reserve_limit_order'' ?u (Some (marginFreezeKey ?u)) st = (st1, rep)" by (metis surj_pair)
  note k1 = kept_logged [OF m is_num_limitValue [OF assms(1)]]
  have d: "doubles (reserved_order o1 x y)" for x y using assms(2) by (simp add: reserved_order_def doubles_def)
  have k2: "kept (server e) st (fst (hincbyfloat (server e) IN_ORDER f w st1))" for f w
    by (rule kept_trans [OF k1 kept_hincbyfloat]) (simp add: IN_ORDER_def)
  note k3 = kept_trans [OF k2 kept_hset [OF d]]
  have "kept (server e) st (sends es (if c then updateOrderBook o2 pid dg st4 else st4))"
    if "kept (server e) st st4" for es c o2 pid dg st4
    using that kept_trans [OF that kept_updateOrderBook] kept_trans [OF _ kept_sends(1)] by (simp split: if_split)
  then show ?thesis using m k1 k3
    by (cases rep) (auto simp: limitReserve_def Let_def split: if_split)
qed

lemma kept_marketCharge:
  assumes "body_doubles b" "doubles o1"
  shows "kept (server e) st (fst (marketCharge e b p o1 st))"
proof -
  let ?c = "marketOrderDebitCurrencyId b p" and ?v = "marketOrderDebitValue b p" and ?u = "o_user o1"
  obtain st1 rep where m: "moveBalanceLogged (server e) ''walletbalance_spot'' (?u, ?c) (JNum ?v) Debit
      ''reserve_market_order'' ?u (Some (marginFreezeKey ?u)) st = (st1, rep)" by (metis surj_pair)
  note k1 = kept_logged [OF m is_num_market(2) [OF assms(1)]]
  note k2 = kept_trans [OF kept_trans [OF k1 kept_hset [OF assms(2)]] kept_sends(1)]
  then show ?thesis using m k1 k2 by (cases rep) (auto simp: marketCharge_def Let_def)
qed

lemma kept_limitOrderPlace:
  assumes "body_doubles b" "seed_wallet e = seeds_from docs"
  shows "kept (server e) (exch v) (exch (fst (limitOrderPlace e u b v)))"
proof -
  obtain st r where f: "FetchpairData (pair_key (spotPairId b)) (exch v) = (st, r)" by (metis surj_pair)
  note k = kept_Fetch [OF f, of "server e"]
  have place: "kept (server e) st (fst (limitReserve e b p (limitOrder e u b p w) (take_id st1)))"
    if "ensure_wallet e u c st = (st1, seeded)" for p w c st1 seeded
    by (rule kept_trans [OF kept_ensure [OF that assms(2)]
          kept_trans [OF kept_take_id kept_limitReserve [OF assms(1) doubles_limitOrder [OF assms(1)]]]])
  show ?thesis
    using f k kept_trans [OF k place] kept_trans [OF k kept_ensure [OF _ assms(2)]]
    by (auto simp: limitOrderPlace_def Let_def split: reply.split option.split prod.split)
qed

lemma kept_marketOrderPlace:
  assumes "body_doubles b" "seed_wallet e = seeds_from docs"
  shows "kept (server e) (exch v) (exch (fst (marketOrderPlace e u b v)))"
proof -
  obtain st r where f: "FetchpairData (pair_key (spotPairId b)) (exch v) = (st, r)" by (metis surj_pair)
  note k = kept_Fetch [OF f, of "server e"] and bd = body_doubles_market [OF assms(1)]
  have place: "kept (server e) st (fst (marketCharge e (marketBody b p) p (marketOrder e u (marketBody b p) p st1) (take_id st1)))"
    if "ensure_wallet e u c st = (st1, seeded)" for p c st1 seeded
    by (rule kept_trans [OF kept_ensure [OF that assms(2)]
          kept_trans [OF kept_take_id kept_marketCharge [OF bd doubles_marketOrder [OF bd]]]])
  show ?thesis
    using f k kept_trans [OF k place] kept_trans [OF k kept_ensure [OF _ assms(2)]]
    by (auto simp: marketOrderPlace_def Let_def split: reply.split option.split prod.split)
qed

lemma kept_orderPlace:
  "body_doubles b \<Longrightarrow> seed_wallet e = seeds_from docs \<Longrightarrow> kept (server e) (exch v) (exch (fst (orderPlace e u b v)))"
  by (simp add: orderPlace_def kept_limitOrderPlace kept_marketOrderPlace)

section \<open>Messages\<close>

lemma kept_newOrderHistory: "kept svc st (newOrderHistory c o1 st)"
  by (rule kept_same) (simp_all add: newOrderHistory_def Let_def)

lemma kept_newTradeHistory: "kept svc st (newTradeHistory f st)"
  by (rule kept_same)
    (simp_all add: newTradeHistory_def markTrade_def setDepthHist_def put_pair_def Let_def split: option.split row.split)

lemma kept_editOrderBook: "kept svc st (editOrderBook side x q pid d st)"
  by (rule kept_same) (simp_all add: editOrderBook_def hincby_def Let_def split: option.split)

end
