(* ===== verification/Deactivation.thy ===== *)
theory Deactivation
  imports Endpoints
begin

text \<open>
  Closing an account (\<^verbatim>\<open>cancelOrderForDeactiveAcc\<close> and \<^verbatim>\<open>createTradeHistory\<close> of
  \<^verbatim>\<open>controllers/spot.controller.js\<close>, called over the network by the user service). The documents of the
  account's orders are closed first, then its rows are looked up on every active pair, and each row is
  taken out of the book by the same script a cancel uses and only then paid back.
\<close>

section \<open>The handler\<close>

definition getActivePairs :: "(pair_id \<times> pair row) list \<Rightarrow> pair list" where
  "getActivePairs rows =
     List.map_filter (\<lambda>(_, r). case r of Row p \<Rightarrow> if p_status p = ''active'' then Some p else None | Garbled \<Rightarrow> None) rows"

definition getvalueObjbyId :: "order list \<Rightarrow> user_id \<Rightarrow> order list" where
  "getvalueObjbyId os userId = filter (\<lambda>o1. o_user o1 = userId) os"

definition createTradeHistory :: "service \<Rightarrow> order \<Rightarrow> spot \<Rightarrow> spot" where
  "createTradeHistory svc claimed st =
     (let o1 = cancelled claimed; retrive = retriveValue o1;
          st1 = (if o_liquidity o1 = ''off'' \<and> o_type o1 \<noteq> ''market''
             then send (BookChange (o_side o1) (o_pair o1) (o_price o1) (o_quantity o1) (o_first_digits o1)) st
             else st);
          (st2, o2, userWallet) = cancelRefund svc ''trade_history_credit'' o1 retrive st1;
          st3 = hset_history (o_user o2) (o_id o2) o2 st2
      in send (Passbook \<lparr>pb_user = o_user o2, pb_coin = cancel_coin o2, pb_currency = cancelCurrency o2,
           pb_table = o_id o2, pb_before = JStr (to_fixed_str (wallet_number userWallet - retrive) 8),
           pb_after = wallet_value userWallet, pb_amount = JNum retrive, pb_type = ''order_Cancel'',
           pb_category = ''credit''\<rparr>) st3)"

text \<open>The table an order names itself, which is the one it is taken from.\<close>

definition own_table :: "order \<Rightarrow> string" where
  "own_table o1 = open_table (if o_side o1 = ''buy'' then ''buy'' else ''sell'') (o_pair o1)"

definition cancelOne :: "service \<Rightarrow> order \<Rightarrow> spot \<Rightarrow> spot" where
  "cancelOne svc o1 st = (case hgetdel (own_table o1) (o_id o1) st of (st1, raw) \<Rightarrow>
     (case parseOrder raw of None \<Rightarrow> st1 | Some claimed \<Rightarrow> createTradeHistory svc claimed st1))"

definition rows_of_user :: "user_id \<Rightarrow> spot \<Rightarrow> string \<Rightarrow> order list" where
  "rows_of_user userId st t = (case hgetall_orders t st of None \<Rightarrow> [] | Some os \<Rightarrow> getvalueObjbyId os userId)"

definition orderListOf :: "user_id \<Rightarrow> spot \<Rightarrow> order list" where
  "orderListOf userId st =
     concat (map (\<lambda>p. rows_of_user userId st (open_table ''buy'' (p_id p)) @
                      rows_of_user userId st (open_table ''sell'' (p_id p))) (getActivePairs (pairs st)))"

definition close_documents :: "user_id \<Rightarrow> spot \<Rightarrow> spot" where
  "close_documents userId st = st\<lparr>order_docs := map (\<lambda>(i, d).
     if o_user d = userId \<and> (o_status d = ''pending'' \<or> o_status d = ''open'')
     then (i, d\<lparr>o_status := ''cancel''\<rparr>) else (i, d)) (order_docs st)\<rparr>"

definition cancelOrderForDeactiveAcc :: "service \<Rightarrow> user_id \<Rightarrow> spot \<Rightarrow> spot \<times> bool" where
  "cancelOrderForDeactiveAcc svc userId st =
     (if userId = [] then (st, False)
      else let st0 = close_documents userId st in
        if \<not> online st0 then (st0, False)
        else (fold (cancelOne svc) (orderListOf userId st0) st0, True))"

section \<open>The ledgers and the sizes\<close>

lemma kept_createTradeHistory:
  assumes "doubles o1"
  shows "kept svc st (createTradeHistory svc o1 st)"
proof -
  have n: "is_num (retriveValue (cancelled o1))" using assms by (simp add: is_num_retriveValue)
  let ?r = "\<lambda>st. cancelRefund svc ''trade_history_credit'' (cancelled o1) (retriveValue (cancelled o1)) st"
  have r: "kept svc st st3" if "?r st = (st3, o2, w)" for st3 o2 w by (rule kept_cancelRefund [OF that n])
  have r': "kept svc st st3" if "?r (send x st) = (st3, o2, w)" for x st3 o2 w
    by (rule kept_trans [OF kept_sends(2) kept_cancelRefund [OF that n]])
  have s: "kept svc st (send x (hset_history u i o2 st3))" if "kept svc st st3" for x u i o2 st3
    by (rule kept_trans [OF that kept_trans [OF kept_sends(3) kept_sends(2)]])
  show ?thesis
    by (auto simp: createTradeHistory_def Let_def split: prod.split intro!: s dest: r r')
qed

lemma kept_cancelOne: "kept svc st (cancelOne svc o1 st)"
proof (rule keptI)
  assume d: "doubles_stored st"
  obtain st1 raw where h: "hgetdel (own_table o1) (o_id o1) st = (st1, raw)" by (metis surj_pair)
  note k = kept_hgetdel [OF h, of svc]
  show ?thesis
  proof (cases "parseOrder raw")
    case None
    then show ?thesis using k h by (simp add: cancelOne_def)
  next
    case (Some o2)
    then have "doubles o2" using taken_doubles [of _ _ st st1 o2] h d by simp
    then show ?thesis using h Some kept_trans [OF k kept_createTradeHistory] by (simp add: cancelOne_def parseOrder_def)
  qed
qed

lemma kept_fold: "(\<And>x st. kept svc st (f x st)) \<Longrightarrow> kept svc st (fold f xs st)"
  by (induction xs arbitrary: st) (auto intro: kept_trans)

lemma kept_deactivate: "kept svc st (fst (cancelOrderForDeactiveAcc svc u st))"
proof -
  have "kept svc st (close_documents u st)" by (simp add: close_documents_def kept_same)
  then show ?thesis
    using kept_trans [OF _ kept_fold [of svc "cancelOne svc", OF kept_cancelOne]] by (simp add: cancelOrderForDeactiveAcc_def Let_def)
qed

section \<open>What is left in the book\<close>

text \<open>Every row lies under its own id in the table its side and pair name.\<close>

definition filed :: "spot \<Rightarrow> bool" where
  "filed st \<longleftrightarrow> (\<forall>key. distinct (map fst (tables st key))) \<and>
     (\<forall>side \<in> {''buy'', ''sell''}. \<forall>pid. \<forall>(i, r) \<in> set (tables st (open_table side pid)). \<forall>o1.
        r = Row o1 \<longrightarrow> o_id o1 = i \<and> o_side o1 = side \<and> o_pair o1 = pid)"

definition owned_by :: "user_id \<Rightarrow> order row \<Rightarrow> bool" where
  "owned_by u r = (case r of Row o1 \<Rightarrow> o_user o1 = u | Garbled \<Rightarrow> False)"

lemma createTradeHistory_tables [simp]: "tables (createTradeHistory svc o1 st) = tables st"
  by (auto simp: createTradeHistory_def Let_def split: prod.split dest!: cancelRefund_only(1) only_value_tables)

lemma cancelOne_tables:
  "tables (cancelOne svc o1 st) = (tables st)(own_table o1 := remove_field (o_id o1) (tables st (own_table o1)))"
proof -
  obtain st1 raw where h: "hgetdel (own_table o1) (o_id o1) st = (st1, raw)" by (metis surj_pair)
  then show ?thesis using hgetdel_row [OF h] by (auto simp: cancelOne_def split: option.split)
qed

lemma fold_cancel_tables:
  "tables (fold (cancelOne svc) os st) key =
   filter (\<lambda>row. \<forall>o1 \<in> set os. own_table o1 = key \<longrightarrow> o_id o1 \<noteq> fst row) (tables st key)"
  by (induction os arbitrary: st) (auto simp: cancelOne_tables remove_field_def intro!: filter_cong)

lemma listed_order:
  assumes "o1 \<in> set (orderListOf u st)" "filed st"
  shows "o_user o1 = u \<and> (o_id o1, Row o1) \<in> set (tables st (own_table o1)) \<and>
    (\<exists>p \<in> set (getActivePairs (pairs st)). \<exists>side \<in> {''buy'', ''sell''}. own_table o1 = open_table side (p_id p))"
proof -
  obtain p side where p: "p \<in> set (getActivePairs (pairs st))" and s: "side \<in> {''buy'', ''sell''}" "o1 \<in> set (rows_of_user u st (open_table side (p_id p)))"
    using assms(1) by (auto simp: orderListOf_def)
  then have u: "o_user o1 = u" and "\<exists>i. (i, Row o1) \<in> set (tables st (open_table side (p_id p)))"
    by (auto simp: rows_of_user_def getvalueObjbyId_def hgetall_orders_def orders_of_def List.map_filter_def
        split: option.splits if_splits row.splits)
  then obtain i where i: "(i, Row o1) \<in> set (tables st (open_table side (p_id p)))" by blast
  then have "o_id o1 = i \<and> o_side o1 = side \<and> o_pair o1 = p_id p"
    using assms(2) s(1) unfolding filed_def by blast
  moreover from this have "own_table o1 = open_table side (p_id p)" using s(1) by (auto simp: own_table_def)
  ultimately show ?thesis using u i p s(1) by auto
qed

lemma on_active_pair:
  assumes "(i, Row p) \<in> set (pairs st)" "p_status p = ''active''" "side \<in> {''buy'', ''sell''}"
    and "(j, Row o1) \<in> set (tables st (open_table side (p_id p)))" "o_user o1 = u"
  shows "o1 \<in> set (orderListOf u st)"
proof -
  have "p \<in> set (getActivePairs (pairs st))" using assms(1,2) by (force simp: getActivePairs_def List.map_filter_def)
  moreover have "o1 \<in> set (rows_of_user u st (open_table side (p_id p)))"
    using assms(4,5) by (force simp: rows_of_user_def getvalueObjbyId_def hgetall_orders_def orders_of_def List.map_filter_def)
  ultimately show ?thesis using assms(3) by (auto simp: orderListOf_def)
qed

lemma open_table_eq:
  "side \<in> {''buy'', ''sell''} \<Longrightarrow> side' \<in> {''buy'', ''sell''} \<Longrightarrow>
   open_table side pid = open_table side' pid' \<longleftrightarrow> side = side' \<and> pid = pid'"
  by (auto simp: open_table_def)

lemma closed_same [simp]: "tables (close_documents u st) = tables st" "pairs (close_documents u st) = pairs st"
  by (simp_all add: close_documents_def)

lemma closed_list [simp]: "orderListOf u (close_documents u st) = orderListOf u st"
proof -
  have "rows_of_user u (close_documents u st) = rows_of_user u st" by (simp add: rows_of_user_def hgetall_orders_def fun_eq_iff)
  then show ?thesis by (simp add: orderListOf_def)
qed

lemma deactivated_tables:
  "cancelOrderForDeactiveAcc svc u st = (st', True) \<Longrightarrow>
   tables st' key = filter (\<lambda>row. \<forall>o1 \<in> set (orderListOf u st). own_table o1 = key \<longrightarrow> o_id o1 \<noteq> fst row) (tables st key)"
  by (auto simp: cancelOrderForDeactiveAcc_def Let_def fold_cancel_tables split: if_splits)

lemma others_stay:
  assumes "filed st" "o1 \<in> set (orderListOf u st)" "own_table o1 = key" "row \<in> set (tables st key)" "fst row = o_id o1"
  shows "owned_by u (snd row)"
proof -
  have l: "o_user o1 = u" "(o_id o1, Row o1) \<in> set (tables st key)" using listed_order [OF assms(2,1)] assms(3) by auto
  have "distinct (map fst (tables st key))" using assms(1) by (simp add: filed_def)
  then have "row = (o_id o1, Row o1)" using l(2) assms(4,5) by (metis eq_key_imp_eq_value prod.collapse)
  then show ?thesis using l(1) by (simp add: owned_by_def)
qed

text \<open>An order on a pair that is not active is not looked at: its row rests on, under a document that says cancel.\<close>

lemma halted_pairs_keep_rows:
  assumes "cancelOrderForDeactiveAcc svc u st = (st', True)" "filed st" "side \<in> {''buy'', ''sell''}"
    and "pid \<notin> p_id ` set (getActivePairs (pairs st))"
  shows "tables st' (open_table side pid) = tables st (open_table side pid)"
proof -
  have "own_table o1 \<noteq> open_table side pid" if "o1 \<in> set (orderListOf u st)" for o1
    using listed_order [OF that assms(2)] assms(3,4) open_table_eq by (metis image_eqI)
  then show ?thesis by (auto simp: deactivated_tables [OF assms(1)] intro!: filter_True)
qed

lemma rows_of_active_pairs:
  assumes "cancelOrderForDeactiveAcc svc u st = (st', True)" "filed st"
    and "(i, Row p) \<in> set (pairs st)" "p_status p = ''active''" "side \<in> {''buy'', ''sell''}"
    and "row \<in> set (tables st' (open_table side (p_id p)))"
  shows "\<not> owned_by u (snd row)"
proof
  assume "owned_by u (snd row)"
  then obtain o1 where o1: "snd row = Row o1" "o_user o1 = u" by (auto simp: owned_by_def split: row.splits)
  have row: "(fst row, Row o1) \<in> set (tables st (open_table side (p_id p)))"
    using assms(6) by (simp add: deactivated_tables [OF assms(1)] o1(1) [symmetric])
  then have "o_id o1 = fst row" "own_table o1 = open_table side (p_id p)"
    using assms(2,5) by (fastforce simp: filed_def own_table_def)+
  moreover have "o1 \<in> set (orderListOf u st)" by (rule on_active_pair [OF assms(3,4,5) row o1(2)])
  ultimately show False using assms(6) by (auto simp: deactivated_tables [OF assms(1)])
qed

section \<open>Property\<close>

text \<open>C32: Closing an account takes every resting order of the account out of every active pair, on both sides, and
  leaves the rows of everyone else exactly as they were, in every table.\<close>

theorem deactivation_empties_active_pairs:
  assumes "cancelOrderForDeactiveAcc svc u st = (st', True)" "filed st"
    and "(i, Row p) \<in> set (pairs st)" "p_status p = ''active''" "side \<in> {''buy'', ''sell''}"
  shows "(\<forall>row \<in> set (tables st' (open_table side (p_id p))). \<not> owned_by u (snd row)) \<and>
    (\<forall>key. filter (\<lambda>row. \<not> owned_by u (snd row)) (tables st' key) = filter (\<lambda>row. \<not> owned_by u (snd row)) (tables st key))"
proof (intro conjI allI ballI)
  fix row assume r: "row \<in> set (tables st' (open_table side (p_id p)))"
  show "\<not> owned_by u (snd row)" by (rule rows_of_active_pairs [OF assms r])
next
  fix key
  show "filter (\<lambda>row. \<not> owned_by u (snd row)) (tables st' key) = filter (\<lambda>row. \<not> owned_by u (snd row)) (tables st key)"
    using others_stay [OF assms(2), of _ u key] by (auto simp: deactivated_tables [OF assms(1)] intro!: filter_cong)
qed

text \<open>Two orders on one pair, of which the account owns one.\<close>

definition shared_book :: spot where
  "shared_book = funded_spot\<lparr>pairs := [(''p'', Row sample_pair)],
     tables := (\<lambda>_. [])(open_table ''buy'' ''p'' := [(''o1'', Row sample_order), (''o9'', Row (sample_order\<lparr>o_id := ''o9'', o_user := ''w''\<rparr>))])\<rparr>"

theorem deactivation_empties_active_pairs_witness:
  "tables (fst (cancelOrderForDeactiveAcc reference_service ''u'' shared_book)) (open_table ''buy'' ''p'') =
     [(''o9'', Row (sample_order\<lparr>o_id := ''o9'', o_user := ''w''\<rparr>))]"
proof -
  let ?st' = "fst (cancelOrderForDeactiveAcc reference_service ''u'' shared_book)"
  have r: "cancelOrderForDeactiveAcc reference_service ''u'' shared_book = (?st', True)"
    by (simp add: cancelOrderForDeactiveAcc_def close_documents_def shared_book_def funded_spot_def Let_def)
  have f: "filed shared_book"
    by (auto simp: filed_def shared_book_def open_table_def sample_order_def)
  have p: "(''p'', Row sample_pair) \<in> set (pairs shared_book)" "p_status sample_pair = ''active''" "p_id sample_pair = ''p''"
    by (simp_all add: shared_book_def sample_pair_def)
  have s: "''buy'' \<in> {''buy'', ''sell''}" by simp
  note d = deactivation_empties_active_pairs [OF r f p(1,2) s]
  have t: "tables shared_book (open_table ''buy'' ''p'') = [(''o1'', Row sample_order), (''o9'', Row (sample_order\<lparr>o_id := ''o9'', o_user := ''w''\<rparr>))]"
    by (simp add: shared_book_def)
  let ?P = "\<lambda>row. \<not> owned_by ''u'' (snd row)" and ?t = "open_table ''buy'' ''p''"
  have "filter ?P (tables ?st' ?t) = tables ?st' ?t" using conjunct1 [OF d] by (simp add: p(3) filter_id_conv)
  moreover have "filter ?P (tables ?st' ?t) = filter ?P (tables shared_book ?t)" using conjunct2 [OF d] by (rule spec)
  ultimately have "tables ?st' ?t = filter ?P (tables shared_book ?t)" by simp
  then show ?thesis unfolding t by (simp add: owned_by_def sample_order_def)
qed

end
