(* ===== verification/Exchange.thy ===== *)
theory Exchange
  imports Deactivation
begin

text \<open>
  The exchange as a whole: the handlers of the spot service as steps on one store, in any order, with
  the messages they leave behind delivered when they come to it, the clock moving and the store going
  away and coming back between handlers. A handler runs to its end before the next one starts; what
  can happen inside one is the subject of \<open>Matched\<close>. Every ledger stays a chain that ends in the
  live balance, and every size in the book stays a double, however the steps come.
\<close>

section \<open>Messages delivered\<close>

text \<open>
  A message of another service, and the price of the chart, change nothing here. An order that is
  written to the history for the first time takes the next code of the sequence, an argument.
\<close>

definition deliver :: "service \<Rightarrow> jsval \<Rightarrow> effect \<Rightarrow> spot \<Rightarrow> spot" where
  "deliver svc nextCode m st = (case m of
      SaveHistory o1 \<Rightarrow> newOrderHistory nextCode o1 st
    | NewTrade f \<Rightarrow> newTradeHistory f st
    | CancelMarket t i \<Rightarrow> fst (cancelMarketOrder svc t i st)
    | BookChange side pid x q digits \<Rightarrow> editOrderBook side x q pid digits st
    | _ \<Rightarrow> st)"

lemma kept_deliver: "kept svc st (deliver svc c m st)"
  by (cases m) (simp_all add: deliver_def kept_newOrderHistory kept_newTradeHistory kept_cancelMarketOrder kept_editOrderBook)

section \<open>Steps\<close>

inductive exchange_step :: "env \<Rightarrow> venue \<Rightarrow> venue \<Rightarrow> bool" for e where
  place: "orderPlace e u b v = (v', r) \<Longrightarrow> body_doubles b \<Longrightarrow> exchange_step e v v'"
| claim: "cancelClaim (server e) u key (exch v) = (st, r) \<Longrightarrow> exchange_step e v (v\<lparr>exch := st\<rparr>)"
| deactivate: "cancelOrderForDeactiveAcc (server e) u (exch v) = (st, b) \<Longrightarrow> exchange_step e v (v\<lparr>exch := st\<rparr>)"
| pass: "matchingcall fuel e pid v = Some v' \<Longrightarrow> exchange_step e v v'"
| message: "m \<in> set (sent (exch v)) \<Longrightarrow>
    exchange_step e v (v\<lparr>exch := deliver (server e) c m ((exch v)\<lparr>sent := remove1 m (sent (exch v))\<rparr>)\<rparr>)"
| time: "clock (exch v) \<le> t \<Longrightarrow> exchange_step e v (v\<lparr>exch := (exch v)\<lparr>clock := t\<rparr>\<rparr>)"
| outage: "exchange_step e v (v\<lparr>exch := (exch v)\<lparr>online := b\<rparr>\<rparr>)"

lemma kept_step:
  assumes "seed_wallet e = seeds_from docs"
  shows "exchange_step e v v' \<Longrightarrow> kept (server e) (exch v) (exch v')"
proof (induction rule: exchange_step.induct)
  case (place u b v v' r)
  then show ?case using kept_orderPlace [OF place(2) assms, of v u] by simp
next
  case (claim u key v st r)
  then show ?case using kept_cancelClaim [of "server e" "exch v" u key] by simp
next
  case (deactivate u v st b)
  then show ?case using kept_deactivate [of "server e" "exch v" u] by simp
next
  case (pass fuel pid v v')
  then show ?case by (rule kept_matchingcall)
next
  case (message m v c)
  have "kept (server e) (exch v) ((exch v)\<lparr>sent := remove1 m (sent (exch v))\<rparr>)" by (simp add: kept_same)
  from kept_trans [OF this kept_deliver] show ?case by simp
next
  case (time v t)
  then show ?case by (simp add: kept_same)
next
  case (outage v b)
  then show ?case by (simp add: kept_same)
qed

section \<open>The contract of the exchange\<close>

text \<open>The wallet service seeds balances and does nothing else to them.\<close>

definition seeds :: "env \<Rightarrow> bool" where
  "seeds e \<longleftrightarrow> (\<exists>docs. seed_wallet e = seeds_from docs)"

interpretation ex: value_handler "server e" exch "seeds e" "exchange_step e" for e
  by unfold_locales (auto simp: seeds_def dest: kept_step)

section \<open>Properties\<close>


text \<open>C7: However orders are placed, cancelled and matched, accounts closed, and however the messages, the clock and outages come in
  between, the ledger of every spot balance stays a chain of complete movements whose last entry is
  the live balance: no handler of the exchange changes a balance behind its ledger.\<close>

theorem exchange_keeps_ledgers_chained:
  assumes "redis_server (server e)" and "(exchange_step e)\<^sup>*\<^sup>* v v'" and "doubles_stored (exch v)" and "seeds e"
    and "chained (server e) ''walletbalance_spot'' f (exch v)"
  shows "chained (server e) ''walletbalance_spot'' f (exch v')"
  by (rule ex.run_chained [OF assms(1,4,2,3,5)])

section \<open>Witnesses\<close>

lemma sample_seeds: "seeds sample_env"
  by (auto simp: seeds_def sample_env_def seeds_from_def updateUserWallet_def fun_eq_iff intro!: exI [of _ "\<lambda>_. None"])

lemma sample_run:
  "(exchange_step sample_env)\<^sup>*\<^sup>* trading_venue (fst (limitOrderPlace sample_env ''u'' limit_body trading_venue))"
  "doubles_stored (exch trading_venue)"
proof -
  let ?v = "fst (limitOrderPlace sample_env ''u'' limit_body trading_venue)"
  have "orderPlace sample_env ''u'' limit_body trading_venue = (?v, placed)"
    using limit_body_placed by (simp add: orderPlace_def limit_body_def prod_eq_iff)
  moreover have "body_doubles limit_body"
  proof -
    have "is_num (Fin 2)" by code_simp
    then show ?thesis by (simp add: body_doubles_def limit_body_def)
  qed
  ultimately show "(exchange_step sample_env)\<^sup>*\<^sup>* trading_venue ?v"
    by (blast intro: exchange_step.place)
  show "doubles_stored (exch trading_venue)" by (simp add: doubles_stored_def trading_spot_def)
qed


theorem exchange_keeps_ledgers_chained_witness:
  "chained reference_service ''walletbalance_spot'' (''u'', ''q'')
     (exch (fst (limitOrderPlace sample_env ''u'' limit_body trading_venue)))"
proof -
  have s: "server sample_env = reference_service" by (simp add: sample_env_def)
  have c: "chained (server sample_env) ''walletbalance_spot'' (''u'', ''q'') (exch trading_venue)"
    by (simp add: chained_def trading_spot_def)
  from exchange_keeps_ledgers_chained [OF _ sample_run sample_seeds c] ref.redis_server_axioms
  show ?thesis by (simp add: s)
qed

end
