(* ===== verification/Bank.thy ===== *)
theory Bank
  imports Exchange
begin

text \<open>
  What the exchange promises about spot balances, as a machine of its own: a bank that keeps one
  balance per account field and the whole account book of every field, from its opening. The store
  keeps decimals and texts in a hash, and only the newest entries of each ledger stream. Every run of
  the exchange is, seen through \<open>represents\<close>, a run of the bank.
\<close>

declare split_paired_All [simp del] split_paired_Ex [simp del]

section \<open>The bank\<close>

record posting =
  po_amount :: rat
  po_before :: rat
  po_after :: rat
  po_reason :: string
  po_ref :: string

text \<open>A balance that cannot be counted with is none; an account nobody has opened holds zero.\<close>

record bank =
  b_open :: bool
  b_frozen :: "string \<Rightarrow> bool"
  b_cash :: "field \<Rightarrow> rat option"
  b_book :: "field \<Rightarrow> posting list"

definition post :: "service \<Rightarrow> field \<Rightarrow> rat \<Rightarrow> string \<Rightarrow> string \<Rightarrow> bank \<Rightarrow> bank" where
  "post svc f a why r b = (case b_cash b f of
      None \<Rightarrow> b
    | Some q \<Rightarrow> b\<lparr>b_cash := (b_cash b)(f := Some (incr_round svc (q + a))),
        b_book := (b_book b)(f := b_book b f @ [\<lparr>po_amount = a, po_before = q,
          po_after = incr_round svc (q + a), po_reason = why, po_ref = r\<rparr>])\<rparr>)"

definition covered :: "field \<Rightarrow> rat \<Rightarrow> string option \<Rightarrow> bank \<Rightarrow> bool" where
  "covered f x fk b \<longleftrightarrow> \<not> b_frozen b (freeze_name fk) \<and>
     (case b_cash b f of None \<Rightarrow> False | Some q \<Rightarrow> Fin x \<le> to_num q)"

fun bank_move :: "service \<Rightarrow> movement \<Rightarrow> bank \<Rightarrow> bank" where
  "bank_move svc (Move f amt dir why r fk) b = (case to_number amt of
      Fin x \<Rightarrow> if b_open b \<and> 0 < x \<and> (dir = Debit \<longrightarrow> covered f x fk b)
        then post svc f (signed_amount dir x) why r b else b
    | _ \<Rightarrow> b)"
| "bank_move svc (Shift f amt why r) b = (case to_number amt of
      Fin x \<Rightarrow> if b_open b \<and> x \<noteq> 0 then post svc f (spelling x) why r b else b
    | _ \<Rightarrow> b)"

text \<open>
  The bank moves money, opens accounts that have never been used, and finds itself open or closed
  and accounts frozen or not.
\<close>

inductive bank_step :: "service \<Rightarrow> bank \<Rightarrow> bank \<Rightarrow> bool" for svc where
  moves: "movement_ok m \<Longrightarrow> bank_step svc b (bank_move svc m b)"
| opens: "(\<And>f. c f = b_cash b f \<or> b_book b f = [] \<and> b_cash b f = Some 0) \<Longrightarrow> bank_step svc b (b\<lparr>b_cash := c\<rparr>)"
| meets: "bank_step svc b (b\<lparr>b_open := w, b_frozen := z\<rparr>)"

inductive_cases bank_stepE: "bank_step svc b b'"

text \<open>The book of the bank is complete: it explains the balance from the opening on.\<close>

fun book_from :: "rat \<Rightarrow> posting list \<Rightarrow> rat option" where
  "book_from q [] = Some q"
| "book_from q (p # ps) = (if po_before p = q then book_from (po_after p) ps else None)"

lemma book_from_snoc:
  "book_from q ps = Some c \<Longrightarrow> po_before p = c \<Longrightarrow> book_from q (ps @ [p]) = Some (po_after p)"
  by (induction ps arbitrary: q) (auto split: if_splits)

definition explained :: "bank \<Rightarrow> bool" where
  "explained b \<longleftrightarrow> (\<forall>f. b_book b f \<noteq> [] \<longrightarrow>
     (\<exists>q c. b_cash b f = Some c \<and> book_from q (b_book b f) = Some c))"

lemma explained_post: "explained b \<Longrightarrow> explained (post svc f a why r b)"
proof -
  assume e: "explained b"
  show ?thesis
  proof (cases "b_cash b f")
    case (Some q)
    let ?p = "\<lparr>po_amount = a, po_before = q, po_after = incr_round svc (q + a), po_reason = why, po_ref = r\<rparr>"
    have "\<exists>q0. book_from q0 (b_book b f @ [?p]) = Some (incr_round svc (q + a))"
    proof (cases "b_book b f = []")
      case False
      then obtain q0 where "book_from q0 (b_book b f) = Some q" using e Some by (auto simp: explained_def)
      from book_from_snoc [OF this, of ?p] show ?thesis by auto
    qed (auto intro: exI [of _ q])
    then show ?thesis using e Some by (auto simp: explained_def post_def)
  qed (use e in \<open>simp add: post_def\<close>)
qed

lemma explained_move: "explained b \<Longrightarrow> explained (bank_move svc m b)"
  by (cases m) (auto simp: explained_post split: jsnum.split)

lemma explained_step: "bank_step svc b b' \<Longrightarrow> explained b \<Longrightarrow> explained b'"
proof (induction rule: bank_step.induct)
  case (opens c b)
  then show ?case by (simp add: explained_def) (metis option.inject)
next
  case (moves m b)
  then show ?case by (simp add: explained_move)
qed (simp add: explained_def)

section \<open>The store as a bank\<close>

definition posted :: "posting \<Rightarrow> entry \<Rightarrow> bool" where
  "posted p e \<longleftrightarrow> delta e = RDec (po_amount p) \<and> before e = RDec (po_before p) \<and>
     after e = RDec (po_after p) \<and> reason e = po_reason p \<and> ref e = po_ref p"

definition cash_of :: "rval option \<Rightarrow> rat option" where
  "cash_of v = (case v of None \<Rightarrow> Some 0 | Some (RDec q) \<Rightarrow> Some q | Some (RText s) \<Rightarrow> None)"

text \<open>The stream of a field is the end of its book; a field that is missing was never used.\<close>

definition represents :: "string \<Rightarrow> 'a redis_scheme \<Rightarrow> bank \<Rightarrow> bool" where
  "represents key st b \<longleftrightarrow> b_open b = online st \<and> (\<forall>k. b_frozen b k \<longleftrightarrow> live_key st k \<noteq> None) \<and>
     (\<forall>f. b_cash b f = cash_of (hashes st key f)) \<and>
     (\<forall>f. \<exists>old new. b_book b f = old @ new \<and> list_all2 posted new (streams st f)) \<and>
     (\<forall>f. hashes st key f = None \<longrightarrow> b_book b f = [])"

lemma holds_cash: "holds key f q st \<longleftrightarrow> cash_of (hashes st key f) = Some q"
  by (auto simp: holds_def cash_of_def split: option.split rval.split)

text \<open>The bank with nothing in its books that stands for a store without ledgers.\<close>

definition new_bank :: "string \<Rightarrow> 'a redis_scheme \<Rightarrow> bank" where
  "new_bank key st = \<lparr>b_open = online st, b_frozen = (\<lambda>k. live_key st k \<noteq> None),
     b_cash = (\<lambda>f. cash_of (hashes st key f)), b_book = (\<lambda>_. [])\<rparr>"

lemma new_bank_represents: "(\<And>f. streams st f = []) \<Longrightarrow> represents key st (new_bank key st)"
  by (simp add: represents_def new_bank_def)

lemma new_bank_explained: "explained (new_bank key st)"
  by (simp add: explained_def new_bank_def)

lemma offline_still:
  "\<not> online st \<Longrightarrow> fst (moveBalanceLogged svc key f amt dir why r fk st) = st"
  "\<not> online st \<Longrightarrow> fst (moveBalanceSigned svc key f amt why r st) = st"
  by (simp_all add: moveBalanceLogged_def moveBalanceSigned_def Let_def)

context redis_server
begin

lemma represents_logged:
  assumes "represents key st b" and "holds key f q st"
  shows "represents key (logged svc key f q a why r st) (post svc f a why r b)"
proof -
  define e where "e = \<lparr>entry_id = next_id st, delta = RDec a, before = RDec q,
    after = RDec (incr_round svc (q + a)), reason = why, ref = r\<rparr>"
  define p where "p = \<lparr>po_amount = a, po_before = q, po_after = incr_round svc (q + a), po_reason = why, po_ref = r\<rparr>"
  have c: "b_cash b f = Some q" using assms by (simp add: represents_def holds_cash)
  obtain old new where b: "b_book b f = old @ new" "list_all2 posted new (streams st f)"
    using assms(1) unfolding represents_def by blast
  have "list_all2 posted (new @ [p]) (streams st f @ [e])"
    using b(2) by (simp add: list_all2_appendI posted_def p_def e_def)
  moreover obtain dropped where d: "streams st f @ [e] = dropped @ trim_stream svc (streams st f @ [e])"
    using trim_suffix [of "streams st f @ [e]"] by blast
  ultimately obtain us vs where "new @ [p] = us @ vs" "list_all2 posted vs (trim_stream svc (streams st f @ [e]))"
    by (metis list_all2_append2)
  then have "\<exists>old' new'. b_book b f @ [p] = old' @ new' \<and> list_all2 posted new' (trim_stream svc (streams st f @ [e]))"
    using b(1) by (intro exI [of _ "old @ us"] exI [of _ vs]) simp
  then show ?thesis
    using assms(1) c live_key_cong [of "logged svc key f q a why r st" st]
    by (auto simp: represents_def post_def p_def e_def cash_of_def)
qed

lemma represents_move:
  assumes "represents key st b" and "movement_ok m"
  shows "represents key (run_movement svc key m st) (bank_move svc m b)"
proof (cases m)
  case (Move f amt dir why r fk)
  obtain st' rep where m: "moveBalanceLogged svc key f amt dir why r fk st = (st', rep)" by fastforce
  have n: "is_num (to_number amt)" using assms(2) Move by simp
  have j: "moveBalanceLogged svc key f amt dir why r fk st =
      moveBalanceLogged svc key f (JNum (to_number amt)) dir why r fk st" by (simp add: moveBalanceLogged_def)
  show ?thesis
  proof (cases "\<exists>x. to_number amt = Fin x \<and> b_open b \<and> 0 < x \<and> b_cash b f \<noteq> None \<and>
      (dir = Debit \<longrightarrow> covered f x fk b)")
    case True
    then obtain x q where x: "to_number amt = Fin x" "online st" "0 < x" "holds key f q st" "is_num (Fin x)"
        "dir = Debit \<longrightarrow> Fin x \<le> to_num q \<and> live_key st (freeze_name fk) = None"
      using assms(1) n by (auto simp: represents_def holds_cash covered_def simp del: is_num.simps)
    have "st' = logged svc key f q (signed_amount dir x) why r st"
      using m credit_done [OF x(5,3,2,4)] debit_done [OF x(5,3,2,4)] x(1,6) unfolding j
      by (cases dir) (auto simp: signed_amount_def simp del: spelled.simps(1))
    moreover have "bank_move svc m b = post svc f (signed_amount dir x) why r b"
      using True x(1) by (simp add: Move)
    ultimately show ?thesis using represents_logged [OF assms(1) x(4)] by (simp add: Move m)
  next
    case False
    have "st' = st" using moveBalanceLogged_cases [OF n m] offline_still(1) [of st svc key f amt dir why r fk] m False assms(1)
      by (auto simp: represents_def holds_cash covered_def)
    moreover have "bank_move svc m b = b" using False by (auto simp: Move post_def split: jsnum.split option.split)
    ultimately show ?thesis using assms(1) by (simp add: Move m)
  qed
next
  case (Shift f amt why r)
  obtain st' rep where m: "moveBalanceSigned svc key f amt why r st = (st', rep)" by fastforce
  have n: "is_num (to_number amt)" using assms(2) Shift by simp
  have j: "moveBalanceSigned svc key f amt why r st = moveBalanceSigned svc key f (JNum (to_number amt)) why r st"
    by (simp add: moveBalanceSigned_def)
  show ?thesis
  proof (cases "\<exists>x. to_number amt = Fin x \<and> b_open b \<and> x \<noteq> 0 \<and> b_cash b f \<noteq> None")
    case True
    then obtain x q where x: "to_number amt = Fin x" "online st" "x \<noteq> 0" "holds key f q st" "is_num (Fin x)"
      using assms(1) n by (auto simp: represents_def holds_cash simp del: is_num.simps)
    have "st' = logged svc key f q (spelling x) why r st"
      using m shift_done [OF x(5,3,2,4)] x(1) unfolding j by (auto simp del: spelled.simps(1))
    moreover have "bank_move svc m b = post svc f (spelling x) why r b" using True x(1) by (simp add: Shift)
    ultimately show ?thesis using represents_logged [OF assms(1) x(4)] by (simp add: Shift m)
  next
    case False
    have "st' = st" using moveBalanceSigned_cases [OF n m] offline_still(2) [of st svc key f amt why r] m False assms(1)
      by (auto simp: represents_def holds_cash)
    moreover have "bank_move svc m b = b" using False by (auto simp: Shift post_def split: jsnum.split option.split)
    ultimately show ?thesis using assms(1) by (simp add: Shift m)
  qed
qed

lemma money_moves_simulated:
  "money_moves svc st st' \<Longrightarrow> represents ''walletbalance_spot'' st b \<Longrightarrow>
   \<exists>b'. (bank_step svc)\<^sup>*\<^sup>* b b' \<and> represents ''walletbalance_spot'' st' b'"
proof (induction arbitrary: b rule: money_moves.induct)
  case (still st st')
  have "bank_step svc b (b\<lparr>b_open := online st', b_frozen := \<lambda>k. live_key st' k \<noteq> None\<rparr>)" by (rule bank_step.meets)
  moreover have "represents ''walletbalance_spot'' st' (b\<lparr>b_open := online st', b_frozen := \<lambda>k. live_key st' k \<noteq> None\<rparr>)"
    using still by (simp add: represents_def same_wallet_def)
  ultimately show ?case by blast
next
  case (seeded st st')
  let ?c = "\<lambda>f. cash_of (hashes st' ''walletbalance_spot'' f)"
  obtain h where h: "st' = st\<lparr>hashes := h\<rparr>" "\<And>k f. hashes st k f \<noteq> None \<Longrightarrow> h k f = hashes st k f"
    using seeded(1) unfolding only_fills_def by force
  have "?c f = b_cash b f \<or> b_book b f = [] \<and> b_cash b f = Some 0" for f
    using h seeded(2) by (cases "hashes st ''walletbalance_spot'' f = None") (auto simp: represents_def cash_of_def)
  moreover have missing: "hashes st ''walletbalance_spot'' f = None" if "h ''walletbalance_spot'' f = None" for f
    using h(2) [of "''walletbalance_spot''" f] that by (cases "hashes st ''walletbalance_spot'' f") auto
  ultimately have "bank_step svc b (b\<lparr>b_cash := ?c\<rparr>)" by (intro bank_step.opens) simp
  moreover have "represents ''walletbalance_spot'' st' (b\<lparr>b_cash := ?c\<rparr>)"
    using h(1) missing seeded(2) live_key_cong [of st' st] by (simp add: represents_def)
  ultimately show ?case by blast
next
  case (moved m st)
  then show ?case using represents_move bank_step.moves by blast
next
  case (followed st st1 st2)
  then show ?case by (meson rtranclp_trans)
qed

end

lemma explained_run: "(bank_step svc)\<^sup>*\<^sup>* b b' \<Longrightarrow> explained b \<Longrightarrow> explained b'"
  by (induction rule: rtranclp.induct) (auto intro: explained_step)

context value_handler
begin

lemma run_simulated:
  assumes "redis_server svc" "proviso" "step\<^sup>*\<^sup>* s s'" "doubles_stored (wallet s)"
    and "represents ''walletbalance_spot'' (wallet s) b"
  shows "\<exists>b'. (bank_step svc)\<^sup>*\<^sup>* b b' \<and> represents ''walletbalance_spot'' (wallet s') b'"
  by (rule redis_server.money_moves_simulated [OF assms(1) _ assms(5)])
    (use run_kept [OF assms(3,2)] assms(4) in \<open>simp add: kept_def\<close>)

end

section \<open>Properties\<close>

text \<open>C8: The exchange refines the bank: every run of the exchange, with orders placed, cancelled and matched,
  accounts closed, messages, time and outages in any order, is a run of the bank that ends in a bank the
  store represents, with every balance explained by its complete account book.\<close>

theorem exchange_refines_bank:
  assumes "redis_server (server e)" and "(exchange_step e)\<^sup>*\<^sup>* v v'" and "doubles_stored (exch v)" and "seeds e"
    and "represents ''walletbalance_spot'' (exch v) b" and "explained b"
  shows "\<exists>b'. (bank_step (server e))\<^sup>*\<^sup>* b b' \<and> represents ''walletbalance_spot'' (exch v') b' \<and> explained b'"
  using ex.run_simulated [OF assms(1,4,2,3,5)] explained_run [OF _ assms(6)] by blast

theorem exchange_refines_bank_witness:
  "\<exists>b'. (bank_step reference_service)\<^sup>*\<^sup>* (new_bank ''walletbalance_spot'' (exch trading_venue)) b' \<and>
     represents ''walletbalance_spot'' (exch (fst (limitOrderPlace sample_env ''u'' limit_body trading_venue))) b' \<and> explained b'"
proof -
  have s: "server sample_env = reference_service" by (simp add: sample_env_def)
  have r: "represents ''walletbalance_spot'' (exch trading_venue) (new_bank ''walletbalance_spot'' (exch trading_venue))"
    by (rule new_bank_represents) (simp add: trading_spot_def)
  from exchange_refines_bank [OF _ sample_run sample_seeds r new_bank_explained] ref.redis_server_axioms
  show ?thesis by (simp add: s)
qed

end
