(* ===== verification/DepositUnits.thy ===== *)
theory DepositUnits
  imports JsPrint
begin

text \<open>
  Amounts of the deposit history in base units (\<^verbatim>\<open>cryptodex-spotapi/lib/depositUnits.js\<close>): a credit is
  written as a whole number of units of the eighth decimal and read back as a decimal text.
\<close>

definition DEPOSIT_DECIMALS :: int where
  "DEPOSIT_DECIMALS = 8"

definition LEGACY_DEPOSIT_DECIMALS :: int where
  "LEGACY_DEPOSIT_DECIMALS = 6"

definition normaliseDecimals :: "jsval \<Rightarrow> int \<Rightarrow> int" where
  "normaliseDecimals decimals fallback = (case to_number decimals of
      Fin x \<Rightarrow> if x < 0 then fallback else \<lfloor>x\<rfloor>
    | _ \<Rightarrow> fallback)"

fun stripLeadingZeros :: "string \<Rightarrow> string" where
  "stripLeadingZeros (c # d # ds) =
     (if c = CHR ''0'' \<and> is_digit d then stripLeadingZeros (d # ds) else c # d # ds)"
| "stripLeadingZeros ds = ds"

text \<open>The digits on both sides of the point, put together.\<close>

definition toBaseUnits :: "jsval \<Rightarrow> jsval \<Rightarrow> string option" where
  "toBaseUnits amount decimals = (case to_number amount of
      Fin x \<Rightarrow>
        (let scale = nat (normaliseDecimals decimals DEPOSIT_DECIMALS);
             fixed = to_fixed_str (Fin \<bar>x\<bar>) scale;
             digits = stripLeadingZeros (filter (\<lambda>c. c \<noteq> CHR ''.'') fixed)
         in Some ((if x < 0 then ''-'' else []) @ digits))
    | _ \<Rightarrow> None)"

definition signed_digits :: "string \<Rightarrow> bool" where
  "signed_digits s = (let ds = (if s \<noteq> [] \<and> hd s = CHR ''-'' then tl s else s) in ds \<noteq> [] \<and> list_all is_digit ds)"

definition padStart :: "nat \<Rightarrow> string \<Rightarrow> string" where
  "padStart n s = replicate (n - length s) (CHR ''0'') @ s"

definition dropTrailingZeros :: "string \<Rightarrow> string" where
  "dropTrailingZeros s = rev (dropWhile (\<lambda>c. c = CHR ''0'') (rev s))"

text \<open>Whole digits and fraction digits of a count of base units.\<close>

definition unit_parts :: "nat \<Rightarrow> string \<Rightarrow> string \<times> string" where
  "unit_parts scale ds =
     (let padded = padStart (scale + 1) ds; k = length padded - scale
      in (take k padded, dropTrailingZeros (drop k padded)))"

definition fromBaseUnits :: "jsval \<Rightarrow> jsval \<Rightarrow> string" where
  "fromBaseUnits amount decimals =
     (let raw = trim (if amount = JUndef \<or> amount = JNull then [] else to_string amount);
          scale = nat (normaliseDecimals decimals LEGACY_DEPOSIT_DECIMALS)
      in if \<not> signed_digits raw
         then (case to_number (JStr raw) of
             Fin x \<Rightarrow> num_to_string (Fin x / to_num (10 ^ scale))
           | _ \<Rightarrow> ''0'')
         else let negative = (hd raw = CHR ''-'');
                  ds = stripLeadingZeros (if negative then tl raw else raw)
           in if scale = 0 then (if negative then ''-'' else []) @ ds
              else let (whole, frc) = unit_parts scale ds;
                       body = (if frc = [] then whole else whole @ ''.'' @ frc)
                in (if negative \<and> (\<exists>c \<in> set ds. is_digit c \<and> c \<noteq> CHR ''0'') then ''-'' else []) @ body)"

section \<open>Nothing is lost between the two forms\<close>

lemma dropTrailingZeros_split: "\<exists>n. s = dropTrailingZeros s @ replicate n (CHR ''0'')"
proof -
  have "rev s = takeWhile (\<lambda>c. c = CHR ''0'') (rev s) @ dropWhile (\<lambda>c. c = CHR ''0'') (rev s)" by simp
  moreover have "takeWhile (\<lambda>c. c = CHR ''0'') (rev s) = replicate (length (takeWhile (\<lambda>c. c = CHR ''0'') (rev s))) (CHR ''0'')"
    by (induction "rev s" arbitrary: s) (auto simp: replicate_length_same dest: set_takeWhileD intro!: replicate_eqI)
  ultimately have "s = rev (dropWhile (\<lambda>c. c = CHR ''0'') (rev s)) @
      rev (replicate (length (takeWhile (\<lambda>c. c = CHR ''0'') (rev s))) (CHR ''0''))"
    by (metis rev_append rev_rev_ident)
  then show ?thesis unfolding dropTrailingZeros_def rev_replicate by blast
qed

lemma unit_parts_lossless:
  assumes "unit_parts scale ds = (whole, frc)"
  shows "whole @ frc @ replicate (scale - length frc) (CHR ''0'') = padStart (scale + 1) ds \<and> whole \<noteq> [] \<and>
    length frc \<le> scale"
proof -
  let ?p = "padStart (scale + 1) ds" and ?k = "length (padStart (scale + 1) ds) - scale"
  have l: "scale + 1 \<le> length ?p" by (simp add: padStart_def)
  obtain n where n: "drop ?k ?p = frc @ replicate n (CHR ''0'')"
    using assms dropTrailingZeros_split [of "drop ?k ?p"] by (auto simp: unit_parts_def Let_def)
  have "length (drop ?k ?p) = scale" using l by simp
  then have "length frc + n = scale" unfolding n by simp
  moreover have w: "whole = take ?k ?p" using assms by (simp add: unit_parts_def Let_def)
  moreover have "0 < length whole" using l unfolding w by simp
  moreover have "whole @ frc @ replicate n (CHR ''0'') = ?p" using n w append_take_drop_id [of ?k ?p] by simp
  ultimately show ?thesis by auto
qed

end
