(* ===== verification/FlightProgress.thy ===== *)
theory FlightProgress
  imports ValueFlight
begin

text \<open>
  Nothing that a request or a reset leaves behind blocks the account for good: the freeze and the
  registry both carry an expiry, so a holder that never gives its claim back is waited out. The
  reset's wait is the bound of a flight, a request's wait the bound of the freeze.
\<close>

definition ends_by :: "int \<Rightarrow> int option \<Rightarrow> bool" where
  "ends_by t e = (case e of None \<Rightarrow> False | Some d \<Rightarrow> d \<le> t)"

definition short_lived :: "user_id \<Rightarrow> 'a redis_scheme \<Rightarrow> bool" where
  "short_lived userId st \<longleftrightarrow>
     pred_option (\<lambda>(w, e). ends_by (clock st + MARGIN_FREEZE_TTL_MS) e) (keys st (marginFreezeKey userId)) \<and>
     (fst (flights st (valueFlightKey userId)) = [] \<or>
        ends_by (clock st + VALUE_FLIGHT_TTL_MS) (snd (flights st (valueFlightKey userId))))"

lemma ends_by_simps [simp]: "\<not> ends_by t None" "ends_by t (Some d) \<longleftrightarrow> d \<le> t"
  by (simp_all add: ends_by_def)

lemma ends_by_mono: "ends_by t e \<Longrightarrow> t \<le> t' \<Longrightarrow> ends_by t' e"
  by (cases e) simp_all

lemma ends_by_expired: "ends_by t e \<Longrightarrow> t < t' \<Longrightarrow> expired t' e"
  by (cases e) (simp_all add: expired_def)

lemma short_lived_same:
  assumes "short_lived userId st" "clock st \<le> clock st'"
    and "keys st' (marginFreezeKey userId) = keys st (marginFreezeKey userId)"
    and "flights st' (valueFlightKey userId) = flights st (valueFlightKey userId)"
  shows "short_lived userId st'"
proof -
  have "ends_by (clock st + d) e \<Longrightarrow> ends_by (clock st' + d) e" for d e
    using assms(2) by (auto elim: ends_by_mono)
  then show ?thesis using assms by (auto simp: short_lived_def option.pred_set)
qed

lemma short_lived_begin:
  "trackValueFlight (Some userId) token st = (st', Next (Some token)) \<Longrightarrow> short_lived userId st \<Longrightarrow> short_lived userId st'"
  by (drule begin_next(2)) (auto simp: short_lived_def)

lemma remove_field_nil [simp]: "remove_field k [] = []"
  by (simp add: remove_field_def)

lemma short_lived_end:
  "endValueFlight userId (Some token) st = (st', r) \<Longrightarrow> short_lived userId st \<Longrightarrow> short_lived userId st'"
  by (auto simp: endValueFlight_def hdel_flight_def live_hash_def short_lived_def Let_def
      split: if_splits option.splits)

lemma short_lived_take:
  "claimOnce (marginFreezeKey userId) token MARGIN_FREEZE_TTL_MS st = (st', True) \<Longrightarrow> short_lived userId st \<Longrightarrow>
   short_lived userId st'"
  by (auto simp: claimOnce_def CLAIM_ONCE_LUA_def short_lived_def MARGIN_FREEZE_TTL_MS_def split: if_splits)

lemma short_lived_release:
  "releaseClaim (marginFreezeKey userId) token st = (st', b) \<Longrightarrow> short_lived userId st \<Longrightarrow> short_lived userId st'"
  by (auto simp: releaseClaim_def RELEASE_CLAIM_LUA_def short_lived_def split: if_splits)

lemma short_lived_step: "flight_step userId s s' \<Longrightarrow> short_lived userId (store s) \<Longrightarrow> short_lived userId (store s')"
proof (induction rule: flight_step.induct)
  case (tick s t)
  then show ?case using short_lived_same [of userId "store s" "(store s)\<lparr>clock := t\<rparr>"] by simp
next
  case (outage s b)
  then show ?case using short_lived_same [of userId "store s" "(store s)\<lparr>online := b\<rparr>"] by simp
qed (auto dest: short_lived_begin short_lived_end short_lived_take short_lived_release)

lemma short_lived_reachable:
  "flight_reachable userId s0 s \<Longrightarrow> short_lived userId (store s0) \<Longrightarrow> short_lived userId (store s)"
  by (induction rule: flight_reachable.induct) (auto dest: short_lived_step)

text \<open>After its bound the freeze is gone, after the longer bound the registry too.\<close>

lemma freeze_gone:
  "short_lived userId st \<Longrightarrow> clock st + MARGIN_FREEZE_TTL_MS < t \<Longrightarrow>
   live_key (st\<lparr>clock := t, online := b\<rparr>) (marginFreezeKey userId) = None"
  by (auto simp: short_lived_def live_key_def dest: ends_by_expired split: option.splits)

lemma registry_gone:
  "short_lived userId st \<Longrightarrow> clock st + VALUE_FLIGHT_TTL_MS < t \<Longrightarrow>
   live_hash (st\<lparr>clock := t, online := b\<rparr>) (valueFlightKey userId) = []"
  by (auto simp: short_lived_def live_hash_def dest: ends_by_expired)

text \<open>Time passes and the store answers: two steps that are always open.\<close>

lemma wait_step:
  assumes "flight_reachable userId s0 s" and "clock (store s) \<le> t" "t \<le> 2 ^ 52"
  shows "flight_reachable userId s0 (s\<lparr>store := (store s)\<lparr>clock := t, online := True\<rparr>\<rparr>)"
proof -
  let ?s1 = "s\<lparr>store := (store s)\<lparr>clock := t\<rparr>\<rparr>"
  have "flight_reachable userId s0 ?s1"
    by (rule flight_reachable.more [OF assms(1) flight_step.tick [OF assms(2,3)]])
  from flight_reachable.more [OF this flight_step.outage [of userId ?s1 True]] show ?thesis by simp
qed

lemma can_enter:
  assumes "flight_reachable userId s0 s" "short_lived userId (store s)"
    and "clock (store s) + MARGIN_FREEZE_TTL_MS < t" "t \<le> 2 ^ 52" and "token \<notin> fst ` set (requests s)"
  shows "\<exists>s'. flight_reachable userId s0 s' \<and> clock (store s') = t \<and> (token, t) \<in> set (requests s')"
proof -
  let ?s1 = "s\<lparr>store := (store s)\<lparr>clock := t, online := True\<rparr>\<rparr>"
  have le: "clock (store s) \<le> t" using assms(3) by (simp add: MARGIN_FREEZE_TTL_MS_def)
  obtain st' where b: "trackValueFlight (Some userId) token (store ?s1) = (st', Next (Some token))"
    using freeze_gone [OF assms(2,3)]
    by (auto simp: trackValueFlight_def beginValueFlight_def beginFlight_def BEGIN_FLIGHT_LUA_def split: prod.split)
  note st' = begin_next(2) [OF b]
  have fresh: "token \<notin> fst ` set (requests ?s1)" using assms(5) by simp
  let ?s2 = "?s1\<lparr>store := st', requests := (token, clock (store ?s1)) # requests ?s1\<rparr>"
  have "flight_reachable userId s0 ?s2"
    by (rule flight_reachable.more [OF wait_step [OF assms(1) le assms(4)] flight_step.enter [OF b fresh]])
  moreover have "clock (store ?s2) = t" using st' by simp
  moreover have "(token, t) \<in> set (requests ?s2)" by simp
  ultimately show ?thesis by blast
qed

lemma can_write:
  assumes "flight_reachable userId s0 s" "short_lived userId (store s)"
    and "clock (store s) + VALUE_FLIGHT_TTL_MS < t" "t \<le> 2 ^ 52" and "token \<notin> fst ` set (resets s)"
  shows "\<exists>s'. flight_reachable userId s0 s' \<and> clock (store s') = t \<and> may_write userId s' token"
proof -
  let ?s1 = "s\<lparr>store := (store s)\<lparr>clock := t, online := True\<rparr>\<rparr>"
  have le: "clock (store s) \<le> t" "clock (store s) + MARGIN_FREEZE_TTL_MS < t"
    using assms(3) by (simp_all add: MARGIN_FREEZE_TTL_MS_def VALUE_FLIGHT_TTL_MS_def)
  obtain st' where c: "claimOnce (marginFreezeKey userId) token MARGIN_FREEZE_TTL_MS (store ?s1) = (st', True)"
    using freeze_gone [OF assms(2) le(2)] by (auto simp: claimOnce_def CLAIM_ONCE_LUA_def)
  let ?s2 = "?s1\<lparr>store := st', resets := (token, False) # resets ?s1\<rparr>"
  have fresh: "token \<notin> fst ` set (resets ?s1)" using assms(5) by simp
  note r2 = flight_reachable.more [OF wait_step [OF assms(1) le(1) assms(4)] flight_step.take [OF c fresh]]
  have "live_hash st' (valueFlightKey userId) = [] \<and> online st' \<and> clock st' = t"
    using registry_gone [OF assms(2,3), of True] c
    by (auto simp: claimOnce_def CLAIM_ONCE_LUA_def live_hash_def split: if_splits)
  then have q: "readLiveValueFlights userId (Fin (of_int (clock (store ?s2)))) (store ?s2) = Done []"
    by (simp add: readLiveValueFlights_def)
  have "map_of (resets ?s2) token = Some False" by simp
  from flight_reachable.more [OF r2 flight_step.quiet [OF this q]]
  show ?thesis
    using claim_true(3,4) [OF c] by (intro exI conjI) (auto simp: may_write_def)
qed

section \<open>Property\<close>



end
