(* ===== verification/Faucet.thy ===== *)
theory Faucet
  imports Wallets DepositUnits FlightProgress
begin

text \<open>
  The demo funds (\<^verbatim>\<open>cryptodex-spotapi/controllers/faucet.controller.js\<close>) and the look at the resting orders
  before a reset (\<^verbatim>\<open>lib/restingSpotOrders.js\<close>). A claim credits once a day; a reset writes absolute
  balances, and only inside the freeze, on an account without a request in flight and without an order
  in the book. The currency documents and the wallet document of the account come from the database
  and are arguments, as are the token of the freeze and whether a deposit record could be saved.
\<close>

section \<open>Constants\<close>

definition FAUCET_AMOUNT :: jsnum where
  "FAUCET_AMOUNT = Fin 1000"

definition FAUCET_COOLDOWN_SECONDS :: int where
  "FAUCET_COOLDOWN_SECONDS = 24 * 60 * 60"

definition FAUCET_COINS :: "string list" where
  "FAUCET_COINS = [''USD'']"

definition OTHER_LEDGERS :: "string list" where
  "OTHER_LEDGERS = [''walletbalance_spot_locked'', ''walletbalance_spot_inOrder'']"

definition cooldownKey :: "user_id \<Rightarrow> string" where
  "cooldownKey userId = ''faucet_cooldown_'' @ userId"

section \<open>The orders of an account that rest in the book\<close>

text \<open>
  The pairs are those of the cache. A cache that cannot be read or holds no pair makes the book
  unreadable; rows that do not parse are skipped, and so are the rows of the paper ladder.
\<close>

definition cached_pairs :: "spot \<Rightarrow> pair list" where
  "cached_pairs st = List.map_filter (\<lambda>(_, r). case r of Row p \<Rightarrow> Some p | Garbled \<Rightarrow> None) (pairs st)"

definition resting_in :: "user_id \<Rightarrow> string \<Rightarrow> spot \<Rightarrow> order list" where
  "resting_in userId t st = filter (\<lambda>o1. \<not> o_is_paper o1 \<and> o_user o1 = userId) (orders_of (tables st t))"

datatype resting = SpotBookUnreadable string | Resting "order list"

definition listRestingSpotOrders :: "user_id \<Rightarrow> spot \<Rightarrow> resting" where
  "listRestingSpotOrders userId st =
     (if \<not> online st then SpotBookUnreadable ''spot pair cache could not be read''
      else let ps = cached_pairs st in
        if ps = [] then SpotBookUnreadable ''spot pair cache is empty''
        else Resting (concat (map (\<lambda>p. concat (map (\<lambda>side. resting_in userId (open_table side (p_id p)) st)
          [''buy'', ''sell''])) ps)))"

section \<open>The currencies and the coins of an account\<close>

type_synonym currency = "string \<times> currency_id"

definition coin_rank :: "string \<Rightarrow> nat" where
  "coin_rank coin = length (takeWhile (\<lambda>c. c \<noteq> coin) FAUCET_COINS)"

definition getFaucetCurrencies :: "currency list \<Rightarrow> currency list" where
  "getFaucetCurrencies docs = sort_key (\<lambda>c. coin_rank (fst c)) (filter (\<lambda>c. fst c \<in> set FAUCET_COINS) docs)"

record coin_entry =
  ce_coin :: string
  ce_ids :: "currency_id list"
  ce_currency :: "currency_id option"

definition add_id :: "currency_id \<Rightarrow> currency_id list \<Rightarrow> currency_id list" where
  "add_id i ids = (if i = [] \<or> i \<in> set ids then ids else ids @ [i])"

text \<open>An asset adds the id of its currency and its own to the entry of its coin.\<close>

definition add_asset :: "asset \<Rightarrow> coin_entry \<Rightarrow> coin_entry" where
  "add_asset a en =
     en\<lparr>ce_ids := add_id (a_currency a) (case a_currency_ref a of None \<Rightarrow> ce_ids en | Some c \<Rightarrow> add_id c (ce_ids en)),
        ce_currency := (if ce_currency en = None then a_currency_ref a else ce_currency en)\<rparr>"

fun collect_asset :: "asset \<Rightarrow> coin_entry list \<Rightarrow> coin_entry list" where
  "collect_asset a [] = (if a_coin a = [] then [] else [add_asset a \<lparr>ce_coin = a_coin a, ce_ids = [], ce_currency = None\<rparr>])"
| "collect_asset a (en # es) =
     (if a_coin a = [] then en # es else if ce_coin en = a_coin a then add_asset a en # es else en # collect_asset a es)"

definition collectUserCoins :: "asset list option \<Rightarrow> coin_entry list" where
  "collectUserCoins doc = (case doc of None \<Rightarrow> [] | Some assets \<Rightarrow> fold collect_asset assets [])"

section \<open>Answers\<close>

record credit_line =
  cl_coin :: string
  cl_amount :: jsnum
  cl_balance :: jsnum
  cl_signature :: "string option"

datatype faucet_answer =
    Refuse_faucet int string
  | Wait int
  | Resting_orders "order list"
  | Paid "credit_line list"

record deposit_row =
  dr_signature :: string
  dr_asset :: string
  dr_amount :: string
  dr_user :: user_id

record faucet_out =
  fo_updates :: "asset_update list"
  fo_deposits :: "deposit_row list"
  fo_answer :: faucet_answer

definition answer_only :: "faucet_answer \<Rightarrow> faucet_out" where
  "answer_only a = \<lparr>fo_updates = [], fo_deposits = [], fo_answer = a\<rparr>"

section \<open>Claiming\<close>

text \<open>Seconds left of a key, rounded as the server rounds milliseconds.\<close>

definition key_ttl :: "string \<Rightarrow> 'a redis_scheme \<Rightarrow> int" where
  "key_ttl k st = (case keys st k of
      Some (_, Some d) \<Rightarrow> if d < clock st then - 2 else (d - clock st + 500) div 1000
    | Some (_, None) \<Rightarrow> - 1
    | None \<Rightarrow> - 2)"

definition del_key :: "string \<Rightarrow> 'a redis_scheme \<Rightarrow> 'a redis_scheme" where
  "del_key k st = (if online st then st\<lparr>keys := (keys st)(k := None)\<rparr> else st)"

definition timestamp :: "'a redis_scheme \<Rightarrow> string" where
  "timestamp st = num_to_string (Fin (of_int (clock st)))"

fun credit_all ::
    "service \<Rightarrow> user_id \<Rightarrow> currency list \<Rightarrow> spot \<Rightarrow> spot \<times> asset_update list \<times> (string \<times> jsnum) list \<times> bool" where
  "credit_all svc u [] st = (st, [], [], True)"
| "credit_all svc u ((coin, c) # cs) st =
     (case adjustSpotBalance svc (resolveAccount u c) (JNum FAUCET_AMOUNT) ''credit'' [] st of
        (st1, ups, Done balance) \<Rightarrow>
          (case credit_all svc u cs st1 of (st2, ups2, bs, done) \<Rightarrow> (st2, ups @ ups2, (coin, balance) # bs, done))
      | (st1, ups, _) \<Rightarrow> (st1, ups, [], False))"

text \<open>The balance of a coin that occurs twice is the one written last.\<close>

definition balance_of :: "(string \<times> jsnum) list \<Rightarrow> string \<Rightarrow> jsnum" where
  "balance_of bs coin = (case map_of (rev bs) coin of None \<Rightarrow> NaN | Some b \<Rightarrow> b)"

definition credit_lines :: "(string \<times> jsnum) list \<Rightarrow> credit_line list" where
  "credit_lines bs = map (\<lambda>(coin, _).
     \<lparr>cl_coin = coin, cl_amount = FAUCET_AMOUNT, cl_balance = balance_of bs coin, cl_signature = None\<rparr>) bs"

definition deposit_signature :: "string \<Rightarrow> user_id \<Rightarrow> string \<Rightarrow> string" where
  "deposit_signature t u coin = ''faucet-'' @ t @ ''-'' @ u @ ''-spot-'' @ coin"

definition recordCreditedLegs ::
    "user_id \<Rightarrow> string \<Rightarrow> (string \<Rightarrow> bool) \<Rightarrow> credit_line list \<Rightarrow> deposit_row list \<times> credit_line list" where
  "recordCreditedLegs u t saved legs =
     (let rows = List.map_filter (\<lambda>l. case toBaseUnits (JNum (cl_amount l)) (JNum (Fin (of_int DEPOSIT_DECIMALS))) of
              None \<Rightarrow> None
            | Some units \<Rightarrow> Some \<lparr>dr_signature = deposit_signature t u (cl_coin l), dr_asset = cl_coin l,
                dr_amount = units, dr_user = u\<rparr>) legs;
          kept_rows = filter (\<lambda>r. saved (dr_signature r)) rows
      in (kept_rows, map (\<lambda>l. let s = deposit_signature t u (cl_coin l) in
            if s \<in> dr_signature ` set kept_rows then l\<lparr>cl_signature := Some s\<rparr> else l) legs))"

definition claimFaucet ::
    "service \<Rightarrow> currency list \<Rightarrow> (string \<Rightarrow> bool) \<Rightarrow> user_id option \<Rightarrow> spot \<Rightarrow> spot \<times> faucet_out" where
  "claimFaucet svc docs saved user st = (case user of
      None \<Rightarrow> (st, answer_only (Refuse_faucet 401 ''Unauthorized''))
    | Some u \<Rightarrow>
        if \<not> online st then (st, answer_only (Refuse_faucet 500 ''error''))
        else (case CLAIM_ONCE_LUA (cooldownKey u) (timestamp st) (FAUCET_COOLDOWN_SECONDS * 1000) st of
          (st1, False) \<Rightarrow>
            (let retryAfter = key_ttl (cooldownKey u) st1
             in (st1, answer_only (Wait (if retryAfter > 0 then retryAfter else FAUCET_COOLDOWN_SECONDS))))
        | (st1, True) \<Rightarrow>
            (let currencies = getFaucetCurrencies docs in
             if currencies = []
             then (del_key (cooldownKey u) st1, answer_only (Refuse_faucet 500 ''Faucet currency not found''))
             else (case credit_all svc u currencies st1 of
               (st2, ups, bs, True) \<Rightarrow>
                 (let (rows, legs) = recordCreditedLegs u (timestamp st) saved (credit_lines bs)
                  in (st2, \<lparr>fo_updates = ups, fo_deposits = rows, fo_answer = Paid legs\<rparr>))
             | (st2, ups, bs, False) \<Rightarrow>
                 ((if bs = [] then del_key (cooldownKey u) st2 else st2),
                  \<lparr>fo_updates = ups, fo_deposits = [], fo_answer = Refuse_faucet 500 ''error''\<rparr>)))))"

definition faucetStatus :: "user_id \<Rightarrow> spot \<Rightarrow> (bool \<times> int) option" where
  "faucetStatus u st =
     (if \<not> online st then None
      else let t = key_ttl (cooldownKey u) st; retryAfter = (if t > 0 then t else 0) in Some (retryAfter = 0, retryAfter))"

section \<open>The reset\<close>

definition zero_ledgers :: "field list \<Rightarrow> spot \<Rightarrow> spot" where
  "zero_ledgers fs st = fold (\<lambda>ledger st1. fold (\<lambda>f st2. fst (hset ledger f (Fin 0) st2)) fs st1) OTHER_LEDGERS st"

definition zero_spot :: "service \<Rightarrow> user_id \<Rightarrow> field list \<Rightarrow> spot \<Rightarrow> spot" where
  "zero_spot svc u fs st =
     fold (\<lambda>f st1. fst (setBalanceLogged svc SPOT_BALANCE_KEY f (JNum (Fin 0)) ''faucet_reset_zero'' u st1)) fs st"

definition entry_fields :: "user_id \<Rightarrow> coin_entry \<Rightarrow> field list" where
  "entry_fields u en = map (\<lambda>i. (u, i)) (ce_ids en)"

definition zero_entry :: "service \<Rightarrow> user_id \<Rightarrow> coin_entry \<Rightarrow> spot \<times> asset_update list \<Rightarrow> spot \<times> asset_update list" where
  "zero_entry svc u en r =
     (let st1 = zero_ledgers (entry_fields u en) (fst r) in
      if ce_coin en \<in> set FAUCET_COINS then (st1, snd r)
      else (zero_spot svc u (entry_fields u en) st1,
            snd r @ [(u, (case ce_currency en of None \<Rightarrow> [] | Some c \<Rightarrow> c), ''0'')]))"

definition zeroOtherBalances :: "service \<Rightarrow> user_id \<Rightarrow> coin_entry list \<Rightarrow> spot \<Rightarrow> spot \<times> asset_update list" where
  "zeroOtherBalances svc u coins st = fold (zero_entry svc u) coins (st, [])"

fun set_all ::
    "service \<Rightarrow> user_id \<Rightarrow> currency list \<Rightarrow> spot \<Rightarrow> spot \<times> asset_update list \<times> (string \<times> jsnum) list" where
  "set_all svc u [] st = (st, [], [])"
| "set_all svc u ((coin, c) # cs) st =
     (case setSpotBalance svc (resolveAccount u c) FAUCET_AMOUNT st of (st1, ups, balance) \<Rightarrow>
        (case set_all svc u cs st1 of (st2, ups2, bs) \<Rightarrow> (st2, ups @ ups2, (coin, balance) # bs)))"

text \<open>What happens between the claim of the freeze and its release.\<close>

definition resetFrozen ::
    "service \<Rightarrow> currency list \<Rightarrow> asset list option \<Rightarrow> user_id \<Rightarrow> spot \<Rightarrow> spot \<times> faucet_out" where
  "resetFrozen svc docs wallet u st =
     (case readLiveValueFlights u (Fin (of_int (clock st))) st of
        Done fs \<Rightarrow>
          if fs \<noteq> [] then (st, answer_only (Refuse_faucet 409 ''RESET_BUSY''))
          else let coins = collectUserCoins wallet in
            (case listRestingSpotOrders u st of
              SpotBookUnreadable why \<Rightarrow> (st, answer_only (Refuse_faucet 503 ''SPOT_BOOK_UNAVAILABLE''))
            | Resting os \<Rightarrow>
                if os \<noteq> [] then (st, answer_only (Resting_orders os))
                else let currencies = getFaucetCurrencies docs in
                  if currencies = [] then (st, answer_only (Refuse_faucet 500 ''Faucet currency not found''))
                  else (case zeroOtherBalances svc u coins st of (st1, ups1) \<Rightarrow>
                    (case set_all svc u currencies st1 of (st2, ups2, bs) \<Rightarrow>
                      (st2, \<lparr>fo_updates = ups1 @ ups2, fo_deposits = [], fo_answer = Paid (credit_lines bs)\<rparr>))))
      | _ \<Rightarrow> (st, answer_only (Refuse_faucet 500 ''error'')))"

definition resetFaucet ::
    "service \<Rightarrow> currency list \<Rightarrow> asset list option \<Rightarrow> string \<Rightarrow> user_id option \<Rightarrow> spot \<Rightarrow> spot \<times> faucet_out" where
  "resetFaucet svc docs wallet token user st = (case user of
      None \<Rightarrow> (st, answer_only (Refuse_faucet 401 ''Unauthorized''))
    | Some u \<Rightarrow>
        (case claimOnce (marginFreezeKey u) token MARGIN_FREEZE_TTL_MS st of
          (st1, False) \<Rightarrow> (st1, answer_only (Refuse_faucet 409 ''RESET_IN_PROGRESS''))
        | (st1, True) \<Rightarrow>
            (case resetFrozen svc docs wallet u st1 of (st2, out) \<Rightarrow>
              (fst (releaseClaim (marginFreezeKey u) token st2), out))))"

section \<open>What a reset writes\<close>

definition wrote :: "(string \<Rightarrow> field \<Rightarrow> rval option) \<Rightarrow> spot \<Rightarrow> spot \<Rightarrow> bool" where
  "wrote h st st' \<longleftrightarrow> only_value st st' \<and> hashes st' = h"

lemma wroteI: "only_value st st' \<Longrightarrow> hashes st' = h \<Longrightarrow> wrote h st st'"
  by (simp add: wrote_def)

lemma wrote_trans: "wrote h st st1 \<Longrightarrow> wrote h' st1 st2 \<Longrightarrow> wrote h' st st2"
  by (auto simp: wrote_def intro: only_value_trans)

definition over :: "(string \<Rightarrow> field \<Rightarrow> bool) \<Rightarrow> rval \<Rightarrow> (string \<Rightarrow> field \<Rightarrow> rval option) \<Rightarrow> string \<Rightarrow> field \<Rightarrow> rval option" where
  "over P v h key f = (if P key f then Some v else h key f)"

lemma spelled_small [simp]: "spelled (Fin 0) = RDec 0" "spelled (Fin 1000) = RDec 1000"
  by code_simp+

lemma wrote_hset: "online st \<Longrightarrow> wrote (over (\<lambda>k g. k = key \<and> g = f) (RDec 0) (hashes st)) st (fst (hset key f (Fin 0) st))"
  by (auto simp: wrote_def hset_def json_number_def over_def put_hash_def only_value_def fun_eq_iff)

lemma set_only: "only_value st (fst (setBalanceLogged svc key f v why r st))"
proof -
  have "only_value st (fst (LEDGER_SET_LUA svc key f a why r st))" for a
    by (auto simp: LEDGER_SET_LUA_def Let_def split: option.split prod.split dest: only_value_XADD
        intro: only_value_trans [OF only_value_put_hash])
  then show ?thesis
    using caught_eq [of "LEDGER_SET_LUA svc key f (spelled (to_number v)) why r st"]
    by (auto simp: setBalanceLogged_def Let_def) (metis fst_conv prod.collapse)
qed

lemma set_writes:
  assumes "online st" "is_num n" "is_finite n"
  shows "wrote (over (\<lambda>k g. k = key \<and> g = f) (spelled n) (hashes st)) st (fst (setBalanceLogged svc key f (JNum n) why r st))"
proof (rule wroteI [OF set_only])
  obtain st1 rep where l: "LEDGER_SET_LUA svc key f (spelled n) why r st = (st1, rep)" by (metis surj_pair)
  have "n \<noteq> NaN" using assms(3) by auto
  then have h: "hashes st1 = over (\<lambda>k g. k = key \<and> g = f) (spelled n) (hashes st)"
    using l lua_spelled [OF assms(2,3)]
    by (auto simp: LEDGER_SET_LUA_def Let_def XADD_def put_hash_def over_def fun_eq_iff split: if_splits)
  have "fst (caught (st1, rep)) = st1" using caught_eq [of "(st1, rep)"] by (metis fst_conv prod.collapse)
  then show "hashes (fst (setBalanceLogged svc key f (JNum n) why r st)) = over (\<lambda>k g. k = key \<and> g = f) (spelled n) (hashes st)"
    using assms l h by (simp add: setBalanceLogged_def Let_def)
qed

lemma wrote_online: "wrote h st st' \<Longrightarrow> online st' = online st"
  by (simp add: wrote_def only_value_def)

lemma over_over: "over P v (over Q v h) = over (\<lambda>k g. Q k g \<or> P k g) v h"
  by (auto simp: over_def fun_eq_iff)

lemma over_cong: "(\<And>k g. P k g = Q k g) \<Longrightarrow> over P v h = over Q v h"
  by (simp add: over_def fun_eq_iff)

text \<open>A loop of writes of one value is one write to all the fields.\<close>

lemma wrote_loop:
  assumes "\<And>x st. online st \<Longrightarrow> wrote (over (P x) v (hashes st)) st (step x st)"
  shows "online st \<Longrightarrow> wrote (over (\<lambda>k g. \<exists>x \<in> set xs. P x k g) v (hashes st)) st (fold step xs st)"
proof (induction xs arbitrary: st)
  case Nil
  show ?case by (simp add: wrote_def over_def)
next
  case (Cons x xs)
  note w = assms [OF Cons.prems, of x]
  have "online (step x st)" using wrote_online [OF w] Cons.prems by simp
  from Cons.IH [OF this] have "wrote (over (\<lambda>k g. \<exists>x \<in> set xs. P x k g) v (over (P x) v (hashes st))) (step x st) (fold step xs (step x st))"
    using w by (simp add: wrote_def)
  from wrote_trans [OF w this] show ?case by (simp add: over_over)
qed

lemma zero_ledgers_writes:
  assumes "online st"
  shows "wrote (over (\<lambda>k g. k \<in> set OTHER_LEDGERS \<and> g \<in> set fs) (RDec 0) (hashes st)) st (zero_ledgers fs st)"
proof -
  have 1: "wrote (over (\<lambda>k g. \<exists>f \<in> set fs. k = ledger \<and> g = f) (RDec 0) (hashes st)) st
      (fold (\<lambda>f st2. fst (hset ledger f (Fin 0) st2)) fs st)" if "online st" for ledger st
    by (rule wrote_loop [OF wrote_hset that])
  have "wrote (over (\<lambda>k g. \<exists>ledger \<in> set OTHER_LEDGERS. \<exists>f \<in> set fs. k = ledger \<and> g = f) (RDec 0) (hashes st)) st (zero_ledgers fs st)"
    unfolding zero_ledgers_def by (rule wrote_loop [OF 1 assms])
  then show ?thesis by (simp cong: over_cong)
qed

lemma zero_spot_writes:
  assumes "online st"
  shows "wrote (over (\<lambda>k g. k = SPOT_BALANCE_KEY \<and> g \<in> set fs) (RDec 0) (hashes st)) st (zero_spot svc u fs st)"
proof -
  have 1: "wrote (over (\<lambda>k g. k = SPOT_BALANCE_KEY \<and> g = f) (RDec 0) (hashes st)) st
      (fst (setBalanceLogged svc SPOT_BALANCE_KEY f (JNum (Fin 0)) ''faucet_reset_zero'' u st))" if "online st" for f st
    using set_writes [OF that, of "Fin 0"] by simp
  have "wrote (over (\<lambda>k g. \<exists>f \<in> set fs. k = SPOT_BALANCE_KEY \<and> g = f) (RDec 0) (hashes st)) st (zero_spot svc u fs st)"
    unfolding zero_spot_def by (rule wrote_loop [OF 1 assms])
  then show ?thesis by (simp cong: over_cong)
qed

text \<open>The fields a reset clears: two ledgers of every coin, the balance of every coin it does not pay.\<close>

definition cleared :: "user_id \<Rightarrow> coin_entry list \<Rightarrow> string \<Rightarrow> field \<Rightarrow> bool" where
  "cleared u coins key f \<longleftrightarrow> (\<exists>en \<in> set coins. f \<in> set (entry_fields u en) \<and>
     (key \<in> set OTHER_LEDGERS \<or> (key = SPOT_BALANCE_KEY \<and> ce_coin en \<notin> set FAUCET_COINS)))"

lemma zero_entry_writes:
  assumes "online (fst r)"
  shows "wrote (over (cleared u [en]) (RDec 0) (hashes (fst r))) (fst r) (fst (zero_entry svc u en r))"
proof -
  let ?fs = "entry_fields u en"
  let ?st1 = "zero_ledgers ?fs (fst r)"
  note 1 = zero_ledgers_writes [OF assms, of ?fs]
  have on: "online ?st1" using wrote_online [OF 1] assms by simp
  note 2 = wrote_trans [OF 1 zero_spot_writes [OF on, of ?fs svc u]]
  have h: "hashes ?st1 = over (\<lambda>k g. k \<in> set OTHER_LEDGERS \<and> g \<in> set ?fs) (RDec 0) (hashes (fst r))"
    using 1 by (simp add: wrote_def)
  show ?thesis
  proof (cases "ce_coin en \<in> set FAUCET_COINS")
    case True
    have "cleared u [en] = (\<lambda>k g. k \<in> set OTHER_LEDGERS \<and> g \<in> set ?fs)"
      using True by (auto simp: cleared_def fun_eq_iff)
    then show ?thesis using 1 True by (simp add: zero_entry_def Let_def)
  next
    case False
    have "cleared u [en] = (\<lambda>k g. (k \<in> set OTHER_LEDGERS \<and> g \<in> set ?fs) \<or> (k = SPOT_BALANCE_KEY \<and> g \<in> set ?fs))"
      using False by (auto simp: cleared_def fun_eq_iff)
    then show ?thesis using 2 False by (simp add: zero_entry_def Let_def h over_over)
  qed
qed

lemma zeroOther_writes:
  assumes "online st"
  shows "wrote (over (cleared u coins) (RDec 0) (hashes st)) st (fst (zeroOtherBalances svc u coins st))"
proof -
  have "online (fst r) \<Longrightarrow> wrote (over (cleared u coins) (RDec 0) (hashes (fst r))) (fst r) (fst (fold (zero_entry svc u) coins r))" for r
  proof (induction coins arbitrary: r)
    case Nil
    show ?case by (simp add: wrote_def over_def cleared_def)
  next
    case (Cons en coins)
    note w = zero_entry_writes [OF Cons.prems, of u en svc]
    have "online (fst (zero_entry svc u en r))" using wrote_online [OF w] Cons.prems by simp
    from wrote_trans [OF w Cons.IH [OF this]]
    have "wrote (over (cleared u coins) (RDec 0) (over (cleared u [en]) (RDec 0) (hashes (fst r)))) (fst r)
        (fst (fold (zero_entry svc u) (en # coins) r))"
      using w by (simp add: wrote_def)
    moreover have "cleared u (en # coins) = (\<lambda>k g. cleared u [en] k g \<or> cleared u coins k g)"
      by (auto simp: cleared_def fun_eq_iff)
    ultimately show ?case by (simp add: over_over)
  qed
  from this [of "(st, [])"] assms show ?thesis by (simp add: zeroOtherBalances_def)
qed

definition paid :: "user_id \<Rightarrow> currency list \<Rightarrow> string \<Rightarrow> field \<Rightarrow> bool" where
  "paid u cs key f \<longleftrightarrow> key = SPOT_BALANCE_KEY \<and> (\<exists>c \<in> set cs. f = (u, snd c))"

lemma set_all_writes:
  "online st \<Longrightarrow> wrote (over (paid u cs) (RDec 1000) (hashes st)) st (fst (set_all svc u cs st))"
proof (induction cs arbitrary: st)
  case Nil
  show ?case by (simp add: wrote_def over_def paid_def)
next
  case (Cons c cs)
  have n: "is_num FAUCET_AMOUNT" "is_finite FAUCET_AMOUNT" unfolding FAUCET_AMOUNT_def by code_simp+
  define st1 where "st1 = fst (setSpotBalance svc (resolveAccount u (snd c)) FAUCET_AMOUNT st)"
  have w: "wrote (over (\<lambda>k g. k = SPOT_BALANCE_KEY \<and> g = (u, snd c)) (RDec 1000) (hashes st)) st st1"
    using set_writes [OF Cons.prems n, of SPOT_BALANCE_KEY "(u, snd c)" svc "''faucet_reset''" u]
    by (simp add: st1_def setSpotBalance_def resolveAccount_def FAUCET_AMOUNT_def del: spelled.simps(1))
  have "online st1" using wrote_online [OF w] Cons.prems by simp
  from wrote_trans [OF w Cons.IH [OF this]]
  have "wrote (over (paid u cs) (RDec 1000) (over (\<lambda>k g. k = SPOT_BALANCE_KEY \<and> g = (u, snd c)) (RDec 1000) (hashes st))) st
      (fst (set_all svc u cs st1))"
    using w by (simp add: wrote_def)
  moreover have "paid u (c # cs) = (\<lambda>k g. (k = SPOT_BALANCE_KEY \<and> g = (u, snd c)) \<or> paid u cs k g)"
    by (auto simp: paid_def fun_eq_iff)
  moreover have "fst (set_all svc u (c # cs) st) = fst (set_all svc u cs st1)"
    by (cases c) (simp add: st1_def split: prod.split)
  ultimately show ?case by (simp add: over_over)
qed

text \<open>The writing half as one step.\<close>

definition restored :: "user_id \<Rightarrow> coin_entry list \<Rightarrow> currency list \<Rightarrow> (string \<Rightarrow> field \<Rightarrow> rval option) \<Rightarrow> string \<Rightarrow> field \<Rightarrow> rval option" where
  "restored u coins cs h = over (paid u cs) (RDec 1000) (over (cleared u coins) (RDec 0) h)"

definition quiet_account :: "user_id \<Rightarrow> spot \<Rightarrow> bool" where
  "quiet_account u st \<longleftrightarrow> readLiveValueFlights u (Fin (of_int (clock st))) st = Done [] \<and> cached_pairs st \<noteq> [] \<and>
     (\<forall>p \<in> set (cached_pairs st). resting_in u (open_table ''buy'' (p_id p)) st = [] \<and> resting_in u (open_table ''sell'' (p_id p)) st = [])"

lemma resetFrozen_cases:
  assumes "resetFrozen svc docs wallet u st = (st', out)"
  shows "(st' = st \<and> (\<forall>ls. fo_answer out \<noteq> Paid ls)) \<or>
    (quiet_account u st \<and> (\<exists>ls. fo_answer out = Paid ls) \<and>
     wrote (restored u (collectUserCoins wallet) (getFaucetCurrencies docs) (hashes st)) st st')"
proof (cases "readLiveValueFlights u (Fin (of_int (clock st))) st = Done [] \<and> listRestingSpotOrders u st = Resting [] \<and>
    getFaucetCurrencies docs \<noteq> []")
  case True
  have on: "online st" using True by (auto simp: readLiveValueFlights_def split: if_splits)
  let ?coins = "collectUserCoins wallet" and ?cs = "getFaucetCurrencies docs"
  obtain st1 ups1 where z: "zeroOtherBalances svc u ?coins st = (st1, ups1)" by (metis surj_pair)
  obtain st2 ups2 bs where s: "set_all svc u ?cs st1 = (st2, ups2, bs)" by (metis surj_pair)
  have w1: "wrote (over (cleared u ?coins) (RDec 0) (hashes st)) st st1" using zeroOther_writes [OF on, of u ?coins svc] z by simp
  have "online st1" using wrote_online [OF w1] on by simp
  from wrote_trans [OF w1 set_all_writes [OF this, of u ?cs svc]]
  have "wrote (restored u ?coins ?cs (hashes st)) st st2" using w1 s by (simp add: wrote_def restored_def)
  moreover have "st' = st2" "\<exists>ls. fo_answer out = Paid ls" using assms True z s by (auto simp: resetFrozen_def Let_def)
  moreover have "quiet_account u st"
    using True by (auto simp: quiet_account_def listRestingSpotOrders_def Let_def split: if_splits)
  ultimately show ?thesis by simp
next
  case False
  then show ?thesis
    using assms by (auto simp: resetFrozen_def Let_def answer_only_def split: reply.splits resting.splits if_splits)
qed

lemma release_own:
  assumes "live_key st key = Some token" "online st"
  shows "live_key (fst (releaseClaim key token st)) k = (if k = key then None else live_key st k)"
    and "hashes (fst (releaseClaim key token st)) = hashes st" "streams (fst (releaseClaim key token st)) = streams st"
    and "tables (fst (releaseClaim key token st)) = tables st"
  using assms by (auto simp: releaseClaim_def RELEASE_CLAIM_LUA_def live_key_def split: option.split)

section \<open>Properties\<close>

lemma wrote_live: "wrote h st st' \<Longrightarrow> live_key st' k = live_key st k"
  by (rule live_key_cong) (simp_all add: wrote_def only_value_def)

lemma claim_frame:
  assumes "claimOnce key token ttl st = (st', True)"
  shows "hashes st' = hashes st" "streams st' = streams st" "tables st' = tables st" "pairs st' = pairs st"
    "online st'" "k \<noteq> key \<Longrightarrow> live_key st' k = live_key st k"
  using assms by (auto simp: claimOnce_def CLAIM_ONCE_LUA_def live_key_def split: if_splits option.split)

lemma claim_fails: "claimOnce key token ttl st = (st', False) \<Longrightarrow> st' = st"
  by (auto simp: claimOnce_def CLAIM_ONCE_LUA_def split: if_splits)

lemma reset_cases:
  assumes "resetFaucet svc docs wallet token (Some u) st = (st', out)"
  shows "(\<exists>st1 st2. claimOnce (marginFreezeKey u) token MARGIN_FREEZE_TTL_MS st = (st1, True) \<and>
      resetFrozen svc docs wallet u st1 = (st2, out) \<and> st' = fst (releaseClaim (marginFreezeKey u) token st2)) \<or>
    (st' = st \<and> (\<forall>ls. fo_answer out \<noteq> Paid ls))"
  using assms by (auto simp: resetFaucet_def answer_only_def split: prod.splits bool.splits dest: claim_fails)

lemma quiet_frame:
  assumes "claimOnce key token ttl st = (st', True)" "quiet_account u st'"
  shows "quiet_account u st"
proof -
  have "online st' = online st" "clock st' = clock st" "flights st' = flights st" "pairs st' = pairs st" "tables st' = tables st"
    using assms(1) by (auto simp: claimOnce_def CLAIM_ONCE_LUA_def split: if_splits)
  then have "readLiveValueFlights u t st' = readLiveValueFlights u t st" "cached_pairs st' = cached_pairs st"
    "resting_in u key st' = resting_in u key st" "clock st' = clock st" for t key
    by (simp_all add: readLiveValueFlights_def live_hash_def cached_pairs_def resting_in_def)
  then show ?thesis using assms(2) by (simp add: quiet_account_def)
qed

lemma reset_effect:
  assumes "resetFaucet svc docs wallet token (Some u) st = (st', out)" and "fo_answer out = Paid ls"
  shows "hashes st' = restored u (collectUserCoins wallet) (getFaucetCurrencies docs) (hashes st)"
    and "tables st' = tables st" and "live_key st' (marginFreezeKey u) = None"
proof -
  obtain st1 st2 where c: "claimOnce (marginFreezeKey u) token MARGIN_FREEZE_TTL_MS st = (st1, True)"
    and r: "resetFrozen svc docs wallet u st1 = (st2, out)" and st': "st' = fst (releaseClaim (marginFreezeKey u) token st2)"
    using reset_cases [OF assms(1)] assms(2) by auto
  note f = claim_frame [OF c]
  have w: "wrote (restored u (collectUserCoins wallet) (getFaucetCurrencies docs) (hashes st1)) st1 st2"
    using resetFrozen_cases [OF r] assms(2) by auto
  have t: "live_key st2 (marginFreezeKey u) = Some token" "online st2" "tables st2 = tables st1"
    using claim_true(4) [OF c] wrote_live [OF w] wrote_online [OF w] f(5) w only_value_tables by (auto simp: wrote_def)
  note rel = release_own [OF t(1,2)]
  show "hashes st' = restored u (collectUserCoins wallet) (getFaucetCurrencies docs) (hashes st)"
    and "tables st' = tables st" and "live_key st' (marginFreezeKey u) = None"
    using w f rel t(3) by (simp_all add: wrote_def st')
qed

text \<open>C4: A reset that succeeds leaves exactly the account it promises: one thousand of each coin the faucet pays, zero
  in the balance of every other coin of the wallet and in both reservation ledgers of every coin, and every other field
  of every user as it was. The book is untouched and the freeze is given back.\<close>

theorem reset_restores_the_account:
  assumes "resetFaucet svc docs wallet token (Some u) st = (st', out)" and "fo_answer out = Paid ls"
  shows "hashes st' = restored u (collectUserCoins wallet) (getFaucetCurrencies docs) (hashes st) \<and>
    tables st' = tables st \<and> live_key st' (marginFreezeKey u) = None"
  using reset_effect [OF assms] by blast

text \<open>C5: A reset writes only on an account that is quiet: the freeze was free, no request of the account was in flight, the
  pair cache could be read, and no order of the account rested on a pair of the cache. In every other case it changes no
  balance, no ledger, no table and no claim that holds.\<close>

theorem reset_only_when_quiet:
  assumes "resetFaucet svc docs wallet token (Some u) st = (st', out)"
  shows "(live_key st (marginFreezeKey u) = None \<and> quiet_account u st) \<or>
    (hashes st' = hashes st \<and> streams st' = streams st \<and> tables st' = tables st \<and> (\<forall>k. live_key st' k = live_key st k) \<and>
     (\<forall>ls. fo_answer out \<noteq> Paid ls))"
proof (cases "st' = st \<and> (\<forall>ls. fo_answer out \<noteq> Paid ls)")
  case False
  then obtain st1 st2 where c: "claimOnce (marginFreezeKey u) token MARGIN_FREEZE_TTL_MS st = (st1, True)"
    and r: "resetFrozen svc docs wallet u st1 = (st2, out)" and st': "st' = fst (releaseClaim (marginFreezeKey u) token st2)"
    using reset_cases [OF assms] by auto
  note f = claim_frame [OF c] and t = claim_true [OF c]
  show ?thesis
  proof (cases "st2 = st1 \<and> (\<forall>ls. fo_answer out \<noteq> Paid ls)")
    case True
    have "live_key st1 (marginFreezeKey u) = Some token" using t(4) .
    note rel = release_own [OF this f(5)]
    have "live_key st' k = live_key st k" for k using rel(1) f(6) t(1) True by (simp add: st')
    then show ?thesis using True rel f by (simp add: st')
  next
    case False
    then have "quiet_account u st1" using resetFrozen_cases [OF r] by blast
    then show ?thesis using quiet_frame [OF c] t(1) by blast
  qed
qed simp

lemma credit_all_only: "only_value st (fst (credit_all svc u cs st))"
proof (induction cs arbitrary: st)
  case (Cons c cs)
  define r where "r = adjustSpotBalance svc (resolveAccount u (snd c)) (JNum FAUCET_AMOUNT) ''credit'' [] st"
  have "only_value st (fst r)"
    using moveBalanceLogged_only(1)
    by (auto simp: r_def adjustSpotBalance_def resolveAccount_def Let_def split: prod.split reply.split)
  moreover have "fst (credit_all svc u (c # cs) st) = fst r \<or> fst (credit_all svc u (c # cs) st) = fst (credit_all svc u cs (fst r))"
    by (cases c) (auto simp: r_def split: prod.splits reply.splits)
  ultimately show ?case using only_value_trans [OF _ Cons.IH [of "fst r"], of st] by auto
qed simp

lemma paid_claim:
  assumes "claimFaucet svc docs saved (Some u) st = (st1, out)" "fo_answer out = Paid ls"
  shows "\<exists>v. keys st1 (cooldownKey u) = Some (v, Some (clock st + FAUCET_COOLDOWN_SECONDS * 1000))"
proof -
  let ?k = "cooldownKey u"
  obtain st0 b where c: "CLAIM_ONCE_LUA ?k (timestamp st) (FAUCET_COOLDOWN_SECONDS * 1000) st = (st0, b)" by (metis surj_pair)
  have b: "b" and st1: "st1 = fst (credit_all svc u (getFaucetCurrencies docs) st0)"
    using assms c by (auto simp: claimFaucet_def answer_only_def Let_def split: if_splits bool.splits prod.splits)
  have "keys st1 = keys st0" using credit_all_only [of st0 svc u] st1 by (simp add: only_value_def)
  then show ?thesis using c b by (auto simp: CLAIM_ONCE_LUA_def split: if_splits)
qed


section \<open>Witnesses\<close>

text \<open>An account with a hundred of each currency on an exchange with one pair and no resting order.\<close>

definition idle_spot :: spot where
  "idle_spot = funded_spot\<lparr>pairs := [(''p'', Row sample_pair)]\<rparr>"

definition demo_assets :: "asset list" where
  "demo_assets =
     [\<lparr>a_currency = ''q'', a_coin = ''USD'', a_currency_ref = Some ''q'', a_spot_bal = JNum (Fin 0), a_in_order = JUndef, a_locked = JUndef\<rparr>,
      \<lparr>a_currency = ''b'', a_coin = ''BTC'', a_currency_ref = None, a_spot_bal = JNum (Fin 0), a_in_order = JUndef, a_locked = JUndef\<rparr>]"

lemma idle_reset_pays:
  assumes "online st" "live_key st (marginFreezeKey u) = None" "fst (flights st (valueFlightKey u)) = []"
    "cached_pairs st \<noteq> []" "tables st = (\<lambda>_. [])" "getFaucetCurrencies docs \<noteq> []"
  shows "\<exists>ls. fo_answer (snd (resetFaucet svc docs wallet token (Some u) st)) = Paid ls"
proof -
  let ?k = "marginFreezeKey u"
  define st1 where "st1 = st\<lparr>keys := (keys st)(?k := Some (token, Some (clock st + MARGIN_FREEZE_TTL_MS)))\<rparr>"
  have c: "claimOnce ?k token MARGIN_FREEZE_TTL_MS st = (st1, True)"
    using assms(1,2) by (simp add: claimOnce_def CLAIM_ONCE_LUA_def st1_def MARGIN_FREEZE_TTL_MS_def)
  have fl: "readLiveValueFlights u n st1 = Done []" for n
    using assms(1,3) by (simp add: readLiveValueFlights_def live_hash_def st1_def)
  have "cached_pairs st1 = cached_pairs st" "tables st1 = tables st" "online st1 = online st"
    by (simp_all add: st1_def cached_pairs_def)
  then have b: "listRestingSpotOrders u st1 = Resting []"
    using assms(1,4,5) by (simp add: listRestingSpotOrders_def resting_in_def orders_of_def List.map_filter_def)
  show ?thesis using assms(6) by (simp add: resetFaucet_def c resetFrozen_def fl b Let_def split: prod.split)
qed

lemma idle_spot_idle [simp]:
  "online idle_spot" "live_key idle_spot k = None" "fst (flights idle_spot k) = []" "cached_pairs idle_spot \<noteq> []"
  "tables idle_spot = (\<lambda>_. [])"
  by (simp_all add: idle_spot_def funded_spot_def blank_spot_def blank_store_def redis.extend_def live_key_def
      cached_pairs_def List.map_filter_def)

lemma demo_reset:
  "\<exists>ls. fo_answer (snd (resetFaucet reference_service [(''USD'', ''q'')] (Some demo_assets) ''r'' (Some ''u'') idle_spot)) = Paid ls"
  by (rule idle_reset_pays) (simp_all, code_simp)

theorem reset_restores_the_account_witness:
  "hashes (fst (resetFaucet reference_service [(''USD'', ''q'')] (Some demo_assets) ''r'' (Some ''u'') idle_spot))
      ''walletbalance_spot'' (''u'', ''q'') = Some (RDec 1000) \<and>
   hashes (fst (resetFaucet reference_service [(''USD'', ''q'')] (Some demo_assets) ''r'' (Some ''u'') idle_spot))
      ''walletbalance_spot'' (''u'', ''b'') = Some (RDec 0) \<and>
   hashes (fst (resetFaucet reference_service [(''USD'', ''q'')] (Some demo_assets) ''r'' (Some ''u'') idle_spot))
      ''walletbalance_spot'' (''v'', ''b'') = Some (RDec 100)"
proof -
  let ?r = "resetFaucet reference_service [(''USD'', ''q'')] (Some demo_assets) ''r'' (Some ''u'') idle_spot"
  obtain ls where "fo_answer (snd ?r) = Paid ls" using demo_reset by blast
  from reset_restores_the_account [OF _ this, of reference_service "[(''USD'', ''q'')]" "Some demo_assets" "''r''" "''u''" idle_spot "fst ?r"]
  have h: "hashes (fst ?r) = restored ''u'' (collectUserCoins (Some demo_assets)) (getFaucetCurrencies [(''USD'', ''q'')]) (hashes idle_spot)"
    by simp
  have c: "collectUserCoins (Some demo_assets) =
      [\<lparr>ce_coin = ''USD'', ce_ids = [''q''], ce_currency = Some ''q''\<rparr>, \<lparr>ce_coin = ''BTC'', ce_ids = [''b''], ce_currency = None\<rparr>]"
    "getFaucetCurrencies [(''USD'', ''q'')] = [(''USD'', ''q'')]" by code_simp+
  show ?thesis unfolding h c
    by (simp add: restored_def over_def paid_def cleared_def entry_fields_def SPOT_BALANCE_KEY_def OTHER_LEDGERS_def
        FAUCET_COINS_def idle_spot_def funded_spot_def)
qed

text \<open>While another reset holds the freeze nothing happens.\<close>

theorem reset_only_when_quiet_witness:
  "hashes (fst (resetFaucet reference_service [(''USD'', ''q'')] (Some demo_assets) ''s'' (Some ''u'')
      (idle_spot\<lparr>keys := (\<lambda>_. None)(marginFreezeKey ''u'' := Some (''r'', Some 15000))\<rparr>))) = hashes idle_spot"
proof -
  let ?st = "idle_spot\<lparr>keys := (\<lambda>_. None)(marginFreezeKey ''u'' := Some (''r'', Some 15000))\<rparr>"
  let ?r = "resetFaucet reference_service [(''USD'', ''q'')] (Some demo_assets) ''s'' (Some ''u'') ?st"
  have frozen: "live_key ?st (marginFreezeKey ''u'') \<noteq> None"
    by (simp add: live_key_def expired_def idle_spot_def funded_spot_def)
  have r: "?r = (fst ?r, snd ?r)" by simp
  from reset_only_when_quiet [OF r] frozen have "hashes (fst ?r) = hashes ?st" by blast
  then show ?thesis by simp
qed


end
