(* ===== verification/Registration.thy ===== *)
theory Registration
  imports Faucet
begin

text \<open>
  The wallet of a new account (\<^verbatim>\<open>emptyAsset\<close> of \<^verbatim>\<open>cryptodex-walletapi/controllers/createAsset.js\<close> with the
  asset lists of \<^verbatim>\<open>controllers/coin.controller.js\<close> and the paper gateways of \<^verbatim>\<open>controllers/coin\<close>): one asset per
  currency, the demo amount of each demo coin, and the balance fields of the store. The theorem is
  the promise both services make in their comments: a reset and a fresh registration produce the
  same account. The currency documents are an argument, and so are the random tails of addresses;
  private keys are empty on every path and left out.
\<close>

section \<open>Documents\<close>

record currency_doc =
  cd_id :: currency_id
  cd_coin :: string
  cd_type :: string
  cd_deposit :: string
  cd_token :: string
  cd_status :: string

record token_address =
  ta_address :: string
  ta_currency :: currency_id
  ta_type :: string
  ta_status :: string

record coin_asset = asset +
  ca_address :: string
  ca_tokens :: "token_address list"

text \<open>The balances of an asset default to zero.\<close>

definition new_asset :: "currency_id \<Rightarrow> currency_id option \<Rightarrow> string \<Rightarrow> string \<Rightarrow> token_address list \<Rightarrow> coin_asset" where
  "new_asset i r coin address tokens =
     \<lparr>a_currency = i, a_coin = coin, a_currency_ref = r, a_spot_bal = JNum (Fin 0), a_in_order = JNum (Fin 0),
      a_locked = JNum (Fin 0), ca_address = address, ca_tokens = tokens\<rparr>"

section \<open>Addresses\<close>

definition evmCoins :: "string list" where
  "evmCoins = [''BNB'', ''POLYGON'', ''ETH'']"

text \<open>A gateway answers its prefix and a random tail; the three for tokens by the type of the token.\<close>

definition paperAddress :: "string \<Rightarrow> string \<Rightarrow> string" where
  "paperAddress gateway t = ''paper-'' @ gateway @ ''-'' @ t"

definition createNewAddress :: "string \<Rightarrow> string \<Rightarrow> string option" where
  "createNewAddress tokenType t =
     (if tokenType = ''bep20'' then Some (paperAddress ''bnb'' t)
      else if tokenType = ''poly20'' then Some (paperAddress ''poly'' t)
      else if tokenType = ''erc20'' then Some (paperAddress ''eth'' t) else None)"

definition crypto_address :: "(currency_id \<Rightarrow> string) \<Rightarrow> string \<Rightarrow> currency_doc \<Rightarrow> string" where
  "crypto_address tails evm d =
     (if cd_coin d \<in> set evmCoins then evm
      else if cd_coin d = ''BTC'' then paperAddress ''btc'' (tails (cd_id d))
      else if cd_coin d = ''LTC'' then paperAddress ''ltc'' (tails (cd_id d)) else [])"

definition generateCryptoAddr :: "(currency_id \<Rightarrow> string) \<Rightarrow> bool \<Rightarrow> currency_doc list \<Rightarrow> coin_asset list" where
  "generateCryptoAddr tails botUser ds =
     (let evm = paperAddress ''bnb'' (tails []) in
      map (\<lambda>d. new_asset (cd_id d) (Some (cd_id d)) (cd_coin d) (if botUser then [] else crypto_address tails evm d) [])
        (filter (\<lambda>d. cd_type d = ''crypto'') ds))"

definition local_token :: "currency_doc \<Rightarrow> bool" where
  "local_token d \<longleftrightarrow> cd_deposit d = ''local'' \<and> cd_token d \<in> {''bep20'', ''poly20'', ''erc20''}"

text \<open>Tokens of one coin share an asset and collect their addresses in it.\<close>

fun add_token :: "currency_doc \<Rightarrow> string \<Rightarrow> coin_asset list \<Rightarrow> coin_asset list" where
  "add_token d address [] = [new_asset (cd_id d) None (cd_coin d) []
     [\<lparr>ta_address = address, ta_currency = cd_id d, ta_type = cd_token d, ta_status = cd_status d\<rparr>]]"
| "add_token d address (a # as) =
     (if a_coin a = cd_coin d
      then a\<lparr>ca_tokens := ca_tokens a @ [\<lparr>ta_address = address, ta_currency = cd_id d, ta_type = cd_token d, ta_status = cd_status d\<rparr>]\<rparr> # as
      else a # add_token d address as)"

definition evm_address :: "coin_asset list \<Rightarrow> string option" where
  "evm_address as = (case find (\<lambda>a. a_coin a \<in> set evmCoins) as of
      None \<Rightarrow> None | Some a \<Rightarrow> if ca_address a = [] then None else Some (ca_address a))"

definition token_step :: "(currency_id \<Rightarrow> string) \<Rightarrow> bool \<Rightarrow> coin_asset list \<Rightarrow> currency_doc \<Rightarrow> coin_asset list \<Rightarrow> coin_asset list" where
  "token_step tails botUser walletList d as =
     (if \<not> local_token d then as
      else if botUser then add_token d [] as
      else case (case evm_address walletList of Some x \<Rightarrow> Some x | None \<Rightarrow> createNewAddress (cd_token d) (tails (cd_id d))) of
        None \<Rightarrow> as | Some address \<Rightarrow> add_token d address as)"

definition generateTokenAddr :: "(currency_id \<Rightarrow> string) \<Rightarrow> bool \<Rightarrow> coin_asset list \<Rightarrow> currency_doc list \<Rightarrow> coin_asset list" where
  "generateTokenAddr tails botUser walletList ds = fold (token_step tails botUser walletList) ds []"

definition generateFiatAddr :: "currency_doc list \<Rightarrow> coin_asset list" where
  "generateFiatAddr ds =
     map (\<lambda>d. new_asset (cd_id d) (Some (cd_id d)) (cd_coin d) (cd_id d) []) (filter (\<lambda>d. cd_type d = ''fiat'') ds)"

section \<open>The new wallet\<close>

definition DEMO_SEED_COINS :: "string list" where
  "DEMO_SEED_COINS = [''USD'']"

definition DEMO_SEED_AMOUNT :: jsnum where
  "DEMO_SEED_AMOUNT = Fin 1000"

fun seed_demo :: "currency_doc \<Rightarrow> coin_asset list \<Rightarrow> coin_asset list" where
  "seed_demo d [] = [(new_asset (cd_id d) (Some (cd_id d)) (cd_coin d) [] [])\<lparr>a_spot_bal := JNum DEMO_SEED_AMOUNT\<rparr>]"
| "seed_demo d (a # as) =
     (if a_coin a = cd_coin d then a\<lparr>a_currency_ref := Some (cd_id d), a_spot_bal := JNum DEMO_SEED_AMOUNT\<rparr> # as
      else a # seed_demo d as)"

definition of_type :: "string \<Rightarrow> currency_doc list \<Rightarrow> currency_doc list" where
  "of_type t ds = filter (\<lambda>d. cd_type d = t) ds"

definition seed_currencies :: "currency_doc list \<Rightarrow> currency_doc list" where
  "seed_currencies ds = filter (\<lambda>d. cd_coin d \<in> set DEMO_SEED_COINS) ds"

definition empty_assets :: "(currency_id \<Rightarrow> string) \<Rightarrow> bool \<Rightarrow> currency_doc list \<Rightarrow> coin_asset list" where
  "empty_assets tails botUser ds =
     (let crypto = generateCryptoAddr tails botUser (of_type ''crypto'' ds);
          tokens = generateTokenAddr tails botUser crypto (of_type ''token'' ds)
      in crypto @ tokens @ generateFiatAddr (of_type ''fiat'' ds))"

definition new_wallet :: "(currency_id \<Rightarrow> string) \<Rightarrow> bool \<Rightarrow> currency_doc list \<Rightarrow> coin_asset list" where
  "new_wallet tails botUser ds = fold seed_demo (seed_currencies ds) (empty_assets tails botUser ds)"

definition seed_store :: "user_id \<Rightarrow> currency_doc list \<Rightarrow> spot \<Rightarrow> spot" where
  "seed_store u ds st =
     fold (\<lambda>d st1. fst (hset ''walletbalance_spot'' (u, cd_id d) DEMO_SEED_AMOUNT st1)) (seed_currencies ds) st"

text \<open>A wallet that exists already is left as it is: its document cannot be inserted twice.\<close>

definition emptyAsset ::
    "(currency_id \<Rightarrow> string) \<Rightarrow> currency_doc list \<Rightarrow> user_id \<Rightarrow> bool \<Rightarrow> (user_id \<Rightarrow> coin_asset list option) \<Rightarrow> spot \<Rightarrow>
     (user_id \<Rightarrow> coin_asset list option) \<times> spot" where
  "emptyAsset tails ds u botUser wallets st = (case wallets u of
      Some as \<Rightarrow> (wallets, st)
    | None \<Rightarrow>
        (let wallets1 = wallets(u \<mapsto> new_wallet tails botUser ds) in
         (wallets1, fst (updateUserWallet (\<lambda>w. map_option (map asset.truncate) (wallets1 w)) u (seed_store u ds st)))))"

section \<open>What a registration writes\<close>

definition drawn :: "currency_doc list \<Rightarrow> coin_asset \<Rightarrow> bool" where
  "drawn ds a \<longleftrightarrow> (\<exists>d \<in> set ds. a_currency a = cd_id d \<and> a_coin a = cd_coin d) \<and> a_in_order a = JNum (Fin 0)"

lemma drawn_new [simp]: "d \<in> set ds \<Longrightarrow> drawn ds (new_asset (cd_id d) r (cd_coin d) x ts)"
  by (auto simp: drawn_def new_asset_def)

lemma new_asset_sel [simp]:
  "a_coin (new_asset i r c x ts) = c" "a_spot_bal (new_asset i r c x ts) = JNum (Fin 0)"
  by (simp_all add: new_asset_def)

text \<open>Assets of one kind: drawn from the documents, one per coin, with nothing in them.\<close>

definition bare :: "currency_doc list \<Rightarrow> string set \<Rightarrow> coin_asset list \<Rightarrow> bool" where
  "bare ds cs as \<longleftrightarrow> (\<forall>a \<in> set as. drawn ds a \<and> a_spot_bal a = JNum (Fin 0)) \<and> distinct (map a_coin as) \<and> a_coin ` set as \<subseteq> cs"

lemma bare_append: "bare ds cs as \<Longrightarrow> bare ds cs' bs \<Longrightarrow> cs \<inter> cs' = {} \<Longrightarrow> bare ds (cs \<union> cs') (as @ bs)"
  unfolding bare_def by (simp add: ball_Un) blast

lemma bare_map:
  assumes "distinct (map cd_coin es)" "set es \<subseteq> set ds"
  shows "bare ds (cd_coin ` set es) (map (\<lambda>d. new_asset (cd_id d) (Some (cd_id d)) (cd_coin d) (x d) []) es)"
  using assms by (auto simp: bare_def comp_def distinct_map)

lemma add_token_coins: "a_coin ` set (add_token d x as) = insert (cd_coin d) (a_coin ` set as)"
  by (induction as) (auto simp: new_asset_def)

lemma add_token_distinct: "distinct (map a_coin as) \<Longrightarrow> distinct (map a_coin (add_token d x as))"
  by (induction as) (use add_token_coins in \<open>fastforce simp: image_iff new_asset_def\<close>)+

lemma add_token_in:
  "a \<in> set (add_token d x as) \<Longrightarrow> d \<in> set ds \<Longrightarrow> (\<And>b. b \<in> set as \<Longrightarrow> drawn ds b \<and> a_spot_bal b = JNum (Fin 0)) \<Longrightarrow>
   drawn ds a \<and> a_spot_bal a = JNum (Fin 0)"
proof (induction as)
  case (Cons b as)
  show ?case
  proof (cases "a_coin b = cd_coin d")
    case True
    then have "a \<in> set as \<or> (\<exists>ts. a = b\<lparr>ca_tokens := ts\<rparr>)" using Cons.prems(1) by auto
    then show ?thesis using Cons.prems(3) [of b] Cons.prems(3) [of a] by (auto simp: drawn_def)
  qed (use Cons in auto)
qed simp

lemma bare_add_token:
  assumes "bare ds cs as" "d \<in> set ds" "cd_coin d \<in> cs"
  shows "bare ds cs (add_token d x as)"
  using assms add_token_in [OF _ assms(2)] add_token_distinct [of as d x]
  unfolding bare_def add_token_coins by blast

lemma bare_token_step:
  "bare ds cs as \<Longrightarrow> d \<in> set ds \<Longrightarrow> cd_coin d \<in> cs \<Longrightarrow> bare ds cs (token_step tails robot wl d as)"
  by (auto simp: token_step_def bare_add_token split: option.split)

lemma bare_tokens:
  assumes "set es \<subseteq> set ds"
  shows "bare ds (cd_coin ` set es) (generateTokenAddr tails robot wl es)"
proof -
  have run: "set fs \<subseteq> set es \<Longrightarrow> bare ds (cd_coin ` set es) as \<Longrightarrow> bare ds (cd_coin ` set es) (fold (token_step tails robot wl) fs as)" for fs as
  proof (induction fs arbitrary: as)
    case (Cons f fs)
    have "bare ds (cd_coin ` set es) (token_step tails robot wl f as)" using Cons.prems assms by (intro bare_token_step) auto
    from Cons.IH [OF _ this] Cons.prems show ?case by simp
  qed simp
  show ?thesis unfolding generateTokenAddr_def by (rule run) (auto simp: bare_def)
qed

lemma bare_mono: "bare ds cs as \<Longrightarrow> cs \<subseteq> cs' \<Longrightarrow> bare ds cs' as"
  by (auto simp: bare_def)

lemma empty_bare:
  assumes "distinct (map cd_coin ds)"
  shows "bare ds (cd_coin ` set ds) (empty_assets tails robot ds)"
proof -
  let ?C = "\<lambda>t. cd_coin ` set (of_type t ds)"
  have sub: "set (of_type t ds) \<subseteq> set ds" and d: "distinct (map cd_coin (of_type t ds))" for t
    using assms by (auto simp: of_type_def distinct_map_filter)
  have same: "filter (\<lambda>d. cd_type d = t) (of_type t ds) = of_type t ds" for t by (simp add: of_type_def)
  have disj: "?C t \<inter> ?C t' = {}" if "t \<noteq> t'" for t t'
    using assms that by (auto simp: of_type_def distinct_map inj_on_def)
  have c: "bare ds (?C ''crypto'') (generateCryptoAddr tails robot (of_type ''crypto'' ds))"
    unfolding generateCryptoAddr_def Let_def same by (rule bare_map [OF d sub])
  have f: "bare ds (?C ''fiat'') (generateFiatAddr (of_type ''fiat'' ds))"
    unfolding generateFiatAddr_def same by (rule bare_map [OF d sub])
  have t: "bare ds (?C ''token'') (generateTokenAddr tails robot (generateCryptoAddr tails robot (of_type ''crypto'' ds)) (of_type ''token'' ds))"
    by (rule bare_tokens [OF sub])
  have "?C ''crypto'' \<inter> (?C ''token'' \<union> ?C ''fiat'') = {}" using disj [of "''crypto''" "''token''"] disj [of "''crypto''" "''fiat''"]
    by (simp add: Int_Un_distrib)
  from bare_append [OF c bare_append [OF t f disj] this]
  show ?thesis unfolding empty_assets_def Let_def by (rule bare_mono) (use sub in auto)
qed

text \<open>The demo coins are credited in their assets, the others stay empty.\<close>

definition seeded :: "currency_doc list \<Rightarrow> string set \<Rightarrow> coin_asset list \<Rightarrow> bool" where
  "seeded ds cs as \<longleftrightarrow> distinct (map a_coin as) \<and> (\<forall>a \<in> set as. drawn ds a \<and>
     a_spot_bal a = (if a_coin a \<in> cs then JNum DEMO_SEED_AMOUNT else JNum (Fin 0)))"

lemma seed_demo_coins: "a_coin ` set (seed_demo d as) = insert (cd_coin d) (a_coin ` set as)"
  by (induction as) auto

lemma seed_demo_distinct: "distinct (map a_coin as) \<Longrightarrow> distinct (map a_coin (seed_demo d as))"
  by (induction as) (use seed_demo_coins in \<open>fastforce simp: image_iff\<close>)+

lemma seed_demo_in:
  "a \<in> set (seed_demo d as) \<Longrightarrow> distinct (map a_coin as) \<Longrightarrow>
   (a \<in> set as \<and> a_coin a \<noteq> cd_coin d) \<or> (a_coin a = cd_coin d \<and> a_spot_bal a = JNum DEMO_SEED_AMOUNT)"
proof (induction as)
  case (Cons b as)
  then have "a_coin b = cd_coin d \<Longrightarrow> a \<in> set as \<Longrightarrow> a_coin a \<noteq> cd_coin d" by (metis distinct.simps(2) image_eqI list.simps(9) set_map)
  then show ?case using Cons by (cases "a_coin b = cd_coin d") auto
qed (auto simp: new_asset_def)

lemma seed_demo_drawn:
  "a \<in> set (seed_demo d as) \<Longrightarrow> d \<in> set ds \<Longrightarrow> (\<And>b. b \<in> set as \<Longrightarrow> drawn ds b) \<Longrightarrow> drawn ds a"
proof (induction as)
  case (Cons b as)
  show ?case
  proof (cases "a_coin b = cd_coin d")
    case True
    then have "a \<in> set as \<or> a = b\<lparr>a_currency_ref := Some (cd_id d), a_spot_bal := JNum DEMO_SEED_AMOUNT\<rparr>"
      using Cons.prems(1) by auto
    then show ?thesis using Cons.prems(3) [of b] Cons.prems(3) [of a] by (auto simp: drawn_def)
  qed (use Cons in auto)
qed (auto simp: new_asset_def drawn_def)

lemma seeded_step:
  assumes "seeded ds cs as" "d \<in> set ds"
  shows "seeded ds (insert (cd_coin d) cs) (seed_demo d as)"
proof -
  have dist: "distinct (map a_coin as)" using assms(1) by (simp add: seeded_def)
  have "drawn ds a \<and> a_spot_bal a = (if a_coin a \<in> insert (cd_coin d) cs then JNum DEMO_SEED_AMOUNT else JNum (Fin 0))"
    if "a \<in> set (seed_demo d as)" for a
    using seed_demo_in [OF that dist] seed_demo_drawn [OF that assms(2)] assms by (auto simp: seeded_def)
  then show ?thesis using seed_demo_distinct [OF dist] by (simp add: seeded_def)
qed

lemma new_wallet_seeded:
  assumes "distinct (map cd_coin ds)"
  shows "seeded ds (cd_coin ` set (seed_currencies ds)) (new_wallet tails robot ds)"
proof -
  have run: "set es \<subseteq> set ds \<Longrightarrow> seeded ds cs as \<Longrightarrow> seeded ds (cd_coin ` set es \<union> cs) (fold seed_demo es as)" for es cs as
  proof (induction es arbitrary: cs as)
    case (Cons d es)
    have "seeded ds (insert (cd_coin d) cs) (seed_demo d as)" using Cons.prems by (intro seeded_step) auto
    from Cons.IH [OF _ this] Cons.prems show ?case by simp
  qed simp
  have "seeded ds {} (empty_assets tails robot ds)" using empty_bare [OF assms, of tails robot] by (simp add: seeded_def bare_def)
  from run [OF _ this, of "seed_currencies ds"] show ?thesis by (auto simp: new_wallet_def seed_currencies_def)
qed

lemma seed_store_hashes:
  assumes "online st"
  shows "hashes (seed_store u ds st) =
    over (\<lambda>k f. k = ''walletbalance_spot'' \<and> f \<in> (\<lambda>d. (u, cd_id d)) ` set (seed_currencies ds)) (RDec 1000) (hashes st)"
    and "online (seed_store u ds st)"
proof -
  have f: "is_finite DEMO_SEED_AMOUNT" "spelled DEMO_SEED_AMOUNT = RDec 1000"
    by (simp_all add: DEMO_SEED_AMOUNT_def del: spelled.simps(1))
  have run: "online st \<Longrightarrow> hashes (fold (\<lambda>d st1. fst (hset ''walletbalance_spot'' (u, cd_id d) DEMO_SEED_AMOUNT st1)) es st) =
      over (\<lambda>k f. k = ''walletbalance_spot'' \<and> f \<in> (\<lambda>d. (u, cd_id d)) ` set es) (RDec 1000) (hashes st) \<and>
      online (fold (\<lambda>d st1. fst (hset ''walletbalance_spot'' (u, cd_id d) DEMO_SEED_AMOUNT st1)) es st)" for es
  proof (induction es arbitrary: st)
    case (Cons d es)
    then show ?case by (auto simp: hset_def json_number_def f over_def put_hash_def fun_eq_iff)
  qed (simp add: over_def fun_eq_iff)
  show "hashes (seed_store u ds st) =
    over (\<lambda>k f. k = ''walletbalance_spot'' \<and> f \<in> (\<lambda>d. (u, cd_id d)) ` set (seed_currencies ds)) (RDec 1000) (hashes st)"
    and "online (seed_store u ds st)" unfolding seed_store_def using run [OF assms, of "seed_currencies ds"] by simp_all
qed

text \<open>A field that was missing takes its value from an asset that has its id.\<close>

lemma seed_asset_field:
  "hashes (seed_asset u a st) key f =
     (if hashes st key f = None \<and> f = (u, a_currency a) \<and> key \<in> {''walletbalance_spot'', IN_ORDER}
      then Some (json_text (or_else_zero (if key = ''walletbalance_spot'' then a_spot_bal a else a_in_order a)))
      else hashes st key f)"
  by (auto simp: seed_asset_def hsetnx_def IN_ORDER_def)

lemma only_fills_value: "only_fills st st' \<Longrightarrow> hashes st key f = Some v \<Longrightarrow> hashes st' key f = Some v"
  unfolding only_fills_def by blast

lemma seeded_field:
  assumes "hashes st key f = None" "key \<in> {''walletbalance_spot'', IN_ORDER}" "f \<in> (\<lambda>a. (u, a_currency a)) ` set as"
  shows "\<exists>a \<in> set as. f = (u, a_currency a) \<and> hashes (fold (seed_asset u) as st) key f =
    Some (json_text (or_else_zero (if key = ''walletbalance_spot'' then a_spot_bal a else a_in_order a)))"
  using assms
proof (induction as arbitrary: st)
  case (Cons a as)
  show ?case
  proof (cases "f = (u, a_currency a)")
    case True
    then have "hashes (seed_asset u a st) key f =
      Some (json_text (or_else_zero (if key = ''walletbalance_spot'' then a_spot_bal a else a_in_order a)))"
      using Cons.prems by (simp add: seed_asset_field)
    then have "hashes (fold (seed_asset u) (a # as) st) key f =
      Some (json_text (or_else_zero (if key = ''walletbalance_spot'' then a_spot_bal a else a_in_order a)))"
      using only_fills_value [OF only_fills_all [of "seed_asset u a st" u as]] by simp
    then show ?thesis using True by (intro bexI [of _ a]) simp_all
  next
    case False
    then have "hashes (seed_asset u a st) key f = None" using Cons.prems(1) by (simp add: seed_asset_field)
    from Cons.IH [OF this Cons.prems(2)] Cons.prems(3) False show ?thesis by auto
  qed
qed simp

lemma truncate_sel [simp]:
  "a_currency (asset.truncate a) = a_currency a" "a_coin (asset.truncate a) = a_coin a"
  "a_currency_ref (asset.truncate a) = a_currency_ref a" "a_spot_bal (asset.truncate a) = a_spot_bal a"
  "a_in_order (asset.truncate a) = a_in_order a"
  by (simp_all add: asset.truncate_def)

lemma seed_other:
  "key \<notin> {''walletbalance_spot'', IN_ORDER} \<Longrightarrow> hashes (fold (seed_asset u) as st) key f = hashes st key f"
  by (induction as arbitrary: st) (auto simp: seed_asset_field)

section \<open>What the three ledgers hold of a currency\<close>

definition account_of :: "user_id \<Rightarrow> currency_id \<Rightarrow> spot \<Rightarrow> rval list" where
  "account_of u c st = map (\<lambda>key. case hashes st key (u, c) of None \<Rightarrow> RDec 0 | Some v \<Rightarrow> v)
     [''walletbalance_spot'', ''walletbalance_spot_locked'', ''walletbalance_spot_inOrder'']"

definition demo_account :: "string \<Rightarrow> rval list" where
  "demo_account coin = [RDec (if coin \<in> set DEMO_SEED_COINS then 1000 else 0), RDec 0, RDec 0]"

definition unknown_user :: "user_id \<Rightarrow> spot \<Rightarrow> bool" where
  "unknown_user u st \<longleftrightarrow> (\<forall>key \<in> {''walletbalance_spot'', ''walletbalance_spot_locked'', ''walletbalance_spot_inOrder''}.
     \<forall>c. hashes st key (u, c) = None)"

definition sound_documents :: "currency_doc list \<Rightarrow> bool" where
  "sound_documents ds \<longleftrightarrow> distinct (map cd_coin ds) \<and> distinct (map cd_id ds) \<and> (\<forall>d \<in> set ds. cd_id d \<noteq> [] \<and> cd_coin d \<noteq> [])"

lemma one_document: "sound_documents ds \<Longrightarrow> d \<in> set ds \<Longrightarrow> d' \<in> set ds \<Longrightarrow> cd_id d = cd_id d' \<or> cd_coin d = cd_coin d' \<Longrightarrow> d = d'"
  unfolding sound_documents_def distinct_map inj_on_def by blast

lemma wallet_asset:
  assumes "sound_documents ds" "a \<in> set (new_wallet tails robot ds)"
  shows "\<exists>d \<in> set ds. a_currency a = cd_id d \<and> a_coin a = cd_coin d" and "a_in_order a = JNum (Fin 0)"
    and "a_spot_bal a = JNum (if a_coin a \<in> set DEMO_SEED_COINS then DEMO_SEED_AMOUNT else Fin 0)"
proof -
  have w: "seeded ds (cd_coin ` set (seed_currencies ds)) (new_wallet tails robot ds)"
    using assms(1) by (intro new_wallet_seeded) (simp add: sound_documents_def)
  then have a: "drawn ds a" "a_spot_bal a = (if a_coin a \<in> cd_coin ` set (seed_currencies ds) then JNum DEMO_SEED_AMOUNT else JNum (Fin 0))"
    using assms(2) by (auto simp: seeded_def)
  then show d: "\<exists>d \<in> set ds. a_currency a = cd_id d \<and> a_coin a = cd_coin d" and "a_in_order a = JNum (Fin 0)"
    by (auto simp: drawn_def)
  have "a_coin a \<in> cd_coin ` set (seed_currencies ds) \<longleftrightarrow> a_coin a \<in> set DEMO_SEED_COINS"
    using d by (auto simp: seed_currencies_def)
  then show "a_spot_bal a = JNum (if a_coin a \<in> set DEMO_SEED_COINS then DEMO_SEED_AMOUNT else Fin 0)" using a(2) by simp
qed

lemma same_currency:
  assumes "sound_documents ds" "a \<in> set (new_wallet tails robot ds)" "b \<in> set (new_wallet tails robot ds)" "a_currency a = a_currency b"
  shows "a_coin a = a_coin b"
  using wallet_asset(1) [OF assms(1,2)] wallet_asset(1) [OF assms(1,3)] one_document [OF assms(1)] assms(4) by metis

lemma registered_account:
  assumes "emptyAsset tails ds u robot wallets st = (wallets1, st1)" "wallets u = None"
    and "sound_documents ds" "unknown_user u st" "online st" "a \<in> set (new_wallet tails robot ds)"
  shows "account_of u (a_currency a) st1 = demo_account (a_coin a)"
proof -
  let ?w = "new_wallet tails robot ds" and ?f = "(u, a_currency a)"
  let ?st = "seed_store u ds st"
  note s = seed_store_hashes [OF assms(5), of u ds]
  have z: "json_text (or_else_zero (JNum (Fin 0))) = RDec 0"
    by (simp add: json_text_def or_else_zero_def json_number_def)
  have st1: "st1 = fold (seed_asset u) (map asset.truncate ?w) ?st"
    using assms(1,2,6) s(2) by (auto simp: emptyAsset_def updateUserWallet_def Let_def)
  have f: "?f \<in> (\<lambda>a. (u, a_currency a)) ` set (map asset.truncate ?w)" using assms(6) by force
  obtain d where d: "d \<in> set ds" "a_currency a = cd_id d" "a_coin a = cd_coin d" using wallet_asset(1) [OF assms(3,6)] by blast
  have demo: "?f \<in> (\<lambda>d. (u, cd_id d)) ` set (seed_currencies ds) \<longleftrightarrow> a_coin a \<in> set DEMO_SEED_COINS"
    using d one_document [OF assms(3)] by (auto simp: seed_currencies_def)
  have locked: "hashes st1 ''walletbalance_spot_locked'' ?f = None"
    using assms(4) by (simp add: st1 seed_other IN_ORDER_def s(1) over_def unknown_user_def)
  have "hashes ?st IN_ORDER ?f = None" using assms(4) by (simp add: s(1) over_def IN_ORDER_def unknown_user_def)
  from seeded_field [OF this _ f] obtain b where "b \<in> set ?w" "hashes st1 IN_ORDER ?f = Some (json_text (or_else_zero (a_in_order b)))"
    by (auto simp: st1 IN_ORDER_def)
  then have in_order: "hashes st1 IN_ORDER ?f = Some (RDec 0)" using wallet_asset(2) [OF assms(3)] z by simp
  have spot: "hashes st1 ''walletbalance_spot'' ?f = Some (RDec (if a_coin a \<in> set DEMO_SEED_COINS then 1000 else 0))"
  proof (cases "a_coin a \<in> set DEMO_SEED_COINS")
    case True
    then have "hashes ?st ''walletbalance_spot'' ?f = Some (RDec 1000)" using demo by (simp add: s(1) over_def)
    from only_fills_value [OF only_fills_all this] True show ?thesis by (simp add: st1)
  next
    case False
    then have "hashes ?st ''walletbalance_spot'' ?f = None" using demo assms(4) by (simp add: s(1) over_def unknown_user_def)
    from seeded_field [OF this _ f] obtain b where b: "b \<in> set ?w" "a_currency b = a_currency a"
        "hashes st1 ''walletbalance_spot'' ?f = Some (json_text (or_else_zero (a_spot_bal b)))"
      by (auto simp: st1)
    then have "a_spot_bal b = JNum (Fin 0)"
      using wallet_asset(3) [OF assms(3) b(1)] same_currency [OF assms(3) b(1) assms(6) b(2)] False by simp
    then show ?thesis using b(3) z False by simp
  qed
  show ?thesis using locked in_order spot by (simp add: account_of_def demo_account_def IN_ORDER_def)
qed

section \<open>What a reset writes in such a wallet\<close>

lemma collect_keeps:
  "en \<in> set es \<Longrightarrow> \<exists>en' \<in> set (collect_asset b es). ce_coin en' = ce_coin en \<and> set (ce_ids en) \<subseteq> set (ce_ids en')"
proof (induction es)
  case (Cons e es)
  have e: "ce_coin (add_asset b e) = ce_coin e \<and> set (ce_ids e) \<subseteq> set (ce_ids (add_asset b e))"
    by (auto simp: add_asset_def add_id_def split: option.split)
  show ?case
  proof (cases "en = e")
    case True
    then show ?thesis using e by (cases "a_coin b = [] \<or> ce_coin e \<noteq> a_coin b") auto
  next
    case False
    then show ?thesis using Cons by (cases "a_coin b = [] \<or> ce_coin e = a_coin b") auto
  qed
qed simp

lemma collect_adds:
  "a_coin a \<noteq> [] \<Longrightarrow> a_currency a \<noteq> [] \<Longrightarrow>
   \<exists>en \<in> set (collect_asset a es). ce_coin en = a_coin a \<and> a_currency a \<in> set (ce_ids en)"
proof (induction es)
  case (Cons e es)
  then show ?case
    by (cases "ce_coin e = a_coin a") (auto simp: add_asset_def add_id_def split: option.split)
qed (auto simp: add_asset_def add_id_def split: option.split)

lemma collect_all_keeps:
  "en \<in> set es \<Longrightarrow> \<exists>en' \<in> set (fold collect_asset as es). ce_coin en' = ce_coin en \<and> set (ce_ids en) \<subseteq> set (ce_ids en')"
proof (induction as arbitrary: en es)
  case (Cons a as)
  obtain en1 where 1: "en1 \<in> set (collect_asset a es)" "ce_coin en1 = ce_coin en" "set (ce_ids en) \<subseteq> set (ce_ids en1)"
    using collect_keeps [OF Cons.prems] by blast
  from Cons.IH [OF 1(1)] 1(2,3) show ?case by fastforce
qed auto

lemma collected:
  assumes "a \<in> set as" "a_coin a \<noteq> []" "a_currency a \<noteq> []"
  shows "\<exists>en \<in> set (collectUserCoins (Some as)). ce_coin en = a_coin a \<and> a_currency a \<in> set (ce_ids en)"
proof -
  have "\<exists>en \<in> set (fold collect_asset as es). ce_coin en = a_coin a \<and> a_currency a \<in> set (ce_ids en)" for es
    using assms(1)
  proof (induction as arbitrary: es)
    case (Cons b as)
    show ?case
    proof (cases "a = b")
      case True
      obtain en where "en \<in> set (collect_asset a es)" "ce_coin en = a_coin a" "a_currency a \<in> set (ce_ids en)"
        using collect_adds [OF assms(2,3)] by blast
      then show ?thesis using collect_all_keeps [of en "collect_asset a es" as] True by auto
    qed (use Cons in auto)
  qed simp
  then show ?thesis by (simp add: collectUserCoins_def)
qed

definition faucet_documents :: "currency_doc list \<Rightarrow> currency list" where
  "faucet_documents ds = map (\<lambda>d. (cd_coin d, cd_id d)) ds"

lemma reset_account:
  assumes "resetFaucet svc (faucet_documents ds) (Some w) token (Some u) st = (st', out)" "fo_answer out = Paid ls"
    and "sound_documents ds" "a \<in> set w" "d \<in> set ds" "a_currency a = cd_id d" "a_coin a = cd_coin d"
  shows "account_of u (a_currency a) st' = demo_account (a_coin a)"
proof -
  let ?f = "(u, a_currency a)" and ?cs = "getFaucetCurrencies (faucet_documents ds)"
  let ?coins = "collectUserCoins (Some w)"
  have h: "hashes st' = over (paid u ?cs) (RDec 1000) (over (cleared u ?coins) (RDec 0) (hashes st))"
    using reset_effect(1) [OF assms(1,2)] by (simp add: restored_def)
  have ne: "a_coin a \<noteq> []" "a_currency a \<noteq> []" using assms(3,5-7) by (auto simp: sound_documents_def)
  obtain en where en: "en \<in> set ?coins" "ce_coin en = a_coin a" "?f \<in> set (entry_fields u en)"
    using collected [OF assms(4) ne] by (auto simp: entry_fields_def)
  have p: "paid u ?cs key ?f \<longleftrightarrow> key = ''walletbalance_spot'' \<and> a_coin a \<in> set FAUCET_COINS" for key
    using assms(5-7) one_document [OF assms(3)]
    by (auto simp: paid_def getFaucetCurrencies_def faucet_documents_def SPOT_BALANCE_KEY_def image_iff)
  have c: "cleared u ?coins ''walletbalance_spot_locked'' ?f" "cleared u ?coins ''walletbalance_spot_inOrder'' ?f"
    "a_coin a \<notin> set FAUCET_COINS \<Longrightarrow> cleared u ?coins ''walletbalance_spot'' ?f"
    using en by (auto simp: cleared_def OTHER_LEDGERS_def SPOT_BALANCE_KEY_def)
  show ?thesis
    using c by (cases "a_coin a \<in> set FAUCET_COINS")
      (simp_all add: account_of_def demo_account_def h p over_def DEMO_SEED_COINS_def FAUCET_COINS_def)
qed

section \<open>Properties\<close>

text \<open>A reset restores the account that registration created: whatever the account has done since, for every
  currency of its wallet the balance and both reservation ledgers hold after the reset what they held right after the
  registration, whose wallet documents the reset reads, with whatever balances the backup has written into them.\<close>

theorem reset_restores_the_registration:
  assumes "emptyAsset tails ds u robot wallets st = (wallets1, st1)" and "wallets u = None"
    and "sound_documents ds" and "unknown_user u st" and "online st"
    and "resetFaucet svc (faucet_documents ds) (Some w) token (Some u) st2 = (st3, out)" and "fo_answer out = Paid ls"
    and "map (\<lambda>a. (a_currency a, a_coin a, a_currency_ref a)) w =
      map (\<lambda>a. (a_currency a, a_coin a, a_currency_ref a)) (the (wallets1 u))"
    and "b \<in> set w"
  shows "account_of u (a_currency b) st3 = account_of u (a_currency b) st1"
proof -
  have w1: "the (wallets1 u) = new_wallet tails robot ds" using assms(1,2) by (auto simp: emptyAsset_def Let_def)
  obtain a where a: "a \<in> set (new_wallet tails robot ds)" "a_currency a = a_currency b" "a_coin a = a_coin b"
  proof -
    let ?F = "\<lambda>a. (a_currency a, a_coin a, a_currency_ref a)"
    have "set (map ?F w) = set (map (\<lambda>a. (a_currency a, a_coin a, a_currency_ref a)) (new_wallet tails robot ds))"
      using assms(8) w1 by simp
    moreover have "?F b \<in> set (map ?F w)" using assms(9) by simp
    ultimately have "?F b \<in> (\<lambda>a. (a_currency a, a_coin a, a_currency_ref a)) ` set (new_wallet tails robot ds)" by simp
    then show thesis using that by auto
  qed
  obtain d where "d \<in> set ds" "a_currency a = cd_id d" "a_coin a = cd_coin d" using wallet_asset(1) [OF assms(3) a(1)] by blast
  then show ?thesis
    using registered_account [OF assms(1-5) a(1)] reset_account [OF assms(6,7,3,9), of d] a(2,3) by simp
qed

definition demo_documents :: "currency_doc list" where
  "demo_documents =
     [\<lparr>cd_id = ''q'', cd_coin = ''USD'', cd_type = ''fiat'', cd_deposit = [], cd_token = [], cd_status = ''active''\<rparr>,
      \<lparr>cd_id = ''b'', cd_coin = ''BTC'', cd_type = ''crypto'', cd_deposit = [], cd_token = [], cd_status = ''active''\<rparr>]"

definition demo_signup :: "(user_id \<Rightarrow> coin_asset list option) \<times> spot" where
  "demo_signup = emptyAsset (\<lambda>_. ''1'') demo_documents ''u'' False (\<lambda>_. None) (idle_spot\<lparr>hashes := \<lambda>_ _. None\<rparr>)"

text \<open>Afterwards every balance of everybody is seven.\<close>

definition demo_later :: spot where
  "demo_later = idle_spot\<lparr>hashes := \<lambda>_ _. Some (RDec 7)\<rparr>"

theorem reset_restores_the_registration_witness:
  "account_of ''u'' ''b'' (fst (resetFaucet reference_service (faucet_documents demo_documents)
     (Some (map asset.truncate (the (fst demo_signup ''u'')))) ''r'' (Some ''u'') demo_later)) = account_of ''u'' ''b'' (snd demo_signup)"
proof -
  let ?st = "idle_spot\<lparr>hashes := \<lambda>_ _. None\<rparr> :: spot" and ?w = "map asset.truncate (the (fst demo_signup ''u''))"
  let ?r = "resetFaucet reference_service (faucet_documents demo_documents) (Some ?w) ''r'' (Some ''u'') demo_later"
  have e: "emptyAsset (\<lambda>_. ''1'') demo_documents ''u'' False (\<lambda>_. None) ?st = (fst demo_signup, snd demo_signup)"
    by (simp add: demo_signup_def)
  have d: "sound_documents demo_documents" by (simp add: sound_documents_def demo_documents_def)
  have n: "unknown_user ''u'' ?st" "online ?st" by (simp_all add: unknown_user_def)
  have "cached_pairs demo_later = cached_pairs idle_spot" by (simp add: demo_later_def cached_pairs_def)
  moreover have "live_key demo_later (marginFreezeKey ''u'') = live_key idle_spot (marginFreezeKey ''u'')"
    by (rule live_key_cong) (simp_all add: demo_later_def)
  ultimately have "\<exists>ls. fo_answer (snd ?r) = Paid ls"
    by (intro idle_reset_pays) (simp_all add: demo_later_def faucet_documents_def demo_documents_def getFaucetCurrencies_def FAUCET_COINS_def)
  then obtain ls where p: "fo_answer (snd ?r) = Paid ls" by blast
  have w: "map (\<lambda>a. (a_currency a, a_coin a, a_currency_ref a)) ?w =
      map (\<lambda>a. (a_currency a, a_coin a, a_currency_ref a)) (the (fst demo_signup ''u''))" by simp
  have "the (fst demo_signup ''u'') = new_wallet (\<lambda>_. ''1'') False demo_documents"
    by (simp add: demo_signup_def emptyAsset_def Let_def)
  moreover have "\<exists>a \<in> set (new_wallet (\<lambda>_. ''1'') False demo_documents). a_currency a = ''b''" by code_simp
  ultimately obtain b where b: "b \<in> set ?w" "a_currency b = ''b''" by force
  have "?r = (fst ?r, snd ?r)" by simp
  from reset_restores_the_registration [OF e refl d n this p w b(1)] b(2) show ?thesis by simp
qed

end
