(* ===== verification/Backup.thy ===== *)
theory Backup
  imports Registration Accounting
begin

text \<open>
  The write-back of balances into the wallet documents
  (\<^verbatim>\<open>cryptodex-walletapi/controllers/redisWalletBackUp.js\<close>), which runs every ten seconds, and its
  return: the seeding of \<open>Wallets\<close> fills the fields a store has lost from those documents. What the
  command that reads a whole hash answers is an argument, and so is the collection of wallets; a
  document's number fields take numbers and numeric texts, and an empty text as null.
\<close>

section \<open>The ledgers and their fields\<close>

datatype ledger = SPOT | SPOT_LOCKED | SPOT_IN_ORDER

definition LEDGER_HASH :: "ledger \<Rightarrow> string" where
  "LEDGER_HASH t = (case t of SPOT \<Rightarrow> ''walletbalance_spot'' | SPOT_LOCKED \<Rightarrow> ''walletbalance_spot_locked''
     | SPOT_IN_ORDER \<Rightarrow> ''walletbalance_spot_inOrder'')"

definition BALANCE_FIELD :: "ledger \<Rightarrow> asset \<Rightarrow> jsval" where
  "BALANCE_FIELD t a = (case t of SPOT \<Rightarrow> a_spot_bal a | SPOT_LOCKED \<Rightarrow> a_locked a | SPOT_IN_ORDER \<Rightarrow> a_in_order a)"

definition set_balance :: "ledger \<Rightarrow> jsval \<Rightarrow> asset \<Rightarrow> asset" where
  "set_balance t v a = (case t of SPOT \<Rightarrow> a\<lparr>a_spot_bal := v\<rparr> | SPOT_LOCKED \<Rightarrow> a\<lparr>a_locked := v\<rparr>
     | SPOT_IN_ORDER \<Rightarrow> a\<lparr>a_in_order := v\<rparr>)"

section \<open>One pass\<close>

text \<open>What a number field of a document makes of a stored text; nothing when it is not a number.\<close>

definition cast_number :: "rval \<Rightarrow> jsval option" where
  "cast_number v =
     (if v = RText [] then Some JNull else if field_number v = NaN then None else Some (JNum (field_number v)))"

text \<open>The loose comparison of a number field with a text.\<close>

definition same_number :: "jsval \<Rightarrow> rval \<Rightarrow> bool" where
  "same_number d v = (case d of JNum n \<Rightarrow> js_eq n (field_number v) | _ \<Rightarrow> False)"

record divergence =
  dv_user :: user_id
  dv_currency :: currency_id
  dv_coin :: string
  dv_db :: jsval
  dv_redis :: rval

type_synonym wallets = "user_id \<Rightarrow> asset list option"

fun write_back :: "ledger \<Rightarrow> currency_id \<Rightarrow> jsval \<Rightarrow> asset list \<Rightarrow> asset list" where
  "write_back t c v [] = []"
| "write_back t c v (a # as) = (if a_currency a = c then set_balance t v a # as else a # write_back t c v as)"

text \<open>One field: a wallet or an asset that is missing, an equal balance and a text that is no number are passed over.\<close>

definition backup_field :: "ledger \<Rightarrow> field \<times> rval \<Rightarrow> wallets \<times> divergence list \<Rightarrow> wallets \<times> divergence list" where
  "backup_field t e r = (case e of ((u, c), v) \<Rightarrow> (case fst r u of
      None \<Rightarrow> r
    | Some as \<Rightarrow> (case find (\<lambda>a. a_currency a = c) as of
        None \<Rightarrow> r
      | Some a \<Rightarrow>
          if same_number (BALANCE_FIELD t a) v then r
          else (case cast_number v of
            None \<Rightarrow> r
          | Some n \<Rightarrow> ((fst r)(u \<mapsto> write_back t c n as),
              snd r @ [\<lparr>dv_user = u, dv_currency = c, dv_coin = a_coin a, dv_db = BALANCE_FIELD t a, dv_redis = v\<rparr>])))))"

definition balanceUpdate :: "ledger \<Rightarrow> (field \<times> rval) list \<Rightarrow> wallets \<times> divergence list \<Rightarrow> wallets \<times> divergence list" where
  "balanceUpdate t es r = fold (backup_field t) es r"

definition backup_ledger ::
    "(string \<Rightarrow> (field \<times> rval) list option) \<Rightarrow> ledger \<Rightarrow> wallets \<times> divergence list \<Rightarrow> wallets \<times> divergence list" where
  "backup_ledger hgetall t r = (case hgetall (LEDGER_HASH t) of None \<Rightarrow> r | Some es \<Rightarrow> balanceUpdate t es r)"

text \<open>A pass that finds another running does nothing.\<close>

definition redisBackUpWalletByCron ::
    "bool \<Rightarrow> (string \<Rightarrow> (field \<times> rval) list option) \<Rightarrow> wallets \<Rightarrow> wallets \<times> divergence list" where
  "redisBackUpWalletByCron running hgetall ws =
     (if running then (ws, []) else fold (backup_ledger hgetall) [SPOT, SPOT_LOCKED, SPOT_IN_ORDER] (ws, []))"

section \<open>What a pass writes\<close>

definition entry_of :: "wallets \<Rightarrow> user_id \<Rightarrow> currency_id \<Rightarrow> asset option" where
  "entry_of ws u c = (case ws u of None \<Rightarrow> None | Some as \<Rightarrow> find (\<lambda>a. a_currency a = c) as)"

lemma set_balance_sel [simp]:
  "a_currency (set_balance t v a) = a_currency a" "BALANCE_FIELD t (set_balance t v a) = v"
  "t' \<noteq> t \<Longrightarrow> BALANCE_FIELD t' (set_balance t v a) = BALANCE_FIELD t' a"
  by (cases t; cases t'; simp add: set_balance_def BALANCE_FIELD_def)+

lemma find_write_back:
  "find (\<lambda>a. a_currency a = c') (write_back t c v as) =
     (if c' = c then map_option (set_balance t v) (find (\<lambda>a. a_currency a = c) as) else find (\<lambda>a. a_currency a = c') as)"
  by (induction as) auto

lemma write_back_ids: "map a_currency (write_back t c v as) = map a_currency as"
  by (induction as) auto

lemma write_back_find: "find (\<lambda>a. a_currency a = c) as \<noteq> None \<Longrightarrow> ws u = Some as \<Longrightarrow>
   entry_of (ws(u \<mapsto> write_back t c v as)) u' c' =
     (if u' = u \<and> c' = c then map_option (set_balance t v) (entry_of ws u c) else entry_of ws u' c')"
  by (simp add: entry_of_def find_write_back)

text \<open>How a number is kept in a document: as itself, and zero also as a null or a missing field.\<close>

definition stored_as :: "jsval \<Rightarrow> jsnum \<Rightarrow> bool" where
  "stored_as d n \<longleftrightarrow> d = JNum n \<or> (d = JNull \<or> d = JUndef) \<and> n = Fin 0"

definition entry_holds :: "wallets \<Rightarrow> ledger \<Rightarrow> user_id \<Rightarrow> currency_id \<Rightarrow> jsnum \<Rightarrow> bool" where
  "entry_holds ws t u c n \<longleftrightarrow> (\<exists>a. entry_of ws u c = Some a \<and> stored_as (BALANCE_FIELD t a) n)"

lemma backup_cases:
  "backup_field t ((u, c), v) r = r \<or>
   (\<exists>as n. fst r u = Some as \<and> find (\<lambda>a. a_currency a = c) as \<noteq> None \<and> cast_number v = Some n \<and>
     fst (backup_field t ((u, c), v) r) = (fst r)(u \<mapsto> write_back t c n as))"
  by (auto simp: backup_field_def split: option.split)

lemma backup_exists: "entry_of (fst (backup_field t e r)) u c = None \<longleftrightarrow> entry_of (fst r) u c = None"
proof -
  obtain u1 c1 v where e: "e = ((u1, c1), v)" by (metis surj_pair)
  from backup_cases [of t u1 c1 v r] show ?thesis
  proof
    assume "\<exists>as n. fst r u1 = Some as \<and> find (\<lambda>a. a_currency a = c1) as \<noteq> None \<and> cast_number v = Some n \<and>
     fst (backup_field t ((u1, c1), v) r) = (fst r)(u1 \<mapsto> write_back t c1 n as)"
    then show ?thesis using write_back_find by (auto simp: e split: if_splits)
  qed (simp add: e)
qed

lemma backup_keeps:
  assumes "entry_holds (fst r) t' u' c' n" "t' \<noteq> t \<or> fst e \<noteq> (u', c')"
  shows "entry_holds (fst (backup_field t e r)) t' u' c' n"
proof -
  obtain u c v where e: "e = ((u, c), v)" by (metis surj_pair)
  from backup_cases [of t u c v r] show ?thesis
  proof
    assume "\<exists>as n. fst r u = Some as \<and> find (\<lambda>a. a_currency a = c) as \<noteq> None \<and> cast_number v = Some n \<and>
     fst (backup_field t ((u, c), v) r) = (fst r)(u \<mapsto> write_back t c n as)"
    then show ?thesis using write_back_find assms by (auto simp: e entry_holds_def)
  qed (use assms in \<open>simp add: e\<close>)
qed

lemma number_str_empty: "number_str [] = Fin 0"
  by code_simp

lemma backup_writes:
  assumes "entry_of (fst r) u c \<noteq> None" "is_finite (field_number v)"
  shows "entry_holds (fst (backup_field t ((u, c), v) r)) t u c (field_number v)"
proof -
  obtain as a where as: "fst r u = Some as" "find (\<lambda>a. a_currency a = c) as = Some a"
    using assms(1) by (auto simp: entry_of_def split: option.splits)
  show ?thesis
  proof (cases "same_number (BALANCE_FIELD t a) v")
    case True
    then have "BALANCE_FIELD t a = JNum (field_number v)"
      by (auto simp: same_number_def js_eq_def split: jsval.splits)
    then show ?thesis using as True by (simp add: backup_field_def entry_holds_def entry_of_def stored_as_def)
  next
    case False
    have "field_number v \<noteq> NaN" using assms(2) by auto
    then have "\<exists>n. cast_number v = Some n \<and> stored_as n (field_number v)"
      by (cases "v = RText []") (auto simp: cast_number_def stored_as_def number_str_empty)
    then obtain n where n: "cast_number v = Some n" "stored_as n (field_number v)" by blast
    then have "fst (backup_field t ((u, c), v) r) = (fst r)(u \<mapsto> write_back t c n as)"
      using as False by (simp add: backup_field_def)
    then show ?thesis using as n(2) write_back_find [of c as "fst r" u t n u c] by (simp add: entry_holds_def entry_of_def)
  qed
qed

lemma balanceUpdate_exists: "entry_of (fst (balanceUpdate t es r)) u c = None \<longleftrightarrow> entry_of (fst r) u c = None"
  unfolding balanceUpdate_def by (induction es arbitrary: r) (simp_all add: backup_exists)

lemma balanceUpdate_keeps:
  "entry_holds (fst r) t' u c n \<Longrightarrow> t' \<noteq> t \<or> (u, c) \<notin> fst ` set es \<Longrightarrow> entry_holds (fst (balanceUpdate t es r)) t' u c n"
  unfolding balanceUpdate_def
proof (induction es arbitrary: r)
  case (Cons e es)
  have "entry_holds (fst (backup_field t e r)) t' u c n" using Cons.prems by (intro backup_keeps) auto
  from Cons.IH [OF this] Cons.prems(2) show ?case by auto
qed simp

lemma balanceUpdate_writes:
  "((u, c), v) \<in> set es \<Longrightarrow> distinct (map fst es) \<Longrightarrow> entry_of (fst r) u c \<noteq> None \<Longrightarrow> is_finite (field_number v) \<Longrightarrow>
   entry_holds (fst (balanceUpdate t es r)) t u c (field_number v)"
proof (induction es arbitrary: r)
  case (Cons e es)
  show ?case
  proof (cases "e = ((u, c), v)")
    case True
    from balanceUpdate_keeps [OF backup_writes [OF Cons.prems(3,4)], of t t es] Cons.prems(2) True
    show ?thesis by (auto simp: balanceUpdate_def)
  next
    case False
    then have "entry_holds (fst (balanceUpdate t es (backup_field t e r))) t u c (field_number v)"
      using Cons.prems by (intro Cons.IH) (auto simp: backup_exists)
    then show ?thesis by (simp add: balanceUpdate_def)
  qed
qed simp

lemma ids_backup: "map_option (map a_currency) (fst (backup_field t e r) u) = map_option (map a_currency) (fst r u)"
proof -
  obtain u1 c1 v where e: "e = ((u1, c1), v)" by (metis surj_pair)
  from backup_cases [of t u1 c1 v r] show ?thesis by (auto simp: e write_back_ids)
qed

lemma ids_balanceUpdate: "map_option (map a_currency) (fst (balanceUpdate t es r) u) = map_option (map a_currency) (fst r u)"
  unfolding balanceUpdate_def by (induction es arbitrary: r) (simp_all add: ids_backup)

text \<open>The command answers the fields of the hash, each once, and nothing for a hash that is missing.\<close>

definition answers :: "(string \<Rightarrow> (field \<times> rval) list option) \<Rightarrow> spot \<Rightarrow> bool" where
  "answers hgetall st \<longleftrightarrow> (\<forall>key. case hgetall key of
      None \<Rightarrow> \<forall>f. hashes st key f = None
    | Some es \<Rightarrow> distinct (map fst es) \<and> (\<forall>f v. (f, v) \<in> set es \<longleftrightarrow> hashes st key f = Some v))"

lemma ledger_step:
  assumes "answers hgetall st" "entry_of (fst r) u c \<noteq> None"
  shows "hashes st (LEDGER_HASH t) (u, c) = Some v \<Longrightarrow> is_finite (field_number v) \<Longrightarrow>
      entry_holds (fst (backup_ledger hgetall t r)) t u c (field_number v)"
    and "entry_of (fst (backup_ledger hgetall t r)) u c \<noteq> None"
    and "t' \<noteq> t \<Longrightarrow> entry_holds (fst r) t' u c n \<Longrightarrow> entry_holds (fst (backup_ledger hgetall t r)) t' u c n"
    and "map_option (map a_currency) (fst (backup_ledger hgetall t r) w) = map_option (map a_currency) (fst r w)"
proof -
  have a: "case hgetall (LEDGER_HASH t) of None \<Rightarrow> \<forall>f. hashes st (LEDGER_HASH t) f = None
    | Some es \<Rightarrow> distinct (map fst es) \<and> (\<forall>f v. (f, v) \<in> set es \<longleftrightarrow> hashes st (LEDGER_HASH t) f = Some v)"
    using assms(1) unfolding answers_def by blast
  show "hashes st (LEDGER_HASH t) (u, c) = Some v \<Longrightarrow> is_finite (field_number v) \<Longrightarrow>
      entry_holds (fst (backup_ledger hgetall t r)) t u c (field_number v)"
    using a balanceUpdate_writes [of u c v _ r t] assms(2) by (auto simp: backup_ledger_def split: option.splits)
  show "entry_of (fst (backup_ledger hgetall t r)) u c \<noteq> None"
    using assms(2) balanceUpdate_exists [of t _ r u c] by (auto simp: backup_ledger_def split: option.splits)
  show "t' \<noteq> t \<Longrightarrow> entry_holds (fst r) t' u c n \<Longrightarrow> entry_holds (fst (backup_ledger hgetall t r)) t' u c n"
    by (auto simp: backup_ledger_def balanceUpdate_keeps split: option.splits)
  show "map_option (map a_currency) (fst (backup_ledger hgetall t r) w) = map_option (map a_currency) (fst r w)"
    by (auto simp: backup_ledger_def ids_balanceUpdate split: option.splits)
qed

lemma backed_up:
  assumes "answers hgetall st" "entry_of ws u c \<noteq> None"
    and "redisBackUpWalletByCron False hgetall ws = (ws', rows)"
    and "hashes st (LEDGER_HASH t) (u, c) = Some v" "is_finite (field_number v)"
  shows "entry_holds ws' t u c (field_number v)"
    and "map_option (map a_currency) (ws' w) = map_option (map a_currency) (ws w)"
proof -
  define r1 where "r1 = backup_ledger hgetall SPOT (ws, [])"
  define r2 where "r2 = backup_ledger hgetall SPOT_LOCKED r1"
  have ws': "ws' = fst (backup_ledger hgetall SPOT_IN_ORDER r2)"
    using assms(3) by (simp add: redisBackUpWalletByCron_def r1_def r2_def)
  have e0: "entry_of (fst (ws, [])) u c \<noteq> None" using assms(2) by simp
  note s1 = ledger_step [OF assms(1) e0, where t = SPOT, folded r1_def]
  note s2 = ledger_step [OF assms(1) s1(2), where t = SPOT_LOCKED, folded r2_def]
  note s3 = ledger_step [OF assms(1) s2(2), where t = SPOT_IN_ORDER, folded ws']
  show "entry_holds ws' t u c (field_number v)"
    by (cases t) (use assms(4,5) s1(1) s2(1,3) s3(1,3) in auto)
  show "map_option (map a_currency) (ws' w) = map_option (map a_currency) (ws w)"
    using s1(4) s2(4) s3(4) by simp
qed

section \<open>Properties\<close>

lemma is_num_field [simp]: "is_num (field_number v)"
  by (cases v) simp_all

lemma reseeded_number:
  "stored_as d (field_number v) \<Longrightarrow> is_finite (field_number v) \<Longrightarrow> field_number (json_text (or_else_zero d)) = field_number v"
proof -
  assume d: "stored_as d (field_number v)" and f: "is_finite (field_number v)"
  obtain x where x: "field_number v = Fin x" using f by (cases "field_number v") auto
  have "or_else_zero d = JNum (Fin x)" using d x by (auto simp: stored_as_def or_else_zero_def)
  moreover have "is_num (Fin x)" using is_num_field [of v] by (simp only: x)
  ultimately show ?thesis
    using to_num_spelling [of x] x by (simp add: json_text_def json_number_def spelled_spelling del: spelled.simps is_num.simps)
qed

text \<open>C31: A store that has lost its balances gets them back from the documents: after a pass of the backup, seeding the
  account in a store that holds nothing of it gives every asset of its wallet the balance and the reservation it had,
  as the same number.\<close>

theorem backup_then_seeding_restores:
  assumes "redisBackUpWalletByCron False hgetall ws = (ws', rows)" and "answers hgetall st"
    and "ws u = Some as" and "distinct (map a_currency as)" and "c \<in> a_currency ` set as"
    and "key = ''walletbalance_spot'' \<or> key = ''walletbalance_spot_inOrder''"
    and "hashes st key (u, c) = Some v" and "is_finite (field_number v)"
    and "updateUserWallet ws' u st1 = (st2, True)" and "hashes st1 key (u, c) = None"
  shows "\<exists>v'. hashes st2 key (u, c) = Some v' \<and> field_number v' = field_number v"
proof -
  define t where "t = (if key = ''walletbalance_spot'' then SPOT else SPOT_IN_ORDER)"
  have t: "LEDGER_HASH t = key" using assms(6) by (auto simp: t_def LEDGER_HASH_def)
  have "find (\<lambda>a. a_currency a = c) as \<noteq> None" using assms(5) by (auto simp: find_None_iff)
  then have e: "entry_of ws u c \<noteq> None" using assms(3) by (simp add: entry_of_def)
  have k: "hashes st (LEDGER_HASH t) (u, c) = Some v" using assms(7) t by simp
  note b = backed_up [OF assms(2) e assms(1) k assms(8)]
  obtain as' where as': "ws' u = Some as'" "map a_currency as' = map a_currency as"
    using b(2) [of u] assms(3) by (cases "ws' u") auto
  obtain a where a: "find (\<lambda>a. a_currency a = c) as' = Some a" "stored_as (BALANCE_FIELD t a) (field_number v)"
    using b(1) as'(1) by (auto simp: entry_holds_def entry_of_def)
  have st2: "st2 = fold (seed_asset u) as' st1" using assms(9) as'(1) by (auto simp: updateUserWallet_def split: if_splits)
  have in_wallet: "a \<in> set as'" "a_currency a = c" using a(1) by (auto simp: find_Some_iff in_set_conv_nth)
  then have f: "(u, c) \<in> (\<lambda>a. (u, a_currency a)) ` set as'" by blast
  have "key \<in> {''walletbalance_spot'', IN_ORDER}" using assms(6) by (auto simp: IN_ORDER_def)
  from seeded_field [OF assms(10) this f] obtain b where b: "b \<in> set as'" "c = a_currency b"
      "hashes st2 key (u, c) = Some (json_text (or_else_zero (if key = ''walletbalance_spot'' then a_spot_bal b else a_in_order b)))"
    by (auto simp: st2)
  have "distinct (map a_currency as')" using assms(4) as'(2) by simp
  then have "b = a" using b(1,2) in_wallet by (auto simp: distinct_map inj_on_def)
  then have "hashes st2 key (u, c) = Some (json_text (or_else_zero (BALANCE_FIELD t a)))"
    using b(3) assms(6) by (auto simp: t_def BALANCE_FIELD_def)
  then show ?thesis using reseeded_number [OF a(2) assms(8)] by blast
qed

definition one_balance :: "string \<Rightarrow> (field \<times> rval) list option" where
  "one_balance key = (if key = ''walletbalance_spot'' then Some [((''u'', ''b''), RDec 250)] else None)"

definition kept_documents :: wallets where
  "kept_documents = fst (redisBackUpWalletByCron False one_balance sample_wallet)"

theorem backup_then_seeding_restores_witness:
  "\<exists>v'. hashes (fst (updateUserWallet kept_documents ''u'' blank_spot)) ''walletbalance_spot'' (''u'', ''b'') = Some v' \<and>
     field_number v' = field_number (RDec 250)"
proof -
  define st where "st = blank_spot\<lparr>hashes := (\<lambda>_ _. None)(''walletbalance_spot'' := [(''u'', ''b'') \<mapsto> RDec 250])\<rparr>"
  have r: "redisBackUpWalletByCron False one_balance sample_wallet =
      (kept_documents, snd (redisBackUpWalletByCron False one_balance sample_wallet))" by (simp add: kept_documents_def)
  have a: "answers one_balance st" by (auto simp: answers_def one_balance_def st_def)
  have w: "sample_wallet ''u'' = Some (the (sample_wallet ''u''))" "distinct (map a_currency (the (sample_wallet ''u'')))"
    "''b'' \<in> a_currency ` set (the (sample_wallet ''u''))" by (simp_all add: sample_wallet_def)
  have h: "hashes st ''walletbalance_spot'' (''u'', ''b'') = Some (RDec 250)" by (simp add: st_def)
  have n: "is_finite (field_number (RDec 250))" by code_simp
  have "map_option (map a_currency) (kept_documents ''u'') = Some [''b'']" by code_simp
  then have "kept_documents ''u'' \<noteq> None" "kept_documents ''u'' \<noteq> Some []" by auto
  then have "snd (updateUserWallet kept_documents ''u'' blank_spot)"
    by (auto simp: updateUserWallet_def)
  then have u: "updateUserWallet kept_documents ''u'' blank_spot = (fst (updateUserWallet kept_documents ''u'' blank_spot), True)"
    by (simp add: prod_eq_iff)
  have e: "hashes blank_spot ''walletbalance_spot'' (''u'', ''b'') = None" by simp
  have k: "''walletbalance_spot'' = ''walletbalance_spot'' \<or> ''walletbalance_spot'' = ''walletbalance_spot_inOrder''" by simp
  show ?thesis by (rule backup_then_seeding_restores [OF r a w(1) w(2) w(3) k h n u e])
qed

end
