(* ===== verification/PublishedBook.thy ===== *)
theory PublishedBook
  imports OrderGate
begin

text \<open>
  The order book shown to users (\<^verbatim>\<open>controllers/bookPublish.controller.js\<close>, and \<^verbatim>\<open>orderBookData\<close> with
  \<^verbatim>\<open>legacyBook\<close> of \<^verbatim>\<open>controllers/spot.controller.js\<close>): derived from the venue's depth, the state of the paper ladder and
  the resting orders, or empty with a reason. The sequence numbers and the coalescing of publications are
  the state of the module. The depth snapshot is an argument; time stamps and the symbol are display only
  and left out.
\<close>

definition ORDER_BOOK_DEPTH :: nat where
  "ORDER_BOOK_DEPTH = 20"

record published =
  pu_pair :: pair_id
  pu_buy :: "depth_row list"
  pu_sell :: "depth_row list"
  pu_grouped :: "(jsnum \<times> (depth_row list \<times> depth_row list)) list"
  pu_max_bid :: jsnum
  pu_max_ask :: jsnum
  pu_type :: string
  pu_seq :: nat
  pu_healthy :: bool
  pu_reason :: "string option"
  pu_ladder_present :: bool
  pu_update_id :: jsval

type_synonym sequence = "pair_id \<Rightarrow> nat"

definition nextSeq :: "pair_id \<Rightarrow> sequence \<Rightarrow> sequence \<times> nat" where
  "nextSeq pid s = (s(pid := s pid + 1), s pid + 1)"

definition cachedPairData :: "pair_id \<Rightarrow> spot \<Rightarrow> pair option" where
  "cachedPairData pid st =
     (if \<not> online st then None else case map_of (pairs st) pid of Some (Row p) \<Rightarrow> Some p | _ \<Rightarrow> None)"

definition emptyBook :: "pair_id \<Rightarrow> string \<Rightarrow> nat \<Rightarrow> published" where
  "emptyBook pid why n =
     \<lparr>pu_pair = pid, pu_buy = [], pu_sell = [], pu_grouped = [], pu_max_bid = Fin 0, pu_max_ask = Fin 0, pu_type = ''SNAPSHOT'',
      pu_seq = n, pu_healthy = False, pu_reason = Some why, pu_ladder_present = False, pu_update_id = JNum (Fin 0)\<rparr>"

section \<open>The levels of one book\<close>

definition upper :: "string \<Rightarrow> string" where
  "upper s = map (\<lambda>c. if 97 \<le> (of_char c :: nat) \<and> (of_char c :: nat) \<le> 122 then char_of ((of_char c :: nat) - 32) else c) s"

text \<open>\<open>x || 0\<close>\<close>

definition or_zero_val :: "jsval \<Rightarrow> jsval" where
  "or_zero_val v = (case v of
      JNum n \<Rightarrow> if n = NaN then JNum (Fin 0) else v
    | JStr t \<Rightarrow> if t = [] then JNum (Fin 0) else v
    | JBool b \<Rightarrow> if b then v else JNum (Fin 0)
    | _ \<Rightarrow> JNum (Fin 0))"

text \<open>The least ask and the greatest bid of the venue; a price that is no number spoils them.\<close>

definition venueBestAsk :: "level list \<Rightarrow> jsnum" where
  "venueBestAsk asks = fold (\<lambda>l m. js_min m (to_number (l_price l))) asks (Infty False)"

definition venueBestBid :: "level list \<Rightarrow> jsnum" where
  "venueBestBid bids = fold (\<lambda>l m. js_max m (to_number (l_price l))) bids (Infty True)"

definition pairs_of :: "level list \<Rightarrow> book_map" where
  "pairs_of ls = map (\<lambda>l. (to_number (l_price l), to_number (l_quantity l))) ls"

definition compact :: "depth_row \<Rightarrow> depth_row" where
  "compact r = r\<lparr>d_quantity := number_str (to_fixed_str (d_quantity r) 8), d_notional := number_str (to_fixed_str (d_notional r) 2)\<rparr>"

definition grouped_side :: "string \<Rightarrow> jsnum \<Rightarrow> book_map \<Rightarrow> depth_row list" where
  "grouped_side side step m = map compact (fst (withNotionals (pairs_of (groupLevels (map level_of m) step side GROUPED_ROWS))))"

definition grouped_book :: "string \<Rightarrow> book_map \<Rightarrow> book_map \<Rightarrow> (jsnum \<times> (depth_row list \<times> depth_row list)) list" where
  "grouped_book quote bids asks =
     map (\<lambda>step. (step, (grouped_side ''bid'' step bids, grouped_side ''ask'' step asks))) (groupingStepsFor (upper quote))"

text \<open>Orders of users at or through the venue's other side are not shown.\<close>

definition all_bids :: "depth_book \<Rightarrow> order list \<Rightarrow> book_map" where
  "all_bids b orders =
     (let user = filter (\<lambda>pq. fst pq < venueBestAsk (the (b_asks b))) (bookLevels orders)
      in sort_before (better_price ''bid'') (mergeBookLevels [b_bids b, Some (map level_of user)]))"

definition all_asks :: "depth_book \<Rightarrow> order list \<Rightarrow> book_map" where
  "all_asks b orders =
     (let user = filter (\<lambda>pq. fst pq > venueBestBid (the (b_bids b))) (bookLevels orders)
      in sort_before (better_price ''ask'') (mergeBookLevels [b_asks b, Some (map level_of user)]))"

definition crossed :: "book_map \<Rightarrow> book_map \<Rightarrow> bool" where
  "crossed bids asks = (case (bids, asks) of (b # _, a # _) \<Rightarrow> fst b \<ge> fst a | _ \<Rightarrow> False)"

definition healthy_book :: "pair_id \<Rightarrow> pair \<Rightarrow> depth_book \<Rightarrow> order list \<Rightarrow> order list \<Rightarrow> string \<Rightarrow> nat \<Rightarrow> published" where
  "healthy_book pid p b buys sells type n =
     (let allBids = all_bids b buys; allAsks = all_asks b sells;
          bids = take ORDER_BOOK_DEPTH allBids; asks = take ORDER_BOOK_DEPTH allAsks in
      if crossed bids asks then emptyBook pid ''crossed_book'' n
      else let (buy, maxBid) = withNotionals bids; (sell, maxAsk) = withNotionals asks in
        \<lparr>pu_pair = pid, pu_buy = buy, pu_sell = sell, pu_grouped = grouped_book (p_second p) allBids allAsks,
         pu_max_bid = maxBid, pu_max_ask = maxAsk, pu_type = type, pu_seq = n, pu_healthy = True, pu_reason = None,
         pu_ladder_present = True, pu_update_id = or_zero_val (b_update_id b)\<rparr>)"

text \<open>
  Without the store the resting orders are unknown and the venue's levels are shown alone; with it, a
  book without a single paper row is not shown, whatever the ladder module remembers.
\<close>

definition buildPublishedBook ::
    "(pair_id \<Rightarrow> depth_book option) \<Rightarrow> pair_id \<Rightarrow> pair option option \<Rightarrow> string \<Rightarrow> nat option \<Rightarrow> int \<Rightarrow> venue \<Rightarrow> sequence \<Rightarrow>
     sequence \<times> published" where
  "buildPublishedBook resolve pid pairData type seq now v s =
     (case (case pairData of None \<Rightarrow> cachedPairData pid (exch v) | Some d \<Rightarrow> d) of
        None \<Rightarrow> (s, emptyBook pid ''no_pair'' (case seq of None \<Rightarrow> 0 | Some n \<Rightarrow> n))
      | Some p \<Rightarrow>
          (let book = resolve pid;
               ladder = getLadderState pid now v;
               why = (case assessDepthHealth book (Some p) (Fin (of_int now)) of
                   Some r \<Rightarrow> Some r
                 | None \<Rightarrow> if la_present ladder \<or> la_reason ladder = Some [] then None else la_reason ladder);
               (s1, n) = (case seq of None \<Rightarrow> nextSeq pid s | Some k \<Rightarrow> (s, k)) in
           case why of
             Some r \<Rightarrow> (s1, emptyBook pid r n)
           | None \<Rightarrow>
               (let st = exch v;
                    buys = orders_of (tables st (open_table ''buy'' pid)); sells = orders_of (tables st (open_table ''sell'' pid)) in
                if \<not> online st then (s1, healthy_book pid p (the book) [] [] type n)
                else if countPaperOrders buys + countPaperOrders sells = 0 then (s1, emptyBook pid ''ladder_not_built'' n)
                else (s1, healthy_book pid p (the book) buys sells type n))))"

section \<open>Publishing\<close>

text \<open>
  What is being built for a pair and what has been asked for meanwhile, with the payloads that were
  sent. A build that ends goes straight on to the request that came last while it ran.
\<close>

record publisher =
  sequences :: sequence
  inFlight :: "pair_id \<Rightarrow> string option"
  pendingRepublish :: "pair_id \<Rightarrow> string option"
  emitted :: "published list"

definition publishOrderBook :: "pair_id \<Rightarrow> string \<Rightarrow> publisher \<Rightarrow> publisher" where
  "publishOrderBook pid type s =
     (if inFlight s pid \<noteq> None then s\<lparr>pendingRepublish := (pendingRepublish s)(pid \<mapsto> type)\<rparr>
      else s\<lparr>inFlight := (inFlight s)(pid \<mapsto> type), pendingRepublish := (pendingRepublish s)(pid := None)\<rparr>)"

definition book_built :: "(pair_id \<Rightarrow> depth_book option) \<Rightarrow> pair_id \<Rightarrow> int \<Rightarrow> venue \<Rightarrow> publisher \<Rightarrow> publisher" where
  "book_built resolve pid now v s = (case inFlight s pid of
      None \<Rightarrow> s
    | Some type \<Rightarrow> (case buildPublishedBook resolve pid None type None now v (sequences s) of
        (q, book) \<Rightarrow> s\<lparr>sequences := q, emitted := emitted s @ [book], inFlight := (inFlight s)(pid := pendingRepublish s pid),
          pendingRepublish := (pendingRepublish s)(pid := None)\<rparr>))"

text \<open>A request is taken up at once, or by the build that follows the one in flight.\<close>

lemma request_taken_up:
  "inFlight s pid = None \<Longrightarrow> inFlight (publishOrderBook pid type s) pid = Some type"
  "inFlight s pid \<noteq> None \<Longrightarrow> inFlight (book_built resolve pid now v (publishOrderBook pid type s)) pid = Some type"
  by (auto simp: publishOrderBook_def book_built_def split: prod.split)

section \<open>The snapshot of one pair\<close>

definition legacyBook :: "pair_id \<Rightarrow> depth_row list \<Rightarrow> depth_row list \<Rightarrow> jsnum \<Rightarrow> jsnum \<Rightarrow> string option \<Rightarrow> published" where
  "legacyBook pid buy sell maxBid maxAsk forced =
     (let why = (case forced of Some r \<Rightarrow> Some r | None \<Rightarrow> if buy \<noteq> [] \<and> sell \<noteq> [] then None else Some ''empty_side'') in
      \<lparr>pu_pair = pid, pu_buy = (if why = None then buy else []), pu_sell = (if why = None then sell else []), pu_grouped = [],
       pu_max_bid = (if why = None then maxBid else Fin 0), pu_max_ask = (if why = None then maxAsk else Fin 0),
       pu_type = ''SNAPSHOT'', pu_seq = 0, pu_healthy = (why = None), pu_reason = why, pu_ladder_present = (why = None),
       pu_update_id = JUndef\<rparr>)"

text \<open>The counters of a side, in units of the smallest size, with the running notional.\<close>

fun legacy_rows :: "jsnum \<Rightarrow> (string \<times> int) list \<Rightarrow> jsnum \<Rightarrow> jsnum \<Rightarrow> depth_row list \<times> jsnum" where
  "legacy_rows decimalval [] cumulative most = ([], most)"
| "legacy_rows decimalval ((price_text, units) # es) cumulative most =
     (let p = parse_float_str price_text; q = to_num (of_int units) / decimalval in
      if p > Fin 0 \<and> q > Fin 0
      then let notional = p * q; c = cumulative + notional; (rows, top) = legacy_rows decimalval es c (if c > most then c else most)
        in (\<lparr>d_price = p, d_quantity = q, d_notional = notional, d_cumulative = c\<rparr> # rows, top)
      else legacy_rows decimalval es cumulative most)"

definition legacy_entries :: "(string \<Rightarrow> string list) \<Rightarrow> string \<Rightarrow> spot \<Rightarrow> (string \<times> int) list" where
  "legacy_entries quoted key st = List.map_filter (\<lambda>p. map_option (\<lambda>n. (p, n)) (levels st key p)) (quoted key)"

definition legacy_before :: "string \<Rightarrow> string \<times> int \<Rightarrow> string \<times> int \<Rightarrow> bool" where
  "legacy_before side a b =
     (if side = ''buy'' then number_str (fst b) - number_str (fst a) < Fin 0 else number_str (fst a) - number_str (fst b) < Fin 0)"

definition legacy_side :: "(string \<Rightarrow> string list) \<Rightarrow> pair \<Rightarrow> string \<Rightarrow> spot \<Rightarrow> depth_row list \<times> jsnum" where
  "legacy_side quoted p side st =
     legacy_rows (minTwoDigits (p_first_digits p))
       (sort_before (legacy_before side) (legacy_entries quoted (level_key side (p_id p)) st)) (Fin 0) (Fin 0)"

text \<open>
  The snapshot for one pair: the best prices are written to the pair's document (the second
  component), from a book of the venue only when it has both sides. \<open>quoted\<close> gives the prices that
  have a counter.
\<close>

definition best_price :: "depth_row list \<Rightarrow> jsnum option" where
  "best_price rows = (case rows of [] \<Rightarrow> None | r # _ \<Rightarrow> Some (d_price r))"

definition orderBookData ::
    "(string \<Rightarrow> string list) \<Rightarrow> (pair_id \<Rightarrow> depth_book option) \<Rightarrow> pair_id \<Rightarrow> int \<Rightarrow> venue \<Rightarrow> sequence \<Rightarrow>
     venue \<times> sequence \<times> (jsnum option \<times> jsnum option) option \<times> published" where
  "orderBookData quoted resolve pid now v s = (case FetchpairData (Some pid) (exch v) of (st1, rep) \<Rightarrow>
     (let v1 = v\<lparr>exch := st1\<rparr>; plain = (\<lambda>why. legacyBook pid [] [] (Fin 0) (Fin 0) (Some why)) in
      case rep of
        Done None \<Rightarrow> (v1, s, None, plain ''no_pair'')
      | Done (Some p) \<Rightarrow>
          if p_botstatus p \<noteq> ''bot'' \<and> p_botstatus p \<noteq> ''binance'' then (v1, s, None, plain ''pair_ineligible'')
          else if p_botstatus p = ''binance''
          then (case buildPublishedBook resolve pid (Some (Some p)) ''SNAPSHOT'' None now v1 s of (s1, book) \<Rightarrow>
            (v1, s1, (if pu_healthy book \<and> pu_sell book \<noteq> [] \<and> pu_buy book \<noteq> []
              then Some (best_price (pu_sell book), best_price (pu_buy book)) else None), book))
          else (case (legacy_side quoted p ''buy'' st1, legacy_side quoted p ''sell'' st1) of ((buys, maxBid), (sells, maxAsk)) \<Rightarrow>
            (v1, s, Some (best_price sells, best_price buys), legacyBook pid (take 20 buys) (take 20 sells) maxBid maxAsk None))
      | _ \<Rightarrow> (v1, s, None, plain ''error'')))"

text \<open>Also this book has both sides or none, and says so.\<close>

lemma legacy_both_sides:
  "pu_healthy (legacyBook pid b a mb ma forced) \<longleftrightarrow> forced = None \<and> b \<noteq> [] \<and> a \<noteq> []"
  "\<not> pu_healthy (legacyBook pid b a mb ma forced) \<Longrightarrow> pu_buy (legacyBook pid b a mb ma forced) = [] \<and>
     pu_sell (legacyBook pid b a mb ma forced) = [] \<and> pu_reason (legacyBook pid b a mb ma forced) \<noteq> None"
  by (auto simp: legacyBook_def Let_def split: option.splits if_splits)

section \<open>Sorted sides\<close>

lemma notional_prices: "map d_price (fst (notional_rows c ls)) = map fst ls"
proof (induction ls arbitrary: c)
  case (Cons l ls)
  then show ?case by (cases l) (simp add: notional_rows_step del: notional_rows.simps)
qed simp

definition keys_num :: "book_map \<Rightarrow> bool" where
  "keys_num m \<longleftrightarrow> (\<forall>p \<in> fst ` set m. is_num p)"

lemma keys_num_add: "keys_num m \<Longrightarrow> is_num p \<Longrightarrow> keys_num (add_level p q m)"
  unfolding keys_num_def fst_set_add_level by blast

lemma add_levels_prices: "\<forall>l \<in> set ls. num_val (l_price l) \<Longrightarrow> keys_num m \<Longrightarrow> keys_num (add_levels ls m)"
  by (induction ls arbitrary: m) (auto simp: Let_def num_val_def intro: keys_num_add)

definition clean_levels :: "level list \<Rightarrow> bool" where
  "clean_levels ls \<longleftrightarrow> (\<forall>l \<in> set ls. num_val (l_price l) \<and> num_val (l_quantity l))"

lemma merged_doubles:
  assumes "list_all clean_levels sides"
  shows "mergeBookLevels (map Some sides) \<in> double_prices"
proof -
  have ok: "book_ok (mergeBookLevels (map Some sides))"
    by (rule merge_ok) (use assms in \<open>auto simp: list_all_iff side_ok_def clean_levels_def\<close>)
  have run: "keys_num m \<Longrightarrow> keys_num (fold (\<lambda>side m. case side of None \<Rightarrow> m | Some ls \<Rightarrow> add_levels ls m) (map Some sides) m)" for m
    using assms
  proof (induction sides arbitrary: m)
    case (Cons ls sides)
    have "keys_num (add_levels ls m)" using Cons.prems by (intro add_levels_prices) (auto simp: clean_levels_def)
    from Cons.IH [OF this] Cons.prems(2) show ?case by simp
  qed simp
  have n: "\<forall>p \<in> fst ` set (mergeBookLevels (map Some sides)). is_num p"
    using run [of "[]"] unfolding keys_num_def mergeBookLevels_def by simp
  have "\<exists>x. p = Fin x \<and> is_num p" if "p \<in> fst ` set (mergeBookLevels (map Some sides))" for p
  proof -
    have "positive_finite p" using ok that by (auto simp: book_ok_def well_formed_book_def)
    moreover have "is_num p" using n that by blast
    ultimately show ?thesis by (cases p) (simp_all add: positive_finite_def del: is_num.simps)
  qed
  then show ?thesis unfolding double_prices_def by blast
qed

text \<open>A side sorted by its comparator, in terms of its prices.\<close>

lemma sorted_side:
  assumes "m \<in> double_prices"
  shows "sorted_wrt (\<lambda>a b. \<not> better_price side b a) (sort_before (better_price side) m)"
  by (rule sorted_sort_before [OF better_price_weak [OF assms]]) simp

definition finite_prices :: "book_map \<Rightarrow> bool" where
  "finite_prices m \<longleftrightarrow> (\<forall>pq \<in> set m. \<exists>x. fst pq = Fin x \<and> is_num (fst pq))"

lemma double_finite: "m \<in> double_prices \<Longrightarrow> finite_prices m"
  unfolding double_prices_def finite_prices_def by blast

lemma not_better:
  assumes "fst a = Fin x" "fst b = Fin y" "is_num (Fin x)" "is_num (Fin y)"
  shows "\<not> better_price ''bid'' b a \<longleftrightarrow> y \<le> x" and "\<not> better_price ''ask'' b a \<longleftrightarrow> x \<le> y"
  using assms minus_less_0 [of x y] minus_less_0 [of y x] by (auto simp: better_price_def)

text \<open>When the best prices of two sorted sides do not cross, no two of their prices do.\<close>

lemma uncrossed:
  assumes "finite_prices bids" "finite_prices asks" "\<not> crossed bids asks"
    and "sorted_wrt (\<lambda>a b. \<not> better_price ''bid'' b a) bids" "sorted_wrt (\<lambda>a b. \<not> better_price ''ask'' b a) asks"
    and "b \<in> set bids" "a \<in> set asks"
  shows "fst b < fst a"
proof -
  obtain b0 bs a0 as where h: "bids = b0 # bs" "asks = a0 # as" using assms(6,7) by (cases bids; cases asks) auto
  obtain x x0 y y0 where n: "fst b = Fin x" "fst b0 = Fin x0" "fst a = Fin y" "fst a0 = Fin y0"
      "is_num (Fin x)" "is_num (Fin x0)" "is_num (Fin y)" "is_num (Fin y0)"
    using assms(1,2,6,7) h unfolding finite_prices_def by (metis list.set_intros(1))
  have "x \<le> x0"
    using assms(4,6) h not_better(1) [OF n(2,1,6,5)] n(1,2) by (cases "b = b0") auto
  moreover have "y0 \<le> y"
    using assms(5,7) h not_better(2) [OF n(4,3,8,7)] n(3,4) by (cases "a = a0") auto
  moreover have "x0 < y0" using assms(3) h n by (simp add: crossed_def)
  ultimately show ?thesis by (simp add: n)
qed

lemma take_sorted: "sorted_wrt P xs \<Longrightarrow> sorted_wrt P (take n xs)"
  by (metis append_take_drop_id sorted_wrt_append)

lemma take_finite: "finite_prices m \<Longrightarrow> finite_prices (take n m)"
  by (auto simp: finite_prices_def dest: in_set_takeD)

section \<open>The book that is shown\<close>

text \<open>An absent ladder says why.\<close>

definition ladder_explained :: "ladder \<Rightarrow> bool" where
  "ladder_explained l \<longleftrightarrow> la_present l \<or> (\<exists>r. la_reason l = Some r \<and> r \<noteq> [])"

definition ladders_explained :: "venue \<Rightarrow> bool" where
  "ladders_explained v \<longleftrightarrow> (\<forall>pid l. ladderState v pid = Some l \<longrightarrow> ladder_explained l)"

lemma no_capacity_explained [simp]: "ladder_explained (NO_CAPACITY why t) \<longleftrightarrow> why \<noteq> []"
  by (auto simp: ladder_explained_def NO_CAPACITY_def)

lemma shown_explained: "ladders_explained v \<Longrightarrow> ladder_explained (getLadderState pid now v)"
  by (auto simp: getLadderState_def ladders_explained_def split: option.splits if_splits)

lemma record_explained: "ladders_explained v \<Longrightarrow> ladder_explained l \<Longrightarrow> ladders_explained (recordLadder pid l v)"
  by (simp add: ladders_explained_def recordLadder_def)

lemma purge_explained: "ladders_explained v \<Longrightarrow> why \<noteq> [] \<Longrightarrow> ladders_explained (fst (purgePaperBook pid why v))"
  by (auto simp: ladders_explained_def purgePaperBook_def recordLadder_def Let_def)

lemma measured_explained: "ladder_explained (measured bs ss t)"
  by (auto simp: measured_def ladder_explained_def Let_def split: prod.split)

lemma assess_reason: "assessDepthHealth b pd t = Some why \<Longrightarrow> why \<noteq> []"
  by (auto simp: assessDepthHealth_def Let_def split: option.splits list.splits if_splits)

text \<open>The synchronisation of the ladder keeps that.\<close>

lemma sync_explained:
  assumes "ladders_explained v"
  shows "ladders_explained (fst (syncPaperBook draw resolve pd v))"
proof -
  define w where "w = sweepOrphanLadders (map_option p_id pd) (clock (exch v)) v"
  have "ladders_explained u \<Longrightarrow> ladders_explained (sweep skip now rest u)" for skip now rest u
    by (induction skip now rest u rule: sweep.induct) (simp_all add: purge_explained)
  then have w: "ladders_explained w" using assms by (simp add: w_def sweepOrphanLadders_def)
  have drop: "why \<noteq> [] \<Longrightarrow> ladders_explained (fst (dropLadder pid why w))" for pid why
    using w by (auto simp: dropLadder_def purge_explained record_explained)
  have "ladders_explained (fst (sync_failed pid w))" for pid
    using w by (auto simp: sync_failed_def intro!: purge_explained record_explained)
  moreover have "ladders_explained (fst (refresh draw p b a w))" for p b a
    using w by (auto simp: refresh_def Let_def intro!: record_explained measured_explained) (simp add: ladders_explained_def)
  ultimately show ?thesis
    using w drop assess_reason
    by (auto simp: syncPaperBook_def sync_swept_def w_def [symmetric] split: option.split reply.split)
qed

definition shown_pair :: "pair_id \<Rightarrow> pair option option \<Rightarrow> spot \<Rightarrow> pair option" where
  "shown_pair pid pd st = (case pd of None \<Rightarrow> cachedPairData pid st | Some d \<Rightarrow> d)"

definition no_levels :: "published \<Rightarrow> bool" where
  "no_levels b \<longleftrightarrow> pu_buy b = [] \<and> pu_sell b = [] \<and> pu_grouped b = [] \<and> pu_reason b \<noteq> None \<and> \<not> pu_ladder_present b"

lemma emptyBook_sel [simp]: "no_levels (emptyBook pid why n)" "\<not> pu_healthy (emptyBook pid why n)"
  by (simp_all add: emptyBook_def no_levels_def)

definition tradable :: "depth_book option \<Rightarrow> pair option \<Rightarrow> pair_id \<Rightarrow> int \<Rightarrow> venue \<Rightarrow> bool" where
  "tradable book p pid now v \<longleftrightarrow> p \<noteq> None \<and> assessDepthHealth book p (Fin (of_int now)) = None \<and> la_present (getLadderState pid now v) \<and>
     (online (exch v) \<longrightarrow> 0 < countPaperOrders (orders_of (tables (exch v) (open_table ''buy'' pid))) +
        countPaperOrders (orders_of (tables (exch v) (open_table ''sell'' pid))))"

definition clean_book :: "depth_book option \<Rightarrow> bool" where
  "clean_book book \<longleftrightarrow> (case book of None \<Rightarrow> True | Some b \<Rightarrow>
     clean_levels (case b_bids b of None \<Rightarrow> [] | Some ls \<Rightarrow> ls) \<and> clean_levels (case b_asks b of None \<Rightarrow> [] | Some ls \<Rightarrow> ls))"

definition clean_orders :: "order list \<Rightarrow> bool" where
  "clean_orders os \<longleftrightarrow> (\<forall>o1 \<in> set os. num_val (o_price o1) \<and> num_val (o_quantity o1))"

lemma user_levels_clean:
  assumes "clean_orders os"
  shows "clean_levels (map level_of (filter P (bookLevels os)))"
proof -
  have q: "book_ok (bookLevels os)"
    unfolding bookLevels_def by (rule add_orders_ok) (use assms in \<open>simp_all add: clean_orders_def\<close>)
  have "fst ` set (bookLevels os) = parse_float ` o_price ` set (filter rests os)"
    using add_orders_prices [of os "[]"] by (simp add: bookLevels_def)
  then have "is_num (fst pq)" if "pq \<in> set (bookLevels os)" for pq
    using that assms by (force simp: clean_orders_def num_val_def)
  then show ?thesis
    using q by (auto simp: clean_levels_def level_of_def num_val_def book_ok_def)
qed

lemma sides_sorted:
  assumes "clean_levels (case b_bids b of None \<Rightarrow> [] | Some ls \<Rightarrow> ls)" "clean_levels (case b_asks b of None \<Rightarrow> [] | Some ls \<Rightarrow> ls)"
    and "clean_orders os"
  shows "finite_prices (all_bids b os)" "sorted_wrt (\<lambda>x y. \<not> better_price ''bid'' y x) (all_bids b os)"
    and "finite_prices (all_asks b os)" "sorted_wrt (\<lambda>x y. \<not> better_price ''ask'' y x) (all_asks b os)"
proof -
  have drop: "mergeBookLevels [side, Some us] = mergeBookLevels (map Some [case side of None \<Rightarrow> [] | Some ls \<Rightarrow> ls, us])" for side us
    by (simp add: mergeBookLevels_def split: option.split)
  have b: "mergeBookLevels [b_bids b, Some (map level_of (filter P (bookLevels os)))] \<in> double_prices" for P
    unfolding drop by (rule merged_doubles) (use assms(1,3) user_levels_clean in simp)
  have a: "mergeBookLevels [b_asks b, Some (map level_of (filter P (bookLevels os)))] \<in> double_prices" for P
    unfolding drop by (rule merged_doubles) (use assms(2,3) user_levels_clean in simp)
  show "finite_prices (all_bids b os)" "finite_prices (all_asks b os)"
    using double_finite [OF b] double_finite [OF a] by (simp_all add: all_bids_def all_asks_def finite_prices_def)
  show "sorted_wrt (\<lambda>x y. \<not> better_price ''bid'' y x) (all_bids b os)"
    unfolding all_bids_def Let_def by (rule sorted_side [OF b])
  show "sorted_wrt (\<lambda>x y. \<not> better_price ''ask'' y x) (all_asks b os)"
    unfolding all_asks_def Let_def by (rule sorted_side [OF a])
qed

definition uncrossed_book :: "published \<Rightarrow> bool" where
  "uncrossed_book b \<longleftrightarrow> length (pu_buy b) \<le> ORDER_BOOK_DEPTH \<and> length (pu_sell b) \<le> ORDER_BOOK_DEPTH \<and>
     (\<forall>x \<in> set (pu_buy b). \<forall>y \<in> set (pu_sell b). d_price x < d_price y)"

lemma healthy_book_cases:
  assumes "clean_book (Some b)" "clean_orders buys" "clean_orders sells"
  shows "uncrossed_book (healthy_book pid p b buys sells type n) \<and>
    (pu_healthy (healthy_book pid p b buys sells type n) \<or> no_levels (healthy_book pid p b buys sells type n))"
proof -
  define bids asks where "bids = take ORDER_BOOK_DEPTH (all_bids b buys)" and "asks = take ORDER_BOOK_DEPTH (all_asks b sells)"
  have c: "clean_levels (case b_bids b of None \<Rightarrow> [] | Some ls \<Rightarrow> ls)" "clean_levels (case b_asks b of None \<Rightarrow> [] | Some ls \<Rightarrow> ls)"
    using assms(1) by (simp_all add: clean_book_def)
  note sb = sides_sorted(1,2) [OF c assms(2)] and sa = sides_sorted(3,4) [OF c assms(3)]
  show ?thesis
  proof (cases "crossed bids asks")
    case True
    then have "healthy_book pid p b buys sells type n = emptyBook pid ''crossed_book'' n"
      by (simp add: healthy_book_def bids_def asks_def)
    then show ?thesis by (simp add: uncrossed_book_def) (simp add: emptyBook_def)
  next
    case False
    then have h: "pu_buy (healthy_book pid p b buys sells type n) = fst (notional_rows (Fin 0) bids)"
      "pu_sell (healthy_book pid p b buys sells type n) = fst (notional_rows (Fin 0) asks)"
      "pu_healthy (healthy_book pid p b buys sells type n)"
      by (simp_all add: healthy_book_def Let_def bids_def asks_def withNotionals_def split: prod.split)
    have "d_price x < d_price y" if "x \<in> set (fst (notional_rows (Fin 0) bids))" "y \<in> set (fst (notional_rows (Fin 0) asks))" for x y
    proof -
      have "d_price x \<in> fst ` set bids" "d_price y \<in> fst ` set asks"
        using that notional_prices [of "Fin 0" bids] notional_prices [of "Fin 0" asks] by (metis image_eqI list.set_map)+
      then obtain i j where "i \<in> set bids" "j \<in> set asks" "d_price x = fst i" "d_price y = fst j" by blast
      then show ?thesis
        using uncrossed [OF _ _ False, of i j] sb sa by (simp add: bids_def asks_def take_finite take_sorted)
    qed
    then show ?thesis using h notional_rows_length by (simp add: uncrossed_book_def bids_def asks_def)
  qed
qed

text \<open>What a build comes to: an empty book, or the book of a tradable pair.\<close>

lemma build_cases:
  assumes "buildPublishedBook resolve pid pd type seq now v s = (s', book)" and "ladders_explained v"
  shows "(\<exists>why n. book = emptyBook pid why n) \<or>
    (\<exists>p b n. resolve pid = Some b \<and> tradable (resolve pid) (shown_pair pid pd (exch v)) pid now v \<and>
      (book = healthy_book pid p b [] [] type n \<or>
       book = healthy_book pid p b (orders_of (tables (exch v) (open_table ''buy'' pid)))
         (orders_of (tables (exch v) (open_table ''sell'' pid))) type n))"
proof (cases "shown_pair pid pd (exch v)")
  case None
  then show ?thesis using assms(1) by (auto simp: buildPublishedBook_def shown_pair_def)
next
  case (Some p)
  define n where "n = (case seq of None \<Rightarrow> s pid + 1 | Some k \<Rightarrow> k)"
  note build = assms(1) Some
  note open_build = buildPublishedBook_def shown_pair_def Let_def nextSeq_def n_def
  show ?thesis
  proof (cases "assessDepthHealth (resolve pid) (Some p) (Fin (of_int now))")
    case (Some r)
    then have "book = emptyBook pid r n" using build by (auto simp: open_build split: option.splits if_splits)
    then show ?thesis by blast
  next
    case None
    then obtain b where b: "resolve pid = Some b" by (cases "resolve pid") (auto simp: assessDepthHealth_def)
    show ?thesis
    proof (cases "la_present (getLadderState pid now v)")
      case False
      then obtain r where "la_reason (getLadderState pid now v) = Some r" "r \<noteq> []"
        using shown_explained [OF assms(2)] by (auto simp: ladder_explained_def)
      then have "book = emptyBook pid r n" using build None False by (auto simp: open_build split: option.splits if_splits)
      then show ?thesis by blast
    next
      case True
      let ?buys = "orders_of (tables (exch v) (open_table ''buy'' pid))" and ?sells = "orders_of (tables (exch v) (open_table ''sell'' pid))"
      have book: "book = (if \<not> online (exch v) then healthy_book pid p b [] [] type n
          else if countPaperOrders ?buys + countPaperOrders ?sells = 0 then emptyBook pid ''ladder_not_built'' n
          else healthy_book pid p b ?buys ?sells type n)"
        using build None True b by (auto simp: open_build split: option.splits if_splits)
      have "tradable (resolve pid) (shown_pair pid pd (exch v)) pid now v"
        if "online (exch v) \<Longrightarrow> countPaperOrders ?buys + countPaperOrders ?sells \<noteq> 0"
        using that None True build(2) by (auto simp: tradable_def)
      then show ?thesis using book b by (simp split: if_splits) blast+
    qed
  qed
qed

section \<open>Properties\<close>

text \<open>C20: The published book is never healthier than the exchange: a book that is shown as healthy belongs to a pair whose
  depth is fresh and uncrossed and whose ladder is present, with a paper row in the tables whenever the store answers;
  every other book has no level and gives a reason. No bid of a published book is at or above an ask, at any
  level, and no side is longer than twenty rows.\<close>

theorem published_book_is_honest:
  assumes "buildPublishedBook resolve pid pd type seq now v s = (s', book)"
    and "ladders_explained v" and "clean_book (resolve pid)"
    and "clean_orders (orders_of (tables (exch v) (open_table ''buy'' pid)))"
    and "clean_orders (orders_of (tables (exch v) (open_table ''sell'' pid)))"
  shows "(pu_healthy book \<and> tradable (resolve pid) (shown_pair pid pd (exch v)) pid now v \<or> \<not> pu_healthy book \<and> no_levels book) \<and>
    uncrossed_book book"
proof -
  have e: "uncrossed_book (emptyBook i why n)" for i why n by (simp add: uncrossed_book_def emptyBook_def)
  have h: "uncrossed_book (healthy_book pid p b us ws type n) \<and>
      (pu_healthy (healthy_book pid p b us ws type n) \<or> \<not> pu_healthy (healthy_book pid p b us ws type n) \<and>
        no_levels (healthy_book pid p b us ws type n))"
    if "resolve pid = Some b" "clean_orders us" "clean_orders ws" for p b us ws n
    using healthy_book_cases [of b us ws pid p type n] that assms(3) by auto
  have off: "clean_orders []" by (simp add: clean_orders_def)
  from build_cases [OF assms(1,2)] consider why n where "book = emptyBook pid why n"
    | p b n us ws where "resolve pid = Some b" "tradable (resolve pid) (shown_pair pid pd (exch v)) pid now v"
        "book = healthy_book pid p b us ws type n" "clean_orders us" "clean_orders ws"
    using off assms(4,5) by blast
  then show ?thesis
  proof cases
    case 1
    then show ?thesis by (simp add: e)
  next
    case (2 p b n us ws)
    then show ?thesis using h [OF 2(1,4,5), of p n] by (auto simp: 2(3))
  qed
qed

definition shown_venue :: venue where
  "shown_venue = deep_venue\<lparr>exch := hset_order (open_table ''sell'' ''p'') ''o2'' (sample_order\<lparr>o_is_paper := True, o_price := JNum (Fin 11)\<rparr>)
     (exch deep_venue)\<rparr>"

theorem published_book_is_honest_witness:
  "uncrossed_book (snd (buildPublishedBook (\<lambda>_. Some deep_book) ''p'' (Some (Some paper_pair)) ''DELTA'' None 0 shown_venue (\<lambda>_. 0)))"
proof -
  let ?b = "buildPublishedBook (\<lambda>_. Some deep_book) ''p'' (Some (Some paper_pair)) ''DELTA'' None 0 shown_venue (\<lambda>_. 0)"
  have b: "?b = (fst ?b, snd ?b)" by simp
  have l: "ladders_explained shown_venue"
    by (auto simp: ladders_explained_def shown_venue_def deep_venue_def deep_ladder_def ladder_explained_def split: if_splits)
  have c: "clean_book (Some deep_book)" by code_simp
  have n: "num_val (JNum (Fin 5))" "num_val (JNum (Fin 2))" "num_val (JNum (Fin 11))" by code_simp+
  have o: "clean_orders (orders_of (tables (exch shown_venue) (open_table ''buy'' ''p'')))"
    "clean_orders (orders_of (tables (exch shown_venue) (open_table ''sell'' ''p'')))"
    using n by (simp_all add: clean_orders_def shown_venue_def deep_venue_def quiet_venue_def orders_of_def List.map_filter_def sample_order_def json_order_def)
  show ?thesis using published_book_is_honest [OF b l c o] by blast
qed

end
