(* ===== verification/FillCanary.thy ===== *)
theory FillCanary
  imports PublishedBook Accounting
begin

text \<open>
  The self-test of the spot service (\<^verbatim>\<open>cryptodex-spotapi/controllers/fillCanary.js\<close>): every few minutes, and when
  the health endpoint is asked, each pair is judged by its depth, its ladder and a dry run of a small
  market order, and a failure is written to the log at a limited rate. It reads the book and changes
  nothing but its own counters. The depth it resolves, the state of its streams, the newest trade and whether the database
  answers are arguments; texts of remedies are named by their verdict, and durations inside one run are zero.
\<close>

section \<open>Constants\<close>

definition PROBE_NOTIONAL :: jsnum where
  "PROBE_NOTIONAL = Fin 10"

definition REPEAT_LOG_MS :: int where
  "REPEAT_LOG_MS = 600000"

definition HEALTH_CACHE_MS :: int where
  "HEALTH_CACHE_MS = 2000"

definition LAST_FILL_CACHE_MS :: int where
  "LAST_FILL_CACHE_MS = 30000"

definition ORDER_BACKDATE_MS :: int where
  "ORDER_BACKDATE_MS = 60000"

definition REMEDY :: "string list" where
  "REMEDY = [''no_pairs'', ''no_depth'', ''stale_depth'', ''empty_side'', ''crossed_book'', ''price_deviation'', ''no_ladder'',
     ''pair_ineligible'', ''ladder_not_built'', ''ladder_stale'', ''ladder_orphaned'', ''error'', ''no_pair'', ''one_sided_ladder'',
     ''matcher_stalled'', ''insufficient_liquidity'', ''no_admin_liquidity'', ''canary_error'']"

section \<open>When a row was written\<close>

definition lower_hex :: "char \<Rightarrow> bool" where
  "lower_hex c \<longleftrightarrow> c \<in> set ''0123456789abcdef''"

definition hex_digit :: "char \<Rightarrow> int" where
  "hex_digit c = (let n = of_char c :: int in if n \<le> 57 then n - 48 else n - 87)"

definition hex_value :: "string \<Rightarrow> int" where
  "hex_value s = foldl (\<lambda>n c. 16 * n + hex_digit c) 0 s"

text \<open>The first four bytes of an id are its second; a row of the ladder is dated back by a minute.\<close>

definition ladderWrittenAt :: "order \<Rightarrow> int" where
  "ladderWrittenAt o1 =
     (let s = take 8 (o_id o1);
          ts = (if length s = 8 \<and> list_all lower_hex s \<and> hex_value s > 0 then hex_value s * 1000 else 0)
      in case o_date o1 of None \<Rightarrow> ts | Some since \<Rightarrow> max ts (since + ORDER_BACKDATE_MS))"

section \<open>The dry run\<close>

record simulation =
  si_fillable :: bool
  si_probe :: jsnum
  si_quantity :: jsnum
  si_notional :: jsnum
  si_average :: jsnum
  si_best :: "jsnum option"
  si_consumed :: nat
  si_levels :: nat
  si_available :: jsnum

text \<open>Rows of the book carry a side and a status.\<close>

definition usable_for :: "string \<Rightarrow> order \<Rightarrow> bool" where
  "usable_for wantSide o1 \<longleftrightarrow>
     o_side o1 = wantSide \<and> o_status o1 = ''open'' \<and> to_number (o_price o1) > Fin 0 \<and> to_number (o_quantity o1) > Fin 0"

definition probe_first :: "string \<Rightarrow> order \<Rightarrow> order \<Rightarrow> bool" where
  "probe_first probeSide a b =
     (if probeSide = ''buy'' then to_number (o_price a) - to_number (o_price b) < Fin 0
      else to_number (o_price b) - to_number (o_price a) < Fin 0)"

record walk =
  wk_remaining :: jsnum
  wk_quantity :: jsnum
  wk_notional :: jsnum
  wk_consumed :: nat
  wk_available :: jsnum

definition walk_step :: "order \<Rightarrow> walk \<Rightarrow> walk" where
  "walk_step o1 w =
     (let p = to_number (o_price o1); open_size = to_number (o_quantity o1);
          w1 = w\<lparr>wk_available := wk_available w + p * open_size\<rparr> in
      if wk_remaining w \<le> Fin 0 then w1
      else let takeQty = js_min open_size (wk_remaining w / p); takeNotional = takeQty * p in
        w1\<lparr>wk_quantity := wk_quantity w + takeQty, wk_notional := wk_notional w + takeNotional,
           wk_remaining := wk_remaining w - takeNotional, wk_consumed := wk_consumed w + 1\<rparr>)"

definition usable_orders :: "order list \<Rightarrow> string \<Rightarrow> order list" where
  "usable_orders restingOrders probeSide =
     sort_before (probe_first probeSide) (filter (usable_for (if probeSide = ''buy'' then ''sell'' else ''buy'')) restingOrders)"

definition eight :: "jsnum \<Rightarrow> jsnum" where
  "eight x = number_str (to_fixed_str x 8)"

definition walked :: "order list \<Rightarrow> jsnum \<Rightarrow> walk" where
  "walked usable probeNotional = fold walk_step usable
     \<lparr>wk_remaining = probeNotional, wk_quantity = Fin 0, wk_notional = Fin 0, wk_consumed = 0, wk_available = Fin 0\<rparr>"

definition simulateMarketFill :: "order list \<Rightarrow> string \<Rightarrow> jsnum \<Rightarrow> simulation" where
  "simulateMarketFill restingOrders probeSide probeNotional =
     (let usable = usable_orders restingOrders probeSide;
          w = walked usable probeNotional
      in \<lparr>si_fillable = (probeNotional > Fin 0 \<and> wk_notional w + to_num (1 / 10 ^ 9) \<ge> probeNotional),
          si_probe = probeNotional, si_quantity = eight (wk_quantity w), si_notional = eight (wk_notional w),
          si_average = (if wk_quantity w > Fin 0 then eight (wk_notional w / wk_quantity w) else Fin 0),
          si_best = (case usable of [] \<Rightarrow> None | o1 # _ \<Rightarrow> Some (to_number (o_price o1))),
          si_consumed = wk_consumed w, si_levels = length usable, si_available = eight (wk_available w)\<rparr>)"

section \<open>Verdicts\<close>

record depth_view =
  dv_verdict :: string
  dv_source :: string
  dv_age :: "jsnum option"
  dv_best_bid :: "jsnum option"
  dv_best_ask :: "jsnum option"
  dv_bids :: nat
  dv_asks :: nat

definition side_of :: "level list option \<Rightarrow> level list" where
  "side_of s = (case s of None \<Rightarrow> [] | Some ls \<Rightarrow> ls)"

definition best_of :: "level list \<Rightarrow> jsnum option" where
  "best_of ls = (case ls of [] \<Rightarrow> None | l # _ \<Rightarrow> Some (to_number (l_price l)))"

definition evaluateDepth :: "(depth_book \<times> string) option \<Rightarrow> pair \<Rightarrow> int \<Rightarrow> depth_view" where
  "evaluateDepth found pairData now =
     (let book = map_option fst found; why = assessDepthHealth book (Some pairData) (Fin (of_int now)) in
      case found of
        None \<Rightarrow> \<lparr>dv_verdict = (case why of None \<Rightarrow> [] | Some r \<Rightarrow> r), dv_source = ''none'', dv_age = None,
                 dv_best_bid = None, dv_best_ask = None, dv_bids = 0, dv_asks = 0\<rparr>
      | Some (b, source) \<Rightarrow>
          \<lparr>dv_verdict = (case why of None \<Rightarrow> ''ok'' | Some r \<Rightarrow> r), dv_source = (if source = [] then ''none'' else source),
           dv_age = Some (depthAgeMs book (Fin (of_int now))), dv_best_bid = best_of (side_of (b_bids b)),
           dv_best_ask = best_of (side_of (b_asks b)), dv_bids = length (side_of (b_bids b)), dv_asks = length (side_of (b_asks b))\<rparr>)"

definition ladderVerdict :: "ladder \<Rightarrow> string" where
  "ladderVerdict s = (case la_reason s of
      None \<Rightarrow> ''no_ladder''
    | Some why \<Rightarrow> if why = [] \<or> la_at s = 0 then ''no_ladder'' else if why \<in> set REMEDY then why else ''no_ladder'')"

record ladder_view =
  lv_buy :: nat
  lv_sell :: nat
  lv_age :: "int option"
  lv_stalled :: "bool option"
  lv_claimed :: bool
  lv_reason :: "string option"
  lv_users :: nat

record pair_report =
  pr_pair :: pair_id
  pr_symbol :: string
  pr_ok :: bool
  pr_verdict :: string
  pr_depth :: depth_view
  pr_ladder :: "ladder_view option"
  pr_buy :: "simulation option"
  pr_sell :: "simulation option"

definition summarise :: "pair_report list \<Rightarrow> string \<times> string" where
  "summarise ps =
     (if ps = [] then (''unhealthy'', ''no_pairs'')
      else case filter (\<lambda>p. \<not> pr_ok p) ps of
        [] \<Rightarrow> (''healthy'', ''ok'')
      | f # fs \<Rightarrow> (if length (f # fs) = length ps then ''unhealthy'' else ''degraded'', pr_verdict f))"

section \<open>Reading the store\<close>

definition readSide :: "pair_id \<Rightarrow> string \<Rightarrow> spot \<Rightarrow> order list" where
  "readSide pairId side st = (if \<not> online st then [] else orders_of (tables st (open_table side pairId)))"

definition eligible :: "pair list \<Rightarrow> pair list" where
  "eligible ps = filter (\<lambda>p. isPaperEligible (Some p)) ps"

definition listEligiblePairs :: "bool \<Rightarrow> spot \<Rightarrow> pair list" where
  "listEligiblePairs db_up st =
     (let cached = (if \<not> online st then [] else
            eligible (List.map_filter (\<lambda>(_, r). case r of Row p \<Rightarrow> Some p | Garbled \<Rightarrow> None) (pairs st))) in
      if cached \<noteq> [] then cached
      else if \<not> db_up then [] else eligible (filter (\<lambda>p. p_botstatus p = ''binance'') (map snd (pair_docs st))))"

record last_fill =
  lf_at :: "int option"
  lf_age :: "int option"
  lf_pair :: "string option"

record fill_cache =
  fc_at :: int
  fc_value :: "last_fill option"

text \<open>The newest trade: the time it carries, if any, and its pair; None when the query fails.\<close>

definition readLastFill :: "(int option \<times> string) option option \<Rightarrow> int \<Rightarrow> fill_cache \<Rightarrow> fill_cache" where
  "readLastFill found now c =
     (if fc_at c \<noteq> 0 \<and> now - fc_at c < LAST_FILL_CACHE_MS then c
      else \<lparr>fc_at = now, fc_value = Some (case found of
          Some (Some (when, name)) \<Rightarrow>
            (let t = (case when of Some m \<Rightarrow> if m = 0 then None else Some m | None \<Rightarrow> None) in
             \<lparr>lf_at = t, lf_age = map_option (\<lambda>m. now - m) t, lf_pair = (if name = [] then None else Some name)\<rparr>)
        | _ \<Rightarrow> \<lparr>lf_at = None, lf_age = None, lf_pair = None\<rparr>)\<rparr>)"

section \<open>One pair\<close>

record canary_env =
  ce_resolve :: "pair_id \<Rightarrow> (depth_book \<times> string) option"
  ce_name :: "pair_id \<Rightarrow> string"
  ce_db_up :: bool
  ce_last :: "(int option \<times> string) option option"

definition written_at :: "order list \<Rightarrow> int" where
  "written_at os = fold (\<lambda>o1 t. max t (ladderWrittenAt o1)) os 0"

definition judge_ladder :: "nat \<Rightarrow> nat \<Rightarrow> int option \<Rightarrow> ladder \<Rightarrow> string option" where
  "judge_ladder buys sells age s =
     (if buys = 0 \<and> sells = 0 then Some (ladderVerdict s)
      else if (case age of None \<Rightarrow> False | Some a \<Rightarrow> a > LADDER_STALE_MS) then Some ''matcher_stalled''
      else if buys = 0 \<or> sells = 0 then Some ''one_sided_ladder'' else None)"

definition evaluatePair :: "canary_env \<Rightarrow> venue \<Rightarrow> int \<Rightarrow> pair \<Rightarrow> pair_report" where
  "evaluatePair ce v now p =
     (let pairId = p_id p;
          d = evaluateDepth (ce_resolve ce pairId) p now;
          blank = \<lparr>pr_pair = pairId,
            pr_symbol = (if ce_name ce pairId = [] then p_first p @ p_second p else ce_name ce pairId), pr_ok = False,
            pr_verdict = dv_verdict d, pr_depth = d, pr_ladder = None, pr_buy = None, pr_sell = None\<rparr> in
      if dv_verdict d \<noteq> ''ok'' then blank
      else let buySide = readSide pairId ''buy'' (exch v); sellSide = readSide pairId ''sell'' (exch v);
          paperBuy = filter o_is_paper buySide; paperSell = filter o_is_paper sellSide;
          writtenAt = written_at (paperBuy @ paperSell);
          age = (if writtenAt = 0 then None else Some (now - writtenAt));
          s = getLadderState pairId now v;
          r = blank\<lparr>pr_ladder := Some \<lparr>lv_buy = length paperBuy, lv_sell = length paperSell, lv_age = age,
            lv_stalled = map_option (\<lambda>a. a > LADDER_STALE_MS) age, lv_claimed = la_present s,
            lv_reason = (case la_reason s of Some why \<Rightarrow> if why = [] then None else Some why | None \<Rightarrow> None),
            lv_users = length buySide - length paperBuy + (length sellSide - length paperSell)\<rparr>\<rparr> in
      case judge_ladder (length paperBuy) (length paperSell) age s of
        Some why \<Rightarrow> r\<lparr>pr_verdict := why\<rparr>
      | None \<Rightarrow>
          (let buyProbe = simulateMarketFill sellSide ''buy'' PROBE_NOTIONAL;
               sellProbe = simulateMarketFill buySide ''sell'' PROBE_NOTIONAL;
               r1 = r\<lparr>pr_buy := Some buyProbe, pr_sell := Some sellProbe\<rparr> in
           if \<not> si_fillable buyProbe \<or> \<not> si_fillable sellProbe then r1\<lparr>pr_verdict := ''insufficient_liquidity''\<rparr>
           else r1\<lparr>pr_ok := True, pr_verdict := ''ok''\<rparr>))"

section \<open>The feed of the depth\<close>

record stream =
  sm_pair :: pair_id
  sm_connected :: bool
  sm_reconnecting :: bool
  sm_update_id :: nat
  sm_buffered :: nat
  sm_silent :: int
  sm_protocol_silent :: int
  sm_age :: "int option"

definition readDepthStreams :: "stream list \<Rightarrow> stream list" where
  "readDepthStreams feed = map (\<lambda>s. s\<lparr>sm_silent := max 0 (sm_silent s), sm_protocol_silent := max 0 (sm_protocol_silent s),
     sm_age := map_option (max 0) (sm_age s)\<rparr>) feed"

record stream_summary =
  ss_total :: nat
  ss_connected :: nat
  ss_reconnecting :: nat
  ss_desynced :: nat
  ss_buffered :: nat
  ss_max_silent :: int
  ss_all :: bool

definition summariseStreams :: "stream list \<Rightarrow> stream_summary option" where
  "summariseStreams feed =
     (if feed = [] then None
      else let connected = length (filter sm_connected feed) in
        Some \<lparr>ss_total = length feed, ss_connected = connected, ss_reconnecting = length (filter sm_reconnecting feed),
              ss_desynced = length (filter (\<lambda>s. sm_update_id s = 0) feed), ss_buffered = sum_list (map sm_buffered feed),
              ss_max_silent = fold (\<lambda>s m. max m (sm_silent s)) feed 0, ss_all = (connected = length feed)\<rparr>)"

section \<open>All pairs\<close>

record snapshot =
  sn_status :: string
  sn_verdict :: string
  sn_checked :: int
  sn_running :: bool
  sn_ladder_age :: "int option"
  sn_feed :: "stream_summary option"
  sn_streams :: "stream list"
  sn_last_fill :: "last_fill option"
  sn_pairs :: "pair_report list"

text \<open>What the module keeps: the counters of the self-test, the last snapshot, the last fill and the failures written to the log.\<close>

record log_entry =
  le_ok :: bool
  le_reason :: string
  le_first :: int
  le_logged :: int
  le_count :: nat

type_synonym log_state = "string \<Rightarrow> log_entry option"

record canary =
  cn_enabled :: bool
  cn_timer :: bool
  cn_runs :: nat
  cn_last_run :: "int option"
  cn_last_ok :: "int option"
  cn_verdict :: "string option"
  cn_message :: "string option"
  cn_failures :: nat
  cn_snapshot :: "snapshot option"
  cn_cached_at :: int
  cn_fill :: fill_cache
  cn_log :: log_state

definition ladder_age :: "pair_report \<Rightarrow> int option" where
  "ladder_age p = (case pr_ladder p of None \<Rightarrow> None | Some l \<Rightarrow> lv_age l)"

definition proves_running :: "pair_report \<Rightarrow> bool" where
  "proves_running p = (case pr_ladder p of None \<Rightarrow> False | Some l \<Rightarrow> lv_age l \<noteq> None \<and> lv_stalled l \<noteq> Some True)"

definition least_age :: "pair_report \<Rightarrow> int option \<Rightarrow> int option" where
  "least_age p m = (case ladder_age p of None \<Rightarrow> m | Some a \<Rightarrow> (case m of None \<Rightarrow> Some a | Some b \<Rightarrow> Some (min b a)))"

definition evaluateAll :: "canary_env \<Rightarrow> stream list \<Rightarrow> venue \<Rightarrow> canary \<Rightarrow> canary \<times> snapshot" where
  "evaluateAll ce feed v cn =
     (let now = clock (exch v);
          ps = map (evaluatePair ce v now) (listEligiblePairs (ce_db_up ce) (exch v));
          rollup = summarise ps;
          fill1 = readLastFill (ce_last ce) now (cn_fill cn);
          ss = readDepthStreams feed;
          shot = \<lparr>sn_status = fst rollup, sn_verdict = snd rollup, sn_checked = now, sn_running = list_ex proves_running ps,
            sn_ladder_age = fold least_age ps None, sn_feed = summariseStreams ss, sn_streams = ss,
            sn_last_fill = fc_value fill1, sn_pairs = ps\<rparr>
      in (cn\<lparr>cn_fill := fill1, cn_snapshot := Some shot, cn_cached_at := now\<rparr>, shot))"

section \<open>The log\<close>

datatype line = Recovered string int string | CannotFill string string "(int \<times> nat) option"

definition seconds_of :: "int \<Rightarrow> int" where
  "seconds_of ms = (ms + 500) div 1000"

definition emitVerdict :: "string \<Rightarrow> bool \<Rightarrow> string \<Rightarrow> int \<Rightarrow> log_state \<Rightarrow> log_state \<times> line option" where
  "emitVerdict subject good verdict now lg =
     (let previous = lg subject in
      if good then
        (lg(subject \<mapsto> \<lparr>le_ok = True, le_reason = ''ok'', le_first = now, le_logged = now, le_count = 0\<rparr>),
         (case previous of
            None \<Rightarrow> None
          | Some e \<Rightarrow> if le_ok e then None else Some (Recovered subject (seconds_of (now - le_first e)) (le_reason e))))
      else (case (case previous of None \<Rightarrow> None | Some e \<Rightarrow> if le_ok e \<or> le_reason e \<noteq> verdict then None else Some e) of
          None \<Rightarrow>
            (lg(subject \<mapsto> \<lparr>le_ok = False, le_reason = verdict, le_first = now, le_logged = now, le_count = 1\<rparr>),
             Some (CannotFill subject verdict None))
        | Some e \<Rightarrow>
            if \<not> now - le_logged e \<ge> REPEAT_LOG_MS
            then (lg(subject \<mapsto> e\<lparr>le_count := le_count e + 1\<rparr>), None)
            else (lg(subject \<mapsto> e\<lparr>le_count := le_count e + 1, le_logged := now\<rparr>),
                  Some (CannotFill subject verdict (Some (seconds_of (now - le_first e), le_count e + 1))))))"

definition emit_pair :: "int \<Rightarrow> pair_report \<Rightarrow> log_state \<times> line list \<Rightarrow> log_state \<times> line list" where
  "emit_pair now p sl =
     (case emitVerdict (if pr_symbol p = [] then pr_pair p else pr_symbol p) (pr_ok p) (pr_verdict p) now (fst sl) of
        (log1, l) \<Rightarrow> (log1, snd sl @ (case l of None \<Rightarrow> [] | Some x \<Rightarrow> [x])))"

definition emit_all :: "int \<Rightarrow> snapshot \<Rightarrow> log_state \<Rightarrow> log_state \<times> line list" where
  "emit_all now shot lg =
     (if sn_pairs shot = []
      then (case emitVerdict ''spot'' False (if sn_verdict shot = [] then ''no_pairs'' else sn_verdict shot) now lg of
          (log1, l) \<Rightarrow> (log1, case l of None \<Rightarrow> [] | Some x \<Rightarrow> [x]))
      else fold (emit_pair now) (sn_pairs shot) (lg, []))"

definition runCanary :: "canary_env \<Rightarrow> stream list \<Rightarrow> venue \<Rightarrow> canary \<Rightarrow> canary \<times> snapshot \<times> line list" where
  "runCanary ce feed v cn =
     (let now = clock (exch v); (cn1, shot) = evaluateAll ce feed v cn; (log1, ls) = emit_all now shot (cn_log cn1);
          good = sn_status shot = ''healthy'' in
      (cn1\<lparr>cn_log := log1, cn_runs := cn_runs cn1 + 1, cn_last_run := Some now, cn_verdict := Some (sn_verdict shot),
           cn_message := Some (if good then ''all eligible pairs would fill a probe order'' else sn_verdict shot),
           cn_last_ok := (if good then Some now else cn_last_ok cn1),
           cn_failures := (if good then 0 else cn_failures cn1 + 1)\<rparr>, shot, ls))"

section \<open>The health endpoint and the timer\<close>

definition getHealth :: "canary_env \<Rightarrow> stream list \<Rightarrow> venue \<Rightarrow> canary \<Rightarrow> canary \<times> snapshot \<times> int" where
  "getHealth ce feed v cn =
     (let now = clock (exch v);
          (cn1, shot) = (case cn_snapshot cn of
            Some s \<Rightarrow> if now - cn_cached_at cn > HEALTH_CACHE_MS then evaluateAll ce feed v cn else (cn, s)
          | None \<Rightarrow> evaluateAll ce feed v cn)
      in (cn1, shot, max 0 (now - cn_cached_at cn1)))"

definition healthCheck :: "canary_env \<Rightarrow> stream list \<Rightarrow> venue \<Rightarrow> canary \<Rightarrow> canary \<times> int \<times> snapshot" where
  "healthCheck ce feed v cn =
     (case getHealth ce feed v cn of (cn1, shot, _) \<Rightarrow>
        (cn1, if sn_status shot = ''unhealthy'' then 503 else 200, shot))"

definition startFillCanary :: "bool \<Rightarrow> bool \<Rightarrow> canary \<Rightarrow> canary" where
  "startFillCanary under_test disabled cn =
     (if cn_timer cn \<or> under_test \<or> disabled then cn else cn\<lparr>cn_enabled := True, cn_timer := True\<rparr>)"

definition stopFillCanary :: "canary \<Rightarrow> canary" where
  "stopFillCanary cn = cn\<lparr>cn_timer := False, cn_enabled := False\<rparr>"

definition idle_canary :: canary where
  "idle_canary = \<lparr>cn_enabled = False, cn_timer = False, cn_runs = 0, cn_last_run = None, cn_last_ok = None, cn_verdict = None,
     cn_message = None, cn_failures = 0, cn_snapshot = None, cn_cached_at = 0, cn_fill = \<lparr>fc_at = 0, fc_value = None\<rparr>,
     cn_log = \<lambda>_. None\<rparr>"

section \<open>The log tells the state\<close>

text \<open>One subject checked again and again: the lines written, with their times.\<close>

fun watch :: "string \<Rightarrow> (int \<times> bool \<times> string) list \<Rightarrow> log_state \<Rightarrow> log_state \<times> (int \<times> line) list" where
  "watch subject [] lg = (lg, [])"
| "watch subject ((t, good, why) # cs) lg =
     (case emitVerdict subject good why t lg of (log1, l) \<Rightarrow>
        (case watch subject cs log1 of (log2, ls) \<Rightarrow> (log2, (case l of None \<Rightarrow> ls | Some x \<Rightarrow> (t, x) # ls))))"

definition same_fault :: "line \<Rightarrow> line \<Rightarrow> bool" where
  "same_fault l m = (case (l, m) of (CannotFill s w _, CannotFill s' w' _) \<Rightarrow> s = s' \<and> w = w' | _ \<Rightarrow> False)"

definition spaced :: "int \<times> line \<Rightarrow> int \<times> line \<Rightarrow> bool" where
  "spaced x y \<longleftrightarrow> same_fault (snd x) (snd y) \<longrightarrow> fst y - fst x \<ge> REPEAT_LOG_MS"

text \<open>What the last line of a log says: nothing wrong, or the fault that is open.\<close>

definition says :: "string \<Rightarrow> (int \<times> line) list \<Rightarrow> string option" where
  "says subject ls = (if ls = [] then None else
     (case snd (last ls) of CannotFill s w _ \<Rightarrow> Some w | Recovered _ _ _ \<Rightarrow> None))"

definition told :: "string \<Rightarrow> log_entry option \<Rightarrow> (int \<times> line) list \<Rightarrow> bool" where
  "told subject e ls = (case e of
      None \<Rightarrow> ls = []
    | Some e \<Rightarrow> if le_ok e then says subject ls = None
                else ls \<noteq> [] \<and> fst (last ls) = le_logged e \<and> (\<exists>c. snd (last ls) = CannotFill subject (le_reason e) c))"

definition logged :: "int \<Rightarrow> line option \<Rightarrow> (int \<times> line) list" where
  "logged t l = (case l of None \<Rightarrow> [] | Some x \<Rightarrow> [(t, x)])"

lemma same_fault_simps [simp]:
  "\<not> same_fault (Recovered s n w) l" "\<not> same_fault l (Recovered s n w)"
  "same_fault (CannotFill s w c) (CannotFill s' w' c') \<longleftrightarrow> s = s' \<and> w = w'"
  by (simp_all add: same_fault_def split: line.split)

lemma quiet_last: "says subject ls = None \<Longrightarrow> ls \<noteq> [] \<Longrightarrow> \<not> same_fault (snd (last ls)) l"
  by (auto simp: says_def split: line.splits)

text \<open>One check keeps the log true, and leaves the verdict of the check as its last word.\<close>

definition holds_verdict :: "bool \<Rightarrow> string \<Rightarrow> log_entry option \<Rightarrow> bool" where
  "holds_verdict good why e = (case e of None \<Rightarrow> False | Some e \<Rightarrow> if good then le_ok e else \<not> le_ok e \<and> le_reason e = why)"

lemma emit_told:
  assumes "told subject (lg subject) ls" and "successively spaced ls" and "emitVerdict subject good why t lg = (lg1, l)"
  shows "told subject (lg1 subject) (ls @ logged t l)" and "successively spaced (ls @ logged t l)"
    and "holds_verdict good why (lg1 subject)"
proof -
  show "told subject (lg1 subject) (ls @ logged t l)"
    using assms by (auto simp: emitVerdict_def told_def logged_def says_def Let_def split: option.splits if_splits)
  show "holds_verdict good why (lg1 subject)"
    using assms by (auto simp: emitVerdict_def holds_verdict_def Let_def split: option.splits if_splits)
  show "successively spaced (ls @ logged t l)"
  proof (cases "ls = [] \<or> l = None")
    case True
    then show ?thesis using assms(2) by (auto simp: logged_def split: option.split)
  next
    case False
    then have "spaced (last ls) (t, the l)"
      using assms quiet_last [of subject ls]
      by (auto simp: emitVerdict_def told_def spaced_def Let_def split: option.splits if_splits)
    then show ?thesis using False assms(2) by (auto simp: logged_def successively_append_iff)
  qed
qed

lemma watch_told:
  assumes "told subject (lg subject) ls" and "successively spaced ls" and "watch subject cs lg = (lg', new)"
  shows "told subject (lg' subject) (ls @ new) \<and> successively spaced (ls @ new) \<and>
    (cs \<noteq> [] \<longrightarrow> holds_verdict (fst (snd (last cs))) (snd (snd (last cs))) (lg' subject))"
  using assms
proof (induction cs arbitrary: lg ls new)
  case (Cons c cs)
  obtain t good why where c: "c = (t, good, why)" by (cases c) auto
  obtain lg1 l where e: "emitVerdict subject good why t lg = (lg1, l)" by fastforce
  obtain new1 where w: "watch subject cs lg1 = (lg', new1)" "new = logged t l @ new1"
    using Cons.prems(3) e by (auto simp: c logged_def split: prod.splits option.splits)
  note m = emit_told [OF Cons.prems(1,2) e]
  have "told subject (lg' subject) ((ls @ logged t l) @ new1) \<and> successively spaced ((ls @ logged t l) @ new1) \<and>
    (cs \<noteq> [] \<longrightarrow> holds_verdict (fst (snd (last cs))) (snd (snd (last cs))) (lg' subject))"
    by (rule Cons.IH [OF m(1,2) w(1)])
  moreover have "cs = [] \<Longrightarrow> holds_verdict good why (lg' subject)" using m(3) w(1) by simp
  ultimately show ?case using w(2) c by simp
qed simp

text \<open>The log of the self-test tells the state of a pair and does not repeat itself: after any
  number of checks its last line names the fault of the last check if that failed and no fault if it
  passed, and an unchanged fault is written again only after ten minutes.\<close>

theorem log_tells_the_state:
  assumes "watch subject (cs @ [(t, good, why)]) (\<lambda>_. None) = (lg, ls)"
  shows "says subject ls = (if good then None else Some why) \<and> successively spaced ls"
proof -
  have "told subject (lg subject) ls" "successively spaced ls" "holds_verdict good why (lg subject)"
    using watch_told [OF _ _ assms, of "[]"] by (simp_all add: told_def)
  then show ?thesis by (auto simp: told_def holds_verdict_def says_def split: option.splits if_splits)
qed

theorem log_tells_the_state_witness:
  "says ''BTC'' [(0, CannotFill ''BTC'' ''no_depth'' None), (600000, CannotFill ''BTC'' ''no_depth'' (Some (600, 3)))] = Some ''no_depth''"
proof -
  have w: "watch ''BTC'' ([(0, False, ''no_depth''), (300000, False, ''no_depth'')] @ [(600000, False, ''no_depth'')]) (\<lambda>_. None) =
    (fst (watch ''BTC'' ([(0, False, ''no_depth''), (300000, False, ''no_depth'')] @ [(600000, False, ''no_depth'')]) (\<lambda>_. None)),
     [(0, CannotFill ''BTC'' ''no_depth'' None), (600000, CannotFill ''BTC'' ''no_depth'' (Some (600, 3)))])"
    by (simp add: emitVerdict_def REPEAT_LOG_MS_def seconds_of_def Let_def)
  from log_tells_the_state [OF w] show ?thesis by simp
qed

section \<open>What a healthy verdict promises\<close>

text \<open>The exact worth of the rows a probe would walk; a size or price that is no finite number counts for nothing.\<close>

definition worth :: "order \<Rightarrow> rat" where
  "worth o1 = (case (to_number (o_price o1), to_number (o_quantity o1)) of (Fin p, Fin q) \<Rightarrow> p * q | _ \<Rightarrow> 0)"

definition worth_of :: "order list \<Rightarrow> rat" where
  "worth_of os = sum_list (map worth os)"

definition grow :: rat where
  "grow = 1 + 1 / 2 ^ 53"

definition tiny :: rat where
  "tiny = 2 powi (- 1074)"

lemma grow_ge: "1 \<le> grow" and tiny_pos: "0 < tiny"
  by (simp_all add: grow_def tiny_def)

lemma rnd64_grow:
  assumes "0 \<le> x"
  shows "rnd64 x \<le> x * grow + tiny / 2"
proof (cases "2 powi (-1022) \<le> x")
  case True
  then have "rnd64 x \<le> x + x / 2 ^ 53" by (rule rnd64_up)
  then show ?thesis using tiny_pos by (simp add: grow_def algebra_simps)
next
  case False
  have "rnd64 x \<le> x + tiny / 2"
  proof (cases "x = 0")
    case False
    then have x: "0 < x" using assms by simp
    have "(2::rat) powi ilog 2 x < 2 powi (- 1022)"
      using ilog_bounds(1) [of 2 x] x \<open>\<not> 2 powi (-1022) \<le> x\<close> by simp
    then have "ilog 2 x < - 1022" by (subst (asm) powi_less_iff) auto
    then have "ulp_exp x = - 1074" using x by (simp add: ulp_exp_def)
    then have "\<bar>rnd64 x - x\<bar> \<le> 2 powi (- 1074 - 1)" using rnd64_error [of x] by simp
    also have "(2::rat) powi (- 1074 - 1) = tiny / 2" unfolding tiny_def by (subst power_int_diff) simp_all
    finally show ?thesis by linarith
  qed (use tiny_pos in simp)
  moreover have "x \<le> x * grow" using assms grow_ge by (simp add: mult_le_cancel_left1 not_less)
  ultimately show ?thesis by linarith
qed

text \<open>A number from nothing up to \<open>b\<close>; an overflow only where \<open>b\<close> is near the end of the doubles.\<close>

definition upto :: "jsnum \<Rightarrow> rat \<Rightarrow> bool" where
  "upto n b = (case n of Fin x \<Rightarrow> 0 \<le> x \<and> x \<le> b | Infty s \<Rightarrow> \<not> s \<and> 2 ^ 1023 \<le> b | NaN \<Rightarrow> True)"

lemma upto_simps [simp]:
  "upto (Fin x) b \<longleftrightarrow> 0 \<le> x \<and> x \<le> b" "upto NaN b" "upto (Infty s) b \<longleftrightarrow> \<not> s \<and> 2 ^ 1023 \<le> b"
  by (simp_all add: upto_def)

lemma upto_mono: "upto n a \<Longrightarrow> a \<le> b \<Longrightarrow> upto n b"
  by (auto simp: upto_def split: jsnum.splits)

lemma grow_le: "0 \<le> a \<Longrightarrow> a \<le> b \<Longrightarrow> a \<le> b * grow"
  using mult_mono [of a b 1 grow] grow_ge by simp

lemma upto_to_num:
  assumes "0 \<le> x" and "x \<le> b"
  shows "upto (to_num x) (b * grow + tiny / 2)"
proof -
  have "x * grow \<le> b * grow" using assms(2) grow_ge by (simp add: mult_right_mono)
  then have r: "0 \<le> rnd64 x" "rnd64 x \<le> b * grow + tiny / 2"
    using rnd64_nonneg [OF assms(1)] rnd64_grow [OF assms(1)] by linarith+
  have "(2::rat) ^ 1023 \<le> b * grow + tiny / 2" if "2 ^ 1024 \<le> rnd64 x"
    by (rule order_trans [OF order_trans [OF _ that] r(2)]) simp
  then show ?thesis using r by (simp add: to_num_def Let_def del: power_numeral)
qed

lemma upto_plus:
  assumes "upto a A" "upto b B" "0 \<le> A" "0 \<le> B"
  shows "upto (a + b) ((A + B) * grow + tiny / 2)"
proof -
  have w: "A \<le> (A + B) * grow + tiny / 2" "B \<le> (A + B) * grow + tiny / 2"
    using grow_le [of A "A + B"] grow_le [of B "A + B"] assms(3,4) tiny_pos by simp_all
  show ?thesis
  proof (cases a)
    case (Fin x)
    show ?thesis
    proof (cases b)
      case (Fin y)
      then show ?thesis using \<open>a = Fin x\<close> assms upto_to_num [of "x + y" "A + B"] by simp
    qed (use Fin assms w in auto)
  next
    case (Infty s)
    then show ?thesis using assms w by (cases b) auto
  qed simp
qed

text \<open>One turn of the walk adds at most the worth of the row.\<close>

definition clean :: "order \<Rightarrow> bool" where
  "clean o1 \<longleftrightarrow> to_number (o_price o1) > Fin 0 \<and> to_number (o_quantity o1) > Fin 0 \<and> is_finite (to_number (o_quantity o1))"

definition no_debt :: "jsnum \<Rightarrow> bool" where
  "no_debt r \<longleftrightarrow> r \<noteq> Infty True"

lemma worth_nonneg: "clean o1 \<Longrightarrow> 0 \<le> worth o1"
  by (auto simp: clean_def worth_def split: jsnum.split)

lemma upto_take:
  assumes "clean o1" "\<not> r \<le> Fin 0"
  shows "upto (js_min (to_number (o_quantity o1)) (r / to_number (o_price o1)) * to_number (o_price o1)) (worth o1 * grow + tiny / 2)"
proof -
  obtain q where q: "to_number (o_quantity o1) = Fin q" "0 < q"
    using assms(1) by (cases "to_number (o_quantity o1)") (auto simp: clean_def)
  show ?thesis
  proof (cases "to_number (o_price o1)")
    case (Fin p)
    then have p: "0 < p" using assms(1) by (simp add: clean_def)
    have t: "upto (r / Fin p) (2 ^ 1024)"
    proof (cases r)
      case (Fin x)
      then have x: "0 < x" using assms(2) by simp
      show ?thesis
        using p x rnd64_nonneg [of "x / p"] by (simp add: Fin to_num_def Let_def del: power_numeral)
    qed (use assms(2) p in auto)
    show ?thesis
    proof (cases "js_min (Fin q) (r / Fin p) = NaN")
      case False
      then obtain y where y: "js_min (Fin q) (r / Fin p) = Fin y" "0 \<le> y" "y \<le> q"
        using t q by (cases "r / Fin p") (auto simp: js_min_def split: if_splits)
      then have "upto (to_num (y * p)) (q * p * grow + tiny / 2)"
        using p by (intro upto_to_num) (simp_all add: mult_right_mono)
      then show ?thesis using y q Fin by (simp add: worth_def mult.commute)
    qed (use q Fin in simp)
  next
    case (Infty s)
    then have "r / to_number (o_price o1) = NaN \<or> r / to_number (o_price o1) = Fin 0" by (cases r) auto
    then show ?thesis using Infty q by (auto simp: js_min_def)
  qed (use assms(1) in \<open>simp add: clean_def\<close>)
qed

definition bound_after :: "rat \<Rightarrow> nat \<Rightarrow> rat" where
  "bound_after worths n = (worths + of_nat n * tiny) * grow ^ (2 * n)"

lemma bound_after_step:
  assumes "0 \<le> S" "0 \<le> w"
  shows "(bound_after S n + (w * grow + tiny / 2)) * grow + tiny / 2 \<le> bound_after (S + w) (Suc n)" (is "?l \<le> _")
    and "bound_after S n \<le> bound_after (S + w) (Suc n)"
proof -
  define G where "G = grow ^ (2 * n)"
  have g: "1 \<le> grow" "0 < tiny" "1 \<le> G" using grow_ge tiny_pos by (simp_all add: G_def one_le_power)
  define X where "X = (S + of_nat n * tiny) * G"
  have X: "0 \<le> X" using assms g by (simp add: X_def)
  have k: "X * grow \<le> X * grow\<^sup>2" "w * grow\<^sup>2 \<le> w * (G * grow\<^sup>2)" "tiny / 2 * grow + tiny / 2 \<le> tiny * (G * grow\<^sup>2)"
  proof -
    have sq: "grow \<le> grow\<^sup>2" "1 \<le> grow\<^sup>2" using g(1) mult_mono [OF g(1) g(1)] by (simp_all add: power2_eq_square)
    then have gg: "grow\<^sup>2 \<le> G * grow\<^sup>2" using mult_right_mono [OF g(3), of "grow\<^sup>2"] by simp
    show "X * grow \<le> X * grow\<^sup>2" using X sq(1) by (rule mult_left_mono [rotated])
    show "w * grow\<^sup>2 \<le> w * (G * grow\<^sup>2)" using assms(2) gg by (rule mult_left_mono [rotated])
    have "tiny / 2 * (grow + 1) \<le> tiny / 2 * (2 * (G * grow\<^sup>2))" using g(2) sq gg by (intro mult_left_mono) linarith+
    then show "tiny / 2 * grow + tiny / 2 \<le> tiny * (G * grow\<^sup>2)" by (simp add: algebra_simps)
  qed
  have r: "bound_after (S + w) (Suc n) = X * grow\<^sup>2 + w * (G * grow\<^sup>2) + tiny * (G * grow\<^sup>2)"
    by (simp add: bound_after_def X_def G_def power2_eq_square algebra_simps)
  have l: "?l = X * grow + w * grow\<^sup>2 + (tiny / 2 * grow + tiny / 2)"
    by (simp add: bound_after_def X_def G_def power2_eq_square algebra_simps)
  show "?l \<le> bound_after (S + w) (Suc n)" unfolding l r using k by linarith
  have "X \<le> X * grow" using grow_le [OF X order_refl] .
  moreover have "0 \<le> w * (G * grow\<^sup>2)" "0 \<le> tiny * (G * grow\<^sup>2)" using assms g by simp_all
  ultimately show "bound_after S n \<le> bound_after (S + w) (Suc n)"
    using k(1) unfolding r by (simp add: bound_after_def X_def G_def)
qed

lemma bound_after_nonneg: "0 \<le> S \<Longrightarrow> 0 \<le> bound_after S n"
  using grow_ge tiny_pos by (simp add: bound_after_def)

lemma walk_bound:
  assumes "\<forall>o1\<in>set os. clean o1" "upto (wk_notional w) (bound_after S n)" "0 \<le> S"
  shows "upto (wk_notional (fold walk_step os w)) (bound_after (S + worth_of os) (n + length os))"
  using assms
proof (induction os arbitrary: w S n)
  case (Cons o1 os)
  have c: "clean o1" and p: "0 \<le> worth o1" using Cons.prems(1) worth_nonneg by simp_all
  have "upto (wk_notional (walk_step o1 w)) (bound_after (S + worth o1) (Suc n))"
  proof (cases "wk_remaining w \<le> Fin 0")
    case True
    then show ?thesis
      using upto_mono [OF Cons.prems(2) bound_after_step(2) [OF Cons.prems(3) p]] by (simp add: walk_step_def Let_def)
  next
    case False
    have "0 \<le> worth o1 * grow + tiny / 2" using p grow_ge tiny_pos by simp
    from upto_plus [OF Cons.prems(2) upto_take [OF c False] bound_after_nonneg [OF Cons.prems(3)] this]
    show ?thesis
      using upto_mono [OF _ bound_after_step(1) [OF Cons.prems(3) p]] False by (simp add: walk_step_def Let_def)
  qed
  from Cons.IH [OF _ this] show ?case
    using Cons.prems(1,3) p by (simp add: worth_of_def add.assoc)
qed (simp add: worth_of_def)

lemma shrink_power:
  assumes "0 \<le> u" "u \<le> (1::rat)"
  shows "1 - of_nat n * u \<le> (1 - u) ^ n"
proof (induction n)
  case (Suc n)
  have "1 - of_nat (Suc n) * u \<le> (1 - of_nat n * u) * (1 - u)" using assms by (simp add: algebra_simps)
  also have "\<dots> \<le> (1 - u) ^ n * (1 - u)" using Suc assms by (intro mult_right_mono) simp_all
  finally show ?case by (simp add: mult.commute)
qed simp

lemma tiny_le: "tiny \<le> 1 / 2 ^ 60"
proof -
  have "tiny \<le> 2 powi (- 60)" unfolding tiny_def by (subst powi_le_iff) simp_all
  then show ?thesis by (simp add: power_int_minus field_simps)
qed

lemma tolerance_bound: "(1 / 10 ^ 9 * grow + tiny / 2) * grow + tiny / 2 \<le> 2 / 10 ^ 9"
proof -
  have "(1 / 10 ^ 9 * grow + tiny / 2) * grow + tiny / 2 = 1 / 10 ^ 9 * (grow * grow) + tiny / 2 * grow + tiny / 2"
    by (simp add: algebra_simps)
  also have "\<dots> \<le> 1 / 10 ^ 9 * (1001 / 1000) + 1 / 2 ^ 60 * (3/2) + 1 / 2 ^ 60"
  proof (intro add_mono)
    show "1 / 10 ^ 9 * (grow * grow) \<le> 1 / 10 ^ 9 * (1001 / 1000)" by (simp add: grow_def)
    show "tiny / 2 * grow \<le> 1 / 2 ^ 60 * (3/2)" using tiny_le tiny_pos by (intro mult_mono) (simp_all add: grow_def)
    show "tiny / 2 \<le> 1 / 2 ^ 60" using tiny_le tiny_pos by linarith
  qed
  also have "\<dots> \<le> 2 / 10 ^ 9" by simp
  finally show ?thesis .
qed

lemma grow_shrinks: "grow ^ n * (1 - 1 / 2 ^ 53) ^ n \<le> 1"
proof -
  have "grow ^ n * (1 - 1 / 2 ^ 53) ^ n = (grow * (1 - 1 / 2 ^ 53)) ^ n" by (rule power_mult_distrib [symmetric])
  also have "\<dots> \<le> 1" by (rule power_le_one) (simp_all add: grow_def)
  finally show ?thesis .
qed

text \<open>A book that passes the probe is worth nearly as much as the probe asks for.\<close>

lemma bound_passes:
  assumes "0 \<le> S" "n \<le> 1000000" and "10 \<le> (bound_after S n + (1 / 10 ^ 9 * grow + tiny / 2)) * grow + tiny / 2"
  shows "10 - 1 / 10 ^ 8 \<le> S"
proof -
  define N where "N = 2 * n + 1"
  define h :: rat where "h = (1 - 1 / 2 ^ 53) ^ N"
  define Z where "Z = (1 / 10 ^ 9 * grow + tiny / 2) * grow + tiny / 2"
  have h: "0 \<le> h" "h \<le> 1" by (simp_all add: h_def power_le_one)
  have Z: "0 \<le> Z" "Z \<le> 2 / 10 ^ 9" using grow_ge tiny_pos tolerance_bound by (simp_all add: Z_def)
  have c: "of_nat n \<le> (1000000 :: rat)" "of_nat N \<le> (2000001 :: rat)"
    using of_nat_mono [OF assms(2), where 'a = rat] of_nat_mono [of N 2000001, where 'a = rat] assms(2) by (simp_all add: N_def)
  have nt: "of_nat n * tiny \<le> 1000000 * (1 / 2 ^ 60)" using c(1) tiny_le tiny_pos by (intro mult_mono) simp_all
  have "10 \<le> (S + of_nat n * tiny) * grow ^ N + Z"
    using assms(3) by (simp add: bound_after_def N_def Z_def algebra_simps)
  then have "10 * h \<le> ((S + of_nat n * tiny) * grow ^ N + Z) * h" using h(1) by (rule mult_right_mono)
  also have "\<dots> = (S + of_nat n * tiny) * (grow ^ N * h) + Z * h" by (simp add: algebra_simps)
  also have "\<dots> \<le> (S + of_nat n * tiny) * 1 + Z * 1"
    using assms(1) tiny_pos Z(1) grow_shrinks [of N] h by (intro add_mono mult_left_mono) (simp_all add: h_def)
  finally have "10 * h \<le> S + of_nat n * tiny + Z" by simp
  moreover have "1 - of_nat N * (1 / 2 ^ 53) \<le> h" unfolding h_def by (rule shrink_power) simp_all
  moreover have "of_nat N * (1 / 2 ^ 53) \<le> 2000001 * (1 / (2 ^ 53 :: rat))" using c(2) by (intro mult_right_mono) simp_all
  moreover have "10 - 10 * B \<le> S + A + C"
    if "10 * h \<le> S + a + Z" "1 - b \<le> h" "b \<le> B" "a \<le> A" "Z \<le> C" for a b A B C
    using that by linarith
  ultimately have "10 - 10 * (2000001 * (1 / 2 ^ 53)) \<le> S + 1000000 * (1 / 2 ^ 60) + 2 / 10 ^ 9" using nt Z(2) by blast
  then show ?thesis by simp
qed

definition small_book :: "spot \<Rightarrow> bool" where
  "small_book st \<longleftrightarrow> (\<forall>key. length (tables st key) \<le> 1000000 \<and>
     (\<forall>o1\<in>set (orders_of (tables st key)). to_number (o_quantity o1) \<noteq> Infty False))"

lemma length_orders_of: "length (orders_of rows) \<le> length rows"
  unfolding orders_of_def by (induction rows) (auto split: prod.split row.split)

lemma fillable_iff:
  "si_fillable (simulateMarketFill os side n) \<longleftrightarrow>
     n > Fin 0 \<and> wk_notional (walked (usable_orders os side) n) + to_num (1 / 10 ^ 9) \<ge> n"
  by (simp add: simulateMarketFill_def Let_def)

lemma fillable_worth:
  assumes "small_book st" and "si_fillable (simulateMarketFill (readSide pid side st) probe PROBE_NOTIONAL)"
  shows "10 - 1 / 10 ^ 8 \<le> worth_of (filter (usable_for (if probe = ''buy'' then ''sell'' else ''buy'')) (readSide pid side st))"
proof -
  define os where "os = filter (usable_for (if probe = ''buy'' then ''sell'' else ''buy'')) (readSide pid side st)"
  define us where "us = usable_orders (readSide pid side st) probe"
  have m: "mset us = mset os" by (simp add: us_def usable_orders_def os_def)
  then have l: "length us = length os" and st: "set us = set os" by (rule mset_eq_length, rule mset_eq_setD)
  have w: "worth_of us = worth_of os" unfolding worth_of_def by (metis m mset_map sum_mset_sum_list)
  have cl: "\<forall>o1\<in>set us. clean o1"
  proof
    fix o1 assume "o1 \<in> set us"
    then have o: "o1 \<in> set (readSide pid side st)" "to_number (o_price o1) > Fin 0" "to_number (o_quantity o1) > Fin 0"
      unfolding st os_def by (simp_all add: usable_for_def)
    have "to_number (o_quantity o1) \<noteq> Infty False"
      using o(1) assms(1) by (auto simp: small_book_def readSide_def split: if_splits)
    then show "clean o1" using o(2,3) by (cases "to_number (o_quantity o1)") (auto simp: clean_def)
  qed
  have n: "length us \<le> 1000000"
  proof -
    have "length os \<le> length (readSide pid side st)" by (simp add: os_def)
    also have "\<dots> \<le> length (tables st (open_table side pid))" by (simp add: readSide_def length_orders_of)
    also have "\<dots> \<le> 1000000" using assms(1) by (simp add: small_book_def)
    finally show ?thesis by (simp add: l)
  qed
  define F where "F = wk_notional (walked us PROBE_NOTIONAL)"
  have F: "upto F (bound_after (worth_of us) (length us))"
    unfolding F_def walked_def using walk_bound [OF cl, of _ 0 0] by (simp add: bound_after_def)
  have S: "0 \<le> worth_of us" unfolding worth_of_def using cl worth_nonneg by (intro sum_list_nonneg) auto
  have d: "upto (to_num (1 / 10 ^ 9)) (1 / 10 ^ 9 * grow + tiny / 2)" by (rule upto_to_num) simp_all
  have "upto (F + to_num (1 / 10 ^ 9)) ((bound_after (worth_of us) (length us) + (1 / 10 ^ 9 * grow + tiny / 2)) * grow + tiny / 2)"
    (is "upto _ ?b")
    by (rule upto_plus [OF F d bound_after_nonneg [OF S]]) (use grow_ge tiny_pos in simp)
  moreover have "F + to_num (1 / 10 ^ 9) \<ge> Fin 10"
    using assms(2) by (simp add: fillable_iff F_def us_def PROBE_NOTIONAL_def)
  moreover have "(10::rat) \<le> 2 ^ 1023" by simp
  ultimately have "10 \<le> ?b" by (cases "F + to_num (1 / 10 ^ 9)") (auto simp del: power_numeral elim: order_trans)
  from bound_passes [OF S n this] show ?thesis using w by (simp add: os_def)
qed

definition paper_written :: "pair_id \<Rightarrow> spot \<Rightarrow> int" where
  "paper_written pid st = written_at (filter o_is_paper (readSide pid ''buy'' st) @ filter o_is_paper (readSide pid ''sell'' st))"

definition probe_fills :: "pair_id \<Rightarrow> string \<Rightarrow> spot \<Rightarrow> bool" where
  "probe_fills pid side st \<longleftrightarrow> (\<exists>o1\<in>set (readSide pid side st). o_is_paper o1) \<and>
     10 - 1 / 10 ^ 8 \<le> worth_of (filter (usable_for side) (readSide pid side st))"

lemma evaluateDepth_ok:
  "dv_verdict (evaluateDepth found p now) = ''ok'' \<Longrightarrow> assessDepthHealth (map_option fst found) (Some p) (Fin (of_int now)) = None"
  by (cases found) (auto simp: evaluateDepth_def assessDepthHealth_def Let_def split: option.splits if_splits list.splits)

lemma healthy_pairs:
  assumes "fst (summarise ps) = ''healthy''"
  shows "ps \<noteq> [] \<and> (\<forall>p\<in>set ps. pr_ok p)"
proof -
  have "filter (\<lambda>p. \<not> pr_ok p) ps = [] \<and> ps \<noteq> []"
    using assms by (auto simp: summarise_def split: if_splits list.splits)
  then show ?thesis by (auto simp: filter_empty_conv)
qed

lemma pr_ok_iff:
  fixes ce v now p
  defines "B \<equiv> filter o_is_paper (readSide (p_id p) ''buy'' (exch v))"
    and "S \<equiv> filter o_is_paper (readSide (p_id p) ''sell'' (exch v))"
  shows "pr_ok (evaluatePair ce v now p) \<longleftrightarrow>
    dv_verdict (evaluateDepth (ce_resolve ce (p_id p)) p now) = ''ok'' \<and>
    judge_ladder (length B) (length S)
      (if written_at (B @ S) = 0 then None else Some (now - written_at (B @ S))) (getLadderState (p_id p) now v) = None \<and>
    si_fillable (simulateMarketFill (readSide (p_id p) ''sell'' (exch v)) ''buy'' PROBE_NOTIONAL) \<and>
    si_fillable (simulateMarketFill (readSide (p_id p) ''buy'' (exch v)) ''sell'' PROBE_NOTIONAL)"
  by (simp add: evaluatePair_def Let_def B_def S_def split: option.split)

lemma evaluatePair_ok:
  assumes "pr_ok (evaluatePair ce v now p)" and "small_book (exch v)"
  shows "assessDepthHealth (map_option fst (ce_resolve ce (p_id p))) (Some p) (Fin (of_int now)) = None \<and>
    probe_fills (p_id p) ''buy'' (exch v) \<and> probe_fills (p_id p) ''sell'' (exch v) \<and>
    (paper_written (p_id p) (exch v) = 0 \<or> now - paper_written (p_id p) (exch v) \<le> LADDER_STALE_MS)"
proof -
  define B where "B = filter o_is_paper (readSide (p_id p) ''buy'' (exch v))"
  define S where "S = filter o_is_paper (readSide (p_id p) ''sell'' (exch v))"
  note r = assms(1) [unfolded pr_ok_iff, folded B_def S_def]
  have d: "dv_verdict (evaluateDepth (ce_resolve ce (p_id p)) p now) = ''ok''" using r by blast
  have j: "B \<noteq> []" "S \<noteq> []" "written_at (B @ S) = 0 \<or> now - written_at (B @ S) \<le> LADDER_STALE_MS"
    using r by (auto simp: judge_ladder_def split: if_splits)
  have f: "si_fillable (simulateMarketFill (readSide (p_id p) ''sell'' (exch v)) ''buy'' PROBE_NOTIONAL)"
      "si_fillable (simulateMarketFill (readSide (p_id p) ''buy'' (exch v)) ''sell'' PROBE_NOTIONAL)"
    using r by simp_all
  from f have "10 - 1 / 10 ^ 8 \<le> worth_of (filter (usable_for ''sell'') (readSide (p_id p) ''sell'' (exch v)))"
      "10 - 1 / 10 ^ 8 \<le> worth_of (filter (usable_for ''buy'') (readSide (p_id p) ''buy'' (exch v)))"
    using fillable_worth [OF assms(2), of "p_id p" "''sell''" "''buy''"] fillable_worth [OF assms(2), of "p_id p" "''buy''" "''sell''"]
    by simp_all
  moreover have "\<exists>o1\<in>set (readSide (p_id p) ''buy'' (exch v)). o_is_paper o1" "\<exists>o1\<in>set (readSide (p_id p) ''sell'' (exch v)). o_is_paper o1"
    using j(1,2) by (auto simp: B_def S_def filter_empty_conv)
  ultimately show ?thesis
    using evaluateDepth_ok [OF d] j(3) by (auto simp: probe_fills_def paper_written_def B_def S_def)
qed

text \<open>A healthy report is worth believing: when the health endpoint evaluates and reports healthy, there
  is a pair to trade, and for every pair that may carry a ladder the venue's depth is fresh and uncrossed, each side of
  the book holds a paper row, the newest of them was written within the bound on the matcher or its time is unknown, and the open rows of each
  side are worth the ten units of the probe, up to a hundred-millionth, although the walk is added up in doubles.\<close>

theorem healthy_report_is_tradable:
  assumes "evaluateAll ce feed v cn = (cn', shot)" and "sn_status shot = ''healthy''" and "small_book (exch v)"
  shows "listEligiblePairs (ce_db_up ce) (exch v) \<noteq> [] \<and>
    (\<forall>p\<in>set (listEligiblePairs (ce_db_up ce) (exch v)).
      assessDepthHealth (map_option fst (ce_resolve ce (p_id p))) (Some p) (Fin (of_int (clock (exch v)))) = None \<and>
      probe_fills (p_id p) ''buy'' (exch v) \<and> probe_fills (p_id p) ''sell'' (exch v) \<and>
      (paper_written (p_id p) (exch v) = 0 \<or> clock (exch v) - paper_written (p_id p) (exch v) \<le> LADDER_STALE_MS))"
proof -
  have "fst (summarise (map (evaluatePair ce v (clock (exch v))) (listEligiblePairs (ce_db_up ce) (exch v)))) = ''healthy''"
    using assms(1,2) by (auto simp: evaluateAll_def Let_def)
  from healthy_pairs [OF this] show ?thesis using evaluatePair_ok [OF _ assms(3)] by auto
qed

definition canary_venue :: venue where
  "canary_venue = quiet_venue\<lparr>exch := blank_spot\<lparr>pairs := [(''p'', Row paper_pair)],
     tables := (\<lambda>_. [])(''buyOpenOrders_p'' := [(''o1'', Row (sample_order\<lparr>o_is_paper := True\<rparr>))],
       ''sellOpenOrders_p'' := [(''o2'', Row (sample_order\<lparr>o_is_paper := True, o_side := ''sell'', o_price := JNum (Fin 10)\<rparr>))])\<rparr>\<rparr>"

definition canary_sight :: canary_env where
  "canary_sight = \<lparr>ce_resolve = \<lambda>_. Some (deep_book, ''memory''), ce_name = \<lambda>_. ''BTCUSD'', ce_db_up = True, ce_last = None\<rparr>"

theorem healthy_report_is_tradable_witness:
  "probe_fills ''p'' ''buy'' (exch canary_venue) \<and> probe_fills ''p'' ''sell'' (exch canary_venue)"
proof -
  let ?e = "evaluateAll canary_sight [] canary_venue idle_canary"
  have p: "listEligiblePairs (ce_db_up canary_sight) (exch canary_venue) = [paper_pair]" by code_simp
  have d: "dv_verdict (evaluateDepth (ce_resolve canary_sight (p_id paper_pair)) paper_pair (clock (exch canary_venue))) = ''ok''" by code_simp
  have w: "wk_notional (walked (usable_orders (readSide (p_id paper_pair) ''sell'' (exch canary_venue)) ''buy'') PROBE_NOTIONAL) = Fin 10"
      "wk_notional (walked (usable_orders (readSide (p_id paper_pair) ''buy'' (exch canary_venue)) ''sell'') PROBE_NOTIONAL) = Fin 10"
    by code_simp+
  have "Fin 10 + to_num (1 / 10 ^ 9) \<ge> Fin 10" by code_simp
  then have f: "PROBE_NOTIONAL > Fin 0" "Fin 10 + to_num (1 / 10 ^ 9) \<ge> PROBE_NOTIONAL" by (simp_all add: PROBE_NOTIONAL_def)
  have "pr_ok (evaluatePair canary_sight canary_venue (clock (exch canary_venue)) paper_pair)"
    unfolding pr_ok_iff fillable_iff w by (intro conjI d f) code_simp
  then have h: "sn_status (snd ?e) = ''healthy''" by (simp add: evaluateAll_def p summarise_def Let_def)
  have e: "?e = (fst ?e, snd ?e)" by simp
  have b: "small_book (exch canary_venue)"
    by (simp add: small_book_def canary_venue_def orders_of_def sample_order_def List.map_filter_def)
  from healthy_report_is_tradable [OF e h b] show ?thesis
    by (simp add: p paper_pair_def sample_pair_def)
qed

end
