(* ===== verification/DepthFeed.thy ===== *)
theory DepthFeed
  imports FillCanary
begin

text \<open>
  The feed of the venue's depth (\<^verbatim>\<open>cryptodex-spotapi/lib/binanceWebSocket.js\<close>) and the one place a
  snapshot is resolved (\<^verbatim>\<open>lib/depthSource.js\<close>): a copy of the venue's book per pair, built from a snapshot
  and kept by a stream of updates with sequence numbers, mirrored to the store, and a watchdog that
  rebuilds streams that have gone silent. What arrives is an argument of each step: messages, answers to
  snapshot requests, closing sockets, timers. An awaited request is two steps, with the purpose it was
  made for kept until it is answered.
\<close>

section \<open>Updates and snapshots\<close>

type_synonym raw_level = "jsval \<times> jsval"

record update =
  ev_bids :: "raw_level list"
  ev_asks :: "raw_level list"
  ev_first :: nat
  ev_final :: nat

record depth_reply =
  dr_bids :: "raw_level list"
  dr_asks :: "raw_level list"
  dr_last :: nat

record cache =
  ca_bids :: book_map
  ca_asks :: book_map
  ca_last :: nat
  ca_buffer :: "update list"
  ca_updated :: int
  ca_desync :: int

definition blank_cache :: cache where
  "blank_cache = \<lparr>ca_bids = [], ca_asks = [], ca_last = 0, ca_buffer = [], ca_updated = 0, ca_desync = 0\<rparr>"

definition reading :: "raw_level \<Rightarrow> jsnum \<times> jsnum" where
  "reading r = (parse_float (fst r), parse_float (snd r))"

definition update_row :: "raw_level \<Rightarrow> book_map \<Rightarrow> book_map" where
  "update_row r m = (case reading r of (p, q) \<Rightarrow> if js_eq q (Fin 0) then remove_field p m else put p q m)"

definition snapshot_row :: "raw_level \<Rightarrow> book_map \<Rightarrow> book_map" where
  "snapshot_row r m = (case reading r of (p, q) \<Rightarrow> if q > Fin 0 then put p q m else m)"

definition applyDepthEvent :: "int \<Rightarrow> update \<Rightarrow> cache \<Rightarrow> cache" where
  "applyDepthEvent now e c = c\<lparr>ca_bids := fold update_row (ev_bids e) (ca_bids c), ca_asks := fold update_row (ev_asks e) (ca_asks c),
     ca_last := ev_final e, ca_updated := now\<rparr>"

section \<open>The state of the module\<close>

definition MAX_BUFFERED_EVENTS :: nat where
  "MAX_BUFFERED_EVENTS = 2000"

definition REDIS_MIRROR_MS :: int where
  "REDIS_MIRROR_MS = 1000"

definition DEPTH_SILENCE_MS :: int where
  "DEPTH_SILENCE_MS = 30000"

definition DEPTH_DESYNC_RECOVERY_MS :: int where
  "DEPTH_DESYNC_RECOVERY_MS = 15000"

definition RECONNECT_DELAY_MS :: int where
  "RECONNECT_DELAY_MS = 5000"

definition HEARTBEAT_SNAPSHOT_EVERY :: nat where
  "HEARTBEAT_SNAPSHOT_EVERY = 30"

record mirror =
  mi_bids :: book_map
  mi_asks :: book_map
  mi_ts :: int
  mi_last :: nat

text \<open>What a request was made for: the start of the service, a reconnect, or a recovery.\<close>

datatype purpose = AtStart | ForStream | ForBuffer

text \<open>Sockets are numbered; the timer of a reconnect holds the time it is due.\<close>

record feed =
  fd_now :: int
  fd_caches :: "pair_id \<Rightarrow> cache option"
  fd_desired :: "pair_id list"
  fd_conns :: "pair_id \<Rightarrow> nat option"
  fd_sockets :: nat
  fd_timers :: "pair_id \<Rightarrow> int option"
  fd_reconnecting :: "pair_id list"
  fd_activity :: "pair_id \<Rightarrow> int option"
  fd_protocol :: "pair_id \<Rightarrow> int option"
  fd_mirrored :: "pair_id \<Rightarrow> int option"
  fd_mirror :: "pair_id \<Rightarrow> mirror option"
  fd_published :: "(pair_id \<times> string) list"
  fd_ticks :: "pair_id \<Rightarrow> nat"
  fd_requests :: "(pair_id \<times> purpose) list"

definition at_zero :: "int option \<Rightarrow> int" where
  "at_zero t = (case t of None \<Rightarrow> 0 | Some n \<Rightarrow> n)"

definition markDepthActivity :: "pair_id \<Rightarrow> feed \<Rightarrow> feed" where
  "markDepthActivity pid fd = fd\<lparr>fd_activity := (fd_activity fd)(pid \<mapsto> fd_now fd), fd_protocol := (fd_protocol fd)(pid \<mapsto> fd_now fd)\<rparr>"

definition markDepthProtocol :: "pair_id \<Rightarrow> feed \<Rightarrow> feed" where
  "markDepthProtocol pid fd = fd\<lparr>fd_protocol := (fd_protocol fd)(pid \<mapsto> fd_now fd)\<rparr>"

definition set_cache :: "pair_id \<Rightarrow> cache \<Rightarrow> feed \<Rightarrow> feed" where
  "set_cache pid c fd = fd\<lparr>fd_caches := (fd_caches fd)(pid \<mapsto> c)\<rparr>"

definition mirrorDepthToRedis :: "pair_id \<Rightarrow> bool \<Rightarrow> feed \<Rightarrow> feed" where
  "mirrorDepthToRedis pid force fd = (case fd_caches fd pid of
      None \<Rightarrow> fd
    | Some c \<Rightarrow>
        if \<not> force \<and> fd_now fd - at_zero (fd_mirrored fd pid) < REDIS_MIRROR_MS then fd
        else fd\<lparr>fd_mirrored := (fd_mirrored fd)(pid \<mapsto> fd_now fd),
                fd_mirror := (fd_mirror fd)(pid \<mapsto>
                  \<lparr>mi_bids = take 20 (sort_before (better_price ''bid'') (ca_bids c)),
                   mi_asks = take 20 (sort_before (better_price ''ask'') (ca_asks c)), mi_ts = ca_updated c, mi_last = ca_last c\<rparr>)\<rparr>)"

definition notifyDepthListener :: "pair_id \<Rightarrow> string \<Rightarrow> feed \<Rightarrow> feed" where
  "notifyDepthListener pid type fd = fd\<lparr>fd_published := fd_published fd @ [(pid, type)]\<rparr>"

definition emitOrderBook :: "pair_id \<Rightarrow> string \<Rightarrow> feed \<Rightarrow> feed" where
  "emitOrderBook pid type fd = notifyDepthListener pid type (mirrorDepthToRedis pid (type = ''SNAPSHOT'') fd)"

definition heartbeat :: "pair_id \<Rightarrow> feed \<Rightarrow> feed" where
  "heartbeat pid fd =
     (let ticks = fd_ticks fd pid + 1 in
      notifyDepthListener pid (if ticks mod HEARTBEAT_SNAPSHOT_EVERY = 0 then ''SNAPSHOT'' else ''DELTA'')
        (fd\<lparr>fd_ticks := (fd_ticks fd)(pid := ticks)\<rparr>))"

section \<open>The copy of the book\<close>

definition request :: "pair_id \<Rightarrow> purpose \<Rightarrow> feed \<Rightarrow> feed" where
  "request pid pur fd = fd\<lparr>fd_requests := fd_requests fd @ [(pid, pur)]\<rparr>"

text \<open>The answer to a snapshot request; None when it failed or lacks a side.\<close>

definition fetchDepthSnapshot :: "pair_id \<Rightarrow> depth_reply option \<Rightarrow> feed \<Rightarrow> feed \<times> bool" where
  "fetchDepthSnapshot pid reply fd = (case (fd_caches fd pid, reply) of
      (Some c, Some d) \<Rightarrow>
        (emitOrderBook pid ''SNAPSHOT'' (set_cache pid
          \<lparr>ca_bids = fold snapshot_row (dr_bids d) [], ca_asks = fold snapshot_row (dr_asks d) [], ca_last = dr_last d,
           ca_buffer = [], ca_updated = fd_now fd, ca_desync = 0\<rparr> fd), True)
    | _ \<Rightarrow> (fd, False))"

definition processBufferedEvents :: "pair_id \<Rightarrow> feed \<Rightarrow> feed" where
  "processBufferedEvents pid fd = (case fd_caches fd pid of
      None \<Rightarrow> fd
    | Some c \<Rightarrow>
        if ca_buffer c = [] then fd
        else let validEvents = dropWhile (\<lambda>e. \<not> (ev_first e \<le> ca_last c \<and> ev_final e \<ge> ca_last c)) (ca_buffer c)
          in emitOrderBook pid ''DELTA'' (set_cache pid ((fold (applyDepthEvent (fd_now fd)) validEvents c)\<lparr>ca_buffer := []\<rparr>) fd))"

definition keep_last :: "nat \<Rightarrow> 'a list \<Rightarrow> 'a list" where
  "keep_last n xs = drop (length xs - n) xs"

definition out_of_sequence :: "update \<Rightarrow> cache \<Rightarrow> bool" where
  "out_of_sequence e c \<longleftrightarrow> ev_first e > ca_last c + 1 \<or> ev_final e < ca_last c"

definition handleDepthUpdate :: "pair_id \<Rightarrow> update \<Rightarrow> feed \<Rightarrow> feed" where
  "handleDepthUpdate pid e fd = (case fd_caches fd pid of
      None \<Rightarrow> fd
    | Some c \<Rightarrow>
        if ca_last c = 0
        then set_cache pid (c\<lparr>ca_desync := (if ca_desync c = 0 then fd_now fd else ca_desync c),
               ca_buffer := keep_last MAX_BUFFERED_EVENTS (ca_buffer c @ [e])\<rparr>) fd
        else if out_of_sequence e c
        then request pid ForBuffer (set_cache pid (c\<lparr>ca_last := 0, ca_desync := fd_now fd\<rparr>) fd)
        else emitOrderBook pid ''DELTA'' (set_cache pid (applyDepthEvent (fd_now fd) e c) fd))"

definition resetDepthCache :: "pair_id \<Rightarrow> feed \<Rightarrow> feed" where
  "resetDepthCache pid fd = set_cache pid blank_cache fd"

section \<open>Streams\<close>

definition scheduleDepthReconnect :: "pair_id \<Rightarrow> int \<Rightarrow> feed \<Rightarrow> feed" where
  "scheduleDepthReconnect pid delay fd = fd\<lparr>fd_timers := (fd_timers fd)(pid \<mapsto> fd_now fd + delay)\<rparr>"

definition reconnect_due :: "pair_id \<Rightarrow> feed \<Rightarrow> feed" where
  "reconnect_due pid fd =
     (let fd1 = fd\<lparr>fd_timers := (fd_timers fd)(pid := None)\<rparr> in
      if pid \<notin> set (fd_desired fd) then fd1
      else request pid ForStream (resetDepthCache pid (fd1\<lparr>fd_reconnecting := List.insert pid (fd_reconnecting fd)\<rparr>)))"

text \<open>Whether a socket can be created at all is an argument.\<close>

definition startDepthStream :: "pair_id \<Rightarrow> bool \<Rightarrow> feed \<Rightarrow> feed" where
  "startDepthStream pid created fd =
     (let fd1 = fd\<lparr>fd_desired := (if pid \<in> set (fd_desired fd) then fd_desired fd else fd_desired fd @ [pid])\<rparr> in
      if fd_conns fd pid \<noteq> None then fd1
      else if created
      then markDepthActivity pid (fd1\<lparr>fd_conns := (fd_conns fd)(pid \<mapsto> fd_sockets fd), fd_sockets := fd_sockets fd + 1\<rparr>)
      else scheduleDepthReconnect pid RECONNECT_DELAY_MS (fd1\<lparr>fd_conns := (fd_conns fd)(pid := None)\<rparr>))"

definition restartDepthStream :: "pair_id \<Rightarrow> feed \<Rightarrow> feed" where
  "restartDepthStream pid fd = scheduleDepthReconnect pid 0 (fd\<lparr>fd_conns := (fd_conns fd)(pid := None)\<rparr>)"

definition on_message :: "pair_id \<Rightarrow> update option \<Rightarrow> feed \<Rightarrow> feed" where
  "on_message pid m fd = (case m of
      None \<Rightarrow> markDepthActivity pid fd
    | Some e \<Rightarrow> handleDepthUpdate pid e (markDepthActivity pid fd))"

definition on_close :: "pair_id \<Rightarrow> nat \<Rightarrow> feed \<Rightarrow> feed" where
  "on_close pid socket fd =
     (if fd_conns fd pid \<noteq> Some socket then fd
      else scheduleDepthReconnect pid RECONNECT_DELAY_MS (fd\<lparr>fd_conns := (fd_conns fd)(pid := None)\<rparr>))"

text \<open>What is done once a request is answered.\<close>

definition snapshot_answered :: "pair_id \<Rightarrow> purpose \<Rightarrow> depth_reply option \<Rightarrow> bool \<Rightarrow> feed \<Rightarrow> feed" where
  "snapshot_answered pid pur reply created fd =
     (case fetchDepthSnapshot pid reply (fd\<lparr>fd_requests := remove1 (pid, pur) (fd_requests fd)\<rparr>) of
        (fd1, good) \<Rightarrow> (case pur of
            AtStart \<Rightarrow> startDepthStream pid created fd1
          | ForStream \<Rightarrow>
              (let fd2 = startDepthStream pid created fd1 in fd2\<lparr>fd_reconnecting := removeAll pid (fd_reconnecting fd2)\<rparr>)
          | ForBuffer \<Rightarrow> if good then processBufferedEvents pid fd1 else fd1))"

definition start_pair :: "pair_id \<Rightarrow> feed \<Rightarrow> feed" where
  "start_pair pid fd = request pid AtStart (set_cache pid blank_cache fd)"

section \<open>The watchdog\<close>

datatype watch_action = Reconnect | Restart int | Resnapshot

definition pending :: "pair_id \<Rightarrow> feed \<Rightarrow> bool" where
  "pending pid fd \<longleftrightarrow> fd_timers fd pid \<noteq> None \<or> pid \<in> set (fd_reconnecting fd)"

definition silent_for :: "pair_id \<Rightarrow> feed \<Rightarrow> int" where
  "silent_for pid fd = fd_now fd - at_zero (fd_activity fd pid)"

definition watchdog_pair :: "pair_id \<Rightarrow> feed \<Rightarrow> feed \<times> watch_action option" where
  "watchdog_pair pid fd = (case fd_conns fd pid of
      None \<Rightarrow> if pending pid fd then (fd, None) else (scheduleDepthReconnect pid 0 fd, Some Reconnect)
    | Some socket \<Rightarrow>
        if silent_for pid fd > DEPTH_SILENCE_MS then (restartDepthStream pid fd, Some (Restart (silent_for pid fd)))
        else (case fd_caches fd pid of
            None \<Rightarrow> (fd, None)
          | Some c \<Rightarrow>
              if ca_last c = 0 \<and> ca_desync c \<noteq> 0 \<and> fd_now fd - ca_desync c > DEPTH_DESYNC_RECOVERY_MS
              then (request pid ForBuffer (set_cache pid (c\<lparr>ca_desync := fd_now fd\<rparr>) fd), Some Resnapshot)
              else (fd, None)))"

fun watch_pairs :: "pair_id list \<Rightarrow> feed \<Rightarrow> feed \<times> (pair_id \<times> watch_action) list" where
  "watch_pairs [] fd = (fd, [])"
| "watch_pairs (pid # pids) fd =
     (case watchdog_pair pid fd of (fd1, a) \<Rightarrow> (case watch_pairs pids fd1 of
        (fd2, acts) \<Rightarrow> (fd2, (case a of None \<Rightarrow> acts | Some x \<Rightarrow> (pid, x) # acts))))"

definition runDepthWatchdog :: "feed \<Rightarrow> feed \<times> (pair_id \<times> watch_action) list" where
  "runDepthWatchdog fd = watch_pairs (fd_desired fd) fd"

definition getDepthStreamHealth :: "feed \<Rightarrow> stream list" where
  "getDepthStreamHealth fd = map (\<lambda>pid.
     \<lparr>sm_pair = pid, sm_connected = (fd_conns fd pid \<noteq> None), sm_reconnecting = pending pid fd,
      sm_update_id = (case fd_caches fd pid of None \<Rightarrow> 0 | Some c \<Rightarrow> ca_last c),
      sm_buffered = (case fd_caches fd pid of None \<Rightarrow> 0 | Some c \<Rightarrow> length (ca_buffer c)),
      sm_silent = silent_for pid fd, sm_protocol_silent = fd_now fd - at_zero (fd_protocol fd pid),
      sm_age = (case fd_caches fd pid of None \<Rightarrow> None
        | Some c \<Rightarrow> if ca_updated c = 0 then None else Some (fd_now fd - ca_updated c))\<rparr>) (fd_desired fd)"

definition stopBinanceWebSockets :: "feed \<Rightarrow> feed" where
  "stopBinanceWebSockets fd = fd\<lparr>fd_desired := [], fd_activity := \<lambda>_. None, fd_protocol := \<lambda>_. None, fd_reconnecting := [],
     fd_conns := \<lambda>_. None, fd_timers := \<lambda>_. None, fd_ticks := \<lambda>_. 0\<rparr>"

section \<open>Where a snapshot comes from\<close>

definition getDepthSnapshot :: "pair_id \<Rightarrow> feed \<Rightarrow> depth_book option" where
  "getDepthSnapshot pid fd = (case fd_caches fd pid of
      None \<Rightarrow> None
    | Some c \<Rightarrow>
        if ca_last c = 0 \<or> ca_bids c = [] \<or> ca_asks c = [] then None
        else Some \<lparr>b_updated = JNum (Fin (of_int (ca_updated c))),
          b_bids = Some (map level_of (sort_before (better_price ''bid'') (ca_bids c))),
          b_asks = Some (map level_of (sort_before (better_price ''ask'') (ca_asks c))),
          b_update_id = JNum (Fin (of_nat (ca_last c)))\<rparr>)"

definition json_level :: "jsnum \<times> jsnum \<Rightarrow> level" where
  "json_level l = \<lparr>l_price = json_val (JNum (fst l)), l_quantity = json_val (JNum (snd l))\<rparr>"

definition level_before :: "string \<Rightarrow> level \<Rightarrow> level \<Rightarrow> bool" where
  "level_before side a b = better_price side (to_number (l_price a), Fin 0) (to_number (l_price b), Fin 0)"

definition redisDepthFallback :: "bool \<Rightarrow> pair_id \<Rightarrow> feed \<Rightarrow> depth_book option" where
  "redisDepthFallback up pid fd = (case (if up then fd_mirror fd pid else None) of
      None \<Rightarrow> None
    | Some mi \<Rightarrow> Some \<lparr>b_updated = JNum (Fin (of_int (mi_ts mi))),
        b_bids = Some (sort_before (level_before ''bid'') (map json_level (mi_bids mi))),
        b_asks = Some (sort_before (level_before ''ask'') (map json_level (mi_asks mi))),
        b_update_id = JNum (Fin (of_nat (mi_last mi)))\<rparr>)"

definition resolveDepthSnapshot :: "bool \<Rightarrow> feed \<Rightarrow> pair_id \<Rightarrow> (depth_book \<times> string) option" where
  "resolveDepthSnapshot up fd pid = (case getDepthSnapshot pid fd of
      Some b \<Rightarrow> Some (b, ''memory'')
    | None \<Rightarrow> map_option (\<lambda>b. (b, ''redis'')) (redisDepthFallback up pid fd))"

section \<open>The venue\<close>

text \<open>
  The venue's book by update id, side and price. What it documents of its answers: an update lists the size, after its
  last id, of every price that changed since its first; a snapshot lists the levels of its id, the best of
  them when there are more than the limit of the request.
\<close>

type_synonym history = "nat \<Rightarrow> string \<Rightarrow> jsnum \<Rightarrow> jsnum option"

definition SNAPSHOT_LIMIT :: nat where
  "SNAPSHOT_LIMIT = 1000"

definition positive_double :: "jsnum \<Rightarrow> bool" where
  "positive_double n \<longleftrightarrow> is_finite n \<and> is_num n \<and> n > Fin 0"

definition venue_levels :: "history \<Rightarrow> bool" where
  "venue_levels h \<longleftrightarrow> (\<forall>u side p q. h u side p = Some q \<longrightarrow> positive_double p \<and> positive_double q)"

definition last_reading :: "raw_level list \<Rightarrow> jsnum \<Rightarrow> jsnum option" where
  "last_reading rs = map_of (rev (map reading rs))"

definition update_tells :: "history \<Rightarrow> string \<Rightarrow> update \<Rightarrow> raw_level list \<Rightarrow> bool" where
  "update_tells h side e rs \<longleftrightarrow> (\<forall>p. case last_reading rs p of
      Some q \<Rightarrow> h (ev_final e) side p = (if q = Fin 0 then None else Some q)
    | None \<Rightarrow> (\<forall>v. ev_first e \<le> v + 1 \<and> v \<le> ev_final e \<longrightarrow> h v side p = h (ev_final e) side p))"

definition faithful_update :: "history \<Rightarrow> update \<Rightarrow> bool" where
  "faithful_update h e \<longleftrightarrow> update_tells h ''bid'' e (ev_bids e) \<and> update_tells h ''ask'' e (ev_asks e)"

definition better :: "string \<Rightarrow> jsnum \<Rightarrow> jsnum \<Rightarrow> bool" where
  "better side p p' \<longleftrightarrow> (if side = ''bid'' then p' < p else p < p')"

text \<open>Prices a snapshot says nothing about: those worse than all its levels, when it is full.\<close>

definition beyond :: "string \<Rightarrow> raw_level list \<Rightarrow> jsnum \<Rightarrow> bool" where
  "beyond side rs p \<longleftrightarrow> length rs = SNAPSHOT_LIMIT \<and> (\<forall>r\<in>set rs. better side (fst (reading r)) p)"

definition snapshot_tells :: "history \<Rightarrow> string \<Rightarrow> nat \<Rightarrow> raw_level list \<Rightarrow> bool" where
  "snapshot_tells h side u rs \<longleftrightarrow> (\<forall>r\<in>set rs. h u side (fst (reading r)) = Some (snd (reading r))) \<and>
     (\<forall>p. h u side p \<noteq> None \<longrightarrow> p \<in> fst ` reading ` set rs \<or> beyond side rs p)"

definition faithful_reply :: "history \<Rightarrow> depth_reply \<Rightarrow> bool" where
  "faithful_reply h d \<longleftrightarrow> snapshot_tells h ''bid'' (dr_last d) (dr_bids d) \<and> snapshot_tells h ''ask'' (dr_last d) (dr_asks d)"

section \<open>The copy agrees with the venue\<close>

definition agrees :: "history \<Rightarrow> string \<Rightarrow> nat \<Rightarrow> raw_level list \<Rightarrow> book_map \<Rightarrow> bool" where
  "agrees h side u rs m \<longleftrightarrow> distinct (map fst m) \<and> (\<forall>p q. map_of m p = Some q \<longrightarrow> h u side p = Some q) \<and>
     (\<forall>p. \<not> beyond side rs p \<longrightarrow> map_of m p = h u side p)"

lemma map_of_updates:
  "map_of (fold update_row rs m) p = (case last_reading rs p of
      None \<Rightarrow> map_of m p | Some q \<Rightarrow> if js_eq q (Fin 0) then None else Some q)"
  by (induction rs arbitrary: m)
    (auto simp: last_reading_def update_row_def map_add_def split: option.split prod.split)

lemma distinct_updates: "distinct (map fst m) \<Longrightarrow> distinct (map fst (fold update_row rs m))"
  by (induction rs arbitrary: m) (auto simp: update_row_def split: prod.split)

lemma agrees_update:
  assumes "agrees h side v rs m" and "update_tells h side e es" and "ev_first e \<le> v + 1" and "v \<le> ev_final e"
  shows "agrees h side (ev_final e) rs (fold update_row es m)"
proof -
  have t: "case last_reading es p of
      Some q \<Rightarrow> h (ev_final e) side p = (if q = Fin 0 then None else Some q)
    | None \<Rightarrow> (\<forall>v. ev_first e \<le> v + 1 \<and> v \<le> ev_final e \<longrightarrow> h v side p = h (ev_final e) side p)" for p
    using assms(2) unfolding update_tells_def by blast
  have m: "map_of (fold update_row es m) p = (if last_reading es p = None then map_of m p else h (ev_final e) side p)" for p
  proof (cases "last_reading es p")
    case None
    then show ?thesis by (simp add: map_of_updates)
  next
    case (Some q)
    then have "h (ev_final e) side p = (if q = Fin 0 then None else Some q)" using t [of p] by simp
    then show ?thesis using Some by (auto simp: map_of_updates js_eq_def)
  qed
  have h: "h v side p = h (ev_final e) side p" if "last_reading es p = None" for p
  proof -
    have "\<forall>v. ev_first e \<le> v + 1 \<and> v \<le> ev_final e \<longrightarrow> h v side p = h (ev_final e) side p"
      using t [of p] unfolding that option.case .
    then show ?thesis using assms(3,4) by blast
  qed
  have d: "distinct (map fst (fold update_row es m))" using assms(1) distinct_updates by (simp add: agrees_def)
  have a1: "h v side p = Some q" if "map_of m p = Some q" for p q using assms(1) that unfolding agrees_def by blast
  have a2: "map_of m p = h v side p" if "\<not> beyond side rs p" for p using assms(1) that unfolding agrees_def by blast
  have "h (ev_final e) side p = Some q" if "map_of (fold update_row es m) p = Some q" for p q
    using that a1 [of p q] h [of p] unfolding m [of p] by (cases "last_reading es p") simp_all
  moreover have "map_of (fold update_row es m) p = h (ev_final e) side p" if "\<not> beyond side rs p" for p
    using a2 [OF that] h [of p] unfolding m [of p] by (cases "last_reading es p") simp_all
  ultimately show ?thesis using d by (simp add: agrees_def)
qed

lemma map_of_snapshot:
  assumes "\<forall>r\<in>set rs. f (fst (reading r)) = Some (snd (reading r)) \<and> snd (reading r) > Fin 0"
    and "\<forall>p q. map_of m p = Some q \<longrightarrow> f p = Some q"
  shows "map_of (fold snapshot_row rs m) p = (if p \<in> fst ` reading ` set rs then f p else map_of m p)"
  using assms
proof (induction rs arbitrary: m)
  case (Cons r rs)
  have s: "snapshot_row r m = put (fst (reading r)) (snd (reading r)) m"
    using Cons.prems(1) by (cases "reading r") (simp add: snapshot_row_def)
  have "\<forall>p q. map_of (snapshot_row r m) p = Some q \<longrightarrow> f p = Some q" using Cons.prems by (auto simp: s)
  from Cons.IH [OF _ this] Cons.prems show ?case by (auto simp: s)
qed simp

lemma distinct_snapshot: "distinct (map fst m) \<Longrightarrow> distinct (map fst (fold snapshot_row rs m))"
  by (induction rs arbitrary: m) (auto simp: snapshot_row_def split: prod.split)

lemma agrees_snapshot:
  assumes "venue_levels h" and "snapshot_tells h side u rs"
  shows "agrees h side u rs (fold snapshot_row rs [])"
proof -
  have "\<forall>r\<in>set rs. h u side (fst (reading r)) = Some (snd (reading r)) \<and> snd (reading r) > Fin 0"
    using assms unfolding snapshot_tells_def venue_levels_def positive_double_def by blast
  then have m: "map_of (fold snapshot_row rs []) p = (if p \<in> fst ` reading ` set rs then h u side p else None)" for p
    using map_of_snapshot [of rs "h u side" "[]" p] by simp
  have "h u side p = None" if "p \<notin> fst ` reading ` set rs" "\<not> beyond side rs p" for p
    using assms(2) that unfolding snapshot_tells_def by blast
  then show ?thesis using distinct_snapshot [of "[]" rs] by (auto simp: agrees_def m split: if_splits)
qed

definition synced_with :: "history \<Rightarrow> depth_reply \<Rightarrow> cache \<Rightarrow> bool" where
  "synced_with h d c \<longleftrightarrow> agrees h ''bid'' (ca_last c) (dr_bids d) (ca_bids c) \<and> agrees h ''ask'' (ca_last c) (dr_asks d) (ca_asks c)"

definition cache_true :: "history \<Rightarrow> cache \<Rightarrow> bool" where
  "cache_true h c \<longleftrightarrow> (ca_last c \<noteq> 0 \<longrightarrow> ca_buffer c = [] \<and> (\<exists>d. faithful_reply h d \<and> synced_with h d c))"

definition feed_true :: "(pair_id \<Rightarrow> history) \<Rightarrow> feed \<Rightarrow> bool" where
  "feed_true H fd \<longleftrightarrow> (\<forall>pid c. fd_caches fd pid = Some c \<longrightarrow> cache_true (H pid) c)"

lemma caches_frame [simp]:
  "fd_caches (markDepthActivity pid fd) = fd_caches fd" "fd_caches (markDepthProtocol pid fd) = fd_caches fd"
  "fd_caches (mirrorDepthToRedis pid force fd) = fd_caches fd" "fd_caches (notifyDepthListener pid type fd) = fd_caches fd"
  "fd_caches (emitOrderBook pid type fd) = fd_caches fd" "fd_caches (heartbeat pid fd) = fd_caches fd"
  "fd_caches (request pid pur fd) = fd_caches fd" "fd_caches (scheduleDepthReconnect pid delay fd) = fd_caches fd"
  "fd_caches (restartDepthStream pid fd) = fd_caches fd" "fd_caches (on_close pid socket fd) = fd_caches fd"
  "fd_caches (startDepthStream pid created fd) = fd_caches fd" "fd_caches (stopBinanceWebSockets fd) = fd_caches fd"
  "fd_caches (set_cache pid c fd) = (fd_caches fd)(pid \<mapsto> c)"
  by (simp_all add: markDepthActivity_def markDepthProtocol_def mirrorDepthToRedis_def notifyDepthListener_def emitOrderBook_def
      heartbeat_def request_def scheduleDepthReconnect_def restartDepthStream_def on_close_def startDepthStream_def
      stopBinanceWebSockets_def set_cache_def Let_def split: option.split)

lemma feed_true_frame: "feed_true H fd \<Longrightarrow> fd_caches fd' = fd_caches fd \<Longrightarrow> feed_true H fd'"
  by (simp add: feed_true_def)

lemma feed_true_set: "feed_true H fd \<Longrightarrow> cache_true (H pid) c \<Longrightarrow> fd_caches fd' = (fd_caches fd)(pid \<mapsto> c) \<Longrightarrow> feed_true H fd'"
  by (simp add: feed_true_def)

lemma cache_true_unsynced: "ca_last c = 0 \<Longrightarrow> cache_true h c"
  by (simp add: cache_true_def)

lemma applied_true:
  assumes "cache_true h c" "ca_last c \<noteq> 0" "faithful_update h e" "\<not> out_of_sequence e c"
  shows "cache_true h (applyDepthEvent now e c)"
proof -
  obtain d where d: "faithful_reply h d" "synced_with h d c" and b: "ca_buffer c = []"
    using assms(1,2) by (auto simp: cache_true_def)
  have r: "ev_first e \<le> ca_last c + 1" "ca_last c \<le> ev_final e" using assms(4) by (simp_all add: out_of_sequence_def)
  have "synced_with h d (applyDepthEvent now e c)"
    using d(2) assms(3) agrees_update [OF _ _ r] by (auto simp: synced_with_def faithful_update_def applyDepthEvent_def)
  then show ?thesis using d(1) b by (auto simp: cache_true_def applyDepthEvent_def)
qed

lemma handled_true:
  assumes "feed_true H fd" "faithful_update (H pid) e"
  shows "feed_true H (handleDepthUpdate pid e fd)"
proof (cases "fd_caches fd pid")
  case (Some c)
  then have c: "cache_true (H pid) c" using assms(1) by (simp add: feed_true_def)
  show ?thesis
  proof (cases "ca_last c = 0")
    case True
    then show ?thesis
      using Some by (intro feed_true_set [OF assms(1), of pid]) (auto simp: handleDepthUpdate_def intro: cache_true_unsynced)
  next
    case False
    show ?thesis
    proof (cases "out_of_sequence e c")
      case True
      then show ?thesis using Some False
        by (intro feed_true_set [OF assms(1), of pid "c\<lparr>ca_last := 0, ca_desync := fd_now fd\<rparr>"])
          (auto simp: handleDepthUpdate_def intro: cache_true_unsynced)
    next
      case in_order: False
      show ?thesis
        by (rule feed_true_set [OF assms(1) applied_true [OF c False assms(2) in_order, of "fd_now fd"]])
          (simp add: handleDepthUpdate_def Some False in_order)
    qed
  qed
qed (use assms(1) in \<open>simp add: handleDepthUpdate_def\<close>)

lemma fetched_true:
  assumes "feed_true H fd" "venue_levels (H pid)" "\<forall>d. reply = Some d \<longrightarrow> faithful_reply (H pid) d"
  shows "feed_true H (fst (fetchDepthSnapshot pid reply fd))"
proof (cases "fd_caches fd pid = None \<or> reply = None")
  case True
  then show ?thesis using assms(1) by (auto simp: fetchDepthSnapshot_def split: option.split)
next
  case False
  then obtain c d where cd: "fd_caches fd pid = Some c" "reply = Some d" by auto
  have f: "faithful_reply (H pid) d" using assms(3) cd(2) by simp
  then have "synced_with (H pid) d \<lparr>ca_bids = fold snapshot_row (dr_bids d) [], ca_asks = fold snapshot_row (dr_asks d) [],
      ca_last = dr_last d, ca_buffer = [], ca_updated = fd_now fd, ca_desync = 0\<rparr>" (is "synced_with _ d ?c")
    using agrees_snapshot [OF assms(2)] by (simp add: synced_with_def faithful_reply_def)
  with f have "cache_true (H pid) ?c" by (auto simp: cache_true_def)
  from feed_true_set [OF assms(1) this] show ?thesis by (simp add: fetchDepthSnapshot_def cd)
qed

lemma buffer_is_empty_when_processed:
  "snd (fetchDepthSnapshot pid reply fd) \<Longrightarrow>
     processBufferedEvents pid (fst (fetchDepthSnapshot pid reply fd)) = fst (fetchDepthSnapshot pid reply fd)"
  by (auto simp: fetchDepthSnapshot_def processBufferedEvents_def split: option.splits)

lemma answered_true:
  assumes "feed_true H fd" "venue_levels (H pid)" "\<forall>d. reply = Some d \<longrightarrow> faithful_reply (H pid) d"
  shows "feed_true H (snapshot_answered pid pur reply created fd)"
proof -
  define fd0 where "fd0 = fd\<lparr>fd_requests := remove1 (pid, pur) (fd_requests fd)\<rparr>"
  have "feed_true H fd0" using assms(1) by (simp add: fd0_def feed_true_def)
  from fetched_true [OF this assms(2,3)] have f: "feed_true H (fst (fetchDepthSnapshot pid reply fd0))" .
  have "fd_caches (snapshot_answered pid pur reply created fd) = fd_caches (fst (fetchDepthSnapshot pid reply fd0))"
    using buffer_is_empty_when_processed [of pid reply fd0]
    by (cases pur) (auto simp: snapshot_answered_def fd0_def Let_def split: prod.split)
  with f show ?thesis by (rule feed_true_frame)
qed

lemma watchdog_pair_true: "feed_true H fd \<Longrightarrow> feed_true H (fst (watchdog_pair pid fd))"
proof -
  assume f: "feed_true H fd"
  have "fd_caches (fst (watchdog_pair pid fd)) = fd_caches fd \<or>
    (\<exists>c. ca_last c = 0 \<and> fd_caches (fst (watchdog_pair pid fd)) = (fd_caches fd)(pid \<mapsto> c))"
    by (auto simp: watchdog_pair_def split: option.split intro!: exI [of _ "c\<lparr>ca_desync := t\<rparr>" for c t])
  then show ?thesis using f feed_true_frame feed_true_set cache_true_unsynced by metis
qed

lemma watchdog_true: "feed_true H fd \<Longrightarrow> feed_true H (fst (watch_pairs pids fd))"
proof (induction pids arbitrary: fd)
  case (Cons pid pids)
  have "feed_true H (fst (watch_pairs pids (fst (watchdog_pair pid fd))))"
    by (rule Cons.IH [OF watchdog_pair_true [OF Cons.prems]])
  then show ?case by (simp add: case_prod_unfold)
qed simp

section \<open>Runs of the feed\<close>

inductive feed_step :: "(pair_id \<Rightarrow> history) \<Rightarrow> feed \<Rightarrow> feed \<Rightarrow> bool" for H where
  time: "fd_now fd \<le> t \<Longrightarrow> feed_step H fd (fd\<lparr>fd_now := t\<rparr>)"
| started: "feed_step H fd (start_pair pid fd)"
| answered: "(pid, pur) \<in> set (fd_requests fd) \<Longrightarrow> \<forall>d. reply = Some d \<longrightarrow> faithful_reply (H pid) d \<Longrightarrow>
    feed_step H fd (snapshot_answered pid pur reply created fd)"
| message: "\<forall>e. m = Some e \<longrightarrow> faithful_update (H pid) e \<Longrightarrow> feed_step H fd (on_message pid m fd)"
| ping: "feed_step H fd (markDepthProtocol pid fd)"
| closed: "feed_step H fd (on_close pid socket fd)"
| due: "fd_timers fd pid = Some t \<Longrightarrow> t \<le> fd_now fd \<Longrightarrow> feed_step H fd (reconnect_due pid fd)"
| watchdog: "feed_step H fd (fst (runDepthWatchdog fd))"
| beat: "feed_step H fd (heartbeat pid fd)"
| stopped: "feed_step H fd (stopBinanceWebSockets fd)"

definition idle_feed :: feed where
  "idle_feed = \<lparr>fd_now = 0, fd_caches = \<lambda>_. None, fd_desired = [], fd_conns = \<lambda>_. None, fd_sockets = 0, fd_timers = \<lambda>_. None,
     fd_reconnecting = [], fd_activity = \<lambda>_. None, fd_protocol = \<lambda>_. None, fd_mirrored = \<lambda>_. None, fd_mirror = \<lambda>_. None,
     fd_published = [], fd_ticks = \<lambda>_. 0, fd_requests = []\<rparr>"

inductive feed_run :: "(pair_id \<Rightarrow> history) \<Rightarrow> feed \<Rightarrow> bool" for H where
  idle: "feed_run H idle_feed"
| more: "feed_run H fd \<Longrightarrow> feed_step H fd fd' \<Longrightarrow> feed_run H fd'"

lemma step_true:
  assumes "feed_step H fd fd'" "\<forall>pid. venue_levels (H pid)" "feed_true H fd"
  shows "feed_true H fd'"
  using assms
proof cases
  case (started pid)
  then show ?thesis
    using assms(3) by (intro feed_true_set [OF assms(3), of pid blank_cache])
      (simp_all add: start_pair_def cache_true_def blank_cache_def)
next
  case (answered pid pur reply created)
  then show ?thesis using answered_true assms(2,3) by blast
next
  case (message m pid)
  have "feed_true H (markDepthActivity pid fd)" using assms(3) by (rule feed_true_frame) simp
  then show ?thesis using message handled_true by (auto simp: on_message_def split: option.split)
next
  case (due pid t)
  have "fd_caches fd' = fd_caches fd \<or> fd_caches fd' = (fd_caches fd)(pid \<mapsto> blank_cache)"
    using due by (auto simp: reconnect_due_def resetDepthCache_def Let_def)
  then show ?thesis
    using assms(3) feed_true_frame feed_true_set [of H fd pid blank_cache fd'] by (auto simp: cache_true_def blank_cache_def)
next
  case watchdog
  then show ?thesis using watchdog_true [OF assms(3)] by (simp add: runDepthWatchdog_def)
qed (use assms(3) in \<open>auto elim!: feed_true_frame\<close>)

lemma run_true: "feed_run H fd \<Longrightarrow> \<forall>pid. venue_levels (H pid) \<Longrightarrow> feed_true H fd"
proof (induction rule: feed_run.induct)
  case idle
  then show ?case by (simp add: feed_true_def idle_feed_def)
next
  case (more fd fd')
  then show ?case using step_true by blast
qed

section \<open>Properties\<close>

text \<open>What a side of a snapshot says: the venue's levels of one update id, best first, none missing that is not worse than all the
  levels of the snapshot it was built from.\<close>

definition quotes :: "history \<Rightarrow> string \<Rightarrow> nat \<Rightarrow> raw_level list \<Rightarrow> level list \<Rightarrow> bool" where
  "quotes h side u rs ls \<longleftrightarrow> sorted_wrt (ahead side) ls \<and>
     (\<forall>l\<in>set ls. h u side (to_number (l_price l)) = Some (to_number (l_quantity l))) \<and>
     (\<forall>p q. h u side p = Some q \<and> \<not> beyond side rs p \<longrightarrow> level_of (p, q) \<in> set ls)"

lemma quotes_sorted_copy:
  assumes "venue_levels h" and "agrees h side u rs m"
  shows "quotes h side u rs (map level_of (sort_before (better_price side) m))"
proof -
  have d: "distinct (map fst m)" using assms(2) unfolding agrees_def by blast
  have a1: "h u side p = Some q" if "(p, q) \<in> set m" for p q
  proof -
    have "map_of m p = Some q" using d that by simp
    then show ?thesis using assms(2) unfolding agrees_def by blast
  qed
  have a2: "(p, q) \<in> set m" if "h u side p = Some q" "\<not> beyond side rs p" for p q
  proof -
    have "map_of m p = h u side p" using assms(2) that(2) unfolding agrees_def by blast
    then show ?thesis using that(1) by (simp add: map_of_SomeD)
  qed
  have "\<exists>x. p = Fin x \<and> is_num p" if "p \<in> fst ` set m" for p
  proof -
    obtain q where "(p, q) \<in> set m" using \<open>p \<in> fst ` set m\<close> by auto
    then have "positive_double p" using a1 assms(1) unfolding venue_levels_def by blast
    then show ?thesis unfolding positive_double_def using finite_is_Fin by blast
  qed
  then have m: "m \<in> double_prices" "sort_before (better_price side) m \<in> double_prices" by (auto simp: double_prices_def)
  have "distinct (map fst (sort_before (better_price side) m))"
    using d by (metis mset_eq_imp_distinct_iff mset_map mset_sort_before)
  from sorted_distinct_ahead [OF m(2) this sorted_sort_before [OF better_price_weak [OF m(1)] order_refl]]
  have "sorted_wrt (ahead side) (map level_of (sort_before (better_price side) m))" .
  moreover have "h u side (to_number (l_price (level_of x))) = Some (to_number (l_quantity (level_of x)))" if "x \<in> set m" for x
    using a1 [of "fst x" "snd x"] that by (simp add: level_of_def)
  moreover have "level_of (p, q) \<in> level_of ` set m" if "h u side p = Some q \<and> \<not> beyond side rs p" for p q
    using a2 that by blast
  ultimately show ?thesis by (simp add: quotes_def)
qed


text \<open>A venue whose best ask moves once, and a feed that follows it.\<close>

definition small_venue :: "pair_id \<Rightarrow> history" where
  "small_venue pid u side p =
     (if side = ''bid'' then (if p = Fin 10 then Some (Fin 4) else None)
      else if side = ''ask'' then (if p = Fin 11 then Some (if u < 8 then Fin 3 else Fin 5) else None) else None)"

definition small_reply :: depth_reply where
  "small_reply = \<lparr>dr_bids = [(JNum (Fin 10), JNum (Fin 4))], dr_asks = [(JNum (Fin 11), JNum (Fin 3))], dr_last = 6\<rparr>"

definition small_update :: update where
  "small_update = \<lparr>ev_bids = [], ev_asks = [(JNum (Fin 11), JNum (Fin 5))], ev_first = 7, ev_final = 8\<rparr>"

definition followed :: feed where
  "followed = on_message ''p'' (Some small_update) (snapshot_answered ''p'' AtStart (Some small_reply) True (start_pair ''p'' idle_feed))"

lemma small_venue_levels: "venue_levels (small_venue pid)"
proof -
  have "positive_double (Fin 10)" "positive_double (Fin 11)" "positive_double (Fin 3)" "positive_double (Fin 4)" "positive_double (Fin 5)"
    by code_simp+
  then show ?thesis by (auto simp: venue_levels_def small_venue_def)
qed

lemma small_reply_faithful: "faithful_reply (small_venue pid) small_reply"
  by (auto simp: faithful_reply_def snapshot_tells_def small_venue_def small_reply_def reading_def beyond_def)

lemma small_update_faithful: "faithful_update (small_venue pid) small_update"
  by (auto simp: faithful_update_def update_tells_def small_venue_def small_update_def last_reading_def reading_def)

lemma followed_run: "feed_run small_venue followed"
proof -
  have s: "feed_run small_venue (start_pair ''p'' idle_feed)" by (rule feed_run.more [OF feed_run.idle feed_step.started])
  have a: "feed_step small_venue (start_pair ''p'' idle_feed) (snapshot_answered ''p'' AtStart (Some small_reply) True (start_pair ''p'' idle_feed))"
    by (rule feed_step.answered) (simp_all add: small_reply_faithful start_pair_def request_def)
  show ?thesis unfolding followed_def
    by (rule feed_run.more [OF feed_run.more [OF s a]], rule feed_step.message) (simp add: small_update_faithful)
qed


subsection \<open>The watchdog\<close>

definition healing :: "pair_id \<Rightarrow> feed \<Rightarrow> bool" where
  "healing pid fd \<longleftrightarrow> fd_timers fd pid \<noteq> None \<or> (pid, ForStream) \<in> set (fd_requests fd)"

definition recovering :: "pair_id \<Rightarrow> feed \<Rightarrow> bool" where
  "recovering pid fd \<longleftrightarrow> (\<forall>c. fd_caches fd pid = Some c \<and> ca_last c = 0 \<and> ca_desync c \<noteq> 0 \<longrightarrow>
     fd_now fd - ca_desync c \<le> DEPTH_DESYNC_RECOVERY_MS)"

definition alive :: "pair_id \<Rightarrow> feed \<Rightarrow> bool" where
  "alive pid fd \<longleftrightarrow> fd_conns fd pid \<noteq> None \<and> silent_for pid fd \<le> DEPTH_SILENCE_MS \<and> recovering pid fd"

definition waits_for_reply :: "feed \<Rightarrow> bool" where
  "waits_for_reply fd \<longleftrightarrow> (\<forall>pid\<in>set (fd_reconnecting fd). (pid, ForStream) \<in> set (fd_requests fd))"

lemma waits_frame: "waits_for_reply fd \<Longrightarrow> set (fd_reconnecting fd') \<subseteq> set (fd_reconnecting fd) \<Longrightarrow>
    set (fd_requests fd) \<subseteq> set (fd_requests fd') \<Longrightarrow> waits_for_reply fd'"
  by (auto simp: waits_for_reply_def)

lemma requests_frame [simp]:
  "fd_requests (markDepthActivity pid fd) = fd_requests fd" "fd_requests (markDepthProtocol pid fd) = fd_requests fd"
  "fd_requests (mirrorDepthToRedis pid force fd) = fd_requests fd" "fd_requests (notifyDepthListener pid type fd) = fd_requests fd"
  "fd_requests (emitOrderBook pid type fd) = fd_requests fd" "fd_requests (heartbeat pid fd) = fd_requests fd"
  "fd_requests (request pid pur fd) = fd_requests fd @ [(pid, pur)]" "fd_requests (scheduleDepthReconnect pid delay fd) = fd_requests fd"
  "fd_requests (restartDepthStream pid fd) = fd_requests fd" "fd_requests (on_close pid socket fd) = fd_requests fd"
  "fd_requests (startDepthStream pid created fd) = fd_requests fd" "fd_requests (set_cache pid c fd) = fd_requests fd"
  "fd_requests (stopBinanceWebSockets fd) = fd_requests fd" "fd_requests (processBufferedEvents pid fd) = fd_requests fd"
  "fd_requests (fst (fetchDepthSnapshot pid reply fd)) = fd_requests fd"
  by (simp_all add: markDepthActivity_def markDepthProtocol_def mirrorDepthToRedis_def notifyDepthListener_def emitOrderBook_def
      heartbeat_def request_def scheduleDepthReconnect_def restartDepthStream_def on_close_def startDepthStream_def set_cache_def
      stopBinanceWebSockets_def processBufferedEvents_def fetchDepthSnapshot_def Let_def split: option.split)

lemma reconnecting_frame [simp]:
  "fd_reconnecting (markDepthActivity pid fd) = fd_reconnecting fd" "fd_reconnecting (markDepthProtocol pid fd) = fd_reconnecting fd"
  "fd_reconnecting (mirrorDepthToRedis pid force fd) = fd_reconnecting fd" "fd_reconnecting (notifyDepthListener pid type fd) = fd_reconnecting fd"
  "fd_reconnecting (emitOrderBook pid type fd) = fd_reconnecting fd" "fd_reconnecting (heartbeat pid fd) = fd_reconnecting fd"
  "fd_reconnecting (request pid pur fd) = fd_reconnecting fd" "fd_reconnecting (scheduleDepthReconnect pid delay fd) = fd_reconnecting fd"
  "fd_reconnecting (restartDepthStream pid fd) = fd_reconnecting fd" "fd_reconnecting (on_close pid socket fd) = fd_reconnecting fd"
  "fd_reconnecting (startDepthStream pid created fd) = fd_reconnecting fd" "fd_reconnecting (set_cache pid c fd) = fd_reconnecting fd"
  "fd_reconnecting (processBufferedEvents pid fd) = fd_reconnecting fd"
  "fd_reconnecting (fst (fetchDepthSnapshot pid reply fd)) = fd_reconnecting fd"
  by (simp_all add: markDepthActivity_def markDepthProtocol_def mirrorDepthToRedis_def notifyDepthListener_def emitOrderBook_def
      heartbeat_def request_def scheduleDepthReconnect_def restartDepthStream_def on_close_def startDepthStream_def set_cache_def
      processBufferedEvents_def fetchDepthSnapshot_def Let_def split: option.split)

lemma watchdog_pair_requests:
  "fd_reconnecting (fst (watchdog_pair pid fd)) = fd_reconnecting fd \<and> set (fd_requests fd) \<subseteq> set (fd_requests (fst (watchdog_pair pid fd)))"
  by (auto simp: watchdog_pair_def split: option.split)

lemma watch_pairs_requests:
  "fd_reconnecting (fst (watch_pairs pids fd)) = fd_reconnecting fd \<and> set (fd_requests fd) \<subseteq> set (fd_requests (fst (watch_pairs pids fd)))"
proof (induction pids arbitrary: fd)
  case (Cons pid pids)
  then show ?case
    using watchdog_pair_requests [of pid fd] Cons.IH [of "fst (watchdog_pair pid fd)"] by (simp add: case_prod_unfold) blast
qed simp

lemma answered_waits: "waits_for_reply fd \<Longrightarrow> waits_for_reply (snapshot_answered pid pur reply created fd)"
  by (cases pur) (auto simp: snapshot_answered_def waits_for_reply_def Let_def case_prod_unfold set_remove1_eq)

lemma run_waits: "feed_run H fd \<Longrightarrow> waits_for_reply fd"
proof (induction rule: feed_run.induct)
  case idle
  then show ?case by (simp add: waits_for_reply_def idle_feed_def)
next
  case (more fd fd')
  from more.hyps(2) more.IH show ?case
  proof cases
    case (message m pid)
    then show ?thesis using more.IH
      by (intro waits_frame [OF more.IH]) (auto simp: on_message_def handleDepthUpdate_def split: option.split)
  next
    case (due pid t)
    then show ?thesis using more.IH by (auto simp: waits_for_reply_def reconnect_due_def resetDepthCache_def Let_def)
  next
    case watchdog
    then show ?thesis using watch_pairs_requests more.IH by (intro waits_frame [OF more.IH]) (auto simp: runDepthWatchdog_def)
  next
    case stopped
    then show ?thesis by (simp add: waits_for_reply_def stopBinanceWebSockets_def)
  qed (auto simp: answered_waits start_pair_def elim!: waits_frame)
qed

lemma watchdog_pair_own:
  assumes "waits_for_reply fd"
  shows "healing pid (fst (watchdog_pair pid fd)) \<or> alive pid (fst (watchdog_pair pid fd))"
proof (cases "fd_conns fd pid")
  case None
  then show ?thesis
    using assms by (auto simp: watchdog_pair_def pending_def healing_def waits_for_reply_def scheduleDepthReconnect_def)
next
  case (Some socket)
  show ?thesis
  proof (cases "silent_for pid fd > DEPTH_SILENCE_MS")
    case True
    then show ?thesis using Some by (simp add: watchdog_pair_def healing_def restartDepthStream_def scheduleDepthReconnect_def)
  next
    case False
    then show ?thesis
      using Some by (auto simp: watchdog_pair_def alive_def recovering_def silent_for_def request_def set_cache_def
          DEPTH_DESYNC_RECOVERY_MS_def split: option.split)
  qed
qed

lemma watchdog_pair_others:
  assumes "pid' \<noteq> pid"
  shows "healing pid fd \<Longrightarrow> healing pid (fst (watchdog_pair pid' fd))" "alive pid fd \<Longrightarrow> alive pid (fst (watchdog_pair pid' fd))"
  using assms
  by (auto simp: watchdog_pair_def healing_def alive_def recovering_def silent_for_def scheduleDepthReconnect_def restartDepthStream_def
      request_def set_cache_def split: option.split)

lemma watch_pairs_heal:
  assumes "waits_for_reply fd" and "pid \<in> set pids \<or> healing pid fd \<or> alive pid fd"
  shows "healing pid (fst (watch_pairs pids fd)) \<or> alive pid (fst (watch_pairs pids fd))"
  using assms
proof (induction pids arbitrary: fd)
  case (Cons pid' pids)
  have w: "waits_for_reply (fst (watchdog_pair pid' fd))"
    using waits_frame [OF Cons.prems(1)] watchdog_pair_requests [of pid' fd] by simp
  have "pid \<in> set pids \<or> healing pid (fst (watchdog_pair pid' fd)) \<or> alive pid (fst (watchdog_pair pid' fd))"
    using Cons.prems(2) watchdog_pair_own [OF Cons.prems(1)] watchdog_pair_others [of pid' pid fd] by (cases "pid = pid'") auto
  from Cons.IH [OF w this] show ?case by (simp add: case_prod_unfold)
qed simp

text \<open>The answer to a reconnect, a failed one as well, ends with a stream.\<close>

lemma reconnect_connects:
  "pid \<in> set (fd_desired fd) \<Longrightarrow>
     fd_conns (snapshot_answered pid ForStream reply True (reconnect_due pid fd)) pid \<noteq> None"
  by (auto simp: snapshot_answered_def startDepthStream_def markDepthActivity_def case_prod_unfold Let_def)


lemma followed_desired: "fd_desired followed = [''p'']"
  by (simp add: followed_def on_message_def handleDepthUpdate_def snapshot_answered_def fetchDepthSnapshot_def start_pair_def
      idle_feed_def set_cache_def request_def blank_cache_def small_reply_def small_update_def
      out_of_sequence_def markDepthActivity_def startDepthStream_def emitOrderBook_def notifyDepthListener_def mirrorDepthToRedis_def Let_def)

definition silent_feed :: feed where
  "silent_feed = followed\<lparr>fd_now := 40000\<rparr>"


subsection \<open>A recovery that loses what it waited for\<close>

text \<open>C40: A snapshot that was taken before the newest buffered update cannot be continued from: the answer to the request
  empties the buffer before the buffered updates are looked at, so the update that follows them leaves a
  gap, the copy is thrown away again and another snapshot is asked for; and so on for as long as updates arrive between a request
  and its answer.\<close>

theorem recovery_drops_the_buffer:
  assumes "fd_caches fd pid = Some c" and "ca_last c = 0" and "dr_last d < ev_final e" and "dr_last d \<noteq> 0"
    and "ev_first e' = ev_final e + 1"
  shows "\<exists>c1 c2. fd_caches (on_message pid (Some e) fd) pid = Some c1 \<and> e \<in> set (ca_buffer c1) \<and>
    fd_caches (on_message pid (Some e') (snapshot_answered pid ForBuffer (Some d) created (on_message pid (Some e) fd))) pid = Some c2 \<and>
    ca_last c2 = 0 \<and> ca_buffer c2 = [] \<and>
    (pid, ForBuffer) \<in> set (fd_requests (on_message pid (Some e') (snapshot_answered pid ForBuffer (Some d) created (on_message pid (Some e) fd))))"
proof -
  define fd1 where "fd1 = on_message pid (Some e) fd"
  define c1 where "c1 = c\<lparr>ca_desync := (if ca_desync c = 0 then fd_now fd else ca_desync c),
    ca_buffer := keep_last MAX_BUFFERED_EVENTS (ca_buffer c @ [e])\<rparr>"
  have n: "fd_now (markDepthActivity pid fd) = fd_now fd" by (simp add: markDepthActivity_def)
  have c1: "fd_caches fd1 pid = Some c1" using assms(1,2) by (simp add: fd1_def on_message_def handleDepthUpdate_def c1_def n)
  have b: "e \<in> set (ca_buffer c1)" by (simp add: c1_def keep_last_def MAX_BUFFERED_EVENTS_def)
  define fd2 where "fd2 = snapshot_answered pid ForBuffer (Some d) created fd1"
  obtain c2 where c2: "fd_caches fd2 pid = Some c2" "ca_last c2 = dr_last d" "ca_buffer c2 = []"
    using c1 by (auto simp: fd2_def snapshot_answered_def fetchDepthSnapshot_def processBufferedEvents_def)
  have "out_of_sequence e' c2" using assms(3,5) c2(2) by (simp add: out_of_sequence_def)
  then show ?thesis
    using c1 b c2 assms(4) unfolding fd1_def [symmetric] fd2_def [symmetric]
    by (auto simp: on_message_def handleDepthUpdate_def)
qed

theorem recovery_drops_the_buffer_witness:
  "\<exists>c2. fd_caches (on_message ''p'' (Some (small_update\<lparr>ev_first := 9, ev_final := 10\<rparr>))
      (snapshot_answered ''p'' ForBuffer (Some small_reply) True (on_message ''p'' (Some small_update) (start_pair ''p'' idle_feed)))) ''p'' = Some c2 \<and>
    ca_last c2 = 0"
proof -
  have c: "fd_caches (start_pair ''p'' idle_feed) ''p'' = Some blank_cache" by (simp add: start_pair_def)
  have z: "ca_last blank_cache = 0" by (simp add: blank_cache_def)
  have l: "dr_last small_reply < ev_final small_update" "dr_last small_reply \<noteq> 0"
    "ev_first (small_update\<lparr>ev_first := 9, ev_final := 10\<rparr>) = ev_final small_update + 1"
    by (simp_all add: small_reply_def small_update_def)
  from recovery_drops_the_buffer [OF c z l(1,2,3), of True] show ?thesis by blast
qed

text \<open>A stop while a reconnect waits for its snapshot is undone by the answer.\<close>

lemma stop_is_undone:
  "fd_conns (snapshot_answered pid ForStream reply True (stopBinanceWebSockets fd)) pid \<noteq> None"
  by (auto simp: snapshot_answered_def startDepthStream_def markDepthActivity_def case_prod_unfold Let_def)

section \<open>What the book of the exchange gets\<close>

text \<open>The depth this feed hands to the published book is of the kind its honesty rests on.\<close>

lemma snapshot_clean:
  assumes "feed_run H fd" and "\<forall>pid. venue_levels (H pid)"
  shows "clean_book (getDepthSnapshot pid fd)"
proof (cases "getDepthSnapshot pid fd")
  case (Some b)
  then obtain c where c: "fd_caches fd pid = Some c" "ca_last c \<noteq> 0"
    "b_bids b = Some (map level_of (sort_before (better_price ''bid'') (ca_bids c)))"
    "b_asks b = Some (map level_of (sort_before (better_price ''ask'') (ca_asks c)))"
    by (auto simp: getDepthSnapshot_def split: option.splits if_splits)
  have "cache_true (H pid) c" using run_true [OF assms] c(1) unfolding feed_true_def by blast
  then obtain d where d: "synced_with (H pid) d c" using c(2) unfolding cache_true_def by blast
  have v: "positive_double p \<and> positive_double q" if "agrees (H pid) side u rs m" "(p, q) \<in> set m" for side u rs m p q
  proof -
    have "map_of m p = Some q" using that by (simp add: agrees_def)
    then have "H pid u side p = Some q" using that(1) unfolding agrees_def by blast
    then show ?thesis using assms(2) unfolding venue_levels_def by blast
  qed
  have "clean_levels (map level_of (sort_before lt m))" if "agrees (H pid) side u rs m" for lt side u rs m
    using v [OF that] by (auto simp: clean_levels_def level_of_def num_val_def positive_double_def)
  then have "clean_levels (the (b_bids b)) \<and> clean_levels (the (b_asks b))"
    using d unfolding synced_with_def c(3,4) option.sel by blast
  then show ?thesis by (simp add: clean_book_def Some c(3,4))
qed (simp add: clean_book_def)

section \<open>The tape of trades\<close>

text \<open>
  Prints are buffered and published at most every quarter second; the newest sixty are kept. The state is
  the buffers, the timers that are running and what was published.
\<close>

record print =
  pt_id :: jsval
  pt_time :: int
  pt_side :: string
  pt_price :: jsnum
  pt_quantity :: jsnum

record tape =
  tp_buffers :: "pair_id \<Rightarrow> print list option"
  tp_timers :: "pair_id \<Rightarrow> bool"
  tp_out :: "(pair_id \<times> print list) list"

definition TRADE_BUFFER_MAX :: nat where
  "TRADE_BUFFER_MAX = 60"

definition flushTradeBuffer :: "pair_id \<Rightarrow> tape \<Rightarrow> tape" where
  "flushTradeBuffer pid t =
     (let t1 = t\<lparr>tp_timers := (tp_timers t)(pid := False)\<rparr> in
      case tp_buffers t pid of
        None \<Rightarrow> t1
      | Some ps \<Rightarrow> if ps = [] then t1
                   else t1\<lparr>tp_out := tp_out t @ [(pid, ps)], tp_buffers := (tp_buffers t)(pid \<mapsto> [])\<rparr>)"

definition handleTradeUpdate :: "pair_id \<Rightarrow> print \<Rightarrow> tape \<Rightarrow> tape" where
  "handleTradeUpdate pid x t =
     (let ps = (case tp_buffers t pid of None \<Rightarrow> [] | Some ps \<Rightarrow> ps) @ [x] in
      t\<lparr>tp_buffers := (tp_buffers t)(pid \<mapsto> (if length ps > TRADE_BUFFER_MAX then tl ps else ps)),
        tp_timers := (tp_timers t)(pid := True)\<rparr>)"

text \<open>A print that is waiting has a flush on its way, and no buffer is longer than sixty.\<close>

definition tape_ok :: "tape \<Rightarrow> bool" where
  "tape_ok t \<longleftrightarrow> (\<forall>pid ps. tp_buffers t pid = Some ps \<longrightarrow> length ps \<le> TRADE_BUFFER_MAX \<and> (ps \<noteq> [] \<longrightarrow> tp_timers t pid))"

lemma tape_keeps_ok: "tape_ok t \<Longrightarrow> tape_ok (handleTradeUpdate pid x t) \<and> tape_ok (flushTradeBuffer pid t)"
  by (auto simp: tape_ok_def handleTradeUpdate_def flushTradeBuffer_def TRADE_BUFFER_MAX_def Let_def split: option.splits)

lemma flush_publishes:
  "tape_ok t \<Longrightarrow> tp_buffers (handleTradeUpdate pid x t) pid = Some ps \<Longrightarrow>
     (pid, ps) \<in> set (tp_out (flushTradeBuffer pid (handleTradeUpdate pid x t))) \<and> last ps = x"
  by (auto simp: handleTradeUpdate_def flushTradeBuffer_def TRADE_BUFFER_MAX_def Let_def tl_append split: option.splits list.splits if_splits)

end
