(* ===== verification/WalletLedger.thy ===== *)
theory WalletLedger
  imports Wallets
begin

text \<open>
  The balances as the wallet service sees them: the free balance of a pot
  (\<^verbatim>\<open>cryptodex-walletapi/lib/walletBalance.js\<close>), the debit that decides and applies in one script and the
  credit (\<^verbatim>\<open>lib/walletLedger.js\<close>, \<^verbatim>\<open>lib/spotMirror.js\<close>, \<^verbatim>\<open>controllers/redis.controller.js\<close>), the digits a balance is shown to
  (\<^verbatim>\<open>lib/currencyDecimals.js\<close>) and the two routes that show a wallet (\<^verbatim>\<open>controllers/wallet.controller.js\<close>). Wallet and
  currency documents come from the database and are arguments.
\<close>

section \<open>The split of a pot\<close>

definition round8 :: "jsnum \<Rightarrow> jsnum" where
  "round8 x = parse_float_str (to_fixed_str x 8)"

definition toLedgerNumber :: "jsval \<Rightarrow> jsnum" where
  "toLedgerNumber v =
     (if v = JNull \<or> v = JUndef \<or> v = JStr [] then Fin 0
      else let parsed = parse_float v in if is_finite parsed then parsed else Fin 0)"

definition held :: "jsval \<Rightarrow> jsval \<Rightarrow> jsnum" where
  "held whole locked = js_min (js_max (toLedgerNumber locked) (Fin 0)) (js_max (toLedgerNumber whole) (Fin 0))"

definition freeBalance :: "jsval \<Rightarrow> jsval \<Rightarrow> jsnum" where
  "freeBalance whole locked = round8 (toLedgerNumber whole - held whole locked)"

record breakdown =
  bd_total :: jsnum
  bd_locked :: jsnum
  bd_free :: jsnum

definition balanceBreakdown :: "jsval \<Rightarrow> jsval \<Rightarrow> breakdown" where
  "balanceBreakdown whole locked =
     \<lparr>bd_total = round8 (toLedgerNumber whole), bd_locked = round8 (held whole locked),
      bd_free = round8 (toLedgerNumber whole - held whole locked)\<rparr>"

datatype shortfall = Insufficient | Reserved jsnum jsnum

definition lockedShortfallMessage :: "jsval \<Rightarrow> jsval \<Rightarrow> shortfall" where
  "lockedShortfallMessage free locked =
     (let lockedNum = js_max (toLedgerNumber locked) (Fin 0) in
      if lockedNum \<le> Fin 0 then Insufficient
      else Reserved (round8 (js_max (toLedgerNumber free) (Fin 0))) (round8 lockedNum))"

section \<open>The digits of a currency\<close>

definition MAX_DISPLAY_DECIMALS :: jsnum where
  "MAX_DISPLAY_DECIMALS = Fin 8"

definition DEFAULT_FIAT_DECIMALS :: jsnum where
  "DEFAULT_FIAT_DECIMALS = Fin 2"

definition DEFAULT_CRYPTO_DECIMALS :: jsnum where
  "DEFAULT_CRYPTO_DECIMALS = Fin 8"

definition asPrecision :: "jsval \<Rightarrow> jsnum option" where
  "asPrecision v = (let n = parse_float v in
     if \<not> is_finite n then None else if n < Fin 0 then None else Some (js_floor n))"

record currency_row =
  cd_id :: currency_id
  cd_coin :: string
  cd_type :: string
  cd_decimals :: jsval
  cd_contract :: jsval

definition or_else :: "'a option \<Rightarrow> 'a option \<Rightarrow> 'a option" where
  "or_else a b = (case a of None \<Rightarrow> b | Some x \<Rightarrow> Some x)"

definition resolveDisplayDecimals :: "currency_row option \<Rightarrow> jsnum" where
  "resolveDisplayDecimals currency = (case currency of
      None \<Rightarrow> DEFAULT_CRYPTO_DECIMALS
    | Some c \<Rightarrow>
        (let token = (cd_type c = ''token'');
             primary = asPrecision (if token then cd_decimals c else cd_contract c);
             secondary = asPrecision (if token then cd_contract c else cd_decimals c);
             fallback = (if cd_type c = ''fiat'' then DEFAULT_FIAT_DECIMALS else DEFAULT_CRYPTO_DECIMALS)
         in js_min (case or_else primary secondary of None \<Rightarrow> fallback | Some n \<Rightarrow> n) MAX_DISPLAY_DECIMALS))"

definition withDisplayDecimals :: "currency_row \<Rightarrow> currency_row \<times> jsnum" where
  "withDisplayDecimals c =
     (let d = resolveDisplayDecimals (Some c) in
      (c\<lparr>cd_contract := (if asPrecision (cd_contract c) = None then JNum d else cd_contract c)\<rparr>, d))"

text \<open>Currencies by id and by coin; the first of a coin counts.\<close>

definition add_precision :: "currency_row \<Rightarrow> (string \<times> (jsnum \<times> string)) list \<Rightarrow> (string \<times> (jsnum \<times> string)) list" where
  "add_precision c m =
     (let entry = (resolveDisplayDecimals (Some c), cd_type c); m1 = put (cd_id c) entry m in
      if cd_coin c \<noteq> [] \<and> map_of m1 (cd_coin c) = None then put (cd_coin c) entry m1 else m1)"

section \<open>The debit that decides in the store\<close>

definition SPOT_TOTAL :: string where
  "SPOT_TOTAL = ''walletbalance_spot''"

definition SPOT_HELD :: string where
  "SPOT_HELD = ''walletbalance_spot_locked''"

definition lua_or_zero :: "rval option \<Rightarrow> jsnum" where
  "lua_or_zero v = (case v of None \<Rightarrow> Fin 0 | Some t \<Rightarrow> (case lua_number t of None \<Rightarrow> Fin 0 | Some n \<Rightarrow> n))"

definition lua_nano :: jsnum where
  "lua_nano = to_num (1 / 10 ^ 9)"

definition DEBIT_IF_FREE_LUA ::
    "service \<Rightarrow> string \<Rightarrow> string \<Rightarrow> field \<Rightarrow> rval \<Rightarrow> 'a redis_scheme \<Rightarrow> 'a redis_scheme \<times> rval reply" where
  "DEBIT_IF_FREE_LUA svc totalKey lockedKey f arg st =
     (let avail = lua_or_zero (hashes st totalKey f); lock = lua_or_zero (hashes st lockedKey f);
          amt = lua_or_zero (Some arg) in
      if amt \<le> Fin 0 then (st, Refused)
      else if avail - lock + lua_nano \<ge> amt
      then (case HINCRBYFLOAT svc totalKey f (negated arg) st of None \<Rightarrow> (st, Raised) | Some (st1, v) \<Rightarrow> (st1, Done v))
      else (st, Refused))"

text \<open>What the script raises, and a server that is away, answer null.\<close>

definition hdecrbyfloatIfFree ::
    "service \<Rightarrow> string \<Rightarrow> string \<Rightarrow> field \<Rightarrow> jsnum \<Rightarrow> 'a redis_scheme \<Rightarrow> 'a redis_scheme \<times> rval option" where
  "hdecrbyfloatIfFree svc totalKey lockedKey f amt st =
     (if \<not> is_finite amt \<or> amt \<le> Fin 0 \<or> \<not> online st then (st, None)
      else case DEBIT_IF_FREE_LUA svc totalKey lockedKey f (spelled amt) st of
        (st1, Done v) \<Rightarrow> (st1, Some v) | (st1, _) \<Rightarrow> (st1, None))"

section \<open>Debit and credit of a wallet\<close>

definition WALLET_LEDGERS :: "string \<Rightarrow> (string \<times> string) option" where
  "WALLET_LEDGERS t = (if t = ''spot'' then Some (SPOT_TOTAL, SPOT_HELD) else None)"

definition finite_part :: "jsnum \<Rightarrow> jsnum" where
  "finite_part n = (if is_finite n then n else Fin 0)"

record pot =
  po_total :: jsnum
  po_locked :: jsnum
  po_free :: jsnum

definition pot_of :: "jsnum \<Rightarrow> jsnum \<Rightarrow> pot" where
  "pot_of whole locked = \<lparr>po_total = whole, po_locked = locked, po_free = whole - locked\<rparr>"

text \<open>Reading raises when the server is away.\<close>

definition readWallet :: "string \<Rightarrow> field \<Rightarrow> 'a redis_scheme \<Rightarrow> pot option reply" where
  "readWallet walletType f st = (case WALLET_LEDGERS walletType of
      None \<Rightarrow> Done None
    | Some (totalKey, lockedKey) \<Rightarrow>
        if \<not> online st then Raised
        else Done (Some (pot_of (finite_part (field_float (hashes st totalKey f))) (finite_part (field_float (hashes st lockedKey f))))))"

datatype moved = Moved jsnum pot | Not_moved string "pot option"

definition debitFree :: "service \<Rightarrow> string \<Rightarrow> field \<Rightarrow> jsval \<Rightarrow> 'a redis_scheme \<Rightarrow> 'a redis_scheme \<times> moved reply" where
  "debitFree svc walletType f v st =
     (let amt = parse_float v in
      case WALLET_LEDGERS walletType of
        None \<Rightarrow> (st, Done (Not_moved ''unknown_wallet'' None))
      | Some (totalKey, lockedKey) \<Rightarrow>
          if \<not> is_finite amt \<or> amt \<le> Fin 0 then (st, Done (Not_moved ''invalid_amount'' None))
          else (case hdecrbyfloatIfFree svc totalKey lockedKey f amt st of
            (st1, None) \<Rightarrow>
              (st1, case readWallet walletType f st1 of
                  Done row \<Rightarrow> Done (Not_moved ''insufficient_free'' row) | _ \<Rightarrow> Raised)
          | (st1, Some after1) \<Rightarrow>
              (st1, Done (Moved amt (pot_of (finite_part (field_float (Some after1)))
                (finite_part (field_float (hashes st1 lockedKey f))))))))"

definition applySpotDelta :: "service \<Rightarrow> field \<Rightarrow> jsnum \<Rightarrow> 'a redis_scheme \<Rightarrow> 'a redis_scheme \<times> rval reply" where
  "applySpotDelta svc f d st =
     (if \<not> online st then (st, Raised)
      else case HINCRBYFLOAT svc SPOT_TOTAL f (spelled d) st of None \<Rightarrow> (st, Raised) | Some (st1, v) \<Rightarrow> (st1, Done v))"

definition creditWallet :: "service \<Rightarrow> string \<Rightarrow> field \<Rightarrow> jsval \<Rightarrow> 'a redis_scheme \<Rightarrow> 'a redis_scheme \<times> moved reply" where
  "creditWallet svc walletType f v st =
     (let amt = parse_float v in
      case WALLET_LEDGERS walletType of
        None \<Rightarrow> (st, Done (Not_moved ''unknown_wallet'' None))
      | Some (totalKey, lockedKey) \<Rightarrow>
          if \<not> is_finite amt \<or> amt \<le> Fin 0 then (st, Done (Not_moved ''invalid_amount'' None))
          else (case applySpotDelta svc f amt st of
            (st1, Done w) \<Rightarrow>
              (st1, Done (Moved amt (pot_of (finite_part (field_float (Some w))) (finite_part (field_float (hashes st1 lockedKey f))))))
          | (st1, _) \<Rightarrow> (st1, Raised)))"

section \<open>Showing a wallet\<close>

definition seedLedgerField :: "string \<Rightarrow> field \<Rightarrow> jsval \<Rightarrow> spot \<Rightarrow> spot \<times> rval option" where
  "seedLedgerField key f fallback st = (case hashes st key f of
      Some v \<Rightarrow> if v \<noteq> RText [] then (st, Some v) else (st, hashes (fst (hsetnx key f (or_else_zero fallback) st)) key f)
    | None \<Rightarrow> (let st1 = fst (hsetnx key f (or_else_zero fallback) st) in (st1, hashes st1 key f)))"

definition rval_js :: "rval option \<Rightarrow> jsval" where
  "rval_js v = (case v of None \<Rightarrow> JNull | Some (RText s) \<Rightarrow> JStr s | Some (RDec q) \<Rightarrow> JNum (to_num q))"

record shown_asset =
  sh_asset :: asset
  sh_spot :: "rval option"
  sh_in_order :: "rval option"
  sh_available :: jsnum
  sh_locked :: "rval option"
  sh_decimals :: jsnum
  sh_type :: string

definition precision_of :: "(string \<times> (jsnum \<times> string)) list \<Rightarrow> asset \<Rightarrow> jsnum \<times> string" where
  "precision_of m a =
     (case or_else (map_of m (case a_currency_ref a of None \<Rightarrow> [] | Some i \<Rightarrow> i)) (map_of m (a_coin a)) of
        None \<Rightarrow> (DEFAULT_CRYPTO_DECIMALS, ''crypto'') | Some p \<Rightarrow> p)"

definition show_asset :: "(string \<times> (jsnum \<times> string)) list \<Rightarrow> user_id \<Rightarrow> asset \<Rightarrow> spot \<Rightarrow> spot \<times> shown_asset" where
  "show_asset m u a st =
     (let f = (u, a_currency a);
          (st1, spotBal) = seedLedgerField SPOT_TOTAL f (a_spot_bal a) st;
          (st2, lockedBal) = seedLedgerField SPOT_HELD f (a_locked a) st1;
          (st3, inOrder) = seedLedgerField IN_ORDER f (JNum (Fin 0)) st2
      in (st3, \<lparr>sh_asset = a, sh_spot = spotBal, sh_in_order = inOrder,
            sh_available = bd_free (balanceBreakdown (rval_js spotBal) (rval_js lockedBal)), sh_locked = lockedBal,
            sh_decimals = fst (precision_of m a), sh_type = snd (precision_of m a)\<rparr>))"

fun show_assets :: "(string \<times> (jsnum \<times> string)) list \<Rightarrow> user_id \<Rightarrow> asset list \<Rightarrow> spot \<Rightarrow> spot \<times> shown_asset list" where
  "show_assets m u [] st = (st, [])"
| "show_assets m u (a # as) st =
     (case show_asset m u a st of (st1, x) \<Rightarrow> (case show_assets m u as st1 of (st2, xs) \<Rightarrow> (st2, x # xs)))"

text \<open>The currencies are None when they cannot be read, which is not an error; a server that is away is one.\<close>

definition getWallet :: "asset list option \<Rightarrow> currency_row list option \<Rightarrow> user_id \<Rightarrow> spot \<Rightarrow> spot \<times> (int \<times> shown_asset list)" where
  "getWallet wallet currencies u st = (case wallet of
      None \<Rightarrow> (st, (400, []))
    | Some assets \<Rightarrow>
        if assets \<noteq> [] \<and> \<not> online st then (st, (500, []))
        else (case show_assets (fold add_precision (case currencies of None \<Rightarrow> [] | Some cs \<Rightarrow> cs) []) u assets st of
            (st1, xs) \<Rightarrow> (st1, (200, xs))))"

definition updatewalletfromdb :: "asset list option \<Rightarrow> user_id \<Rightarrow> spot \<Rightarrow> spot" where
  "updatewalletfromdb wallet u st =
     fold (\<lambda>a st. fst (seedLedgerField SPOT_TOTAL (u, a_currency a) (a_spot_bal a) st)) (case wallet of None \<Rightarrow> [] | Some as \<Rightarrow> as) st"

record asset_answer =
  an_spot :: "rval option"
  an_locked :: jsval
  an_available :: jsnum

text \<open>The answer is made of the balance that was read first.\<close>

definition getAssetByCurrency :: "asset list option \<Rightarrow> user_id \<Rightarrow> currency_id \<Rightarrow> spot \<Rightarrow> spot \<times> (int \<times> asset_answer option)" where
  "getAssetByCurrency wallet u i st = (case wallet of
      None \<Rightarrow> (st, (400, None))
    | Some assets \<Rightarrow>
        if \<not> online st then (st, (500, None))
        else (let spotBal = hashes st SPOT_TOTAL (u, i);
                  st1 = (if spotBal = None \<or> spotBal = Some (RText []) then updatewalletfromdb wallet u st else st);
                  locked = hashes st1 SPOT_HELD (u, i)
          in (st1, (200, Some \<lparr>an_spot = spotBal,
                an_locked = (if locked = None \<or> locked = Some (RText []) then JStr ''0'' else rval_js locked),
                an_available = bd_free (balanceBreakdown (rval_js spotBal) (rval_js locked))\<rparr>))))"

section \<open>The free balance\<close>

lemma toLedgerNumber_finite: "is_finite (toLedgerNumber v)"
  by (simp add: toLedgerNumber_def Let_def)

lemma held_between:
  "Fin 0 \<le> held t l \<and> held t l \<le> js_max (toLedgerNumber t) (Fin 0)"
proof -
  obtain x y where "toLedgerNumber t = Fin x" "toLedgerNumber l = Fin y"
    using toLedgerNumber_finite [of t] toLedgerNumber_finite [of l] by (metis is_finite.elims(2))
  then show ?thesis by (auto simp: held_def js_min_def js_max_def max_def min_def)
qed

text \<open>A negative counter frees nothing: what is free is at most the pot.\<close>

lemma negative_counter_frees_nothing:
  "toLedgerNumber l \<le> Fin 0 \<Longrightarrow> Fin 0 \<le> toLedgerNumber t \<Longrightarrow> held t l = Fin 0"
proof -
  assume "toLedgerNumber l \<le> Fin 0" "Fin 0 \<le> toLedgerNumber t"
  moreover obtain x y where "toLedgerNumber t = Fin x" "toLedgerNumber l = Fin y"
    using toLedgerNumber_finite [of t] toLedgerNumber_finite [of l] by (metis is_finite.elims(2))
  ultimately show ?thesis by (auto simp: held_def js_min_def js_max_def max_def min_def)
qed

section \<open>A debit leaves what is reserved\<close>

lemma to_num_near:
  assumes "\<bar>x\<bar> \<le> 2 ^ k" "k \<le> 1000"
  shows "to_num x = Fin (rnd64 x)" and "\<bar>rnd64 x - x\<bar> \<le> 2 powi (int k - 53)"
proof -
  show e: "\<bar>rnd64 x - x\<bar> \<le> 2 powi (int k - 53)" by (rule rnd64_abs_error [OF assms(1)])
  have "(2 :: rat) powi (int k - 53) \<le> 2 powi int k" by (subst powi_le_iff) auto
  then have "\<bar>rnd64 x\<bar> \<le> 2 ^ Suc k" using e assms(1) unfolding power_Suc power_int_of_nat by linarith
  moreover have "(2 :: rat) ^ Suc k < 2 ^ 1024" using assms(2) by (intro power_strict_increasing) auto
  ultimately show "to_num x = Fin (rnd64 x)" by (simp add: to_num_Fin del: power_numeral)
qed

definition nano :: rat where
  "nano = 1 / 10 ^ 9"

lemma lua_nano_near: "lua_nano = Fin (rnd64 nano)" "\<bar>rnd64 nano - nano\<bar> \<le> 2 powi (- 53)"
  using to_num_near [of nano 0] by (simp_all add: lua_nano_def nano_def)

lemma holds_lua: "holds key f q st \<Longrightarrow> lua_or_zero (hashes st key f) = to_num q"
  by (auto simp: holds_def lua_or_zero_def split: option.splits)

text \<open>What the script compares is the free balance up to the roundings of the comparison.\<close>

lemma compared_free:
  assumes q: "\<bar>q\<bar> \<le> 2 ^ k" and l: "\<bar>l\<bar> \<le> 2 ^ k" and k: "k \<le> 900"
  obtains x where "to_num q - to_num l + lua_nano = Fin x" "\<bar>x - (q - l + nano)\<bar> \<le> 2 powi (int k - 49)"
proof -
  define u where "u = (2 :: rat) powi (int k - 53)"
  have u: "2 powi (int (Suc k) - 53) = 2 * u" "2 powi (int (k + 2) - 53) = 4 * u" "2 powi (int k - 49) = 16 * u"
    unfolding u_def by (simp_all add: power_int_diff)
  have u0: "0 < u" "(2 :: rat) powi (- 53) \<le> u" "u \<le> 2 ^ k"
  proof -
    show "0 < u" by (simp add: u_def)
    show "(2 :: rat) powi (- 53) \<le> u" unfolding u_def by (subst powi_le_iff) auto
    have "u \<le> 2 powi int k" unfolding u_def by (subst powi_le_iff) auto
    then show "u \<le> 2 ^ k" by simp
  qed
  have p1: "(1 :: rat) \<le> 2 ^ k" by simp
  have rq: "to_num q = Fin (rnd64 q)" "\<bar>rnd64 q - q\<bar> \<le> u"
    using to_num_near [OF q] k by (simp_all add: u_def)
  have rl: "to_num l = Fin (rnd64 l)" "\<bar>rnd64 l - l\<bar> \<le> u"
    using to_num_near [OF l] k by (simp_all add: u_def)
  define d where "d = rnd64 q - rnd64 l"
  have "\<bar>d\<bar> \<le> 4 * 2 ^ k" using rq(2) rl(2) q l u0(3) unfolding d_def by linarith
  then have d: "\<bar>d\<bar> \<le> 2 ^ (k + 2)" "\<bar>d - (q - l)\<bar> \<le> 2 * u"
    using rq(2) rl(2) unfolding d_def by (simp add: power_add, linarith)
  have rd: "to_num d = Fin (rnd64 d)" "\<bar>rnd64 d - d\<bar> \<le> 4 * u"
    using to_num_near [OF d(1)] k u(2) by simp_all
  define e where "e = rnd64 d + rnd64 nano"
  have n1: "\<bar>rnd64 nano - nano\<bar> \<le> u" "\<bar>nano\<bar> \<le> 1"
    using lua_nano_near(2) u0(2) by (simp_all add: nano_def)
  have "\<bar>d\<bar> \<le> 2 * 2 ^ k + 2 * u" using rq(2) rl(2) q l unfolding d_def by linarith
  moreover have "u * 8 \<le> 2 ^ k"
  proof -
    have "8 * u = 2 powi (int k - 50)" unfolding u_def by (simp add: power_int_diff)
    also have "\<dots> \<le> 2 powi int k" by (subst powi_le_iff) auto
    finally show ?thesis by simp
  qed
  ultimately have "\<bar>e\<bar> \<le> 4 * 2 ^ k" using rd(2) n1 p1 unfolding e_def by linarith
  then have e: "\<bar>e\<bar> \<le> 2 ^ (k + 2)" by (simp add: power_add)
  have re: "to_num e = Fin (rnd64 e)" "\<bar>rnd64 e - e\<bar> \<le> 4 * u"
    using to_num_near [OF e] k u(2) by simp_all
  show thesis
  proof (rule that)
    show "to_num q - to_num l + lua_nano = Fin (rnd64 e)"
      using rd(1) re(1) by (simp add: rq(1) rl(1) lua_nano_near(1) d_def [symmetric] e_def [symmetric])
    show "\<bar>rnd64 e - (q - l + nano)\<bar> \<le> 2 powi (int k - 49)"
      using re(2) rd(2) d(2) n1(1) unfolding u(3) e_def by linarith
  qed
qed

lemma script_debits:
  assumes a: "is_num (Fin a)" and q: "holds SPOT_TOTAL f q st"
    and d: "hdecrbyfloatIfFree svc SPOT_TOTAL SPOT_HELD f (Fin a) st = (st', v)"
  shows "v = None \<and> st' = st \<or>
    0 < a \<and> Fin a \<le> to_num q - lua_or_zero (hashes st SPOT_HELD f) + lua_nano \<and>
    v = Some (RDec (incr_round svc (q - spelling a))) \<and>
    st' = put_hash SPOT_TOTAL f (Some (RDec (incr_round svc (q - spelling a)))) st"
proof -
  have amt: "lua_or_zero (Some (spelled (Fin a))) = Fin a"
    using lua_spelled [OF a] by (simp add: lua_or_zero_def del: spelled.simps)
  have neg: "negated (spelled (Fin a)) = RDec (- spelling a)" by (simp only: spelled_spelling negated.simps)
  have inc: "HINCRBYFLOAT svc SPOT_TOTAL f (RDec (- spelling a)) st =
      Some (put_hash SPOT_TOTAL f (Some (RDec (incr_round svc (q - spelling a)))) st,
        RDec (incr_round svc (q - spelling a)))"
    using q by (auto simp: HINCRBYFLOAT_def holds_def Let_def split: option.splits)
  show ?thesis
    using d unfolding hdecrbyfloatIfFree_def DEBIT_IF_FREE_LUA_def Let_def amt neg inc holds_lua [OF q]
    by (auto split: if_splits)
qed

text \<open>C33: A debit of a wallet is decided and applied by one script of the store. When it is applied, the exact balance
  less the amount covers what is reserved, up to the tolerance of the script and the roundings of its comparison of doubles; the balance field
  holds the difference and no other field has changed. When it is refused, for whatever reason, the store is as
  it was.\<close>

theorem debit_leaves_what_is_reserved:
  assumes "is_num (Fin a)" "parse_float v = Fin a" "holds SPOT_TOTAL f q st" "holds SPOT_HELD f l st"
    and "\<bar>q\<bar> \<le> 2 ^ k" "\<bar>l\<bar> \<le> 2 ^ k" "k \<le> 900"
  shows "case debitFree svc ''spot'' f v st of
      (st', Done (Moved m p)) \<Rightarrow> m = Fin a \<and> 0 < a \<and> l \<le> q - a + nano + 2 powi (int k - 49) \<and>
        st' = put_hash SPOT_TOTAL f (Some (RDec (incr_round svc (q - spelling a)))) st
    | (st', _) \<Rightarrow> st' = st"
proof -
  obtain st1 w where r: "hdecrbyfloatIfFree svc SPOT_TOTAL SPOT_HELD f (Fin a) st = (st1, w)" by (metis surj_pair)
  obtain x where x: "to_num q - to_num l + lua_nano = Fin x" "\<bar>x - (q - l + nano)\<bar> \<le> 2 powi (int k - 49)"
    by (rule compared_free [OF assms(5-7)])
  show ?thesis
    using script_debits [OF assms(1,3) r] r x(2) unfolding holds_lua [OF assms(4)] x(1)
    by (auto simp: debitFree_def WALLET_LEDGERS_def assms(2) Let_def split: option.split reply.split)
qed

definition pledged_store :: redis where
  "pledged_store = with_balance SPOT_HELD (''u'', ''c'') 30 (with_balance SPOT_TOTAL (''u'', ''c'') 100 blank_store)"

lemma pledged_store_holds:
  "holds SPOT_TOTAL (''u'', ''c'') 100 pledged_store" "holds SPOT_HELD (''u'', ''c'') 30 pledged_store"
  by (simp_all add: pledged_store_def with_balance_def put_hash_def holds_def SPOT_TOTAL_def SPOT_HELD_def)

theorem debit_leaves_what_is_reserved_witness:
  "fst (debitFree reference_service ''spot'' (''u'', ''c'') (JNum (Fin 80)) pledged_store) = pledged_store"
proof -
  have a: "is_num (Fin 80)" by code_simp
  obtain st' m where r: "debitFree reference_service ''spot'' (''u'', ''c'') (JNum (Fin 80)) pledged_store = (st', m)" by (metis surj_pair)
  show ?thesis
    using debit_leaves_what_is_reserved [OF a _ pledged_store_holds, where v = "JNum (Fin 80)" and k = 7 and svc = reference_service] r
    by (auto simp: nano_def split: reply.splits moved.splits)
qed

text \<open>The free part is paid.\<close>

lemma free_part_is_paid:
  "debitFree reference_service ''spot'' (''u'', ''c'') (JNum (Fin 70)) pledged_store =
     (with_balance SPOT_TOTAL (''u'', ''c'') 30 pledged_store, Done (Moved (Fin 70) (pot_of (Fin 30) (Fin 30))))"
proof -
  have c: "Fin 70 \<le> to_num 100 - Fin 30 + lua_nano" "\<not> Fin 70 \<le> Fin 0" "is_num (Fin 70)" "to_num 30 = Fin 30" "to_num 70 = Fin 70"
    by code_simp+
  have s: "spelling 70 = 70" "incr_round reference_service (100 - 70) = 30" by code_simp+
  have h: "hashes pledged_store SPOT_TOTAL (''u'', ''c'') = Some (RDec 100)"
      "hashes pledged_store SPOT_HELD (''u'', ''c'') = Some (RDec 30)" "online pledged_store"
    by (simp_all add: pledged_store_def with_balance_def put_hash_def blank_store_def SPOT_TOTAL_def SPOT_HELD_def)
  show ?thesis
    using c s h by (simp add: debitFree_def hdecrbyfloatIfFree_def DEBIT_IF_FREE_LUA_def WALLET_LEDGERS_def Let_def
      lua_or_zero_def HINCRBYFLOAT_def spelled_spelling with_balance_def finite_part_def SPOT_TOTAL_def SPOT_HELD_def
      put_hash_def del: spelled.simps)
qed

section \<open>Showing a wallet\<close>

lemma only_fills_seedLedgerField: "only_fills st (fst (seedLedgerField key f v st))"
  using only_fills_hsetnx [of st key f "or_else_zero v"] by (auto simp: seedLedgerField_def Let_def split: option.split)

lemma seedLedgerField_shows:
  assumes "seedLedgerField key f v st = (st', x)"
  shows "x = hashes st' key f \<and> x \<noteq> None"
proof (cases "hashes st key f")
  case None
  then show ?thesis using assms hsetnx_fills [of key f "or_else_zero v" st] by (auto simp: seedLedgerField_def Let_def)
next
  case (Some w)
  then have "fst (hsetnx key f (or_else_zero v) st) = st" by (simp add: hsetnx_def)
  then have "st' = st \<and> x = Some w" using assms Some by (cases "w = RText []") (simp_all add: seedLedgerField_def)
  then show ?thesis using Some by simp
qed

lemma show_asset_cases:
  assumes "show_asset m u a st = (st', x)"
  shows "only_fills st st' \<and> sh_asset x = a \<and> sh_spot x = hashes st' SPOT_TOTAL (u, a_currency a) \<and> sh_spot x \<noteq> None \<and>
    sh_locked x = hashes st' SPOT_HELD (u, a_currency a) \<and>
    sh_available x = freeBalance (rval_js (sh_spot x)) (rval_js (sh_locked x))"
proof -
  obtain st1 s where 1: "seedLedgerField SPOT_TOTAL (u, a_currency a) (a_spot_bal a) st = (st1, s)" by (metis surj_pair)
  obtain st2 l where 2: "seedLedgerField SPOT_HELD (u, a_currency a) (a_locked a) st1 = (st2, l)" by (metis surj_pair)
  obtain st3 i where 3: "seedLedgerField IN_ORDER (u, a_currency a) (JNum (Fin 0)) st2 = (st3, i)" by (metis surj_pair)
  have x: "st' = st3" "sh_asset x = a" "sh_spot x = s" "sh_locked x = l" "sh_available x = freeBalance (rval_js s) (rval_js l)"
    using assms by (auto simp: show_asset_def 1 2 3 balanceBreakdown_def freeBalance_def)
  have f: "only_fills st st1" "only_fills st1 st2" "only_fills st2 st3"
    using only_fills_seedLedgerField 1 2 3 by (metis fst_conv)+
  have "hashes st3 SPOT_TOTAL (u, a_currency a) = s" "s \<noteq> None"
    using seedLedgerField_shows [OF 1] only_fills_trans [OF f(2,3)] by (auto simp: only_fills_def)
  moreover have "hashes st3 SPOT_HELD (u, a_currency a) = l"
    using seedLedgerField_shows [OF 2] f(3) by (auto simp: only_fills_def)
  ultimately show ?thesis using x only_fills_trans [OF only_fills_trans [OF f(1,2)] f(3)] by simp
qed

lemma show_assets_cases:
  "show_assets m u as st = (st', xs) \<Longrightarrow> only_fills st st' \<and> map sh_asset xs = as \<and>
    (\<forall>x \<in> set xs. sh_spot x = hashes st' SPOT_TOTAL (u, a_currency (sh_asset x)) \<and> sh_spot x \<noteq> None)"
proof (induction as arbitrary: st xs)
  case (Cons a as)
  obtain st1 x where 1: "show_asset m u a st = (st1, x)" by (metis surj_pair)
  obtain st2 ys where 2: "show_assets m u as st1 = (st2, ys)" by (metis surj_pair)
  have e: "st' = st2" "xs = x # ys" using Cons.prems by (simp_all add: 1 2)
  note c = show_asset_cases [OF 1]
  note i = Cons.IH [OF 2 [folded e(1)]]
  obtain w where w: "sh_spot x = Some w" "hashes st1 SPOT_TOTAL (u, a_currency a) = Some w" using c by (metis option.exhaust)
  moreover have "hashes st' SPOT_TOTAL (u, a_currency a) = Some w" using i w(2) unfolding only_fills_def by blast
  moreover have "only_fills st st'" using c i only_fills_trans [of st st1 st'] by blast
  ultimately show ?case using c i unfolding e by simp (metis option.exhaust)
qed simp

text \<open>A wallet that is shown has every balance of its document and shows what is stored; nothing that was stored has changed.\<close>

lemma wallet_shows_the_store:
  assumes "getWallet (Some assets) currencies u st = (st', (200, xs))"
  shows "only_fills st st' \<and> map sh_asset xs = assets \<and>
    (\<forall>x \<in> set xs. sh_spot x = hashes st' SPOT_TOTAL (u, a_currency (sh_asset x)) \<and> sh_spot x \<noteq> None)"
proof (cases "assets \<noteq> [] \<and> \<not> online st")
  case False
  then have "show_assets (fold add_precision (case currencies of None \<Rightarrow> [] | Some cs \<Rightarrow> cs) []) u assets st = (st', xs)"
    using assms by (simp add: getWallet_def split: prod.splits if_splits)
  then show ?thesis by (rule show_assets_cases)
qed (use assms in \<open>simp add: getWallet_def\<close>)

text \<open>
  The first answer about one coin is made of the balance read before the wallet was seeded: it says that nothing is
  there and nothing is free, while the balance is stored.
\<close>

lemma seeded_all:
  "a \<in> set as \<Longrightarrow> hashes (updatewalletfromdb (Some as) u st) SPOT_TOTAL (u, a_currency a) \<noteq> None"
proof (induction as arbitrary: st)
  case (Cons b bs)
  let ?step = "\<lambda>a st. fst (seedLedgerField SPOT_TOTAL (u, a_currency a) (a_spot_bal a) st)"
  have fills: "only_fills st (fold ?step as st)" for as st
    by (induction as arbitrary: st) (auto intro: only_fills_trans [OF only_fills_seedLedgerField])
  have "hashes (?step b st) SPOT_TOTAL (u, a_currency b) \<noteq> None"
    using seedLedgerField_shows by (metis prod.collapse)
  then have "hashes (fold ?step bs (?step b st)) SPOT_TOTAL (u, a_currency b) \<noteq> None"
    by (rule only_fills_keeps [OF fills])
  then show ?case using Cons by (auto simp: updatewalletfromdb_def)
qed simp

lemma held_of_nothing: "held JNull v = Fin 0"
proof -
  obtain y where "toLedgerNumber v = Fin y" using toLedgerNumber_finite [of v] by (metis is_finite.elims(2))
  then show ?thesis by (auto simp: held_def toLedgerNumber_def [of JNull] js_min_def js_max_def max_def min_def)
qed

lemma first_answer_is_empty:
  assumes "online st" "hashes st SPOT_TOTAL (u, a_currency a) = None" "a \<in> set as"
    and r: "getAssetByCurrency (Some as) u (a_currency a) st = (st', (200, Some ans))"
  shows "an_spot ans = None \<and> an_available ans = Fin 0 \<and> hashes st' SPOT_TOTAL (u, a_currency a) \<noteq> None"
proof -
  have z: "round8 (Fin 0) = Fin 0" by code_simp
  have e: "bd_free (balanceBreakdown JNull v) = Fin 0" for v
    by (simp add: balanceBreakdown_def held_of_nothing z) (simp add: toLedgerNumber_def z)
  have "st' = updatewalletfromdb (Some as) u st" "an_spot ans = None" "an_available ans = Fin 0"
    using r assms(1,2) by (auto simp: getAssetByCurrency_def Let_def rval_js_def e split: option.splits)
  then show ?thesis using seeded_all [OF assms(3)] by simp
qed

end
