(* ===== verification/OrderViews.thy ===== *)
theory OrderViews
  imports Deactivation
begin

text \<open>
  What a user is shown of orders and trades (\<^verbatim>\<open>getOpenOrder\<close>, \<^verbatim>\<open>getOrderHistory\<close>, \<^verbatim>\<open>getTradeHistory\<close>,
  \<^verbatim>\<open>getFilledOrder\<close>, their pushes, \<^verbatim>\<open>recentTrade\<close>, the two searches of the history databases and the weekly
  \<^verbatim>\<open>clearSpotRedis\<close> of \<^verbatim>\<open>controllers/spot.controller.js\<close>, with the paging of \<^verbatim>\<open>lib/adminHelpers.js\<close>). A push is what is
  sent to the socket of the user, nothing when the handler fails. The
  database of histories is an argument: it is asked with a filter.
\<close>

section \<open>Paging\<close>

record query =
  q_page :: jsval
  q_limit :: jsval
  q_search :: jsval
  q_pair :: jsval
  q_type :: jsval
  q_side :: jsval
  q_status :: jsval
  q_search_type :: jsval
  q_start :: jsval
  q_end :: jsval
  q_export :: jsval

record pagination =
  pg_skip :: jsnum
  pg_limit :: jsnum
  pg_page :: jsnum

definition paginationQuery :: "query \<Rightarrow> pagination" where
  "paginationQuery q =
     (if \<not> isEmpty (q_page q) \<and> \<not> isEmpty (q_limit q)
      then \<lparr>pg_skip = (to_number (q_page q) - Fin 1) * to_number (q_limit q), pg_limit = to_number (q_limit q),
        pg_page = to_number (q_page q)\<rparr>
      else \<lparr>pg_skip = Fin 0, pg_limit = Fin 10, pg_page = Fin 1\<rparr>)"

definition hasNextPage :: "jsnum \<Rightarrow> nat \<Rightarrow> nat \<Rightarrow> bool" where
  "hasNextPage skip len cnt \<longleftrightarrow> is_finite skip \<and> skip + Fin (of_nat len) < Fin (of_nat cnt)"

text \<open>The slice of the language: an index is truncated, a negative one counts from the end.\<close>

definition rel_index :: "nat \<Rightarrow> jsnum \<Rightarrow> nat" where
  "rel_index n x = (case x of
      NaN \<Rightarrow> 0
    | Infty neg \<Rightarrow> if neg then 0 else n
    | Fin r \<Rightarrow> (let k = (if r < 0 then \<lceil>r\<rceil> else \<lfloor>r\<rfloor>) in if k < 0 then nat (int n + k) else min (nat k) n))"

definition js_slice :: "jsnum \<Rightarrow> jsnum \<Rightarrow> 'a list \<Rightarrow> 'a list" where
  "js_slice a b xs = (let s = rel_index (length xs) a; e = rel_index (length xs) b in take (e - s) (drop s xs))"

record 'a view =
  vw_rows :: "'a list"
  vw_count :: nat
  vw_page :: jsnum
  vw_next :: bool
  vw_limit :: jsnum

text \<open>The count is taken before the slice.\<close>

definition page_of :: "pagination \<Rightarrow> 'a list \<Rightarrow> 'a view" where
  "page_of p xs = (let rows = js_slice (pg_skip p) (pg_skip p + pg_limit p) xs in
     \<lparr>vw_rows = rows, vw_count = length xs, vw_page = pg_page p, vw_next = hasNextPage (pg_skip p) (length rows) (length xs),
      vw_limit = pg_limit p\<rparr>)"

definition first_page :: "'a list \<Rightarrow> 'a list \<Rightarrow> 'a view" where
  "first_page shown xs = \<lparr>vw_rows = shown, vw_count = length xs, vw_page = Fin 1,
     vw_next = hasNextPage (Fin 0) (length shown) (length xs), vw_limit = Fin 10\<rparr>"

section \<open>Open orders\<close>

text \<open>Newest first; a date that cannot be read is before no other and after no other.\<close>

definition by_order_date :: "order \<Rightarrow> order \<Rightarrow> bool" where
  "by_order_date a b = (case (o_date a, o_date b) of (Some s, Some t) \<Rightarrow> t < s | _ \<Rightarrow> False)"

definition this_pair_first :: "pair_id \<Rightarrow> order \<times> pair \<Rightarrow> order \<times> pair \<Rightarrow> bool" where
  "this_pair_first pid a b =
     (if o_pair (fst a) = pid \<and> o_pair (fst b) \<noteq> pid then True
      else if o_pair (fst a) \<noteq> pid \<and> o_pair (fst b) = pid then False
      else by_order_date (fst a) (fst b))"

definition getvalueObjbyOId :: "order list option \<Rightarrow> user_id \<Rightarrow> pair \<Rightarrow> (order \<times> pair) list \<Rightarrow> (order \<times> pair) list" where
  "getvalueObjbyOId rows u p acc = acc @ map (\<lambda>o1. (o1, p)) (filter (\<lambda>o1. o_user o1 = u) (case rows of None \<Rightarrow> [] | Some os \<Rightarrow> os))"

definition collect_pair :: "user_id \<Rightarrow> spot \<Rightarrow> pair \<Rightarrow> (order \<times> pair) list \<Rightarrow> (order \<times> pair) list" where
  "collect_pair u st p acc =
     getvalueObjbyOId (hgetall_orders (open_table ''sell'' (p_id p)) st) u p
       (getvalueObjbyOId (hgetall_orders (open_table ''buy'' (p_id p)) st) u p acc)"

definition open_rows :: "user_id \<Rightarrow> pair_id \<Rightarrow> spot \<Rightarrow> (order \<times> pair) list" where
  "open_rows u pid st = sort_before (this_pair_first pid) (fold (collect_pair u st) (getActivePairs (pairs st)) [])"

definition pair_count :: "pair_id \<Rightarrow> (order \<times> pair) list \<Rightarrow> nat" where
  "pair_count pid rows = length (filter (\<lambda>r. o_pair (fst r) = pid) rows)"

text \<open>Without any cached pair there is nothing to loop over, which raises.\<close>

definition readable :: "spot \<Rightarrow> bool" where
  "readable st \<longleftrightarrow> online st \<and> pairs st \<noteq> []"

definition getOpenOrder ::
    "query \<Rightarrow> user_id \<Rightarrow> pair_id \<Rightarrow> spot \<Rightarrow> int \<times> ((order \<times> pair) view \<times> nat) option" where
  "getOpenOrder q u pid st =
     (if \<not> readable st then (500, None)
      else let rows = open_rows u pid st in (200, Some (page_of (paginationQuery q) rows, pair_count pid rows)))"

definition getOpenOrderSocket :: "user_id \<Rightarrow> pair_id \<Rightarrow> spot \<Rightarrow> ((order \<times> pair) view \<times> nat) option" where
  "getOpenOrderSocket u pid st =
     (if \<not> readable st then None
      else let rows = open_rows u pid st in
        Some (\<lparr>vw_rows = rows, vw_count = length rows, vw_page = Fin 1, vw_next = False, vw_limit = Fin 10\<rparr>, pair_count pid rows))"

section \<open>The history of orders\<close>

definition getvalueObjByPair :: "(oid \<times> order) list \<Rightarrow> pair_id \<Rightarrow> order list" where
  "getvalueObjByPair rows pid = filter (\<lambda>o1. o_pair o1 = pid) (map snd rows)"

definition open_side :: "string \<Rightarrow> user_id \<Rightarrow> pair_id \<Rightarrow> spot \<Rightarrow> order list" where
  "open_side side u pid st = sort_before by_order_date (rows_of_user u st (open_table side pid))"

definition history_rows :: "user_id \<Rightarrow> pair_id \<Rightarrow> spot \<Rightarrow> order list" where
  "history_rows u pid st =
     open_side ''buy'' u pid st @ open_side ''sell'' u pid st @
     sort_before by_order_date (getvalueObjByPair (history st u) pid)"

definition getOrderHistory :: "query \<Rightarrow> user_id \<Rightarrow> pair_id \<Rightarrow> spot \<Rightarrow> int \<times> order view option" where
  "getOrderHistory q u pid st =
     (if \<not> online st then (500, None) else (200, Some (page_of (paginationQuery q) (history_rows u pid st))))"

definition getOrderHistorySocket :: "user_id \<Rightarrow> pair_id \<Rightarrow> spot \<Rightarrow> order view option" where
  "getOrderHistorySocket u pid st =
     (if \<not> online st then None
      else let rows = history_rows u pid st in Some (first_page (js_slice (Fin 0) (Fin 10) rows) rows))"

section \<open>Trades\<close>

record mytrade =
  mt_created :: int
  mt_side :: string
  mt_price :: jsval
  mt_quantity :: jsval
  mt_pair :: pair_id

definition my_trade :: "user_id \<Rightarrow> trade \<Rightarrow> mytrade option" where
  "my_trade u t =
     (if t_buy_user t = u
      then Some \<lparr>mt_created = t_created t, mt_side = ''buy'', mt_price = t_price t, mt_quantity = t_quantity t, mt_pair = t_pair t\<rparr>
      else if t_sell_user t = u
      then Some \<lparr>mt_created = t_created t, mt_side = ''sell'', mt_price = t_price t, mt_quantity = t_quantity t, mt_pair = t_pair t\<rparr>
      else None)"

definition my_trades :: "user_id \<Rightarrow> pair_id \<Rightarrow> spot \<Rightarrow> mytrade list" where
  "my_trades u pid st =
     sort_before (\<lambda>a b. mt_created b < mt_created a) (List.map_filter (my_trade u) (map snd (trade_rows st pid)))"

definition getTradeHistory :: "query \<Rightarrow> user_id \<Rightarrow> pair_id \<Rightarrow> spot \<Rightarrow> int \<times> mytrade view option" where
  "getTradeHistory q u pid st =
     (if \<not> online st then (500, None) else (200, Some (page_of (paginationQuery q) (my_trades u pid st))))"

definition getTradeHistorySocket :: "user_id \<Rightarrow> pair_id \<Rightarrow> spot \<Rightarrow> mytrade view option" where
  "getTradeHistorySocket u pid st =
     (if \<not> online st then None
      else let rows = my_trades u pid st in Some (first_page (js_slice (Fin 0) (Fin 10) rows) rows))"

record trade_print =
  pr_created :: int
  pr_maker :: string
  pr_price :: jsval
  pr_quantity :: jsval

definition getTradevalueObj :: "trade \<Rightarrow> trade_print" where
  "getTradevalueObj t = \<lparr>pr_created = t_created t, pr_maker = t_maker t, pr_price = t_price t, pr_quantity = t_quantity t\<rparr>"

text \<open>Twenty-five trades; nothing when the trades cannot be read, which is not an error.\<close>

definition recentTrade :: "pair_id \<Rightarrow> spot \<Rightarrow> trade_print list" where
  "recentTrade pid st =
     (if \<not> online st then []
      else take 25 (sort_before (\<lambda>a b. pr_created b < pr_created a) (map (getTradevalueObj \<circ> snd) (trade_rows st pid))))"

text \<open>The prints of a pair that is not traded by a bot are the venue's, an argument that may be absent.\<close>

datatype shown_prints = Venue "trade_print list" | House "trade_print list"

definition getRecentTrade :: "(pair \<Rightarrow> trade_print list option) \<Rightarrow> pair_id \<Rightarrow> spot \<Rightarrow> spot \<times> (int \<times> shown_prints option)" where
  "getRecentTrade venue pid st = (case FetchpairData (Some pid) st of
      (st1, Done None) \<Rightarrow> (st1, (404, None))
    | (st1, Done (Some p)) \<Rightarrow>
        (st1, (200, Some (if p_botstatus p = ''off'' \<or> p_botstatus p = ''binance''
            then Venue (case venue p of None \<Rightarrow> [] | Some xs \<Rightarrow> xs)
          else if p_botstatus p = ''bot'' then House (recentTrade (p_id p) st1) else House [])))
    | (st1, _) \<Rightarrow> (st1, (500, None)))"

section \<open>Filled orders\<close>

fun id_less :: "string \<Rightarrow> string \<Rightarrow> bool" where
  "id_less [] ys = (ys \<noteq> [])"
| "id_less (x # xs) [] = False"
| "id_less (x # xs) (y # ys) = ((of_char x :: int) < of_char y \<or> x = y \<and> id_less xs ys)"

definition filled_docs :: "user_id \<Rightarrow> pair_id \<Rightarrow> spot \<Rightarrow> order list" where
  "filled_docs u pid st =
     sort_before (\<lambda>a b. id_less (o_id b) (o_id a))
       (filter (\<lambda>d. o_user d = u \<and> o_pair d = pid \<and> o_status d = ''completed'') (map snd (order_docs st)))"

text \<open>The database skips and limits by whole numbers only, and by no limit of zero.\<close>

definition whole :: "jsnum \<Rightarrow> int option" where
  "whole x = (case x of Fin r \<Rightarrow> if r = of_int \<lfloor>r\<rfloor> then Some \<lfloor>r\<rfloor> else None | _ \<Rightarrow> None)"

definition db_page :: "jsnum \<Rightarrow> jsnum \<Rightarrow> 'a list \<Rightarrow> 'a list option" where
  "db_page skip limit xs = (case (whole skip, whole limit) of
      (Some s, Some l) \<Rightarrow> if 0 \<le> s \<and> 0 < l then Some (take (nat l) (drop (nat s) xs)) else None
    | _ \<Rightarrow> None)"

definition getFilledOrder :: "(string \<Rightarrow> bool) \<Rightarrow> query \<Rightarrow> user_id \<Rightarrow> pair_id \<Rightarrow> spot \<Rightarrow> int \<times> order view option" where
  "getFilledOrder isValid q u pid st =
     (if \<not> isValid pid then (400, None)
      else let p = paginationQuery q; docs = filled_docs u pid st in
        case db_page (pg_skip p) (pg_limit p) docs of
          None \<Rightarrow> (500, None)
        | Some rows \<Rightarrow> (200, Some \<lparr>vw_rows = rows, vw_count = length docs, vw_page = pg_page p,
            vw_next = hasNextPage (pg_skip p) (length rows) (length docs), vw_limit = pg_limit p\<rparr>))"

definition getFilledOrderSocket :: "user_id \<Rightarrow> pair_id \<Rightarrow> spot \<Rightarrow> order view" where
  "getFilledOrderSocket u pid st = (let docs = filled_docs u pid st in first_page (take 10 docs) docs)"

section \<open>Searching the databases\<close>

text \<open>
  A filter is an object from fields to conditions. A field that is written again keeps its place and
  takes the new condition. What a database finds for a filter, page or not, and counts is an argument.
\<close>

datatype cond =
    Equals jsval
  | Days jsval jsval
  | Owner user_id
  | Either_side user_id
  | One_of "string list"
  | Like "string list" jsval

type_synonym wanted = "(string \<times> cond) list"

record 'd database =
  db_find :: "wanted \<Rightarrow> pagination option \<Rightarrow> 'd list option"
  db_count :: "wanted \<Rightarrow> nat option"

definition filterSearchQuery :: "query \<Rightarrow> string list \<Rightarrow> wanted" where
  "filterSearchQuery q ks = (if \<not> isEmpty (q_search q) then [(''$or'', Like ks (q_search q))] else [])"

definition unless_all :: "string \<Rightarrow> jsval \<Rightarrow> wanted \<Rightarrow> wanted" where
  "unless_all key v f = (if v \<noteq> JStr ''all'' then put key (Equals v) f else f)"

definition by_days :: "string \<Rightarrow> query \<Rightarrow> wanted \<Rightarrow> wanted" where
  "by_days key q f = (if q_search_type q = JStr ''searchDate'' then put key (Days (q_start q) (q_end q)) f else f)"

definition export_days :: "string \<Rightarrow> query \<Rightarrow> wanted \<Rightarrow> wanted" where
  "export_days key q f =
     (if q_start q \<noteq> JStr [] \<and> q_end q \<noteq> JStr [] then put key (Days (q_start q) (q_end q)) f else f)"

definition search_fields :: "string list" where
  "search_fields = [''buyorsell'', ''status'', ''orderType'', ''pairName'']"

text \<open>An object spread over another: the fields of the second are written into the first.\<close>

definition spread_over :: "wanted \<Rightarrow> wanted \<Rightarrow> wanted" where
  "spread_over base f = fold (\<lambda>(k, c). put k c) f base"

definition my_history_filter :: "query \<Rightarrow> user_id \<Rightarrow> wanted" where
  "my_history_filter q u =
     by_days ''orderDate'' q (unless_all ''status'' (q_status q) (unless_all ''buyorsell'' (q_side q)
       (unless_all ''orderType'' (q_type q) (unless_all ''pairName'' (q_pair q)
         (put ''userId'' (Owner u) (filterSearchQuery q search_fields))))))"

definition side_filter :: "query \<Rightarrow> user_id \<Rightarrow> wanted \<Rightarrow> wanted" where
  "side_filter q u f =
     (if q_side q \<noteq> JStr ''all''
      then put (if q_side q = JStr ''buy'' then ''buyUserId'' else ''sellUserId'') (Owner u) (put ''buyorsell'' (Equals (q_side q)) f)
      else spread_over [(''$or'', Either_side u)] f)"

definition filled_filter :: "query \<Rightarrow> user_id \<Rightarrow> wanted" where
  "filled_filter q u =
     by_days ''updatedAt'' q (unless_all ''status'' (q_status q) (side_filter q u
       (unless_all ''orderType'' (q_type q) (unless_all ''pairName'' (q_pair q) (filterSearchQuery q search_fields)))))"

definition exporting :: "query \<Rightarrow> bool" where
  "exporting q \<longleftrightarrow> q_export q = JStr ''pdf''"

definition answer :: "'d list option \<Rightarrow> nat option \<Rightarrow> int \<times> ('d list \<times> nat) option" where
  "answer rows cnt = (case (rows, cnt) of (Some xs, Some n) \<Rightarrow> (200, Some (xs, n)) | _ \<Rightarrow> (500, None))"

definition getMySpotHistory :: "'d database \<Rightarrow> query \<Rightarrow> user_id \<Rightarrow> int \<times> ('d list \<times> nat) option" where
  "getMySpotHistory db q u =
     (if exporting q then answer (db_find db (export_days ''orderDate'' q [(''userId'', Owner u)]) None) (Some 0)
      else answer (db_find db (my_history_filter q u) (Some (paginationQuery q))) (db_count db (my_history_filter q u)))"

datatype ('d, 't) found = Orders "'d list" | Trades "'t list"

definition getFilledOrderHistory ::
    "'d database \<Rightarrow> 't database \<Rightarrow> query \<Rightarrow> user_id \<Rightarrow> int \<times> (('d, 't) found \<times> nat) option" where
  "getFilledOrderHistory orders trades q u =
     (if exporting q
      then case db_find orders (export_days ''updatedAt'' q [(''userId'', Owner u), (''status'', One_of [''completed''])]) None of
          None \<Rightarrow> (500, None) | Some xs \<Rightarrow> (200, Some (Orders xs, 0))
      else case answer (db_find trades (filled_filter q u) (Some (paginationQuery q))) (db_count trades (filled_filter q u)) of
          (code, None) \<Rightarrow> (code, None) | (code, Some (xs, n)) \<Rightarrow> (code, Some (Trades xs, n)))"

section \<open>The weekly clearing\<close>

text \<open>The documents and the pairs are what the database answers.\<close>

definition clear_trade :: "trade \<Rightarrow> spot \<Rightarrow> spot" where
  "clear_trade t st = st\<lparr>trade_rows := (trade_rows st)
     (t_pair t := remove_field (t_unique t) (trade_rows st (t_pair t)))\<rparr>"

definition clear_history :: "order \<Rightarrow> spot \<Rightarrow> spot" where
  "clear_history d st = st\<lparr>history := (history st)(o_user d := remove_field (o_id d) (history st (o_user d)))\<rparr>"

definition clearSpotRedis :: "order list \<Rightarrow> pair_id list \<Rightarrow> spot \<Rightarrow> spot" where
  "clearSpotRedis docs pids st =
     (if \<not> online st then st
      else fold clear_trade (concat (map (\<lambda>i. map snd (trade_rows st i)) pids)) (fold clear_history docs st))"

section \<open>Every row is on some page\<close>

text \<open>A client that asks for the next page as long as there is one.\<close>

fun scroll :: "(nat \<Rightarrow> 'a view option) \<Rightarrow> nat \<Rightarrow> nat \<Rightarrow> 'a list" where
  "scroll get 0 k = []"
| "scroll get (Suc n) k = (case get k of
      None \<Rightarrow> []
    | Some v \<Rightarrow> vw_rows v @ (if vw_next v then scroll get n (Suc k) else []))"

definition asks :: "nat \<Rightarrow> (nat \<Rightarrow> query) \<Rightarrow> bool" where
  "asks n ask \<longleftrightarrow> (\<forall>k. \<not> isEmpty (q_page (ask k)) \<and> \<not> isEmpty (q_limit (ask k)) \<and>
     to_number (q_page (ask k)) = Fin (of_nat k) \<and> to_number (q_limit (ask k)) = Fin (of_nat n))"

lemma to_num_int:
  assumes "\<bar>k\<bar> \<le> 2 ^ 53"
  shows "to_num (of_int k) = Fin (of_int k)"
proof -
  have "rnd64 (of_int k) = of_int k" using assms by (intro rnd64_fix is_dbl_of_int)
  moreover have "\<bar>of_int k :: rat\<bar> < 2 ^ 1024"
  proof -
    have "(of_int \<bar>k\<bar> :: rat) \<le> of_int (2 ^ 53)" using assms by (subst of_int_le_iff)
    moreover have "(of_int (2 ^ 53) :: rat) < 2 ^ 1024" by simp
    ultimately show ?thesis by simp
  qed
  ultimately show ?thesis by (simp add: to_num_Fin)
qed

lemma to_num_nat: "n \<le> 2 ^ 53 \<Longrightarrow> to_num (of_nat n) = Fin (of_nat n)"
  using to_num_int [of "int n"] by simp

lemma rel_index_nat: "rel_index n (Fin (of_nat k)) = min k n"
  by (simp add: rel_index_def Let_def)

lemma nat_less_jsnum: "Fin (of_nat a) < Fin (of_nat b) \<longleftrightarrow> a < b"
  by simp

lemma page_of_nth:
  assumes a: "asks n ask" and n: "0 < n" and b: "Suc k * n + length xs \<le> 2 ^ 53"
  shows "vw_rows (page_of (paginationQuery (ask (Suc k))) xs) = take n (drop (k * n) xs)"
    and "vw_next (page_of (paginationQuery (ask (Suc k))) xs) \<longleftrightarrow> Suc k * n < length xs"
proof -
  have "Suc k * 1 \<le> Suc k * n" using n by (intro mult_le_mono2) simp
  then have k: "k \<le> 2 ^ 53" "k * n \<le> 2 ^ 53" "k * n + n \<le> 2 ^ 53" "k * n + length xs \<le> 2 ^ 53" using b by simp_all
  let ?p = "paginationQuery (ask (Suc k))"
  have one: "of_nat (Suc k) - 1 = (of_nat k :: rat)" by simp
  have p: "pg_skip ?p = Fin (of_nat (k * n))" "pg_limit ?p = Fin (of_nat n)"
    using a to_num_nat [OF k(1)] to_num_nat [OF k(2)] unfolding asks_def paginationQuery_def
    by (simp_all add: one del: of_nat_Suc)
  have e: "pg_skip ?p + pg_limit ?p = Fin (of_nat (k * n + n))"
    using to_num_nat [OF k(3)] by (simp add: p)
  show rows: "vw_rows (page_of ?p xs) = take n (drop (k * n) xs)"
    unfolding page_of_def Let_def js_slice_def e unfolding p(1) rel_index_nat by (cases "k * n \<le> length xs") (auto simp: min_def)
  let ?r = "length (take n (drop (k * n) xs))"
  have "k * n + ?r \<le> 2 ^ 53" using k(3) by simp
  from to_num_nat [OF this] have "Fin (of_nat (k * n)) + Fin (of_nat ?r) = Fin (of_nat (k * n + ?r))"
    by (simp only: plus_jsnum.simps of_nat_add)
  then have "vw_next (page_of ?p xs) \<longleftrightarrow> Fin (of_nat (k * n + ?r)) < Fin (of_nat (length xs))"
    using rows unfolding page_of_def Let_def hasNextPage_def p(1) by (simp del: of_nat_add of_nat_mult length_take)
  then have "vw_next (page_of ?p xs) \<longleftrightarrow> k * n + ?r < length xs" by (simp only: nat_less_jsnum)
  then show "vw_next (page_of ?p xs) \<longleftrightarrow> Suc k * n < length xs" using n by auto
qed

text \<open>A reader of a list in pages: as long as it is ready, a page is the slice its query asks for.\<close>

locale paged_reader =
  fixes fetch :: "query \<Rightarrow> spot \<Rightarrow> 'a view option" and rows :: "spot \<Rightarrow> 'a list" and ready :: "spot \<Rightarrow> bool"
  assumes served: "ready st \<Longrightarrow> fetch q st = Some (page_of (paginationQuery q) (rows st))"
begin

lemma scroll_from:
  assumes r: "ready st" and a: "asks n ask" and n: "0 < n"
  shows "length (rows st) \<le> k * n + f * n \<Longrightarrow> Suc (k + f) * n + length (rows st) \<le> 2 ^ 53 \<Longrightarrow>
    scroll (\<lambda>k. fetch (ask k) st) (Suc f) (Suc k) = drop (k * n) (rows st)"
proof (induction f arbitrary: k)
  case 0
  have "vw_rows (page_of (paginationQuery (ask (Suc k))) (rows st)) = take n (drop (k * n) (rows st))"
    using page_of_nth(1) [OF a n, of k "rows st"] 0 by simp
  moreover have "\<not> vw_next (page_of (paginationQuery (ask (Suc k))) (rows st))"
    using page_of_nth(2) [OF a n, of k "rows st"] 0 by simp
  ultimately show ?case using 0 by (simp add: served [OF r])
next
  case (Suc f)
  have b: "Suc k * n + length (rows st) \<le> 2 ^ 53" using Suc.prems(2) by (simp add: algebra_simps)
  note p = page_of_nth [OF a n b]
  have rest: "scroll (\<lambda>k. fetch (ask k) st) (Suc f) (Suc (Suc k)) = drop (Suc k * n) (rows st)"
    using Suc.IH [of "Suc k"] Suc.prems by (simp add: algebra_simps)
  have "take n (drop (k * n) (rows st)) @ drop (Suc k * n) (rows st) = drop (k * n) (rows st)"
    by (metis add.commute append_take_drop_id drop_drop mult_Suc)
  moreover have "\<not> Suc k * n < length (rows st) \<Longrightarrow> take n (drop (k * n) (rows st)) = drop (k * n) (rows st)"
    by simp
  moreover have "scroll (\<lambda>k. fetch (ask k) st) (Suc (Suc f)) (Suc k) =
      take n (drop (k * n) (rows st)) @ (if Suc k * n < length (rows st) then drop (Suc k * n) (rows st) else [])"
    using rest p by (subst scroll.simps(2)) (simp add: served [OF r] del: scroll.simps)
  ultimately show ?case by auto
qed

text \<open>Scrolling from the first page gives every row once, in its order.\<close>

lemma scroll_all:
  assumes "ready st" "asks n ask" "0 < n" "(length (rows st) + 2) * n \<le> 2 ^ 52"
  shows "scroll (\<lambda>k. fetch (ask k) st) (Suc (length (rows st))) 1 = rows st"
proof -
  have "length (rows st) * 1 \<le> length (rows st) * n" using assms(3) by (intro mult_le_mono2) simp
  then have "length (rows st) \<le> length (rows st) * n" "length (rows st) \<le> 2 ^ 52"
    using assms(4) by (simp_all only: mult_1_right add_mult_distrib)
  then show ?thesis using scroll_from [OF assms(1-3), of 0 "length (rows st)"] assms(4) by (simp add: algebra_simps)
qed

end

interpretation open_orders: paged_reader "\<lambda>q st. map_option fst (snd (getOpenOrder q u pid st))" "open_rows u pid" readable
  for u pid by unfold_locales (simp add: getOpenOrder_def Let_def)

interpretation order_history: paged_reader "\<lambda>q st. snd (getOrderHistory q u pid st)" "history_rows u pid" online
  for u pid by unfold_locales (simp add: getOrderHistory_def)

interpretation trade_history: paged_reader "\<lambda>q st. snd (getTradeHistory q u pid st)" "my_trades u pid" online
  for u pid by unfold_locales (simp add: getTradeHistory_def)

section \<open>Open orders are reached\<close>

lemma set_fold_collect:
  "set (fold (collect_pair u st) ps acc) = set acc \<union>
     {(o1, p) |o1 p. p \<in> set ps \<and> o1 \<in> set (rows_of_user u st (open_table ''buy'' (p_id p)) @ rows_of_user u st (open_table ''sell'' (p_id p)))}"
  by (induction ps arbitrary: acc)
    (auto simp: collect_pair_def getvalueObjbyOId_def rows_of_user_def getvalueObjbyId_def split: option.splits)

definition rests_in :: "string \<Rightarrow> order \<Rightarrow> spot \<Rightarrow> bool" where
  "rests_in t o1 st \<longleftrightarrow> (\<exists>i. (i, Row o1) \<in> set (tables st t))"

lemma in_rows_of_user: "o1 \<in> set (rows_of_user u st t) \<longleftrightarrow> o_user o1 = u \<and> rests_in t o1 st"
  by (force simp: rows_of_user_def hgetall_orders_def getvalueObjbyId_def orders_of_def rests_in_def List.map_filter_def
      split: option.splits row.splits)

lemma in_open_rows:
  "(o1, p) \<in> set (open_rows u pid st) \<longleftrightarrow> p \<in> set (getActivePairs (pairs st)) \<and> o_user o1 = u \<and>
     (rests_in (open_table ''buy'' (p_id p)) o1 st \<or> rests_in (open_table ''sell'' (p_id p)) o1 st)"
  by (auto simp: open_rows_def set_fold_collect in_rows_of_user)

text \<open>C34: The table of open orders is the only place where a resting order can be cancelled. A client that reads it page
  by page, as long as a page says that there is another, receives exactly the rows of the table in their order, each once;
  and they are exactly the user's own orders that rest on an active pair.\<close>

theorem every_open_order_is_reached:
  assumes "readable st" "asks n ask" "0 < n" "(length (open_rows u pid st) + 2) * n \<le> 2 ^ 52"
  shows "scroll (\<lambda>k. map_option fst (snd (getOpenOrder (ask k) u pid st))) (Suc (length (open_rows u pid st))) 1 = open_rows u pid st \<and>
    (\<forall>o1 p. (o1, p) \<in> set (open_rows u pid st) \<longleftrightarrow> p \<in> set (getActivePairs (pairs st)) \<and> o_user o1 = u \<and>
      (rests_in (open_table ''buy'' (p_id p)) o1 st \<or> rests_in (open_table ''sell'' (p_id p)) o1 st))"
  using open_orders.scroll_all [OF assms] in_open_rows by blast

definition no_query :: query where
  "no_query = \<lparr>q_page = JUndef, q_limit = JUndef, q_search = JUndef, q_pair = JStr ''all'', q_type = JStr ''all'', q_side = JStr ''all'',
     q_status = JStr ''all'', q_search_type = JUndef, q_start = JUndef, q_end = JUndef, q_export = JUndef\<rparr>"

definition two_at_a_time :: "nat \<Rightarrow> query" where
  "two_at_a_time k = no_query\<lparr>q_page := JNum (Fin (of_nat k)), q_limit := JNum (Fin 2)\<rparr>"

definition dated :: "string \<Rightarrow> int \<Rightarrow> string \<times> order row" where
  "dated i t = (i, Row (sample_order\<lparr>o_id := i, o_date := Some t\<rparr>))"

definition busy_book :: spot where
  "busy_book = shared_book\<lparr>tables := (\<lambda>_. [])(open_table ''buy'' ''p'' :=
     [dated ''o1'' 3, (''o9'', Row (sample_order\<lparr>o_id := ''o9'', o_user := ''w''\<rparr>)), dated ''o2'' 5, dated ''o3'' 4])\<rparr>"

lemma busy_rows: "map (o_id \<circ> fst) (open_rows ''u'' ''p'' busy_book) = [''o2'', ''o3'', ''o1'']"
  by (simp add: open_rows_def busy_book_def shared_book_def funded_spot_def getActivePairs_def List.map_filter_def sample_pair_def
      collect_pair_def getvalueObjbyOId_def hgetall_orders_def orders_of_def dated_def open_table_def sort_before_def
      this_pair_first_def by_order_date_def sample_order_def)

theorem every_open_order_is_reached_witness:
  "map (o_id \<circ> fst) (scroll (\<lambda>k. map_option fst (snd (getOpenOrder (two_at_a_time k) ''u'' ''p'' busy_book))) 4 1) = [''o2'', ''o3'', ''o1'']"
proof -
  have r: "readable busy_book" by (simp add: readable_def busy_book_def shared_book_def funded_spot_def)
  have a: "asks 2 two_at_a_time" by (simp add: asks_def two_at_a_time_def)
  have l: "length (open_rows ''u'' ''p'' busy_book) = 3" using arg_cong [OF busy_rows, of length] by simp
  then show ?thesis using every_open_order_is_reached [OF r a, of "''u''" "''p''"] busy_rows by simp
qed

section \<open>Whose rows these are\<close>

text \<open>Nobody sees a row of somebody else's.\<close>

lemma open_orders_are_mine:
  "snd (getOpenOrder q u pid st) = Some (v, n) \<Longrightarrow> r \<in> set (vw_rows v) \<Longrightarrow> o_user (fst r) = u"
  by (cases r) (auto simp: getOpenOrder_def page_of_def js_slice_def Let_def in_open_rows split: if_splits dest!: in_set_takeD in_set_dropD)

lemma trades_are_mine:
  assumes "snd (getTradeHistory q u pid st) = Some v" "r \<in> set (vw_rows v)"
  shows "\<exists>t \<in> snd ` set (trade_rows st pid). (t_buy_user t = u \<and> mt_side r = ''buy'' \<or> t_sell_user t = u \<and> mt_side r = ''sell'') \<and>
    mt_price r = t_price t \<and> mt_quantity r = t_quantity t"
proof -
  have "r \<in> set (my_trades u pid st)"
    using assms by (auto simp: getTradeHistory_def page_of_def js_slice_def Let_def split: if_splits dest!: in_set_takeD in_set_dropD)
  then obtain t where "t \<in> snd ` set (trade_rows st pid)" "my_trade u t = Some r"
    by (force simp: my_trades_def List.map_filter_def)
  then show ?thesis by (auto simp: my_trade_def split: if_splits)
qed

definition names_the_user :: "user_id \<Rightarrow> wanted \<Rightarrow> bool" where
  "names_the_user u f \<longleftrightarrow> (\<exists>k \<in> {''userId'', ''buyUserId'', ''sellUserId''}. map_of f k = Some (Owner u)) \<or>
     map_of f ''$or'' = Some (Either_side u)"

lemma map_of_parts [simp]:
  "map_of (unless_all key v f) k = (if v \<noteq> JStr ''all'' \<and> k = key then Some (Equals v) else map_of f k)"
  "map_of (by_days key q f) k =
     (if q_search_type q = JStr ''searchDate'' \<and> k = key then Some (Days (q_start q) (q_end q)) else map_of f k)"
  by (simp_all add: unless_all_def by_days_def)

lemma map_of_spread:
  "distinct (map fst f) \<Longrightarrow> map_of (spread_over base f) k = (case map_of f k of None \<Rightarrow> map_of base k | Some c \<Rightarrow> Some c)"
proof (induction f arbitrary: base)
  case (Cons x f)
  obtain k' c where x: "x = (k', c)" by (cases x)
  have "map_of f k' = None" using Cons.prems x by (auto simp: map_of_eq_None_iff)
  then show ?case using Cons.IH [of "put k' c base"] Cons.prems x by (auto simp: spread_over_def split: option.split)
qed (simp add: spread_over_def)

definition searched :: "query \<Rightarrow> wanted" where
  "searched q = unless_all ''orderType'' (q_type q) (unless_all ''pairName'' (q_pair q) (filterSearchQuery q search_fields))"

lemma distinct_searched: "distinct (map fst (searched q))"
  by (auto simp: searched_def unless_all_def filterSearchQuery_def)

lemma filled_filter_searched:
  "filled_filter q u = by_days ''updatedAt'' q (unless_all ''status'' (q_status q) (side_filter q u (searched q)))"
  by (simp add: filled_filter_def searched_def)

text \<open>
  The history of orders names its user in every case, the history of trades in every case but one: a
  search over both sides.
\<close>

lemma my_history_names_the_user: "names_the_user u (my_history_filter q u)"
  by (simp add: names_the_user_def my_history_filter_def)

lemma filled_history_names_the_user:
  assumes "isEmpty (q_search q) \<or> q_side q \<noteq> JStr ''all''"
  shows "names_the_user u (filled_filter q u)"
proof (cases "q_side q = JStr ''all''")
  case True
  then have "map_of (searched q) ''$or'' = None" using assms by (simp add: searched_def filterSearchQuery_def)
  then have "map_of (filled_filter q u) ''$or'' = Some (Either_side u)"
    using True by (simp add: filled_filter_searched side_filter_def map_of_spread [OF distinct_searched])
  then show ?thesis by (simp add: names_the_user_def)
qed (simp add: names_the_user_def filled_filter_def side_filter_def)

text \<open>C35: A search in the history of trades over both sides loses the condition on the user: the filter that names the
  user as the buyer or the seller is spread under the search, whose condition has the same key. What is asked of the
  database names nobody, and every user receives the same answer, the trades of all accounts that match.\<close>

theorem search_answers_for_everyone:
  assumes "\<not> isEmpty (q_search q)" "q_side q = JStr ''all''" "\<not> exporting q"
  shows "(\<forall>w. \<not> names_the_user w (filled_filter q u)) \<and>
    getFilledOrderHistory orders trades q u = getFilledOrderHistory orders trades q v"
proof -
  have s: "searched q = (''$or'', Like search_fields (q_search q)) # tl (searched q)"
    using assms(1) by (simp add: searched_def unless_all_def filterSearchQuery_def)
  have e: "side_filter q w (searched q) = fold (\<lambda>(k, c). put k c) (tl (searched q)) [(''$or'', Like search_fields (q_search q))]" for w
    by (subst s) (simp add: side_filter_def assms(2) spread_over_def)
  have same: "filled_filter q u = filled_filter q v" by (simp only: filled_filter_searched e)
  have k: "map_of (searched q) k = None" if "k \<in> {''userId'', ''buyUserId'', ''sellUserId''}" for k
    using that assms(1) by (auto simp: searched_def filterSearchQuery_def)
  have "map_of (searched q) ''$or'' = Some (Like search_fields (q_search q))" by (subst s) simp
  then have "\<not> names_the_user w (filled_filter q u)" for w
    using k by (auto simp: names_the_user_def filled_filter_searched side_filter_def assms(2) map_of_spread [OF distinct_searched])
  then show ?thesis by (simp add: getFilledOrderHistory_def assms(3) same)
qed

text \<open>A database of one trade between two others, which answers any filter that names nobody.\<close>

definition leaking :: "string database" where
  "leaking = \<lparr>db_find = (\<lambda>f p. Some (if names_the_user ''x'' f then [] else [''x sells to y''])), db_count = (\<lambda>f. Some 1)\<rparr>"

theorem search_answers_for_everyone_witness:
  "getFilledOrderHistory leaking leaking (no_query\<lparr>q_search := JStr ''BTC''\<rparr>) ''u'' =
   getFilledOrderHistory leaking leaking (no_query\<lparr>q_search := JStr ''BTC''\<rparr>) ''x''"
proof -
  have t: "trim ''BTC'' \<noteq> []" by code_simp
  show ?thesis
    using search_answers_for_everyone [of "no_query\<lparr>q_search := JStr ''BTC''\<rparr>" "''u''" leaking leaking "''x''"]
    by (simp add: no_query_def exporting_def t)
qed

section \<open>After the clearing\<close>

lemma trades_after_clearing:
  "trade_rows (fold clear_trade ts st) pid = filter (\<lambda>row. \<forall>t \<in> set ts. t_pair t = pid \<longrightarrow> t_unique t \<noteq> fst row) (trade_rows st pid)"
  by (induction ts arbitrary: st) (auto simp: clear_trade_def remove_field_def intro: filter_cong)

lemma histories_leave_trades: "trade_rows (fold clear_history ds st) = trade_rows st"
  by (induction ds arbitrary: st) (simp_all add: clear_history_def)

text \<open>Every cached trade of a pair goes, however new it is.\<close>

lemma clearing_takes_every_trade:
  assumes "online st" "pid \<in> set pids" "\<forall>(i, t) \<in> set (trade_rows st pid). t_pair t = pid \<and> t_unique t = i"
  shows "trade_rows (clearSpotRedis docs pids st) pid = []"
  using assms by (force simp: clearSpotRedis_def trades_after_clearing histories_leave_trades filter_empty_conv)

end
