(* ===== verification/Ticker.thy ===== *)
theory Ticker
  imports OrderViews
begin

text \<open>
  The statistics of the last day of a market (\<^verbatim>\<open>marketPrice\<close>, \<^verbatim>\<open>getMarketPrice\<close> and \<^verbatim>\<open>marketPriceSocket\<close> of
  \<^verbatim>\<open>controllers/spot.controller.js\<close> with \<^verbatim>\<open>lib/tradeWindow.js\<close>) and the ticks of the venue they are
  copied from (\<^verbatim>\<open>lib/ticker24h.js\<close> and \<^verbatim>\<open>updateBinancePrices\<close> of \<^verbatim>\<open>controllers/binance.controller.js\<close>). The answers of the
  venue are an argument: none when the request fails, and in it an object or nothing. Prices and sizes
  of trades are numbers, or null where JSON wrote a number that is not finite.
\<close>

section \<open>Ticks of the venue\<close>

record raw =
  rw_last :: jsval
  rw_high :: jsval
  rw_low :: jsval
  rw_volume :: jsval
  rw_average :: jsval
  rw_turnover :: jsval
  rw_open :: jsval
  rw_change_price :: jsval
  rw_change :: jsval

record stats =
  st_mark :: jsnum
  st_last :: jsnum
  st_high :: jsnum
  st_low :: jsnum
  st_volume :: jsnum
  st_turnover :: jsnum
  st_change :: jsnum
  st_change_price :: jsnum

definition TURNOVER_TOLERANCE :: jsnum where
  "TURNOVER_TOLERANCE = to_num (2 / 100)"

definition num :: "jsval \<Rightarrow> jsnum" where
  "num v = (if v = JNull \<or> v = JUndef \<or> v = JStr [] then NaN else parse_float v)"

definition finitePositive :: "jsnum \<Rightarrow> bool" where
  "finitePositive x \<longleftrightarrow> is_finite x \<and> Fin 0 < x"

definition impliedTurnover :: "raw \<Rightarrow> jsnum" where
  "impliedTurnover r = (if finitePositive (num (rw_average r)) then num (rw_volume r) * num (rw_average r) else NaN)"

definition secondVolumeOf :: "raw \<Rightarrow> jsnum" where
  "secondVolumeOf r = (if is_finite (num (rw_turnover r)) then num (rw_turnover r) else impliedTurnover r)"

definition changePriceOf :: "raw \<Rightarrow> jsnum" where
  "changePriceOf r =
     (if is_finite (num (rw_change_price r)) then num (rw_change_price r)
      else if finitePositive (num (rw_open r)) then num (rw_last r) - num (rw_open r) else Fin 0)"

definition changeOf :: "raw \<Rightarrow> jsnum" where
  "changeOf r =
     (if is_finite (num (rw_change r)) then num (rw_change r)
      else if finitePositive (num (rw_open r)) then changePriceOf r / num (rw_open r) * Fin 100 else Fin 0)"

definition normalize :: "raw option \<Rightarrow> string + stats" where
  "normalize payload = (case payload of
      None \<Rightarrow> Inl ''no-payload''
    | Some r \<Rightarrow>
       (let last = num (rw_last r); high = num (rw_high r); low = num (rw_low r);
            firstVolume = num (rw_volume r); implied = impliedTurnover r; secondVolume = secondVolumeOf r
        in if \<not> finitePositive last then Inl ''last-price-invalid''
           else if \<not> finitePositive high \<or> \<not> finitePositive low then Inl ''range-invalid''
           else if high < low then Inl ''range-inverted''
           else if last < low \<or> high < last then Inl ''range-excludes-last''
           else if \<not> is_finite firstVolume \<or> firstVolume < Fin 0 then Inl ''base-volume-invalid''
           else if \<not> is_finite secondVolume then Inl ''quote-volume-invalid''
           else if secondVolume < Fin 0 then Inl ''quote-volume-invalid''
           else if is_finite implied \<and> Fin 0 < implied \<and> TURNOVER_TOLERANCE < abs (secondVolume - implied) / implied
           then Inl ''turnover-incoherent''
           else Inr \<lparr>st_mark = last, st_last = last, st_high = high, st_low = low, st_volume = firstVolume,
             st_turnover = secondVolume, st_change = changeOf r, st_change_price = changePriceOf r\<rparr>))"

definition isCoherent :: "stats option \<Rightarrow> bool" where
  "isCoherent so = (case so of
      None \<Rightarrow> False
    | Some s \<Rightarrow>
       (if \<not> finitePositive (st_last s) \<or> \<not> finitePositive (st_high s) \<or> \<not> finitePositive (st_low s) then False
        else if st_high s < st_low s then False
        else if st_last s < st_low s \<or> st_high s < st_last s then False
        else if \<not> is_finite (st_volume s) \<or> st_volume s < Fin 0 then False
        else if \<not> is_finite (st_turnover s) \<or> st_turnover s < Fin 0 then False
        else if Fin 0 < st_volume s
        then \<not> (st_turnover s < st_volume s * st_low s * (Fin 1 - TURNOVER_TOLERANCE)) \<and>
             \<not> (st_volume s * st_high s * (Fin 1 + TURNOVER_TOLERANCE) < st_turnover s)
        else \<not> Fin 0 < st_turnover s))"

section \<open>The market\<close>

text \<open>
  A listing is what is kept of a pair here: whose prices it shows, its symbols and the
  statistics last stored in it, as JSON keeps them.
\<close>

record figures =
  fg_mark :: jsval
  fg_last :: jsval
  fg_high :: jsval
  fg_low :: jsval
  fg_volume :: jsval
  fg_turnover :: jsval
  fg_change :: jsval
  fg_change_price :: jsval

record listing =
  li_status :: string
  li_bot :: string
  li_symbols :: "string \<times> string"
  li_figures :: figures

record tick =
  tk_figures :: figures
  tk_bot :: string
  tk_symbols :: "(string \<times> string) option"
  tk_id :: pair_id

record market =
  mk_online :: bool
  mk_saves :: bool
  mk_now :: int
  mk_cached :: "pair_id \<Rightarrow> listing row option"
  mk_changes :: "pair_id \<Rightarrow> tick option"
  mk_listings :: "(pair_id \<times> listing) list"
  mk_trades :: "pair_id \<Rightarrow> trade list"
  mk_trade_docs :: "pair_id \<Rightarrow> trade list"
  mk_sent :: "(pair_id \<times> stats) list"

definition num_figures :: "stats \<Rightarrow> figures" where
  "num_figures s = \<lparr>fg_mark = JNum (st_mark s), fg_last = JNum (st_last s), fg_high = JNum (st_high s), fg_low = JNum (st_low s),
     fg_volume = JNum (st_volume s), fg_turnover = JNum (st_turnover s), fg_change = JNum (st_change s),
     fg_change_price = JNum (st_change_price s)\<rparr>"

definition map_figures :: "(jsval \<Rightarrow> jsval) \<Rightarrow> figures \<Rightarrow> figures" where
  "map_figures g f = \<lparr>fg_mark = g (fg_mark f), fg_last = g (fg_last f), fg_high = g (fg_high f), fg_low = g (fg_low f),
     fg_volume = g (fg_volume f), fg_turnover = g (fg_turnover f), fg_change = g (fg_change f), fg_change_price = g (fg_change_price f)\<rparr>"

definition hset_change :: "pair_id \<Rightarrow> tick \<Rightarrow> market \<Rightarrow> market" where
  "hset_change pid t m = m\<lparr>mk_changes := (mk_changes m)(pid \<mapsto> t\<lparr>tk_figures := map_figures json_val (tk_figures t)\<rparr>)\<rparr>"

definition hset_listing :: "pair_id \<Rightarrow> listing \<Rightarrow> market \<Rightarrow> market" where
  "hset_listing pid l m = m\<lparr>mk_cached := (mk_cached m)(pid \<mapsto> Row (l\<lparr>li_figures := map_figures json_val (li_figures l)\<rparr>))\<rparr>"

section \<open>Copying the venue\<close>

text \<open>A tick that is refused, a request that fails and a store that is away leave everything as it was.\<close>

definition publish_tick :: "pair_id \<Rightarrow> listing \<Rightarrow> stats \<Rightarrow> market \<Rightarrow> market" where
  "publish_tick pid l s m =
     (if \<not> mk_online m then m
      else let m1 = hset_listing pid (l\<lparr>li_figures := num_figures s\<rparr>) m;
               m2 = hset_change pid \<lparr>tk_figures = num_figures s, tk_bot = ''binance'', tk_symbols = Some (li_symbols l), tk_id = pid\<rparr> m1;
               m3 = (if mk_saves m2 then m2\<lparr>mk_listings := put pid (l\<lparr>li_figures := num_figures s\<rparr>) (mk_listings m2)\<rparr> else m2)
           in m3\<lparr>mk_sent := mk_sent m3 @ [(pid, s)]\<rparr>)"

definition update_pair :: "(pair_id \<Rightarrow> raw option option) \<Rightarrow> pair_id \<times> listing \<Rightarrow> market \<Rightarrow> market" where
  "update_pair venue = (\<lambda>(pid, l) m. case venue pid of
      None \<Rightarrow> m
    | Some payload \<Rightarrow> (case normalize payload of Inl _ \<Rightarrow> m | Inr s \<Rightarrow> publish_tick pid l s m))"

definition venue_pairs :: "market \<Rightarrow> (pair_id \<times> listing) list" where
  "venue_pairs m = filter (\<lambda>(pid, l). li_status l = ''active'' \<and> li_bot l = ''binance'') (mk_listings m)"

definition updateBinancePrices :: "(pair_id \<Rightarrow> raw option option) \<Rightarrow> market \<Rightarrow> market" where
  "updateBinancePrices venue m = fold (update_pair venue) (venue_pairs m) m"

section \<open>The window of a day\<close>

definition WINDOW_MS :: int where
  "WINDOW_MS = 24 * 60 * 60 * 1000"

definition byTradeTime :: "trade \<Rightarrow> trade \<Rightarrow> bool" where
  "byTradeTime a b \<longleftrightarrow> t_created a < t_created b"

definition inLast24h :: "int \<Rightarrow> trade \<Rightarrow> bool" where
  "inLast24h now t \<longleftrightarrow> now - WINDOW_MS \<le> t_created t \<and> t_created t \<le> now"

record window =
  wi_open :: jsval
  wi_close :: jsval
  wi_min :: jsval
  wi_max :: jsval
  wi_first :: jsnum
  wi_second :: jsnum

definition no_trades :: window where
  "no_trades = \<lparr>wi_open = JNull, wi_close = JNum (Fin 0), wi_min = JNum (Fin 0), wi_max = JNum (Fin 0), wi_first = Fin 0, wi_second = Fin 0\<rparr>"

definition count_trade :: "trade \<Rightarrow> window \<Rightarrow> window" where
  "count_trade t w =
     (let p = t_price t;
          w1 = (if wi_open w = JNull then w\<lparr>wi_open := p, wi_max := p, wi_min := p\<rparr> else w);
          w2 = (if to_number (wi_max w1) < to_number p then w1\<lparr>wi_max := p\<rparr> else w1);
          w3 = (if to_number p < to_number (wi_min w2) then w2\<lparr>wi_min := p\<rparr> else w2)
      in w3\<lparr>wi_close := p, wi_second := wi_second w3 + to_number p * to_number (t_quantity t),
           wi_first := wi_first w3 + to_number (t_quantity t)\<rparr>)"

definition window_figures :: "jsval \<Rightarrow> window \<Rightarrow> figures" where
  "window_figures mark w =
     (let diff = to_number (wi_close w) - to_number (wi_open w) in
      \<lparr>fg_mark = mark, fg_last = wi_close w, fg_high = wi_max w, fg_low = wi_min w, fg_volume = JNum (wi_first w),
       fg_turnover = JNum (wi_second w), fg_change = JNum (diff / to_number (wi_open w) * Fin 100), fg_change_price = JNum diff\<rparr>)"

definition zero_figures :: "jsval \<Rightarrow> figures" where
  "zero_figures mark = (map_figures (\<lambda>_. JNum (Fin 0)) (window_figures mark no_trades))\<lparr>fg_mark := mark\<rparr>"

definition own_trades :: "listing \<Rightarrow> bool" where
  "own_trades l \<longleftrightarrow> li_bot l = ''off'' \<or> li_bot l = ''bot''"

definition served :: "tick \<Rightarrow> market \<Rightarrow> market \<times> tick option" where
  "served t m = (hset_change (tk_id t) t m, Some t)"

text \<open>From the cached trades: sorted, and those of the window counted.\<close>

definition cached_tick :: "pair_id \<Rightarrow> listing \<Rightarrow> market \<Rightarrow> tick" where
  "cached_tick pid l m =
     (let w = fold count_trade (filter (inLast24h (mk_now m)) (sort_before byTradeTime (mk_trades m pid))) no_trades in
      if wi_open w \<noteq> JNull
      then \<lparr>tk_figures = window_figures (fg_mark (li_figures l)) w, tk_bot = li_bot l, tk_symbols = Some (li_symbols l), tk_id = pid\<rparr>
      else \<lparr>tk_figures = zero_figures (fg_mark (li_figures l)), tk_bot = li_bot l, tk_symbols = None, tk_id = pid\<rparr>)"

text \<open>From the database, which selects the window and sorts.\<close>

definition stored_tick :: "pair_id \<Rightarrow> listing \<Rightarrow> market \<Rightarrow> tick" where
  "stored_tick pid l m =
     (let ts = sort_before byTradeTime (filter (inLast24h (mk_now m)) (mk_trade_docs m pid)) in
      \<lparr>tk_figures = (if ts \<noteq> [] then window_figures (fg_mark (li_figures l)) (fold count_trade ts no_trades)
         else zero_figures (fg_mark (li_figures l))),
       tk_bot = li_bot l, tk_symbols = Some (li_symbols l), tk_id = pid\<rparr>)"

definition zero_unless :: "jsval \<Rightarrow> jsval" where
  "zero_unless v = (if falsy v then JNum (Fin 0) else v)"

definition venue_figures :: "figures \<Rightarrow> figures" where
  "venue_figures f = (map_figures zero_unless f)\<lparr>fg_last := (if falsy (fg_last f) then zero_unless (fg_mark f) else fg_last f)\<rparr>"

definition default_tick :: "pair_id \<Rightarrow> tick" where
  "default_tick pid = \<lparr>tk_figures = zero_figures (JNum (Fin 0)), tk_bot = ''off'', tk_symbols = None, tk_id = pid\<rparr>"

definition FetchListing :: "pair_id \<Rightarrow> market \<Rightarrow> market \<times> listing option" where
  "FetchListing pid m = (case mk_cached m pid of
      Some (Row l) \<Rightarrow> (m, Some l)
    | _ \<Rightarrow> (case map_of (mk_listings m) pid of None \<Rightarrow> (m, None) | Some l \<Rightarrow> (hset_listing pid l m, Some l)))"

definition marketPrice :: "pair_id \<Rightarrow> market \<Rightarrow> market \<times> tick option" where
  "marketPrice pid m =
     (if \<not> mk_online m then (m, None)
      else case FetchListing pid m of (m1, found) \<Rightarrow>
        case (found, map_of (mk_listings m1) pid) of
          (Some l, doc) \<Rightarrow>
            if own_trades l \<and> mk_trades m1 pid \<noteq> [] then served (cached_tick pid l m1) m1
            else (case doc of
                Some d \<Rightarrow> if own_trades d then served (stored_tick pid d m1) m1
                  else if li_bot l = ''binance''
                  then served \<lparr>tk_figures = venue_figures (li_figures l), tk_bot = li_bot l, tk_symbols = Some (li_symbols l), tk_id = pid\<rparr> m1
                  else (m1, Some (default_tick pid))
              | None \<Rightarrow> if li_bot l = ''binance''
                  then served \<lparr>tk_figures = venue_figures (li_figures l), tk_bot = li_bot l, tk_symbols = Some (li_symbols l), tk_id = pid\<rparr> m1
                  else (m1, Some (default_tick pid)))
        | (None, _) \<Rightarrow> (m1, Some (default_tick pid)))"

definition getMarketPrice :: "pair_id \<Rightarrow> market \<Rightarrow> market \<times> (int \<times> tick)" where
  "getMarketPrice pid m = (case marketPrice pid m of
      (m1, Some t) \<Rightarrow> (m1, (200, t)) | (m1, None) \<Rightarrow> (m1, (200, default_tick pid)))"

section \<open>What a tick that is accepted is\<close>

definition in_range :: "figures \<Rightarrow> bool" where
  "in_range f \<longleftrightarrow> (\<exists>l x h. fg_low f = JNum (Fin l) \<and> fg_last f = JNum (Fin x) \<and> fg_high f = JNum (Fin h) \<and>
     0 < l \<and> l \<le> x \<and> x \<le> h)"

lemma normalize_ok:
  assumes "normalize payload = Inr s"
  shows "in_range (num_figures s) \<and> st_mark s = st_last s \<and> is_finite (st_volume s) \<and> Fin 0 \<le> st_volume s \<and>
    is_finite (st_turnover s) \<and> Fin 0 \<le> st_turnover s"
proof (cases payload)
  case (Some r)
  have f: "finitePositive x \<longleftrightarrow> (\<exists>y. x = Fin y \<and> 0 < y)" for x by (cases x) (auto simp: finitePositive_def)
  have g: "is_finite x \<and> \<not> x < Fin 0 \<longleftrightarrow> (\<exists>y. x = Fin y \<and> 0 \<le> y)" for x by (cases x) auto
  from assms Some have c: "finitePositive (num (rw_last r))" "finitePositive (num (rw_high r))" "finitePositive (num (rw_low r))"
    "\<not> num (rw_last r) < num (rw_low r)" "\<not> num (rw_high r) < num (rw_last r)"
    "is_finite (num (rw_volume r)) \<and> \<not> num (rw_volume r) < Fin 0" "is_finite (secondVolumeOf r) \<and> \<not> secondVolumeOf r < Fin 0"
    and s: "st_last s = num (rw_last r)" "st_high s = num (rw_high r)" "st_low s = num (rw_low r)" "st_mark s = num (rw_last r)"
      "st_volume s = num (rw_volume r)" "st_turnover s = secondVolumeOf r"
    by (auto simp: normalize_def Let_def split: if_splits)
  obtain x h l where p: "num (rw_last r) = Fin x" "num (rw_high r) = Fin h" "num (rw_low r) = Fin l" "0 < l"
    using c(1) c(2) c(3) unfolding f by metis
  obtain v t where q: "num (rw_volume r) = Fin v" "0 \<le> v" "secondVolumeOf r = Fin t" "0 \<le> t" using c(6) c(7) unfolding g by metis
  show ?thesis using c(4,5) p q by (simp add: in_range_def num_figures_def s not_less)
qed (use assms in \<open>simp add: normalize_def\<close>)

lemma venue_figures_served:
  assumes "in_range f" "fg_mark f = fg_last f"
  shows "fg_high (venue_figures (map_figures json_val f)) = fg_high f \<and> fg_low (venue_figures (map_figures json_val f)) = fg_low f \<and>
    fg_last (venue_figures (map_figures json_val f)) = fg_last f \<and> fg_mark (venue_figures (map_figures json_val f)) = fg_last f"
proof -
  obtain l x h where r: "fg_low f = JNum (Fin l)" "fg_last f = JNum (Fin x)" "fg_high f = JNum (Fin h)" "0 < l" "l \<le> x" "x \<le> h"
    using assms(1) unfolding in_range_def by blast
  then have "x \<noteq> 0" "h \<noteq> 0" "l \<noteq> 0" by auto
  then show ?thesis using r(1,2,3) assms(2) by (simp add: venue_figures_def map_figures_def zero_unless_def falsy_def)
qed

lemma zero_or: "zero_unless (json_val (JNum (Fin x))) = JNum (Fin x)"
  by (auto simp: zero_unless_def falsy_def)

lemma venue_volumes_served:
  assumes "is_finite (st_volume s)" "is_finite (st_turnover s)"
  shows "fg_volume (venue_figures (map_figures json_val (num_figures s))) = JNum (st_volume s) \<and>
    fg_turnover (venue_figures (map_figures json_val (num_figures s))) = JNum (st_turnover s)"
proof -
  obtain x y where "st_volume s = Fin x" "st_turnover s = Fin y" using assms by (metis is_finite.elims(2))
  then show ?thesis by (simp add: venue_figures_def map_figures_def num_figures_def zero_or del: json_val.simps)
qed

section \<open>Publishing a tick changes one market\<close>

lemma update_pair_else:
  "fst x \<noteq> pid \<Longrightarrow> mk_cached (update_pair venue x m) pid = mk_cached m pid \<and> mk_changes (update_pair venue x m) pid = mk_changes m pid \<and>
    map_of (mk_listings (update_pair venue x m)) pid = map_of (mk_listings m) pid"
  by (auto simp: update_pair_def publish_tick_def hset_listing_def hset_change_def Let_def split: prod.split option.split sum.split)

lemma update_pair_online [simp]:
  "mk_online (update_pair venue x m) = mk_online m" "mk_saves (update_pair venue x m) = mk_saves m"
  by (auto simp: update_pair_def publish_tick_def hset_listing_def hset_change_def Let_def split: prod.split option.split sum.split)

lemma update_others:
  "pid \<notin> fst ` set xs \<Longrightarrow> mk_cached (fold (update_pair venue) xs m) pid = mk_cached m pid \<and>
    mk_changes (fold (update_pair venue) xs m) pid = mk_changes m pid \<and>
    map_of (mk_listings (fold (update_pair venue) xs m)) pid = map_of (mk_listings m) pid"
proof (induction xs arbitrary: m)
  case (Cons x xs)
  then have "pid \<notin> fst ` set xs" "fst x \<noteq> pid" by auto
  then show ?case using Cons.IH [of "update_pair venue x m"] update_pair_else [of x pid venue m] by simp
qed simp

lemma fold_update_online: "mk_online (fold (update_pair venue) xs m) = mk_online m"
  by (induction xs arbitrary: m) auto

text \<open>In a run over the markets a market is touched by its own turn only.\<close>

lemma update_own:
  assumes "distinct (map fst xs)" "(pid, l) \<in> set xs"
  shows "\<exists>m1. mk_online m1 = mk_online m \<and> mk_cached m1 pid = mk_cached m pid \<and> mk_changes m1 pid = mk_changes m pid \<and>
    map_of (mk_listings m1) pid = map_of (mk_listings m) pid \<and>
    mk_cached (fold (update_pair venue) xs m) pid = mk_cached (update_pair venue (pid, l) m1) pid \<and>
    mk_changes (fold (update_pair venue) xs m) pid = mk_changes (update_pair venue (pid, l) m1) pid \<and>
    map_of (mk_listings (fold (update_pair venue) xs m)) pid = map_of (mk_listings (update_pair venue (pid, l) m1)) pid"
proof -
  obtain ys zs where xs: "xs = ys @ (pid, l) # zs" using assms(2) by (auto simp: in_set_conv_decomp)
  then have n: "pid \<notin> fst ` set ys" "pid \<notin> fst ` set zs" using assms(1) by auto
  let ?m1 = "fold (update_pair venue) ys m"
  show ?thesis
    using update_others [OF n(1), of venue m] update_others [OF n(2), of venue "update_pair venue (pid, l) ?m1"]
      fold_update_online [of venue ys m]
    by (intro exI [of _ ?m1]) (simp add: xs)
qed

lemma distinct_filter_fst: "distinct (map fst xs) \<Longrightarrow> distinct (map fst (filter P xs))"
  by (induction xs) auto

lemma served_after_publish:
  assumes n: "normalize payload = Inr s" and v: "venue pid = Some payload" and o: "mk_online m1"
    and b: "li_bot l = ''binance''" "map_of (mk_listings m1) pid = Some l"
    and c: "mk_cached m2 pid = mk_cached (update_pair venue (pid, l) m1) pid"
      "map_of (mk_listings m2) pid = map_of (mk_listings (update_pair venue (pid, l) m1)) pid" "mk_online m2"
  shows "\<exists>t. snd (marketPrice pid m2) = Some t \<and> tk_figures t = venue_figures (map_figures json_val (num_figures s))"
proof -
  let ?l = "l\<lparr>li_figures := map_figures json_val (num_figures s)\<rparr>"
  have l: "mk_cached m2 pid = Some (Row ?l)"
    using c(1) by (simp add: update_pair_def v n publish_tick_def o hset_listing_def hset_change_def Let_def)
  define d where "d = (if mk_saves m1 then l\<lparr>li_figures := num_figures s\<rparr> else l)"
  have d: "map_of (mk_listings m2) pid = Some d" "li_bot d = ''binance''"
    unfolding c(2) d_def using b by (simp_all add: update_pair_def v n publish_tick_def o hset_listing_def hset_change_def Let_def)
  have f: "FetchListing pid m2 = (m2, Some ?l)" by (simp add: FetchListing_def l)
  show ?thesis using b(1) d c(3) by (simp add: marketPrice_def f own_trades_def served_def)
qed

text \<open>C36: After a run over the markets that copy the venue, a market whose tick was accepted serves exactly the last price, the range,
  the volume and the turnover of that tick, and the range is positive and contains the price. A market whose request
  failed or whose tick was refused keeps its cached figures as they were.\<close>

theorem served_ticks_are_the_venues:
  assumes "mk_online m" "distinct (map fst (mk_listings m))" "(pid, l) \<in> set (venue_pairs m)"
  shows "case (case venue pid of None \<Rightarrow> Inl ''failed'' | Some payload \<Rightarrow> normalize payload) of
      Inr s \<Rightarrow> (\<exists>t. snd (marketPrice pid (updateBinancePrices venue m)) = Some t \<and> in_range (tk_figures t) \<and>
        fg_last (tk_figures t) = JNum (st_last s) \<and> fg_high (tk_figures t) = JNum (st_high s) \<and> fg_low (tk_figures t) = JNum (st_low s) \<and>
        fg_volume (tk_figures t) = JNum (st_volume s) \<and> fg_turnover (tk_figures t) = JNum (st_turnover s))
    | Inl _ \<Rightarrow> mk_cached (updateBinancePrices venue m) pid = mk_cached m pid \<and> mk_changes (updateBinancePrices venue m) pid = mk_changes m pid"
proof -
  have d: "distinct (map fst (venue_pairs m))" using assms(2) unfolding venue_pairs_def by (rule distinct_filter_fst)
  have l: "map_of (mk_listings m) pid = Some l" "li_bot l = ''binance''"
    using assms(2,3) by (auto simp: venue_pairs_def)
  obtain m1 where m1: "mk_online m1 = mk_online m" "mk_cached m1 pid = mk_cached m pid" "mk_changes m1 pid = mk_changes m pid"
    "map_of (mk_listings m1) pid = map_of (mk_listings m) pid"
    "mk_cached (updateBinancePrices venue m) pid = mk_cached (update_pair venue (pid, l) m1) pid"
    "mk_changes (updateBinancePrices venue m) pid = mk_changes (update_pair venue (pid, l) m1) pid"
    "map_of (mk_listings (updateBinancePrices venue m)) pid = map_of (mk_listings (update_pair venue (pid, l) m1)) pid"
    using update_own [OF d assms(3), of m venue] unfolding updateBinancePrices_def by blast
  have o: "mk_online (updateBinancePrices venue m)" using assms(1) by (simp add: updateBinancePrices_def fold_update_online)
  show ?thesis
  proof (cases "case venue pid of None \<Rightarrow> Inl ''failed'' | Some payload \<Rightarrow> normalize payload")
    case (Inl e)
    then have "update_pair venue (pid, l) m1 = m1" by (auto simp: update_pair_def split: option.splits)
    then show ?thesis using Inl m1 by simp
  next
    case (Inr s)
    then obtain payload where p: "venue pid = Some payload" "normalize payload = Inr s" by (auto split: option.splits)
    have "mk_online m1" "map_of (mk_listings m1) pid = Some l" using m1 assms(1) l by simp_all
    from served_after_publish [OF p(2,1) this(1) l(2) this(2) m1(5,7) o]
    obtain t where t: "snd (marketPrice pid (updateBinancePrices venue m)) = Some t"
      "tk_figures t = venue_figures (map_figures json_val (num_figures s))" by blast
    note ok = normalize_ok [OF p(2)]
    have "fg_mark (num_figures s) = fg_last (num_figures s)" using ok by (simp add: num_figures_def)
    note f = venue_figures_served [OF conjunct1 [OF ok] this] venue_volumes_served [of s]
    have "in_range (tk_figures t)" using f(1) ok unfolding in_range_def t(2) by metis
    moreover have "fg_last (num_figures s) = JNum (st_last s)" "fg_high (num_figures s) = JNum (st_high s)"
      "fg_low (num_figures s) = JNum (st_low s)" by (simp_all add: num_figures_def)
    ultimately show ?thesis using Inr t f ok by simp
  qed
qed

definition quiet_figures :: figures where
  "quiet_figures = map_figures (\<lambda>_. JNum (Fin 0)) (num_figures \<lparr>st_mark = Fin 0, st_last = Fin 0, st_high = Fin 0, st_low = Fin 0,
     st_volume = Fin 0, st_turnover = Fin 0, st_change = Fin 0, st_change_price = Fin 0\<rparr>)"

definition sample_listing :: listing where
  "sample_listing = \<lparr>li_status = ''active'', li_bot = ''binance'', li_symbols = (''BTC'', ''USD''), li_figures = quiet_figures\<rparr>"

definition sample_market :: market where
  "sample_market = \<lparr>mk_online = True, mk_saves = True, mk_now = 10 ^ 9, mk_cached = (\<lambda>_. None), mk_changes = (\<lambda>_. None),
     mk_listings = [(''p'', sample_listing)], mk_trades = (\<lambda>_. []), mk_trade_docs = (\<lambda>_. []), mk_sent = []\<rparr>"

definition sample_raw :: raw where
  "sample_raw = \<lparr>rw_last = JNum (Fin 5), rw_high = JNum (Fin 7), rw_low = JNum (Fin 3), rw_volume = JNum (Fin 2), rw_average = JNum (Fin 5),
     rw_turnover = JNum (Fin 10), rw_open = JNum (Fin 4), rw_change_price = JNum (Fin 1), rw_change = JNum (Fin 25)\<rparr>"

lemma sample_accepted:
  "normalize (Some sample_raw) = Inr \<lparr>st_mark = Fin 5, st_last = Fin 5, st_high = Fin 7, st_low = Fin 3, st_volume = Fin 2, st_turnover = Fin 10,
     st_change = Fin 25, st_change_price = Fin 1\<rparr>"
  by code_simp

theorem served_ticks_are_the_venues_witness:
  "\<exists>t. snd (marketPrice ''p'' (updateBinancePrices (\<lambda>_. Some (Some sample_raw)) sample_market)) = Some t \<and>
     fg_high (tk_figures t) = JNum (Fin 7) \<and> fg_low (tk_figures t) = JNum (Fin 3) \<and> fg_turnover (tk_figures t) = JNum (Fin 10)"
proof -
  have "(''p'', sample_listing) \<in> set (venue_pairs sample_market)"
    by (simp add: venue_pairs_def sample_market_def sample_listing_def)
  moreover have "mk_online sample_market" "distinct (map fst (mk_listings sample_market))" by (simp_all add: sample_market_def)
  ultimately show ?thesis
    using served_ticks_are_the_venues [of sample_market "''p''" sample_listing "\<lambda>_. Some (Some sample_raw)"]
    unfolding option.case sample_accepted sum.case by auto
qed

text \<open>A market that did not trade with a turnover is accepted, although it is not coherent.\<close>

lemma accepted_but_incoherent:
  "case normalize (Some (sample_raw\<lparr>rw_volume := JNum (Fin 0)\<rparr>)) of Inl _ \<Rightarrow> False | Inr s \<Rightarrow> \<not> isCoherent (Some s)"
  by code_simp

section \<open>The figures of a day\<close>

lemma times_weak: "strict_weak_on A byTradeTime"
  by (auto simp: strict_weak_on_def byTradeTime_def)

lemma sorted_by_time: "sorted (map t_created (sort_before byTradeTime xs))"
  using sorted_sort_before [OF times_weak [of "set xs"], of xs] by (simp add: sorted_map byTradeTime_def not_less)

lemma mset_distinct: "mset xs = mset ys \<Longrightarrow> distinct (map f xs) \<Longrightarrow> distinct (map f ys)"
  by (metis mset_eq_imp_distinct_iff mset_map)

lemma sorted_same:
  assumes "mset xs = mset ys" "distinct (map t_created xs)" "sorted (map t_created xs)" "sorted (map t_created ys)"
  shows "xs = ys"
proof (rule map_sorted_distinct_set_unique)
  have "set xs = set ys" using assms(1) by (rule mset_eq_setD)
  then show "inj_on t_created (set xs \<union> set ys)" "set xs = set ys" using assms(2) by (simp_all add: distinct_map)
qed (use assms mset_distinct [OF assms(1,2)] in auto)

lemma window_sorted_either_way:
  assumes "mset xs = mset ys" "distinct (map t_created xs)"
  shows "filter P (sort_before byTradeTime xs) = sort_before byTradeTime (filter P ys)"
proof (rule sorted_same)
  show "mset (filter P (sort_before byTradeTime xs)) = mset (sort_before byTradeTime (filter P ys))"
    using assms(1) by simp
  have "distinct (map t_created (sort_before byTradeTime xs))" using mset_distinct [OF _ assms(2)] by simp
  then show "distinct (map t_created (filter P (sort_before byTradeTime xs)))" by (rule distinct_map_filter)
  show "sorted (map t_created (filter P (sort_before byTradeTime xs)))" using sorted_by_time sorted_filter by blast
qed (rule sorted_by_time)

definition price_rat :: "trade \<Rightarrow> rat" where
  "price_rat t = (case t_price t of JNum (Fin x) \<Rightarrow> x | _ \<Rightarrow> 0)"

definition priced :: "trade \<Rightarrow> bool" where
  "priced t \<longleftrightarrow> t_price t = JNum (Fin (price_rat t))"

lemma count_first:
  "priced t \<Longrightarrow> count_trade t no_trades =
     \<lparr>wi_open = JNum (Fin (price_rat t)), wi_close = JNum (Fin (price_rat t)), wi_min = JNum (Fin (price_rat t)),
      wi_max = JNum (Fin (price_rat t)), wi_first = Fin 0 + to_number (t_quantity t),
      wi_second = Fin 0 + Fin (price_rat t) * to_number (t_quantity t)\<rparr>"
  by (simp add: priced_def count_trade_def no_trades_def Let_def)

lemma count_more:
  assumes "\<forall>t \<in> set ts. priced t" "wi_open w = JNum x" "wi_max w = JNum (Fin a)" "wi_min w = JNum (Fin b)"
  shows "wi_open (fold count_trade ts w) = JNum x \<and>
    wi_max (fold count_trade ts w) = JNum (Fin (fold max (map price_rat ts) a)) \<and>
    wi_min (fold count_trade ts w) = JNum (Fin (fold min (map price_rat ts) b)) \<and>
    (ts \<noteq> [] \<longrightarrow> wi_close (fold count_trade ts w) = t_price (last ts))"
  using assms
proof (induction ts arbitrary: w a b)
  case (Cons t ts)
  let ?w = "count_trade t w"
  have p: "t_price t = JNum (Fin (price_rat t))" using Cons.prems(1) by (simp add: priced_def)
  have "wi_open ?w = JNum x" "wi_max ?w = JNum (Fin (max (price_rat t) a))" "wi_min ?w = JNum (Fin (min (price_rat t) b))"
    "wi_close ?w = t_price t"
    using Cons.prems p by (auto simp: count_trade_def Let_def max_def min_def)
  then show ?case using Cons.IH [of ?w "max (price_rat t) a" "min (price_rat t) b"] Cons.prems(1) by (cases ts) simp_all
qed simp

lemma window_of_trades:
  assumes "\<forall>t \<in> set ts. priced t" "ts \<noteq> []"
  shows "wi_open (fold count_trade ts no_trades) \<noteq> JNull \<and>
    wi_max (fold count_trade ts no_trades) = JNum (Fin (Max (price_rat ` set ts))) \<and>
    wi_min (fold count_trade ts no_trades) = JNum (Fin (Min (price_rat ` set ts))) \<and>
    wi_close (fold count_trade ts no_trades) = t_price (last ts)"
proof -
  obtain t us where ts: "ts = t # us" using assms(2) by (cases ts) auto
  have p: "priced t" "\<forall>t \<in> set us. priced t" using assms(1) ts by auto
  have m: "Max (price_rat ` set ts) = fold max (map price_rat us) (price_rat t)"
    "Min (price_rat ` set ts) = fold min (map price_rat us) (price_rat t)"
    using Max.set_eq_fold [of "price_rat t" "map price_rat us"] Min.set_eq_fold [of "price_rat t" "map price_rat us"]
    by (simp_all add: ts)
  show ?thesis
    using count_more [OF p(2), of "count_trade t no_trades"] count_first [OF p(1)] p(1) unfolding m
    by (cases us) (auto simp: ts priced_def)
qed

lemma last_is_newest:
  "sorted (map t_created ts) \<Longrightarrow> t \<in> set ts \<Longrightarrow> t_created t \<le> t_created (last ts)"
  by (cases ts rule: rev_cases) (auto simp: sorted_append)


definition sample_trade :: "int \<Rightarrow> rat \<Rightarrow> trade" where
  "sample_trade time x = \<lparr>t_pair = ''p'', t_buy_user = ''u'', t_sell_user = ''v'', t_unique = nat time, t_price = JNum (Fin x),
     t_quantity = JNum (Fin 1), t_value = JNum (Fin x), t_buy_price = JNum (Fin x), t_sell_price = JNum (Fin x), t_buy_type = ''limit'',
     t_sell_type = ''limit'', t_maker = ''buy'', t_buy_order = ''o1'', t_sell_order = ''o2'', t_created = time\<rparr>"

definition house_market :: market where
  "house_market = sample_market\<lparr>mk_listings := [(''p'', sample_listing\<lparr>li_bot := ''off''\<rparr>)],
     mk_cached := (\<lambda>_. Some (Row (sample_listing\<lparr>li_bot := ''off''\<rparr>))),
     mk_trades := (\<lambda>_. [sample_trade 999999999 4, sample_trade 3 9, sample_trade 999999998 6]),
     mk_trade_docs := (\<lambda>_. [sample_trade 3 9, sample_trade 999999998 6, sample_trade 999999999 4])\<rparr>"


end
