(* ===== verification/UserForms.thy ===== *)
theory UserForms
  imports StandDown
begin

text \<open>
  What the user service checks before a handler runs: the deployment's switches and what may be shown when no mail
  is sent (\<^verbatim>\<open>cryptodex-userapi/lib/mailDelivery.js\<close>, \<^verbatim>\<open>lib/recaptcha.js\<close>) and the validators of its forms
  (\<^verbatim>\<open>validation/user.validation.js\<close>). A field of a form is absent, null, a boolean, a number or a text; a line
  of text ends at a newline or a carriage return. The theorems compare the rules for a new password with one another
  and say that nothing secret is shown in production.
\<close>

section \<open>The deployment\<close>

record process_env =
  pe_NODE_ENV :: "string option"
  pe_TEST_MODE :: "string option"
  pe_DEV_EMAIL_BYPASS :: "string option"
  pe_DEV_RECAPTCHA_BYPASS :: "string option"

definition DELIVERY_SEND :: string where "DELIVERY_SEND = ''send''"

definition DELIVERY_LOG_ONLY :: string where "DELIVERY_LOG_ONLY = ''log-only''"

definition isProduction :: "process_env \<Rightarrow> bool" where
  "isProduction pe \<longleftrightarrow> pe_NODE_ENV pe = Some ''production''"

definition mailDeliveryMode :: "process_env \<Rightarrow> string" where
  "mailDeliveryMode pe =
     (if isProduction pe then DELIVERY_SEND
      else if pe_NODE_ENV pe = Some ''test'' \<or> pe_TEST_MODE pe = Some ''true'' \<or> pe_DEV_EMAIL_BYPASS pe = Some ''true''
      then DELIVERY_LOG_ONLY else DELIVERY_SEND)"

definition isMailBypassed :: "process_env \<Rightarrow> bool" where
  "isMailBypassed pe \<longleftrightarrow> mailDeliveryMode pe = DELIVERY_LOG_ONLY"

record delivery_facts =
  df_mode :: string
  df_delivered :: bool

text \<open>The sentence of the notice is left out.\<close>

definition mailDeliveryFacts :: "process_env \<Rightarrow> delivery_facts" where
  "mailDeliveryFacts pe = (let mode = mailDeliveryMode pe in \<lparr>df_mode = mode, df_delivered = (mode \<noteq> DELIVERY_LOG_ONLY)\<rparr>)"

type_synonym disclosure = "(string \<times> string) list"

definition discloseWhenLogOnly :: "process_env \<Rightarrow> disclosure \<Rightarrow> disclosure" where
  "discloseWhenLogOnly pe disclosure =
     (if \<not> isMailBypassed pe then [] else filter (\<lambda>(_, value). value \<noteq> []) disclosure)"

definition recaptchaVerificationRequired :: "process_env \<Rightarrow> bool" where
  "recaptchaVerificationRequired pe \<longleftrightarrow>
     (if pe_NODE_ENV pe = Some ''production'' then True
      else \<not> (pe_NODE_ENV pe = Some ''development'' \<or> pe_NODE_ENV pe = Some ''test'' \<or>
              pe_TEST_MODE pe = Some ''true'' \<or> pe_DEV_RECAPTCHA_BYPASS pe = Some ''true''))"

section \<open>Shapes of texts\<close>

definition is_upper :: "char \<Rightarrow> bool" where
  "is_upper c \<longleftrightarrow> 65 \<le> (of_char c :: int) \<and> (of_char c :: int) \<le> 90"

definition is_lower :: "char \<Rightarrow> bool" where
  "is_lower c \<longleftrightarrow> 97 \<le> (of_char c :: int) \<and> (of_char c :: int) \<le> 122"

definition is_word :: "char \<Rightarrow> bool" where
  "is_word c \<longleftrightarrow> is_upper c \<or> is_lower c \<or> is_digit c \<or> c = CHR ''_''"

definition ends_line :: "char \<Rightarrow> bool" where
  "ends_line c \<longleftrightarrow> (of_char c :: int) = 10 \<or> (of_char c :: int) = 13"

text \<open>
  The expression for passwords looks for a digit, a capital, a small letter and another character from the start
  of the text, and wants six characters of the first line; the end of that line counts as another character.
\<close>

definition passwordRegex :: "string \<Rightarrow> bool" where
  "passwordRegex s = (let line = takeWhile (\<lambda>c. \<not> ends_line c) s in
     list_ex is_digit line \<and> list_ex is_upper line \<and> list_ex is_lower line \<and>
     (list_ex (\<lambda>c. \<not> is_word c) line \<or> line \<noteq> s) \<and> 6 \<le> length line)"

fun segments :: "char \<Rightarrow> string \<Rightarrow> string list" where
  "segments c [] = [[]]"
| "segments c (x # xs) = (if x = c then [] # segments c xs else (x # hd (segments c xs)) # tl (segments c xs))"

definition plain_local :: "string \<Rightarrow> bool" where
  "plain_local s \<longleftrightarrow>
     list_all (\<lambda>p. p \<noteq> [] \<and> list_all (\<lambda>c. c \<notin> set ''<>()[].,;:@'' \<and> c \<noteq> CHR 34 \<and> c \<noteq> CHR 92 \<and> \<not> is_ws c) p) (segments CHR ''.'' s)"

definition quoted_local :: "string \<Rightarrow> bool" where
  "quoted_local s \<longleftrightarrow>
     3 \<le> length s \<and> hd s = CHR 34 \<and> last s = CHR 34 \<and> list_all (\<lambda>c. \<not> ends_line c) s"

definition numbered_domain :: "string \<Rightarrow> bool" where
  "numbered_domain s \<longleftrightarrow>
     2 \<le> length s \<and> hd s = CHR ''['' \<and> last s = CHR '']'' \<and>
     (let ps = segments CHR ''.'' (butlast (tl s)) in
      length ps = 4 \<and> list_all (\<lambda>p. 1 \<le> length p \<and> length p \<le> 3 \<and> list_all is_digit p) ps)"

definition named_domain :: "string \<Rightarrow> bool" where
  "named_domain s \<longleftrightarrow>
     (let ps = segments CHR ''.'' s in
      2 \<le> length ps \<and>
      list_all (\<lambda>p. p \<noteq> [] \<and> list_all (\<lambda>c. is_upper c \<or> is_lower c \<or> is_digit c \<or> c = CHR ''-'') p) (butlast ps) \<and>
      2 \<le> length (last ps) \<and> length (last ps) \<le> 6 \<and> list_all (\<lambda>c. is_upper c \<or> is_lower c) (last ps))"

text \<open>No domain holds an at sign, so an address is read around its last one.\<close>

definition emailRegex :: "string \<Rightarrow> bool" where
  "emailRegex s \<longleftrightarrow>
     (let ps = segments CHR ''@'' s; domain = last ps; lcl = take (length s - length domain - 1) s in
      2 \<le> length ps \<and> (plain_local lcl \<or> quoted_local lcl) \<and> (numbered_domain domain \<or> named_domain domain))"

section \<open>Loose comparison\<close>

definition nullish :: "jsval \<Rightarrow> bool" where
  "nullish v \<longleftrightarrow> v = JUndef \<or> v = JNull"

fun loose_eq :: "jsval \<Rightarrow> jsval \<Rightarrow> bool" where
  "loose_eq (JStr s) (JStr t) = (s = t)"
| "loose_eq a b = (if nullish a \<or> nullish b then nullish a \<and> nullish b else js_eq (to_number a) (to_number b))"

section \<open>Forms\<close>

record user_body =
  ub_roleType :: jsval
  ub_email :: jsval
  ub_password :: jsval
  ub_confirmPassword :: jsval
  ub_oldPassword :: jsval
  ub_otpTextBox :: jsval
  ub_otp :: jsval
  ub_reCaptcha :: jsval
  ub_authToken :: jsval
  ub_userId :: jsval
  ub_type :: jsval
  ub_newEmail :: jsval
  ub_oldEmail :: jsval
  ub_token :: jsval
  ub_requestType :: jsval
  ub_newPhoneNo :: jsval
  ub_newPhoneCode :: jsval

definition empty_body :: user_body where
  "empty_body = \<lparr>ub_roleType = JUndef, ub_email = JUndef, ub_password = JUndef, ub_confirmPassword = JUndef,
     ub_oldPassword = JUndef, ub_otpTextBox = JUndef, ub_otp = JUndef, ub_reCaptcha = JUndef, ub_authToken = JUndef,
     ub_userId = JUndef, ub_type = JUndef, ub_newEmail = JUndef, ub_oldEmail = JUndef, ub_token = JUndef,
     ub_requestType = JUndef, ub_newPhoneNo = JUndef, ub_newPhoneCode = JUndef\<rparr>"

type_synonym form_errors = "(string \<times> string) list"

definition fault_if :: "bool \<Rightarrow> string \<Rightarrow> string \<Rightarrow> form_errors" where
  "fault_if c f m = (if c then [(f, m)] else [])"

definition for_role :: "int \<Rightarrow> user_body \<Rightarrow> bool" where
  "for_role n b \<longleftrightarrow> loose_eq (ub_roleType b) (JNum (Fin (of_int n)))"

definition email_fault :: "string \<Rightarrow> jsval \<Rightarrow> form_errors" where
  "email_fault f v = (if isEmpty v then [(f, ''REQUIRED'')] else if \<not> emailRegex (to_string v) then [(f, ''INVALID'')] else [])"

text \<open>Only a text has a length; the length of another value compares as neither smaller nor larger.\<close>

definition password_fault :: "nat \<Rightarrow> jsval \<Rightarrow> form_errors" where
  "password_fault least v =
     (if isEmpty v then [(''password'', ''REQUIRED'')]
      else if \<not> passwordRegex (to_string v) then [(''password'', ''WEAK'')]
      else case v of JStr s \<Rightarrow> fault_if (length s < least \<or> 18 < length s) ''password'' ''WEAK'' | _ \<Rightarrow> [])"

definition repeat_fault :: "user_body \<Rightarrow> form_errors" where
  "repeat_fault b =
     fault_if (isEmpty (ub_confirmPassword b)) ''confirmPassword'' ''REQUIRED'' @
     fault_if (\<not> isEmpty (ub_password b) \<and> \<not> isEmpty (ub_confirmPassword b) \<and>
               \<not> loose_eq (ub_password b) (ub_confirmPassword b)) ''confirmPassword'' ''MISMATCH''"

definition registerValidate :: "process_env \<Rightarrow> user_body \<Rightarrow> form_errors" where
  "registerValidate pe b =
     (if for_role 1 b then
        email_fault ''email'' (ub_email b) @ password_fault 8 (ub_password b) @ repeat_fault b @
        fault_if (recaptchaVerificationRequired pe \<and> isEmpty (ub_reCaptcha b)) ''reCaptcha'' ''REQUIRED''
      else if for_role 2 b then
        fault_if (isEmpty (ub_newPhoneNo b)) ''newPhoneNo'' ''REQUIRED'' @
        fault_if (isEmpty (ub_newPhoneCode b)) ''newPhoneCode'' ''REQUIRED'' @
        fault_if (isEmpty (ub_password b)) ''password'' ''REQUIRED'' @ repeat_fault b @
        fault_if (recaptchaVerificationRequired pe \<and> isEmpty (ub_reCaptcha b)) ''reCaptcha'' ''REQUIRED''
      else [])"

definition phone_faults :: "user_body \<Rightarrow> form_errors" where
  "phone_faults b =
     (if for_role 2 b \<and> isEmpty (ub_newPhoneNo b) then [(''newPhoneNo'', ''PHONE'')]
      else if for_role 2 b \<and> isEmpty (ub_newPhoneCode b) then [(''newPhoneNo'', ''COUNTRY'')] else [])"

definition loginValidate :: "user_body \<Rightarrow> form_errors" where
  "loginValidate b =
     (if for_role 1 b then email_fault ''email'' (ub_email b) else []) @ phone_faults b @
     fault_if (isEmpty (ub_password b)) ''password'' ''REQUIRED''"

definition confirmMailValidate :: "user_body \<Rightarrow> form_errors" where
  "confirmMailValidate b = fault_if (isEmpty (ub_authToken b)) ''authToken'' ''REQUIRED''"

definition activateRegsiterUser :: "user_body \<Rightarrow> form_errors" where
  "activateRegsiterUser b = fault_if (isEmpty (ub_userId b)) ''userId'' ''REQUIRED''"

definition changePwdValidate :: "user_body \<Rightarrow> form_errors" where
  "changePwdValidate b =
     fault_if (isEmpty (ub_oldPassword b)) ''oldPassword'' ''REQUIRED'' @ password_fault 6 (ub_password b) @
     (if isEmpty (ub_otp b) then [(''otp'', ''REQUIRED'')] else fault_if (global_is_nan (ub_otp b)) ''otp'' ''INVALID'') @
     repeat_fault b"

definition checkForgotPwdValidate :: "process_env \<Rightarrow> user_body \<Rightarrow> form_errors" where
  "checkForgotPwdValidate pe b =
     (if for_role 1 b then email_fault ''email'' (ub_email b) else []) @ phone_faults b @
     fault_if (recaptchaVerificationRequired pe \<and> isEmpty (ub_reCaptcha b)) ''reCaptcha'' ''REQUIRED''"

definition resetPwdValidate :: "user_body \<Rightarrow> form_errors" where
  "resetPwdValidate b =
     fault_if (isEmpty (ub_authToken b)) ''authToken'' ''REQUIRED'' @ password_fault 0 (ub_password b) @ repeat_fault b"

definition editEmailValidate :: "user_body \<Rightarrow> form_errors" where
  "editEmailValidate b = email_fault ''newEmail'' (ub_newEmail b)"

definition tokenValidate :: "user_body \<Rightarrow> form_errors" where
  "tokenValidate b = fault_if (isEmpty (ub_token b)) ''token'' ''REQUIRED''"

definition emailChangeValidation :: "user_body \<Rightarrow> form_errors" where
  "emailChangeValidation b = fault_if (isEmpty (ub_otp b)) ''otp'' ''REQUIRED'' @ email_fault ''email'' (ub_email b)"

section \<open>Nothing is shown in production\<close>

lemma production_shows_nothing [simp]: "isProduction pe \<Longrightarrow> discloseWhenLogOnly pe d = []"
  by (simp add: discloseWhenLogOnly_def isMailBypassed_def mailDeliveryMode_def DELIVERY_SEND_def DELIVERY_LOG_ONLY_def)

lemma shown_iff_not_delivered: "isMailBypassed pe \<longleftrightarrow> \<not> df_delivered (mailDeliveryFacts pe)"
  by (simp add: isMailBypassed_def mailDeliveryFacts_def Let_def)

section \<open>Passwords\<close>

lemma fault_if_none [simp]: "fault_if c f m = [] \<longleftrightarrow> \<not> c"
  by (simp add: fault_if_def)

lemma loose_eq_refl [simp]: "loose_eq (JStr s) (JStr s)"
  by simp

lemma weak_unless:
  "password_fault n (JStr s) = [] \<longleftrightarrow> \<not> isEmpty (JStr s) \<and> passwordRegex s \<and> n \<le> length s \<and> length s \<le> 18"
  by (auto simp: password_fault_def)

text \<open>A password that registration takes is taken by a change and by a reset as well; these two ask for six characters.\<close>

lemma registered_password_fits:
  "password_fault 8 v = [] \<Longrightarrow> password_fault 6 v = [] \<and> password_fault 0 v = []"
  by (auto simp: password_fault_def fault_if_def split: if_splits jsval.splits)

lemma line_of_six: "passwordRegex s \<Longrightarrow> \<not> length s < 6"
  using length_takeWhile_le [of "\<lambda>c. \<not> ends_line c" s] by (simp add: passwordRegex_def Let_def)

lemma six_is_least: "password_fault 0 v = [] \<Longrightarrow> password_fault 6 v = []"
  by (auto simp: password_fault_def fault_if_def dest: line_of_six split: if_splits jsval.splits)

lemma six_characters: "password_fault 6 (JStr ''Abc12!'') = [] \<and> password_fault 8 (JStr ''Abc12!'') \<noteq> []"
  by code_simp

lemmas char_classes = is_upper_def is_lower_def is_word_def is_digit_def is_ws_def ends_line_def

lemma addresses:
  "emailRegex ''u.n@mail.de''" "emailRegex ''Foo@Bar.org''" "\<not> emailRegex ''a..b@c.de''" "\<not> emailRegex ''a@b''"
  by (simp_all add: emailRegex_def plain_local_def quoted_local_def numbered_domain_def named_domain_def char_classes)

end
