(* ===== verification/Accounts.thy ===== *)
theory Accounts
  imports UserForms
begin

text \<open>
  Accounts of the user service: registration, sign-in with its lockout and mailed code, sessions, password resets
  and changes, e-mail activation and changes of address (\<^verbatim>\<open>cryptodex-userapi/controllers/auth.controller.js\<close>,
  \<^verbatim>\<open>controllers/user.controller.js\<close>, \<^verbatim>\<open>models/User.js\<close>, \<^verbatim>\<open>config/passport.js\<close>, the routes). A request is one
  step. The password digest and the sealing of links are library functions and arguments, as are the time and the random
  values a request draws; the database answers. A signed token that reaches a handler was issued by the service.
\<close>

section \<open>Documents, sessions and mail\<close>

record user_doc =
  us_id :: user_id
  us_code :: string
  us_email :: string
  us_hash :: string
  us_salt :: string
  us_otp :: string
  us_otptime :: "int option"
  us_emailOTP :: string
  us_emailOTPtime :: "int option"
  us_requestType :: jsval
  us_deactiveOtpChannel :: string
  us_deactivatedAt :: "int option"
  us_newEmail :: string
  us_newEmailToken :: string
  us_mailToken :: string
  us_conFirmMailToken :: string
  us_status :: string
  us_emailStatus :: string
  us_percentage :: int
  us_createdAt :: int
  us_updatedAt :: "int option"
  us_locked :: string
  us_isBlock :: bool
  us_login_attempt :: int
  us_lock_session :: "int option"
  us_changepassword :: bool

text \<open>What a document holds that only an id, a number and a time of creation were written to.\<close>

definition new_user_doc :: "user_id \<Rightarrow> string \<Rightarrow> int \<Rightarrow> user_doc" where
  "new_user_doc i code t = \<lparr>us_id = i, us_code = code, us_email = [], us_hash = [], us_salt = [], us_otp = [], us_otptime = None,
     us_emailOTP = [], us_emailOTPtime = None, us_requestType = JStr [], us_deactiveOtpChannel = [], us_deactivatedAt = None,
     us_newEmail = [], us_newEmailToken = [], us_mailToken = [], us_conFirmMailToken = [], us_status = ''unverified'',
     us_emailStatus = ''unverified'', us_percentage = 0, us_createdAt = t, us_updatedAt = None, us_locked = ''false'',
     us_isBlock = False, us_login_attempt = 0, us_lock_session = None, us_changepassword = False\<rparr>"

record user_setting =
  st_passwordChange :: bool
  st_showSpot :: bool

record session_row =
  ss_tokenId :: "string option"
  ss_locked :: "string option"
  ss_email :: string
  ss_showSpot :: "bool option"

record mail_item =
  ml_kind :: string
  ml_to :: string
  ml_secret :: string

text \<open>The documents in the order of the collection; the wallet service is asked for an asset list of each new account.\<close>

record user_service =
  u_docs :: "user_doc list"
  u_settings :: "user_id \<Rightarrow> user_setting option"
  u_sessions :: "user_id \<Rightarrow> session_row option"
  u_redis :: bool
  u_mails :: "mail_item list"
  u_assets :: "(user_id \<times> string) list"
  u_told :: "(user_id \<times> string) list"

record user_env =
  ue_process :: process_env
  ue_digest :: "string \<Rightarrow> string \<Rightarrow> string"
  ue_unseal :: "string \<Rightarrow> string"

record chance =
  ch_now :: int
  ch_code :: int
  ch_token :: string
  ch_salt :: string
  ch_session :: string
  ch_id :: user_id

datatype user_answer = Answer (an_code: int) (an_says: string) (an_shows: disclosure)

definition replies :: "int \<Rightarrow> string \<Rightarrow> user_answer" where
  "replies c w = Answer c w []"

definition doc_of :: "user_service \<Rightarrow> user_id \<Rightarrow> user_doc option" where
  "doc_of s i = List.find (\<lambda>d. us_id d = i) (u_docs s)"

definition doc_at :: "user_service \<Rightarrow> string \<Rightarrow> user_doc option" where
  "doc_at s e = List.find (\<lambda>d. us_email d = e) (u_docs s)"

definition amend :: "user_id \<Rightarrow> (user_doc \<Rightarrow> user_doc) \<Rightarrow> user_service \<Rightarrow> user_service" where
  "amend i f s = s\<lparr>u_docs := map (\<lambda>d. if us_id d = i then f d else d) (u_docs s)\<rparr>"

definition mailTemplateLang :: "string \<Rightarrow> string \<Rightarrow> string \<Rightarrow> user_service \<Rightarrow> user_service" where
  "mailTemplateLang kind to secret s = s\<lparr>u_mails := u_mails s @ [\<lparr>ml_kind = kind, ml_to = to, ml_secret = secret\<rparr>]\<rparr>"

definition newNotification :: "user_id \<Rightarrow> string \<Rightarrow> user_service \<Rightarrow> user_service" where
  "newNotification i title s = s\<lparr>u_told := u_told s @ [(i, title)]\<rparr>"

text \<open>A random code as its field holds it.\<close>

definition code_text :: "int \<Rightarrow> string" where
  "code_text n = num_to_string (Fin (of_int n))"

text \<open>
  A query for an address that is absent selects the first document there is.
\<close>

definition normaliseEmail :: "jsval \<Rightarrow> jsval" where
  "normaliseEmail v = (case v of JStr e \<Rightarrow> JStr (lower e) | _ \<Rightarrow> v)"

definition doc_for :: "user_service \<Rightarrow> jsval \<Rightarrow> user_doc option" where
  "doc_for s v = (case v of
      JUndef \<Rightarrow> (case u_docs s of [] \<Rightarrow> None | d # _ \<Rightarrow> Some d)
    | JNull \<Rightarrow> None
    | _ \<Rightarrow> doc_at s (to_string v))"

text \<open>An id of the database: twenty-four hexadecimal characters, or twelve bytes that are spelled by them.\<close>

definition hex_char :: "int \<Rightarrow> char" where
  "hex_char n = (if n < 10 then char_of (48 + n) else char_of (87 + n))"

definition object_id :: "string \<Rightarrow> user_id option" where
  "object_id w =
     (if isObjectIdLike w then Some (lower w)
      else if length w = 12 then Some (concat (map (\<lambda>c. [hex_char (of_char c div 16), hex_char (of_char c mod 16)]) w))
      else None)"

section \<open>Passwords\<close>

text \<open>The library refuses a password that is neither absent nor a text.\<close>

definition encryptPassword :: "user_env \<Rightarrow> jsval \<Rightarrow> string \<Rightarrow> string option" where
  "encryptPassword E password salt =
     (if falsy password \<or> salt = [] then Some []
      else case password of JStr p \<Rightarrow> Some (ue_digest E p salt) | _ \<Rightarrow> None)"

definition authenticate :: "user_env \<Rightarrow> jsval \<Rightarrow> user_doc \<Rightarrow> bool option" where
  "authenticate E password d = map_option (\<lambda>h. h = us_hash d) (encryptPassword E password (us_salt d))"

text \<open>A blank digest is refused when the document is saved.\<close>

definition with_password :: "user_env \<Rightarrow> chance \<Rightarrow> jsval \<Rightarrow> (string \<times> string) option" where
  "with_password E x password = (case encryptPassword E password (ch_salt x) of
      None \<Rightarrow> None | Some h \<Rightarrow> if h = [] then None else Some (ch_salt x, h))"

section \<open>Sessions\<close>

record jwt =
  jw_id :: user_id
  jw_tokenId :: string
  jw_role :: string

definition usersAuth :: "user_service \<Rightarrow> jwt \<Rightarrow> user_id option" where
  "usersAuth s w =
     (if jw_role w = ''user'' \<and> u_redis s then (case u_sessions s (jw_id w) of
        None \<Rightarrow> None
      | Some r \<Rightarrow>
          if ss_locked r \<noteq> Some ''false'' then None
          else if ss_tokenId r \<noteq> Some (jw_tokenId w) then None else Some (jw_id w))
      else None)"

section \<open>Registration\<close>

text \<open>The number of an account is spelled from the last six characters of its id.\<close>

definition IncCntObjId :: "user_id \<Rightarrow> string" where
  "IncCntObjId i = num_to_string (parse_base 16 (drop (length i - 6) i))"

definition defaultUserSetting :: "user_id \<Rightarrow> user_service \<Rightarrow> user_service" where
  "defaultUserSetting i s = s\<lparr>u_settings := (u_settings s)(i \<mapsto> \<lparr>st_passwordChange = False, st_showSpot = False\<rparr>)\<rparr>"

definition HOURS_BEFORE_DELETE :: int where "HOURS_BEFORE_DELETE = 24"

definition earlier_registration :: "chance \<Rightarrow> string \<Rightarrow> user_service \<Rightarrow> user_answer + user_service" where
  "earlier_registration x e s = (case doc_at s e of
      None \<Rightarrow> Inr s
    | Some d \<Rightarrow>
        if us_emailStatus d = ''verified'' then Inl (replies 400 ''Email already exists'')
        else if ch_now x - us_createdAt d \<ge> HOURS_BEFORE_DELETE * 60 * 60 * 1000
        then Inr (s\<lparr>u_docs := filter (\<lambda>d'. us_id d' \<noteq> us_id d) (u_docs s), u_settings := (u_settings s)(us_id d := None)\<rparr>)
        else Inl (replies 400 ''An unverified account exists''))"

text \<open>The database holds no id, no number and no address twice.\<close>

definition insert_user :: "user_doc \<Rightarrow> user_service \<Rightarrow> user_service option" where
  "insert_user d s =
     (if list_ex (\<lambda>d'. us_id d' = us_id d \<or> us_code d' = us_code d \<or> us_email d' = us_email d) (u_docs s) then None
      else Some (s\<lparr>u_docs := u_docs s @ [d]\<rparr>))"

definition createNewUser :: "user_env \<Rightarrow> chance \<Rightarrow> user_body \<Rightarrow> user_service \<Rightarrow> user_service \<times> user_answer" where
  "createNewUser E x b s =
     (if for_role 1 b then (case ub_email b of
        JStr raw \<Rightarrow> (let e = lower raw in (case earlier_registration x e s of
            Inl a \<Rightarrow> (s, a)
          | Inr s1 \<Rightarrow> (case with_password E x (ub_password b) of
              None \<Rightarrow> (s1, replies 500 ''Something went wrong'')
            | Some (salt, h) \<Rightarrow>
                let d = (new_user_doc (ch_id x) (IncCntObjId (ch_id x)) (ch_now x))
                  \<lparr>us_email := e, us_salt := salt, us_hash := h, us_mailToken := ch_token x\<rparr> in
                (case insert_user d s1 of
                  None \<Rightarrow> (s1, replies 500 ''Something went wrong'')
                | Some s2 \<Rightarrow>
                    (mailTemplateLang ''activate_register_user'' e (ch_token x)
                       (defaultUserSetting (us_id d) (s2\<lparr>u_assets := u_assets s2 @ [(us_id d, us_code d)]\<rparr>)),
                     Answer 200 ''REGISTERED'' (discloseWhenLogOnly (ue_process E) [(''activationLink'', ch_token x)]))))))
      | _ \<Rightarrow> (s, replies 500 ''Something went wrong''))
      else if for_role 2 b then (s, replies 400 ''Phone registration is disabled'')
      else (s, replies 400 ''Unsupported registration type''))"

section \<open>Signing in\<close>

definition login_lookup :: "user_body \<Rightarrow> user_service \<Rightarrow> user_answer + user_doc" where
  "login_lookup b s =
     (if for_role 1 b then (case ub_email b of
        JStr e \<Rightarrow> (case doc_at s (lower e) of
            None \<Rightarrow> Inl (replies 400 ''Please enter a correct email address'') | Some d \<Rightarrow> Inr d)
      | _ \<Rightarrow> Inl (replies 500 ''Error on server''))
      else if for_role 2 b then Inl (replies 400 ''Phone login is disabled'')
      else Inl (replies 500 ''Error on server''))"

definition LOCK_INTERVAL :: int where "LOCK_INTERVAL = 1 * 1000 * 60 * 60 * 24"

definition lock_over :: "chance \<Rightarrow> user_doc \<Rightarrow> bool" where
  "lock_over x d = (case us_lock_session d of None \<Rightarrow> False | Some t \<Rightarrow> ch_now x - t \<ge> LOCK_INTERVAL)"

text \<open>A lock that is over is lifted in the database; the document the request goes on with still says it is blocked.\<close>

definition login_gate :: "chance \<Rightarrow> user_doc \<Rightarrow> user_service \<Rightarrow> user_answer + user_service" where
  "login_gate x d s =
     (if us_locked d = ''true'' then Inl (replies 400 ''Your account is still locked'')
      else if us_status d \<noteq> ''verified'' then Inl (replies 400 ''Your account still not activated'')
      else if us_isBlock d then
        if lock_over x d then Inr (amend (us_id d) (\<lambda>d'. d'\<lparr>us_login_attempt := 0, us_isBlock := False\<rparr>) s)
        else Inl (replies 405 ''You had too many login attempts'')
      else Inr s)"

definition failed_attempt :: "chance \<Rightarrow> user_doc \<Rightarrow> user_service \<Rightarrow> user_service \<times> user_answer" where
  "failed_attempt x d s =
     (if \<not> us_isBlock d then
        if us_login_attempt d \<ge> 2 then
          (amend (us_id d) (\<lambda>d'. d'\<lparr>us_login_attempt := 0, us_isBlock := True, us_lock_session := Some (ch_now x)\<rparr>) s,
           replies 405 ''You had too many login attempts'')
        else (amend (us_id d) (\<lambda>d'. d'\<lparr>us_login_attempt := us_login_attempt d + 1\<rparr>) s, replies 400 ''Password incorrect'')
      else (s, replies 400 ''Password incorrect''))"

text \<open>A code that was never sent counts from the start of time. More than 3.4 minutes are more than 204000 milliseconds.\<close>

definition since :: "int option \<Rightarrow> chance \<Rightarrow> int" where
  "since t x = \<bar>ch_now x - (case t of None \<Rightarrow> 0 | Some t \<Rightarrow> t)\<bar>"

definition login_code :: "user_env \<Rightarrow> chance \<Rightarrow> user_body \<Rightarrow> user_doc \<Rightarrow> user_service \<Rightarrow> user_service \<times> user_answer option" where
  "login_code E x b d s =
     (if pe_TEST_MODE (ue_process E) = Some ''true'' then (s, None)
      else if falsy (ub_otpTextBox b) \<and> isEmpty (ub_otp b) then
        (mailTemplateLang ''EMAIL_VERIFICATION_OTP'' (us_email d) (code_text (ch_code x))
           (amend (us_id d) (\<lambda>d'. d'\<lparr>us_otp := code_text (ch_code x), us_otptime := Some (ch_now x)\<rparr>) s),
         Some (Answer 200 ''OTP'' (discloseWhenLogOnly (ue_process E) [(''verificationCode'', code_text (ch_code x))])))
      else if \<not> falsy (ub_otpTextBox b) \<and> isEmpty (ub_otp b) then (s, Some (replies 400 ''OTP is required''))
      else if \<not> falsy (ub_otpTextBox b) \<and> \<not> isEmpty (ub_otp b) then
        if since (us_otptime d) x > 204000 then (s, Some (replies 400 ''OTP Expired''))
        else if \<not> loose_eq (ub_otp b) (JStr (us_otp d)) then (s, Some (replies 400 ''Invalid OTP''))
        else (amend (us_id d) (\<lambda>d'. d'\<lparr>us_otp := []\<rparr>) s, None)
      else (s, None))"

text \<open>An account without settings, and a store that is down, end in the handler's catch.\<close>

definition login_open :: "chance \<Rightarrow> user_doc \<Rightarrow> user_service \<Rightarrow> user_service \<times> user_answer" where
  "login_open x d s =
     (if u_settings s (us_id d) = None \<or> \<not> u_redis s then (s, replies 500 ''Error on server'')
      else (amend (us_id d) (\<lambda>d'. d'\<lparr>us_login_attempt := 0, us_isBlock := False\<rparr>)
              (newNotification (us_id d) ''Login success ''
                (mailTemplateLang ''Login_notification'' (us_email d) []
                  (s\<lparr>u_sessions := (u_sessions s)(us_id d \<mapsto> \<lparr>ss_tokenId = Some (ch_session x), ss_locked = Some (us_locked d),
                     ss_email = us_email d, ss_showSpot = None\<rparr>)\<rparr>))),
            replies 200 ''Login Success!''))"

definition userLogin :: "user_env \<Rightarrow> chance \<Rightarrow> user_body \<Rightarrow> user_service \<Rightarrow> user_service \<times> user_answer" where
  "userLogin E x b s = (case login_lookup b s of
      Inl a \<Rightarrow> (s, a)
    | Inr d \<Rightarrow> (case login_gate x d s of
        Inl a \<Rightarrow> (s, a)
      | Inr s1 \<Rightarrow> (case authenticate E (ub_password b) d of
          None \<Rightarrow> (s1, replies 500 ''Error on server'')
        | Some False \<Rightarrow> failed_attempt x d s1
        | Some True \<Rightarrow> (case login_code E x b d s1 of
            (s2, Some a) \<Rightarrow> (s2, a)
          | (s2, None) \<Rightarrow> login_open x d s2))))"

definition resendOTP :: "chance \<Rightarrow> user_body \<Rightarrow> user_service \<Rightarrow> user_service \<times> user_answer" where
  "resendOTP x b s =
     (if for_role 1 b then (case ub_email b of
        JStr e \<Rightarrow> (case doc_at s (lower e) of
            None \<Rightarrow> (s, replies 400 ''Please enter a correct email address'')
          | Some d \<Rightarrow>
              (mailTemplateLang ''EMAIL_VERIFICATION_OTP'' (us_email d) (code_text (ch_code x))
                 (amend (us_id d) (\<lambda>d'. d'\<lparr>us_otp := code_text (ch_code x), us_otptime := Some (ch_now x)\<rparr>) s),
               replies 200 ''RESEND_OTP''))
      | _ \<Rightarrow> (s, replies 500 ''Error on server''))
      else (s, replies 400 ''Invalid user''))"

section \<open>A forgotten password\<close>

definition checkForgotPassword :: "user_env \<Rightarrow> chance \<Rightarrow> user_body \<Rightarrow> user_service \<Rightarrow> user_service \<times> user_answer" where
  "checkForgotPassword E x b s =
     (if for_role 1 b then (case doc_for s (normaliseEmail (ub_email b)) of
        None \<Rightarrow> (s, replies 400 ''Email does not exist'')
      | Some d \<Rightarrow>
          if us_status d \<noteq> ''verified'' then (s, replies 400 ''Your account still not activated'')
          else (mailTemplateLang ''User_forgot'' (us_email d) (ch_token x)
                  (amend (us_id d) (\<lambda>d'. d'\<lparr>us_mailToken := ch_token x, us_conFirmMailToken := [],
                     us_otptime := Some (ch_now x)\<rparr>) s),
                Answer 200 ''RESET_LINK'' (discloseWhenLogOnly (ue_process E) [(''resetLink'', ch_token x)])))
      else (s, replies 400 ''Unsupported password reset type''))"

definition userFromMailToken :: "user_env \<Rightarrow> jsval \<Rightarrow> user_service \<Rightarrow> string + string \<times> user_doc" where
  "userFromMailToken E token s = (case token of
      JStr t \<Rightarrow>
        if t = [] then Inl ''This link is missing its token''
        else let userId = ue_unseal E t in
          if isEmpty (JStr userId) then Inl ''This link is not valid''
          else (case object_id userId of
              None \<Rightarrow> Inl ''This link is not valid''
            | Some i \<Rightarrow> (case doc_of s i of None \<Rightarrow> Inl ''This link does not match any account'' | Some d \<Rightarrow> Inr (t, d)))
    | _ \<Rightarrow> Inl ''This link is missing its token'')"

definition ResetconfirmMail :: "user_env \<Rightarrow> user_body \<Rightarrow> user_service \<Rightarrow> user_service \<times> user_answer" where
  "ResetconfirmMail E b s = (case userFromMailToken E (ub_authToken b) s of
      Inl m \<Rightarrow> (s, replies 400 m)
    | Inr (t, d) \<Rightarrow>
        if us_mailToken d \<noteq> t then (s, replies 400 ''This reset link has already been used'')
        else (amend (us_id d) (\<lambda>d'. d'\<lparr>us_mailToken := [], us_conFirmMailToken := t\<rparr>) s, replies 200 ''CONFIRMED''))"

definition RESET_TTL_MS :: int where "RESET_TTL_MS = 30 * 60 * 1000"

text \<open>A link that is no text unseals to nothing, and no document has that id.\<close>

definition link_fault :: "chance \<Rightarrow> user_body \<Rightarrow> user_doc \<Rightarrow> string option" where
  "link_fault x b d =
     (if (case us_otptime d of None \<Rightarrow> True | Some t \<Rightarrow> ch_now x - t > RESET_TTL_MS) then Some ''This reset link has expired''
      else if loose_eq (ub_type b) (JStr ''mobile'') \<and> \<not> falsy (ub_type b) \<and> \<not> loose_eq (JStr (us_mailToken d)) (ub_authToken b)
      then Some ''Your session was expiry''
      else if \<not> loose_eq (JStr (us_conFirmMailToken d)) (ub_authToken b) then Some ''Your link was expiry'' else None)"

definition resetPassword :: "user_env \<Rightarrow> chance \<Rightarrow> user_body \<Rightarrow> user_service \<Rightarrow> user_service \<times> user_answer" where
  "resetPassword E x b s =
     (case object_id (case ub_authToken b of JStr t \<Rightarrow> ue_unseal E t | _ \<Rightarrow> []) of
        None \<Rightarrow> (s, replies 500 ''SOMETHING WRONG'')
      | Some i \<Rightarrow> (case doc_of s i of
          None \<Rightarrow> (s, replies 500 ''NOT FOUND'')
        | Some d \<Rightarrow> (case link_fault x b d of
            Some m \<Rightarrow> (s, replies 400 m)
          | None \<Rightarrow> (let s1 = newNotification i ''Reset password '' s in
              (case with_password E x (ub_password b) of
                 None \<Rightarrow> (s1, replies 500 ''SOMETHING WRONG'')
               | Some (salt, h) \<Rightarrow>
                   (amend i (\<lambda>d'. d'\<lparr>us_salt := salt, us_hash := h, us_conFirmMailToken := [],
                      us_mailToken := (if loose_eq (ub_type b) (JStr ''mobile'') then [] else us_mailToken d'),
                      us_updatedAt := Some (ch_now x)\<rparr>) s1,
                    replies 200 ''Reset password updated successfully''))))))"

section \<open>Activation by mail\<close>

definition confirmMail :: "user_env \<Rightarrow> user_body \<Rightarrow> user_service \<Rightarrow> user_service \<times> user_answer" where
  "confirmMail E b s = (case userFromMailToken E (ub_userId b) s of
      Inl m \<Rightarrow> (s, replies 400 m)
    | Inr (t, d) \<Rightarrow>
        if us_mailToken d \<noteq> t then
          (s, replies 400 (if us_status d = ''verified'' then ''This account is already activated'' else ''This activation link has expired''))
        else if us_status d = ''unverified'' then
          (amend (us_id d) (\<lambda>d'. d'\<lparr>us_status := ''verified'', us_emailStatus := ''verified'',
             us_percentage := us_percentage d' + 25, us_mailToken := []\<rparr>) s, replies 200 ''VERIFIED'')
        else (s, replies 400 ''This account cannot be activated''))"

text \<open>
  The schema of a document declares neither \<^verbatim>\<open>emailVerified\<close> nor \<^verbatim>\<open>mailSentAt\<close>, so both are absent from every
  document that is read and the time of the last mail is not stored: the two checks on them never hold.
\<close>

definition resendMail :: "user_env \<Rightarrow> chance \<Rightarrow> user_body \<Rightarrow> user_service \<Rightarrow> user_service \<times> user_answer" where
  "resendMail E x b s = (case ub_email b of
      JStr raw \<Rightarrow>
        if raw = [] then (s, replies 400 ''Email is required'')
        else (case doc_at s (lower raw) of
            None \<Rightarrow> (s, replies 400 ''User not found'')
          | Some d \<Rightarrow>
              (mailTemplateLang ''activate_register_user'' raw (ch_token x)
                 (amend (us_id d) (\<lambda>d'. d'\<lparr>us_mailToken := ch_token x\<rparr>) s),
               Answer 200 ''ACTIVATION_MAIL'' (discloseWhenLogOnly (ue_process E) [(''activationLink'', ch_token x)])))
    | _ \<Rightarrow> (s, replies 400 ''Email is required''))"

definition testVerifyUser :: "user_env \<Rightarrow> user_body \<Rightarrow> user_service \<Rightarrow> user_service \<times> user_answer" where
  "testVerifyUser E b s =
     (let pe = ue_process E in
      if isProduction pe \<or> pe_NODE_ENV pe \<noteq> Some ''test'' \<and> pe_TEST_MODE pe \<noteq> Some ''true''
      then (s, replies 403 ''This endpoint is only available in test mode'')
      else if falsy (ub_email b) then (s, replies 400 ''Email is required'')
      else (case doc_for s (normaliseEmail (ub_email b)) of
          None \<Rightarrow> (s, replies 404 ''User not found'')
        | Some d \<Rightarrow>
            (amend (us_id d) (\<lambda>d'. d'\<lparr>us_status := ''verified'', us_emailStatus := ''verified'',
               us_percentage := us_percentage d' + 25\<rparr>) s, replies 200 ''User verified (test mode)'')))"

section \<open>Changes by a signed-in account\<close>

text \<open>What a text field holds of a value, and shows when it is read again.\<close>

definition stored_text :: "jsval \<Rightarrow> jsval" where
  "stored_text v = (case v of JUndef \<Rightarrow> JStr [] | JNull \<Rightarrow> JNull | _ \<Rightarrow> JStr (to_string v))"

text \<open>The code of the mailed kind; the other kind is the code of a sign-in.\<close>

definition optVerification :: "int \<Rightarrow> chance \<Rightarrow> user_doc \<Rightarrow> jsval \<Rightarrow> string option" where
  "optVerification type x d enteredOTP =
     (if type = 1 then
        if \<not> loose_eq (JStr (us_otp d)) enteredOTP then Some ''Invalid verification code''
        else if since (us_otptime d) x \<ge> 624000 then Some ''Verification code expired'' else None
      else if enteredOTP \<noteq> JStr (us_emailOTP d) then Some ''Invalid verification code''
      else if since (us_emailOTPtime d) x \<ge> 204000 then Some ''Verification code expired'' else None)"

definition changePassword :: "user_env \<Rightarrow> chance \<Rightarrow> user_id \<Rightarrow> user_body \<Rightarrow> user_service \<Rightarrow> user_service \<times> user_answer" where
  "changePassword E x u b s = (case doc_of s u of
      None \<Rightarrow> (s, replies 500 ''Something Wrong'')
    | Some d \<Rightarrow> (case authenticate E (ub_oldPassword b) d of
        None \<Rightarrow> (s, replies 500 ''Something Wrong'')
      | Some False \<Rightarrow> (s, replies 400 ''Incorrect Password'')
      | Some True \<Rightarrow> (case (authenticate E (ub_password b) d, encryptPassword E (ub_password b) (ch_salt x)) of
          (None, _) \<Rightarrow> (s, replies 500 ''Something Wrong'')
        | (Some True, _) \<Rightarrow> (s, replies 400 ''Current password and new password are same'')
        | (Some False, None) \<Rightarrow> (s, replies 500 ''Something Wrong'')
        | (Some False, Some h) \<Rightarrow> (case optVerification 2 x d (ub_otp b) of
            Some m \<Rightarrow> (s, replies 400 m)
          | None \<Rightarrow>
              if h = [] then (s, replies 500 ''Something Wrong'')
              else let s1 = amend u (\<lambda>d'. d'\<lparr>us_salt := ch_salt x, us_hash := h, us_changepassword := True, us_emailOTP := [],
                     us_emailOTPtime := None, us_requestType := JStr [], us_updatedAt := Some (ch_now x)\<rparr>) s in
                (case u_settings s u of
                   None \<Rightarrow> (s1, replies 500 ''Something Wrong'')
                 | Some n \<Rightarrow>
                     (newNotification u ''Change password ''
                        (if st_passwordChange n then mailTemplateLang ''alert_notification'' (us_email d) [] s1 else s1),
                      replies 200 ''Your password has been updated''))))))"

text \<open>A code of the same kind that is three minutes old or less holds the next one back.\<close>

definition code_pending :: "chance \<Rightarrow> user_body \<Rightarrow> user_doc \<Rightarrow> bool" where
  "code_pending x b d \<longleftrightarrow> \<not> isEmpty (JStr (us_emailOTP d)) \<and> loose_eq (us_requestType d) (ub_requestType b) \<and>
     since (us_emailOTPtime d) x \<le> 180000"

definition mail_code :: "user_env \<Rightarrow> chance \<Rightarrow> user_body \<Rightarrow> user_doc \<Rightarrow> (user_doc \<Rightarrow> user_doc) \<Rightarrow> user_service \<Rightarrow> user_service \<times> user_answer" where
  "mail_code E x b d f s =
     (mailTemplateLang ''EMAIL_VERIFICATION_OTP'' (us_email d) (code_text (ch_code x))
        (amend (us_id d) (\<lambda>d'. f (d'\<lparr>us_emailOTP := code_text (ch_code x), us_requestType := stored_text (ub_requestType b),
           us_emailOTPtime := Some (ch_now x)\<rparr>)) s),
      Answer 200 ''RESEND_OTP'' (discloseWhenLogOnly (ue_process E) [(''verificationCode'', code_text (ch_code x))]))"

definition requestOTP :: "user_env \<Rightarrow> chance \<Rightarrow> user_id \<Rightarrow> user_body \<Rightarrow> user_service \<Rightarrow> user_service \<times> user_answer" where
  "requestOTP E x u b s = (case doc_of s u of
      None \<Rightarrow> (s, replies 400 ''Invalid user'')
    | Some d \<Rightarrow> if code_pending x b d then (s, replies 400 ''Next Verification code after 3 minutes'') else mail_code E x b d id s)"

definition deactiveRequest :: "user_env \<Rightarrow> chance \<Rightarrow> user_id \<Rightarrow> user_body \<Rightarrow> user_service \<Rightarrow> user_service \<times> user_answer" where
  "deactiveRequest E x u b s = (case doc_of s u of
      None \<Rightarrow> (s, replies 400 ''Invalid user'')
    | Some d \<Rightarrow>
        if us_emailStatus d \<noteq> ''verified'' then (s, replies 400 ''Invalid user'')
        else if code_pending x b d then (s, replies 400 ''Next Verification code after 3 minutes'')
        else mail_code E x b d (\<lambda>d'. d'\<lparr>us_deactiveOtpChannel := ''email''\<rparr>) s)"

text \<open>The address is looked for, and stored, as it is written.\<close>

definition emailUpdate :: "chance \<Rightarrow> user_id \<Rightarrow> user_body \<Rightarrow> user_service \<Rightarrow> user_service \<times> user_answer" where
  "emailUpdate x u b s = (case doc_for s (ub_email b) of
      Some d0 \<Rightarrow> (s, replies 400 (if us_id d0 \<noteq> u then ''Email ID already exists'' else ''Email ID matches your previous one''))
    | None \<Rightarrow> (case doc_of s u of
        None \<Rightarrow> (s, replies 400 ''Some thing went wrong try again later...'')
      | Some d \<Rightarrow> (case optVerification 2 x d (ub_otp b) of
          Some m \<Rightarrow> (s, replies 400 m)
        | None \<Rightarrow>
            (amend u (\<lambda>d'. d'\<lparr>us_email := to_string (ub_email b), us_emailOTP := [], us_emailOTPtime := None,
               us_emailStatus := ''verified'', us_requestType := JStr []\<rparr>) (newNotification u ''Email verified'' s),
             replies 200 ''Email ID updated successfully''))))"

definition editEmail :: "chance \<Rightarrow> user_id \<Rightarrow> user_body \<Rightarrow> user_service \<Rightarrow> user_service \<times> user_answer" where
  "editEmail x u b s =
     (if (case doc_for s (ub_newEmail b) of None \<Rightarrow> False | Some d \<Rightarrow> loose_eq (JStr (us_email d)) (ub_newEmail b)) then (s, replies 400 ''You have entered  already exist email address'')
      else case doc_of s u of
        None \<Rightarrow> (s, replies 500 ''Error on server'')
      | Some d \<Rightarrow>
          let s1 = amend u (\<lambda>d'. d'\<lparr>us_newEmail := to_string (ub_newEmail b), us_newEmailToken := ch_token x\<rparr>) s in
          if loose_eq (ub_oldEmail b) (JStr []) then
            (mailTemplateLang ''verify_new_email'' (to_string (ub_newEmail b)) (ch_token x) s1, replies 200 ''SENT_TO_NEW'')
          else (mailTemplateLang ''change_register_email'' (us_email d) (ch_token x) s1, replies 200 ''SENT_TO_OLD''))"

definition verifyNewEmail :: "user_env \<Rightarrow> user_body \<Rightarrow> user_service \<Rightarrow> user_service \<times> user_answer" where
  "verifyNewEmail E b s =
     (case object_id (case ub_token b of JStr t \<Rightarrow> ue_unseal E t | _ \<Rightarrow> []) of
        None \<Rightarrow> (s, replies 500 ''Error on server'')
      | Some i \<Rightarrow> (case doc_of s i of
          None \<Rightarrow> (s, replies 500 ''Error on server'')
        | Some d \<Rightarrow>
            if \<not> loose_eq (JStr (us_newEmailToken d)) (ub_token b) then (s, replies 500 ''Invalid link'')
            else if list_ex (\<lambda>d'. us_email d' = us_newEmail d \<and> us_id d' \<noteq> i) (u_docs s) then (s, replies 400 ''Email already exists'')
            else (amend i (\<lambda>d'. d'\<lparr>us_email := us_newEmail d, us_emailStatus := ''verified'', us_newEmail := [],
                    us_newEmailToken := []\<rparr>) s, replies 200 ''Change email address successfully'')))"

definition showPair :: "user_id \<Rightarrow> jsval \<Rightarrow> bool \<Rightarrow> user_service \<Rightarrow> user_service \<times> user_answer" where
  "showPair u type show_spot s =
     (if type \<noteq> JStr ''spot-show'' then (s, replies 400 ''Unknown preference'')
      else case u_settings s u of
        None \<Rightarrow> (s, replies 400 ''No settings found for this account'')
      | Some n \<Rightarrow>
          let s1 = s\<lparr>u_settings := (u_settings s)(u \<mapsto> n\<lparr>st_showSpot := show_spot\<rparr>)\<rparr> in
          if \<not> u_redis s then (s1, replies 500 ''Something Wrong'')
          else (s1\<lparr>u_sessions := (u_sessions s)(u \<mapsto> (case u_sessions s u of
                  None \<Rightarrow> \<lparr>ss_tokenId = None, ss_locked = None, ss_email = [], ss_showSpot = Some show_spot\<rparr>
                | Some r \<Rightarrow> r\<lparr>ss_showSpot := Some show_spot\<rparr>))\<rparr>, replies 200 ''Done''))"

section \<open>The routes\<close>

text \<open>A form with faults is answered with the first of them.\<close>

datatype user_request =
    Register user_body | Login user_body | ResendOTP user_body | ForgotPassword user_body
  | ResetConfirm user_body | ResetPassword user_body | ConfirmMail user_body | ResendMail user_body | TestVerify user_body
  | ChangePassword jwt user_body | SendOTP jwt user_body | EmailChange jwt user_body | EditEmail jwt user_body
  | VerifyNewEmail user_body | DeactiveReq jwt user_body | ChangePair jwt jsval bool

definition with_form :: "form_errors \<Rightarrow> (user_service \<Rightarrow> user_service \<times> user_answer) \<Rightarrow> user_service \<Rightarrow> user_service \<times> user_answer" where
  "with_form errors act s = (case errors of [] \<Rightarrow> act s | e # _ \<Rightarrow> (s, replies 400 (snd e)))"

definition passportAuth :: "jwt \<Rightarrow> (user_id \<Rightarrow> user_service \<Rightarrow> user_service \<times> user_answer) \<Rightarrow> user_service \<Rightarrow> user_service \<times> user_answer" where
  "passportAuth w act s = (case usersAuth s w of None \<Rightarrow> (s, replies 401 ''Unauthorized'') | Some u \<Rightarrow> act u s)"

fun serve :: "user_env \<Rightarrow> chance \<Rightarrow> user_request \<Rightarrow> user_service \<Rightarrow> user_service \<times> user_answer" where
  "serve E x (Register b) = with_form (registerValidate (ue_process E) b) (createNewUser E x b)"
| "serve E x (Login b) = with_form (loginValidate b) (userLogin E x b)"
| "serve E x (ResendOTP b) = resendOTP x b"
| "serve E x (ForgotPassword b) = with_form (checkForgotPwdValidate (ue_process E) b) (checkForgotPassword E x b)"
| "serve E x (ResetConfirm b) = with_form (confirmMailValidate b) (ResetconfirmMail E b)"
| "serve E x (ResetPassword b) = with_form (resetPwdValidate b) (resetPassword E x b)"
| "serve E x (ConfirmMail b) = with_form (activateRegsiterUser b) (confirmMail E b)"
| "serve E x (ResendMail b) = resendMail E x b"
| "serve E x (TestVerify b) = testVerifyUser E b"
| "serve E x (ChangePassword w b) = passportAuth w (\<lambda>u. with_form (changePwdValidate b) (changePassword E x u b))"
| "serve E x (SendOTP w b) = passportAuth w (\<lambda>u. requestOTP E x u b)"
| "serve E x (EmailChange w b) = passportAuth w (\<lambda>u. with_form (emailChangeValidation b) (emailUpdate x u b))"
| "serve E x (EditEmail w b) = passportAuth w (\<lambda>u. with_form (editEmailValidate b) (editEmail x u b))"
| "serve E x (VerifyNewEmail b) = with_form (tokenValidate b) (verifyNewEmail E b)"
| "serve E x (DeactiveReq w b) = passportAuth w (\<lambda>u. deactiveRequest E x u b)"
| "serve E x (ChangePair w t v) = passportAuth w (\<lambda>u. showPair u t v)"

end
