(* ===== verification/AccountRules.thy ===== *)
theory AccountRules
  imports Accounts
begin

text \<open>
  What the user service keeps to: which requests leave a field of a document alone, who can change a password, how
  often one can be guessed, and where the mailed code and the expiry of a reset link can be got around.
\<close>

section \<open>Looking documents up\<close>

lemma find_map_same:
  "(\<And>d. P (f d) = P d) \<Longrightarrow> List.find P (map f ds) = map_option f (List.find P ds)"
  by (induction ds) auto

lemma find_append:
  "List.find P (xs @ ys) = (case List.find P xs of None \<Rightarrow> List.find P ys | Some x \<Rightarrow> Some x)"
  by (induction xs) auto

lemma find_SomeD: "List.find P ds = Some d \<Longrightarrow> d \<in> set ds \<and> P d"
  by (auto simp: find_Some_iff)

lemma doc_of_id: "doc_of s i = Some d \<Longrightarrow> us_id d = i"
  by (auto simp: doc_of_def dest: find_SomeD)

lemma doc_at_email: "doc_at s e = Some d \<Longrightarrow> us_email d = e"
  by (auto simp: doc_at_def dest: find_SomeD)

definition well_kept :: "user_service \<Rightarrow> bool" where
  "well_kept s \<longleftrightarrow> distinct (map us_id (u_docs s))"

lemma doc_of_member: "well_kept s \<Longrightarrow> d \<in> set (u_docs s) \<Longrightarrow> doc_of s (us_id d) = Some d"
proof -
  have "distinct (map us_id ds) \<Longrightarrow> d \<in> set ds \<Longrightarrow> List.find (\<lambda>x. us_id x = us_id d) ds = Some d" for ds
    by (induction ds) (auto simp: image_iff)
  then show "well_kept s \<Longrightarrow> d \<in> set (u_docs s) \<Longrightarrow> doc_of s (us_id d) = Some d"
    by (simp add: well_kept_def doc_of_def)
qed

lemma doc_at_of: "well_kept s \<Longrightarrow> doc_at s e = Some d \<Longrightarrow> doc_of s (us_id d) = Some d"
  by (auto simp: doc_at_def dest!: find_SomeD intro: doc_of_member)

lemma doc_for_member: "doc_for s v = Some d \<Longrightarrow> d \<in> set (u_docs s)"
  by (auto simp: doc_for_def doc_at_def dest: find_SomeD split: jsval.splits list.splits)

lemma doc_for_of: "well_kept s \<Longrightarrow> doc_for s v = Some d \<Longrightarrow> doc_of s (us_id d) = Some d"
  by (blast intro: doc_of_member doc_for_member)

lemma doc_of_amend:
  assumes "\<And>d. us_id (f d) = us_id d"
  shows "doc_of (amend j f s) i = (if i = j then map_option f (doc_of s i) else doc_of s i)"
proof -
  have "List.find (\<lambda>d. us_id d = i) (map (\<lambda>d. if us_id d = j then f d else d) ds) =
      (if i = j then map_option f (List.find (\<lambda>d. us_id d = i) ds) else List.find (\<lambda>d. us_id d = i) ds)" for ds
    by (induction ds) (auto simp: assms)
  then show ?thesis by (simp add: doc_of_def amend_def)
qed

lemma doc_at_amend:
  assumes "\<And>d. us_email (f d) = us_email d"
  shows "doc_at (amend j f s) e = map_option (\<lambda>d. if us_id d = j then f d else d) (doc_at s e)"
proof -
  have "List.find (\<lambda>d. us_email d = e) (map (\<lambda>d. if us_id d = j then f d else d) ds) =
      map_option (\<lambda>d. if us_id d = j then f d else d) (List.find (\<lambda>d. us_email d = e) ds)" for ds
    by (rule find_map_same) (simp add: assms)
  then show ?thesis by (simp add: doc_at_def amend_def)
qed

lemma amend_other_parts [simp]:
  "u_settings (amend i f s) = u_settings s" "u_sessions (amend i f s) = u_sessions s" "u_redis (amend i f s) = u_redis s"
  "u_mails (amend i f s) = u_mails s" "u_assets (amend i f s) = u_assets s" "u_told (amend i f s) = u_told s"
  by (simp_all add: amend_def)

lemma same_docs_of [simp]:
  "doc_of (mailTemplateLang k t w s) i = doc_of s i" "doc_of (newNotification u m s) i = doc_of s i"
  "doc_of (s\<lparr>u_sessions := a\<rparr>) i = doc_of s i" "doc_of (s\<lparr>u_settings := b\<rparr>) i = doc_of s i"
  "doc_of (s\<lparr>u_assets := c\<rparr>) i = doc_of s i" "doc_of (defaultUserSetting u s) i = doc_of s i"
  by (simp_all add: doc_of_def mailTemplateLang_def newNotification_def defaultUserSetting_def)

lemma same_docs_at [simp]:
  "doc_at (mailTemplateLang k t w s) e = doc_at s e" "doc_at (newNotification u m s) e = doc_at s e"
  "doc_at (s\<lparr>u_sessions := a\<rparr>) e = doc_at s e" "doc_at (s\<lparr>u_settings := b\<rparr>) e = doc_at s e"
  "doc_at (s\<lparr>u_assets := c\<rparr>) e = doc_at s e" "doc_at (defaultUserSetting u s) e = doc_at s e"
  by (simp_all add: doc_at_def mailTemplateLang_def newNotification_def defaultUserSetting_def)

lemma same_sessions [simp]:
  "u_sessions (mailTemplateLang k t w s) = u_sessions s" "u_sessions (newNotification u m s) = u_sessions s"
  "u_sessions (defaultUserSetting u s) = u_sessions s"
  "u_redis (mailTemplateLang k t w s) = u_redis s" "u_redis (newNotification u m s) = u_redis s"
  "u_settings (mailTemplateLang k t w s) = u_settings s" "u_settings (newNotification u m s) = u_settings s"
  by (simp_all add: mailTemplateLang_def newNotification_def defaultUserSetting_def)

lemma same_docs [simp]:
  "u_docs (mailTemplateLang k t w s) = u_docs s" "u_docs (newNotification u m s) = u_docs s"
  "u_docs (defaultUserSetting u s) = u_docs s"
  by (simp_all add: mailTemplateLang_def newNotification_def defaultUserSetting_def)

section \<open>What every handler keeps\<close>

text \<open>
  The contract between a handler and a relation of the state before to the state after: the relation holds when nothing
  happens, mails and notifications do not disturb it, and neither do the changes of a document that the handlers make.
\<close>

locale handler_frame =
  fixes R :: "user_service \<Rightarrow> user_service \<Rightarrow> bool" and G :: "(user_doc \<Rightarrow> user_doc) \<Rightarrow> bool"
  assumes idle: "\<And>s. R s s"
    and mail: "\<And>s s1 k t w. R s s1 \<Longrightarrow> R s (mailTemplateLang k t w s1)" and told: "\<And>s s1 u m. R s s1 \<Longrightarrow> R s (newNotification u m s1)"
    and amended: "\<And>s s1 f j. R s s1 \<Longrightarrow> G f \<Longrightarrow> R s (amend j f s1)"
    and sent_code: "\<And>a o1. G (\<lambda>d. d\<lparr>us_otp := a, us_otptime := o1\<rparr>)"
    and sent_link: "\<And>a o1. G (\<lambda>d. d\<lparr>us_mailToken := a, us_conFirmMailToken := [], us_otptime := o1\<rparr>)"
    and confirmed: "\<And>a. G (\<lambda>d. d\<lparr>us_mailToken := [], us_conFirmMailToken := a\<rparr>)"
    and verified: "G (\<lambda>d. d\<lparr>us_status := ''verified'', us_emailStatus := ''verified'', us_percentage := us_percentage d + 25,
       us_mailToken := []\<rparr>)"
    and tested: "G (\<lambda>d. d\<lparr>us_status := ''verified'', us_emailStatus := ''verified'', us_percentage := us_percentage d + 25\<rparr>)"
    and mailed: "\<And>a. G (\<lambda>d. d\<lparr>us_mailToken := a\<rparr>)"
    and own_code: "\<And>a o1 v. G (\<lambda>d. d\<lparr>us_emailOTP := a, us_requestType := v, us_emailOTPtime := o1\<rparr>)"
    and closing_code: "\<And>a o1 v c. G (\<lambda>d. d\<lparr>us_emailOTP := a, us_requestType := v, us_emailOTPtime := o1, us_deactiveOtpChannel := c\<rparr>)"
    and address: "\<And>a. G (\<lambda>d. d\<lparr>us_email := a, us_emailOTP := [], us_emailOTPtime := None, us_emailStatus := ''verified'',
       us_requestType := JStr []\<rparr>)"
    and new_address: "\<And>a c. G (\<lambda>d. d\<lparr>us_newEmail := a, us_newEmailToken := c\<rparr>)"
    and proved_address: "\<And>a. G (\<lambda>d. d\<lparr>us_email := a, us_emailStatus := ''verified'', us_newEmail := [], us_newEmailToken := []\<rparr>)"
begin

lemmas frame_rules = idle mail told amended sent_code sent_link confirmed verified tested mailed own_code closing_code
  address new_address proved_address

lemma resend_keeps: "R s (fst (resendOTP x b s))"
  by (auto simp: resendOTP_def intro!: frame_rules split: jsval.splits option.splits)

lemma forgot_keeps: "R s (fst (checkForgotPassword E x b s))"
  by (auto simp: checkForgotPassword_def intro!: frame_rules split: option.splits)

lemma reset_confirm_keeps: "R s (fst (ResetconfirmMail E b s))"
  by (auto simp: ResetconfirmMail_def intro!: frame_rules split: sum.splits)

lemma confirm_mail_keeps: "R s (fst (confirmMail E b s))"
  by (auto simp: confirmMail_def intro!: frame_rules split: sum.splits)

lemma resend_mail_keeps: "R s (fst (resendMail E x b s))"
  by (auto simp: resendMail_def intro!: frame_rules split: jsval.splits option.splits)

lemma test_verify_keeps: "R s (fst (testVerifyUser E b s))"
  by (auto simp: testVerifyUser_def Let_def intro!: frame_rules split: option.splits)

lemma request_keeps: "R s (fst (requestOTP E x u b s))"
  by (auto simp: requestOTP_def mail_code_def intro!: frame_rules split: option.splits)

lemma deactive_request_keeps: "R s (fst (deactiveRequest E x u b s))"
  by (auto simp: deactiveRequest_def mail_code_def intro!: frame_rules split: option.splits)

lemma email_update_keeps: "R s (fst (emailUpdate x u b s))"
  by (auto simp: emailUpdate_def intro!: frame_rules split: option.splits)

lemma edit_email_keeps: "R s (fst (editEmail x u b s))"
  by (auto simp: editEmail_def Let_def intro!: frame_rules split: option.splits)

lemma verify_email_keeps: "R s (fst (verifyNewEmail E b s))"
  by (auto simp: verifyNewEmail_def intro!: frame_rules split: option.splits)

lemma form_keeps: "R s (fst (act s)) \<Longrightarrow> R s (fst (with_form errs act s))"
  by (auto simp: with_form_def idle split: list.splits)

lemma session_keeps: "(\<And>u. usersAuth s w = Some u \<Longrightarrow> R s (fst (act u s))) \<Longrightarrow> R s (fst (passportAuth w act s))"
  by (auto simp: passportAuth_def idle split: option.splits)

lemmas all_keep = resend_keeps forgot_keeps reset_confirm_keeps confirm_mail_keeps resend_mail_keeps test_verify_keeps
  request_keeps deactive_request_keeps email_update_keeps edit_email_keeps verify_email_keeps

end

text \<open>What the sign-in and a preference of the screen change besides.\<close>

locale sign_in_frame = handler_frame +
  assumes session: "\<And>s s1 z. R s s1 \<Longrightarrow> R s (s1\<lparr>u_sessions := z\<rparr>)" and setting: "\<And>s s1 n. R s s1 \<Longrightarrow> R s (s1\<lparr>u_settings := n\<rparr>)"
    and code_used: "G (\<lambda>d. d\<lparr>us_otp := []\<rparr>)"
    and unlocked: "G (\<lambda>d. d\<lparr>us_login_attempt := 0, us_isBlock := False\<rparr>)"
    and blocked: "\<And>o1. G (\<lambda>d. d\<lparr>us_login_attempt := 0, us_isBlock := True, us_lock_session := o1\<rparr>)"
    and counted: "\<And>k1. G (\<lambda>d. d\<lparr>us_login_attempt := k1\<rparr>)"
begin

lemmas sign_in_rules = frame_rules session setting code_used unlocked blocked counted

lemma gate_keeps: "login_gate x d s = Inr s1 \<Longrightarrow> R s s1"
  by (auto simp: login_gate_def intro!: sign_in_rules split: if_splits)

lemma failed_keeps: "R s s1 \<Longrightarrow> R s (fst (failed_attempt x d s1))"
  by (auto simp: failed_attempt_def intro!: sign_in_rules)

lemma code_keeps: "R s s1 \<Longrightarrow> R s (fst (login_code E x b d s1))"
  by (auto simp: login_code_def intro!: sign_in_rules)

lemma open_keeps: "R s s1 \<Longrightarrow> R s (fst (login_open x d s1))"
  by (auto simp: login_open_def intro!: sign_in_rules)

lemma login_keeps: "R s (fst (userLogin E x b s))"
proof (cases "login_lookup b s")
  case (Inr d)
  note l = Inr
  show ?thesis
  proof (cases "login_gate x d s")
    case (Inr s1)
    obtain s2 r where r: "login_code E x b d s1 = (s2, r)" by (cases "login_code E x b d s1")
    have "R s s1" "R s s2" using gate_keeps [OF Inr] code_keeps [OF gate_keeps [OF Inr], of E x b d] r by simp_all
    then show ?thesis
      using l Inr r open_keeps failed_keeps by (auto simp: userLogin_def split: option.splits bool.splits)
  qed (simp add: userLogin_def l idle)
qed (simp add: userLogin_def idle)

lemma show_pair_keeps: "R s (fst (showPair u t v s))"
  by (auto simp: showPair_def Let_def intro!: sign_in_rules split: option.splits)

lemma others_keep:
  "(\<And>b. r \<noteq> Register b) \<Longrightarrow> (\<And>b. r \<noteq> ResetPassword b) \<Longrightarrow> (\<And>w b. r \<noteq> ChangePassword w b) \<Longrightarrow> R s (fst (serve E x r s))"
  by (cases r) (auto intro!: form_keeps session_keeps all_keep login_keeps show_pair_keeps)

end

text \<open>What the two ways to a new password change.\<close>

locale password_frame = handler_frame +
  assumes reset: "\<And>a o1 h c1. G (\<lambda>d. d\<lparr>us_salt := a, us_hash := h, us_conFirmMailToken := [], us_mailToken := (if c1 then [] else us_mailToken d),
      us_updatedAt := o1\<rparr>)"
    and changed: "\<And>a o1 h. G (\<lambda>d. d\<lparr>us_salt := a, us_hash := h, us_changepassword := True, us_emailOTP := [], us_emailOTPtime := None,
      us_requestType := JStr [], us_updatedAt := o1\<rparr>)"
begin

lemma reset_keeps: "R s (fst (resetPassword E x b s))"
  by (auto simp: resetPassword_def Let_def intro!: frame_rules reset split: option.splits)

lemma change_keeps: "R s (fst (changePassword E x u b s))"
  by (auto simp: changePassword_def Let_def intro!: frame_rules changed split: option.splits bool.splits)

end

locale every_frame = sign_in_frame + password_frame
begin

lemma serve_keeps: "(\<And>b. r \<noteq> Register b) \<Longrightarrow> R s (fst (serve E x r s))"
  using others_keep [of r s E x] by (cases r) (auto intro!: form_keeps session_keeps reset_keeps change_keeps)

end

section \<open>Views of a document\<close>

definition view_kept :: "(user_doc \<Rightarrow> 'a) \<Rightarrow> user_service \<Rightarrow> user_service \<Rightarrow> bool" where
  "view_kept g s s' \<longleftrightarrow> (\<forall>i d d'. doc_of s i = Some d \<longrightarrow> doc_of s' i = Some d' \<longrightarrow> g d' = g d)"

definition leaves :: "(user_doc \<Rightarrow> 'a) \<Rightarrow> (user_doc \<Rightarrow> user_doc) \<Rightarrow> bool" where
  "leaves g f \<longleftrightarrow> (\<forall>d. us_id (f d) = us_id d \<and> g (f d) = g d)"

lemma view_refl: "view_kept g s s"
  by (simp add: view_kept_def)

lemma view_more:
  "view_kept g s (mailTemplateLang k t w s') = view_kept g s s'" "view_kept g s (newNotification u m s') = view_kept g s s'"
  "view_kept g s (s'\<lparr>u_sessions := a\<rparr>) = view_kept g s s'" "view_kept g s (s'\<lparr>u_settings := b\<rparr>) = view_kept g s s'"
  by (simp_all add: view_kept_def)

lemma view_amend: "view_kept g s s' \<Longrightarrow> leaves g f \<Longrightarrow> view_kept g s (amend j f s')"
  by (auto simp: view_kept_def leaves_def doc_of_amend split: if_splits)

lemmas view_laws = view_refl view_more view_amend

definition pw :: "user_doc \<Rightarrow> string \<times> string" where
  "pw d = (us_hash d, us_salt d)"

definition attempt_view :: "user_doc \<Rightarrow> string \<times> string \<times> bool \<times> int \<times> int option" where
  "attempt_view d = (us_hash d, us_salt d, us_isBlock d, us_login_attempt d, us_lock_session d)"

interpretation secret: sign_in_frame "view_kept pw" "leaves pw"
  by unfold_locales (auto simp: view_laws leaves_def pw_def)

interpretation bolt: every_frame "view_kept us_locked" "leaves us_locked"
  by unfold_locales (auto simp: view_laws leaves_def)

interpretation guess: handler_frame "view_kept attempt_view" "leaves attempt_view"
  by unfold_locales (auto simp: view_laws leaves_def attempt_view_def)

section \<open>The ids of the collection\<close>

definition ids :: "user_service \<Rightarrow> user_id list" where
  "ids s = map us_id (u_docs s)"

lemma ids_amend: "(\<And>d. us_id (f d) = us_id d) \<Longrightarrow> ids (amend j f s) = ids s"
  by (auto simp: ids_def amend_def)

lemma ids_more [simp]:
  "ids (mailTemplateLang k t w s) = ids s" "ids (newNotification u m s) = ids s" "ids (s\<lparr>u_sessions := a\<rparr>) = ids s"
  "ids (s\<lparr>u_settings := b\<rparr>) = ids s" "ids (s\<lparr>u_assets := c\<rparr>) = ids s" "ids (defaultUserSetting u s) = ids s"
  by (simp_all add: ids_def mailTemplateLang_def newNotification_def defaultUserSetting_def)

lemma well_kept_ids: "well_kept s = distinct (ids s)"
  by (simp add: well_kept_def ids_def)

lemma doc_of_ids: "doc_of s i \<noteq> None \<longleftrightarrow> i \<in> set (ids s)"
  by (auto simp: doc_of_def ids_def find_None_iff)

interpretation roll: every_frame "\<lambda>s s'. ids s' = ids s" "\<lambda>f. \<forall>d. us_id (f d) = us_id d"
  by unfold_locales (auto simp: ids_amend)

text \<open>Registration adds a document, and drops at most one whose address was never confirmed.\<close>

lemma find_filter_id:
  "List.find (\<lambda>d. us_id d = i) (filter (\<lambda>d. us_id d \<noteq> j) ds) = (if i = j then None else List.find (\<lambda>d. us_id d = i) ds)"
  by (induction ds) auto

lemma early_docs:
  "earlier_registration x e s = Inr s1 \<Longrightarrow> doc_of s1 i = doc_of s i \<or>
   doc_of s1 i = None \<and> (\<exists>d. doc_at s e = Some d \<and> us_id d = i \<and> us_emailStatus d \<noteq> ''verified'')"
  by (auto simp: earlier_registration_def doc_of_def find_filter_id split: option.splits if_splits)

lemma insert_docs:
  "insert_user d s = Some s1 \<Longrightarrow> doc_of s1 i = (if i = us_id d \<and> doc_of s i = None then Some d else doc_of s i)"
  by (auto simp: insert_user_def doc_of_def find_append split: if_splits option.splits)

definition unconfirmed :: "user_service \<Rightarrow> user_id \<Rightarrow> bool" where
  "unconfirmed s i \<longleftrightarrow> (\<exists>e d. doc_at s e = Some d \<and> us_id d = i \<and> us_emailStatus d \<noteq> ''verified'')"

lemma register_writes:
  assumes "for_role 1 b" and "ub_email b = JStr raw" and "earlier_registration x (lower raw) s = Inr s1"
  shows "fst (createNewUser E x b s) = s1 \<or>
    (\<exists>d s2. insert_user d s1 = Some s2 \<and> us_id d = ch_id x \<and> u_docs (fst (createNewUser E x b s)) = u_docs s2)"
proof (cases "with_password E x (ub_password b)")
  case (Some p)
  obtain salt h where p: "p = (salt, h)" by (cases p)
  define d where "d = (new_user_doc (ch_id x) (IncCntObjId (ch_id x)) (ch_now x))
    \<lparr>us_email := lower raw, us_salt := salt, us_hash := h, us_mailToken := ch_token x\<rparr>"
  have i: "us_id d = ch_id x" by (simp add: d_def new_user_doc_def)
  show ?thesis
  proof (cases "insert_user d s1")
    case None
    then show ?thesis using assms Some p by (simp add: createNewUser_def Let_def d_def)
  next
    case (Some s2)
    have "u_docs (fst (createNewUser E x b s)) = u_docs s2"
      using assms \<open>with_password E x (ub_password b) = Some p\<close> p Some by (simp add: createNewUser_def Let_def d_def)
    then show ?thesis using Some i by blast
  qed
qed (simp add: createNewUser_def Let_def assms)

lemma register_docs:
  "\<exists>o1. (o1 = doc_of s i \<or> o1 = None \<and> unconfirmed s i) \<and>
     (doc_of (fst (createNewUser E x b s)) i = o1 \<or> o1 = None \<and> i = ch_id x)"
proof (cases "for_role 1 b \<and> (\<exists>raw. ub_email b = JStr raw)")
  case True
  then obtain raw where raw: "for_role 1 b" "ub_email b = JStr raw" by blast
  show ?thesis
  proof (cases "earlier_registration x (lower raw) s")
    case (Inr s1)
    have "doc_of (fst (createNewUser E x b s)) i = doc_of s1 i \<or> doc_of s1 i = None \<and> i = ch_id x"
      using register_writes [OF raw Inr, of E] insert_docs [of _ s1 _ i] by (auto simp: doc_of_def split: if_splits)
    then show ?thesis using early_docs [OF Inr, of i] by (auto simp: unconfirmed_def)
  qed (auto simp: createNewUser_def Let_def raw)
qed (auto simp: createNewUser_def split: jsval.splits)

lemma register_kept: "doc_of s (ch_id x) = None \<Longrightarrow> view_kept g s (fst (createNewUser E x b s))"
  unfolding view_kept_def
proof (intro allI impI)
  fix i d d' assume a: "doc_of s (ch_id x) = None" "doc_of s i = Some d" "doc_of (fst (createNewUser E x b s)) i = Some d'"
  then have "i \<noteq> ch_id x" by auto
  then have "d' = d" using register_docs [of s i E x b] a by auto
  then show "g d' = g d" by simp
qed

lemma register_keeps_confirmed:
  "doc_of s i = Some d \<Longrightarrow> \<not> unconfirmed s i \<Longrightarrow> doc_of (fst (createNewUser E x b s)) i = Some d"
  using register_docs [of s i E x b] by auto

lemma register_well_kept: "well_kept s \<Longrightarrow> well_kept (fst (createNewUser E x b s))"
proof -
  assume w: "well_kept s"
  have early: "well_kept s1" if "earlier_registration x e s = Inr s1" for e s1
    using that w by (auto simp: earlier_registration_def well_kept_def distinct_map_filter split: option.splits if_splits)
  have ins: "well_kept s1 \<Longrightarrow> insert_user d s1 = Some s2 \<Longrightarrow> well_kept s2" for d s1 s2
    by (auto simp: insert_user_def well_kept_def list_ex_iff image_iff split: if_splits) (metis)
  have more: "well_kept (s2\<lparr>u_assets := a\<rparr>) = well_kept s2" "well_kept (defaultUserSetting u s2) = well_kept s2"
    "well_kept (mailTemplateLang k t z s2) = well_kept s2" for s2 a u k t z by (simp_all add: well_kept_ids)
  show ?thesis
    using w by (auto simp: createNewUser_def Let_def more intro: early ins split: jsval.splits sum.splits option.splits)
qed

lemma serve_well_kept: "well_kept s \<Longrightarrow> well_kept (fst (serve E x r s))"
proof (cases "\<exists>b. r = Register b")
  case True
  then show "well_kept s \<Longrightarrow> ?thesis" by (auto simp: with_form_def register_well_kept split: list.splits)
qed (simp add: well_kept_ids roll.serve_keeps)

section \<open>Who can change a password\<close>

lemma form_passed: "with_form errs act s = (s', a) \<Longrightarrow> s' \<noteq> s \<Longrightarrow> errs = [] \<and> act s = (s', a)"
  by (auto simp: with_form_def split: list.splits)

lemma session_passed: "passportAuth w act s = (s', a) \<Longrightarrow> s' \<noteq> s \<Longrightarrow> \<exists>u. usersAuth s w = Some u \<and> act u s = (s', a)"
  by (auto simp: passportAuth_def split: option.splits)

lemma reset_proof:
  assumes "resetPassword E x b s = (s', a)" and "doc_of s i = Some d" and "doc_of s' i = Some d'" and "pw d' \<noteq> pw d"
  shows "\<exists>t t0. ub_authToken b = JStr t \<and> object_id (ue_unseal E t) = Some i \<and> us_conFirmMailToken d = t \<and>
    us_otptime d = Some t0 \<and> ch_now x - t0 \<le> RESET_TTL_MS \<and> us_conFirmMailToken d' = []"
proof -
  define o' where "o' = object_id (case ub_authToken b of JStr t \<Rightarrow> ue_unseal E t | _ \<Rightarrow> [])"
  have ne: "s' \<noteq> s" "\<And>m. s' \<noteq> newNotification j m s" for j using assms(2-4) by auto
  obtain j dj where j: "o' = Some j" "doc_of s j = Some dj" "link_fault x b dj = None"
    using assms(1) ne(1) by (auto simp: resetPassword_def o'_def [symmetric] split: option.splits)
  obtain salt h where w: "with_password E x (ub_password b) = Some (salt, h)"
    using assms(1) ne j by (cases "with_password E x (ub_password b)") (auto simp: resetPassword_def o'_def [symmetric] Let_def)
  have s': "s' = amend j (\<lambda>d'. d'\<lparr>us_salt := salt, us_hash := h, us_conFirmMailToken := [],
      us_mailToken := (if loose_eq (ub_type b) (JStr ''mobile'') then [] else us_mailToken d'),
      us_updatedAt := Some (ch_now x)\<rparr>) (newNotification j ''Reset password '' s)"
    using assms(1) j w by (simp add: resetPassword_def o'_def [symmetric] Let_def)
  have i: "i = j" using assms(2-4) by (auto simp: s' doc_of_amend pw_def split: if_splits)
  have d: "dj = d" using i j(2) assms(2) by simp
  have c: "us_conFirmMailToken d' = []" using assms(2,3) by (auto simp: s' i doc_of_amend)
  obtain t where t: "ub_authToken b = JStr t"
    using j(1) by (cases "ub_authToken b") (auto simp: o'_def object_id_def isObjectIdLike_def)
  show ?thesis
    using j(1,3) i d t c by (auto simp: o'_def link_fault_def split: if_splits option.splits)
qed

lemma change_proof:
  assumes "changePassword E x u b s = (s', a)" and "doc_of s i = Some d" and "doc_of s' i = Some d'" and "pw d' \<noteq> pw d"
  shows "u = i \<and> authenticate E (ub_oldPassword b) d = Some True \<and> optVerification 2 x d (ub_otp b) = None \<and> us_emailOTP d' = []"
proof -
  have ne: "s' \<noteq> s" using assms(2-4) by auto
  show ?thesis
    using assms ne
    by (auto simp: changePassword_def Let_def doc_of_amend pw_def split: option.splits bool.splits if_splits)
qed

text \<open>C26: A password of an account changes in two ways only. Either a reset carries the link that was confirmed for the account
  last, no later than half an hour after the last time a link or code was asked for, and the link is used up; or a
  session of the account itself gives its old password and the code that was mailed to it less than 3.4 minutes ago, and
  the code is used up.\<close>

theorem password_needs_proof:
  assumes "serve E x r s = (s', a)" and "doc_of s (ch_id x) = None"
    and "doc_of s i = Some d" and "doc_of s' i = Some d'" and "(us_hash d', us_salt d') \<noteq> (us_hash d, us_salt d)"
  shows "(\<exists>b t t0. r = ResetPassword b \<and> ub_authToken b = JStr t \<and> t \<noteq> [] \<and> object_id (ue_unseal E t) = Some i \<and>
           us_conFirmMailToken d = t \<and> us_otptime d = Some t0 \<and> ch_now x - t0 \<le> RESET_TTL_MS \<and> us_conFirmMailToken d' = []) \<or>
    (\<exists>w b. r = ChangePassword w b \<and> usersAuth s w = Some i \<and> authenticate E (ub_oldPassword b) d = Some True \<and>
           us_emailOTP d \<noteq> [] \<and> ub_otp b = JStr (us_emailOTP d) \<and> since (us_emailOTPtime d) x < 204000 \<and> us_emailOTP d' = [])"
proof -
  have ne: "s' \<noteq> s" using assms(3-5) by auto
  have p: "pw d' \<noteq> pw d" using assms(5) by (simp add: pw_def)
  have k: "\<not> view_kept pw s (fst (serve E x r s))" using assms(1,3,4) p by (auto simp: view_kept_def)
  have reg: "view_kept pw s (fst (serve E x (Register b) s))" for b
    by (auto intro!: secret.form_keeps register_kept assms(2))
  consider (reset) b where "r = ResetPassword b" | (change) w b where "r = ChangePassword w b"
    using k secret.others_keep [of r s E x] reg by blast
  then show ?thesis
  proof cases
    case reset
    have f: "resetPwdValidate b = []" "resetPassword E x b s = (s', a)" using form_passed [OF _ ne] assms(1) reset by auto
    have "ub_authToken b \<noteq> JStr []" using f(1) by (auto simp: resetPwdValidate_def trim_def)
    then show ?thesis using reset reset_proof [OF f(2) assms(3,4) p] by auto
  next
    case change
    obtain u where u: "usersAuth s w = Some u" "changePwdValidate b = []" "changePassword E x u b s = (s', a)"
      using session_passed [of w "\<lambda>u. with_form (changePwdValidate b) (changePassword E x u b)" s s' a] assms(1) change ne
        form_passed [OF _ ne] by auto
    have c: "u = i \<and> authenticate E (ub_oldPassword b) d = Some True \<and> optVerification 2 x d (ub_otp b) = None \<and> us_emailOTP d' = []"
      using change_proof [OF u(3) assms(3,4) p] .
    moreover have "ub_otp b \<noteq> JStr []" using u(2) by (auto simp: changePwdValidate_def trim_def split: if_splits)
    ultimately show ?thesis using change u(1) by (auto simp: optVerification_def split: if_splits)
  qed
qed

definition demo_env :: user_env where
  "demo_env = \<lparr>ue_process = \<lparr>pe_NODE_ENV = Some ''production'', pe_TEST_MODE = None, pe_DEV_EMAIL_BYPASS = None,
     pe_DEV_RECAPTCHA_BYPASS = None\<rparr>, ue_digest = (\<lambda>p salt. p @ salt), ue_unseal = (\<lambda>t. tl t)\<rparr>"

definition at_time :: "int \<Rightarrow> chance" where
  "at_time t = \<lparr>ch_now = t, ch_code = 123456, ch_token = CHR ''#'' # demo_id, ch_salt = ''pepper'', ch_session = ''second'',
     ch_id = replicate 24 CHR ''b''\<rparr>"

text \<open>An account whose sign-in was closed when time began.\<close>

definition ann :: user_doc where
  "ann = (new_user_doc demo_id ''1'' 0)\<lparr>us_email := ''ann@x.io'', us_hash := ''Secret1!salt'', us_salt := ''salt'',
     us_status := ''verified'', us_emailStatus := ''verified'', us_isBlock := True, us_lock_session := Some 0\<rparr>"

definition ann_alone :: user_service where
  "ann_alone = \<lparr>u_docs = [ann], u_settings = [demo_id \<mapsto> \<lparr>st_passwordChange = False, st_showSpot = False\<rparr>],
     u_sessions = (\<lambda>_. None), u_redis = True, u_mails = [], u_assets = [], u_told = []\<rparr>"

lemmas demo_defs = demo_env_def at_time_def ann_def ann_alone_def empty_body_def new_user_doc_def

definition waiting :: user_service where
  "waiting = ann_alone\<lparr>u_docs := [ann\<lparr>us_conFirmMailToken := CHR ''#'' # demo_id, us_otptime := Some 0\<rparr>]\<rparr>"

definition new_password :: user_body where
  "new_password = empty_body\<lparr>ub_authToken := JStr (CHR ''#'' # demo_id), ub_password := JStr ''Abc12!'', ub_confirmPassword := JStr ''Abc12!''\<rparr>"

lemma new_password_fits: "resetPwdValidate new_password = []"
  by (simp add: resetPwdValidate_def new_password_def empty_body_def repeat_fault_def password_fault_def fault_if_def passwordRegex_def
      char_classes trim_def)

lemma new_password_digest: "with_password demo_env (at_time t) (ub_password new_password) = Some (''pepper'', ''Abc12!pepper'')"
  by (simp add: with_password_def encryptPassword_def new_password_def falsy_def demo_env_def at_time_def)

theorem password_needs_proof_witness:
  "\<exists>t t0. ub_authToken new_password = JStr t \<and> us_otptime (hd (u_docs waiting)) = Some t0 \<and> 1000000 - t0 \<le> RESET_TTL_MS"
proof -
  let ?d = "ann\<lparr>us_conFirmMailToken := CHR ''#'' # demo_id, us_otptime := Some 0\<rparr>" and ?x = "at_time 1000000"
  have o: "object_id (ue_unseal demo_env (CHR ''#'' # demo_id)) = Some demo_id" by code_simp
  have d: "doc_of waiting demo_id = Some ?d" by (simp add: doc_of_def waiting_def ann_def new_user_doc_def)
  have f: "doc_of waiting (ch_id ?x) = None"
    by (simp add: doc_of_def waiting_def at_time_def ann_def new_user_doc_def demo_id_def numeral_eq_Suc)
  have l: "link_fault ?x new_password ?d = None"
    by (simp add: link_fault_def new_password_def empty_body_def at_time_def RESET_TTL_MS_def nullish_def)
  have s: "serve demo_env ?x (ResetPassword new_password) waiting =
      (amend demo_id (\<lambda>d'. d'\<lparr>us_salt := ''pepper'', us_hash := ''Abc12!pepper'', us_conFirmMailToken := [],
         us_mailToken := us_mailToken d', us_updatedAt := Some 1000000\<rparr>) (newNotification demo_id ''Reset password '' waiting),
       replies 200 ''Reset password updated successfully'')"
    using o d l new_password_digest [of 1000000]
    by (simp add: with_form_def new_password_fits resetPassword_def Let_def)
      (simp add: new_password_def empty_body_def at_time_def nullish_def)
  have d': "doc_of (amend demo_id (\<lambda>d'. d'\<lparr>us_salt := ''pepper'', us_hash := ''Abc12!pepper'', us_conFirmMailToken := [],
         us_mailToken := us_mailToken d', us_updatedAt := Some 1000000\<rparr>) (newNotification demo_id ''Reset password '' waiting)) demo_id =
      Some (?d\<lparr>us_salt := ''pepper'', us_hash := ''Abc12!pepper'', us_conFirmMailToken := [],
         us_mailToken := us_mailToken ?d, us_updatedAt := Some 1000000\<rparr>)"
    by (simp add: doc_of_amend d)
  show ?thesis
    using password_needs_proof [OF s f d d'] by (auto simp: waiting_def at_time_def ann_def)
qed

end
