(* ===== verification/SignIn.thy ===== *)
theory SignIn
  imports AccountRules
begin

text \<open>
  Signing in: how many passwords can be tried on an account, the mailed code that can be left out, the session that
  replaces the one before it, and the account that is closed and stays out. Requests come in any order from anybody.
\<close>

section \<open>Guessing a password\<close>

text \<open>Whether a request has a password compared with the one of an account.\<close>

definition tried_on :: "user_env \<Rightarrow> user_id \<Rightarrow> chance \<Rightarrow> user_request \<Rightarrow> user_service \<Rightarrow> bool" where
  "tried_on E i x r s = (case r of
      Login b \<Rightarrow> loginValidate b = [] \<and> (case login_lookup b s of
          Inl _ \<Rightarrow> False
        | Inr d \<Rightarrow> us_id d = i \<and> (case login_gate x d s of Inl _ \<Rightarrow> False | Inr _ \<Rightarrow> True) \<and> authenticate E (ub_password b) d \<noteq> None)
    | _ \<Rightarrow> False)"

fun tries :: "user_env \<Rightarrow> user_id \<Rightarrow> (chance \<times> user_request) list \<Rightarrow> user_service \<Rightarrow> nat" where
  "tries E i [] s = 0"
| "tries E i ((x, r) # rs) s = (if tried_on E i x r s then 1 else 0) + tries E i rs (fst (serve E x r s))"

text \<open>What a stranger can send: no session, no link that resets a password, and no sign-in with the account's own password.\<close>

definition by_stranger :: "user_env \<Rightarrow> user_doc \<Rightarrow> user_request \<Rightarrow> bool" where
  "by_stranger E d r = (case r of
      Login b \<Rightarrow> authenticate E (ub_password b) d \<noteq> Some True
    | ResendOTP _ \<Rightarrow> True | ForgotPassword _ \<Rightarrow> True | ResetConfirm _ \<Rightarrow> True | ConfirmMail _ \<Rightarrow> True
    | ResendMail _ \<Rightarrow> True | TestVerify _ \<Rightarrow> True | _ \<Rightarrow> False)"

definition tries_left :: "int \<Rightarrow> user_doc \<Rightarrow> nat" where
  "tries_left t0 d =
     (if us_isBlock d then (case us_lock_session d of None \<Rightarrow> 0 | Some t \<Rightarrow> if t \<ge> t0 then 0 else 4)
      else if us_login_attempt d \<ge> 2 then 1 else nat (3 - us_login_attempt d))"

lemma same_view:
  assumes "attempt_view d' = attempt_view d"
  shows "tries_left t0 d' = tries_left t0 d" "us_login_attempt d' = us_login_attempt d" "pw d' = pw d"
  using assms by (auto simp: attempt_view_def tries_left_def pw_def)

lemma authenticate_pw: "pw d' = pw d \<Longrightarrow> authenticate E p d' = authenticate E p d"
  by (simp add: authenticate_def pw_def)

lemma by_stranger_pw: "pw d' = pw d \<Longrightarrow> by_stranger E d' r = by_stranger E d r"
proof -
  assume "pw d' = pw d"
  then have "authenticate E p d' = authenticate E p d" for p by (rule authenticate_pw)
  then show ?thesis by (cases r) (simp_all add: by_stranger_def)
qed

lemma login_elsewhere:
  assumes "login_lookup b s = Inr d2" and "us_id d2 \<noteq> i"
  shows "doc_of (fst (userLogin E x b s)) i = doc_of s i"
proof -
  have o: "doc_of (amend (us_id d2) f s1) i = doc_of s1 i" if "\<And>d. us_id (f d) = us_id d" for f s1
    using assms(2) doc_of_amend [OF that, of "us_id d2" s1 i] by simp
  have c: "doc_of (fst (login_code E x b d2 s1)) i = doc_of s1 i" for s1
    by (simp add: login_code_def o)
  have f: "doc_of (fst (login_open x d2 s1)) i = doc_of s1 i" "doc_of (fst (failed_attempt x d2 s1)) i = doc_of s1 i" for s1
    by (simp_all add: login_open_def failed_attempt_def o)
  show ?thesis
  proof (cases "login_gate x d2 s")
    case (Inr s1)
    have g: "doc_of s1 i = doc_of s i" using Inr by (auto simp: login_gate_def o split: if_splits)
    obtain s2 r where "login_code E x b d2 s1 = (s2, r)" by (cases "login_code E x b d2 s1")
    moreover from this have "doc_of s2 i = doc_of s i" using c [of s1] g by simp
    ultimately show ?thesis
      using assms(1) Inr g f by (simp add: userLogin_def split: option.split bool.split)
  qed (simp add: userLogin_def assms(1))
qed

lemma login_try:
  assumes l: "login_lookup b s = Inr d" and d: "doc_of s i = Some d" "us_id d = i"
    and w: "authenticate E (ub_password b) d \<noteq> Some True" and a: "0 \<le> us_login_attempt d"
    and t: "t0 \<le> ch_now x" "ch_now x < t0 + LOCK_INTERVAL"
  shows "\<exists>d'. doc_of (fst (userLogin E x b s)) i = Some d' \<and> pw d' = pw d \<and> 0 \<le> us_login_attempt d' \<and>
    (if (case login_gate x d s of Inl _ \<Rightarrow> False | Inr _ \<Rightarrow> True) \<and> authenticate E (ub_password b) d \<noteq> None then 1 else 0) +
    tries_left t0 d' \<le> tries_left t0 d"
proof (cases "login_gate x d s")
  case (Inl v)
  then show ?thesis using l d a by (simp add: userLogin_def)
next
  case (Inr s1)
  consider (fresh) "\<not> us_isBlock d" "s1 = s"
    | (over) "us_isBlock d" "lock_over x d" "s1 = amend (us_id d) (\<lambda>d'. d'\<lparr>us_login_attempt := 0, us_isBlock := False\<rparr>) s"
    using Inr by (auto simp: login_gate_def split: if_splits)
  then show ?thesis
  proof cases
    case fresh
    show ?thesis
      using l d w a t fresh Inr
      by (cases "authenticate E (ub_password b) d")
        (auto simp: userLogin_def failed_attempt_def doc_of_amend tries_left_def pw_def)
  next
    case over
    have four: "tries_left t0 d = 4"
      using over(1,2) t by (auto simp: tries_left_def lock_over_def split: option.splits)
    show ?thesis
      using l d w a t over Inr four
      by (cases "authenticate E (ub_password b) d")
        (auto simp: userLogin_def failed_attempt_def doc_of_amend tries_left_def pw_def)
  qed
qed

lemma stranger_step:
  assumes k: "well_kept s" and d: "doc_of s i = Some d" and r: "by_stranger E d r" and a: "0 \<le> us_login_attempt d"
    and t: "t0 \<le> ch_now x" "ch_now x < t0 + LOCK_INTERVAL"
  shows "\<exists>d'. doc_of (fst (serve E x r s)) i = Some d' \<and> pw d' = pw d \<and> 0 \<le> us_login_attempt d' \<and>
    (if tried_on E i x r s then 1 else 0) + tries_left t0 d' \<le> tries_left t0 d"
proof (cases "\<exists>b. r = Login b")
  case True
  then obtain b where b: "r = Login b" by blast
  show ?thesis
  proof (cases "loginValidate b = []")
    case True
    then have f: "fst (serve E x r s) = fst (userLogin E x b s)" by (simp add: b with_form_def)
    show ?thesis
    proof (cases "login_lookup b s")
      case (Inl v)
      then show ?thesis using d a f by (simp add: b tried_on_def userLogin_def)
    next
      case (Inr d2)
      show ?thesis
      proof (cases "us_id d2 = i")
        case True
        have "d2 = d" using Inr True doc_at_of [OF k] d
          by (auto simp: login_lookup_def split: if_splits jsval.splits option.splits)
        then show ?thesis
          using login_try [of b s d i E t0 x] Inr True d r a t f \<open>loginValidate b = []\<close>
          by (simp add: b tried_on_def by_stranger_def)
      next
        case False
        then show ?thesis
          using login_elsewhere [OF Inr False] Inr d a f by (simp add: b tried_on_def)
      qed
    qed
  next
    case False
    then have "fst (serve E x r s) = s" by (auto simp: b with_form_def split: list.splits)
    then show ?thesis using False d a by (simp add: b tried_on_def)
  qed
next
  case False
  have kp: "view_kept attempt_view s (fst (serve E x r s))"
    using r False by (cases r) (auto simp: by_stranger_def intro!: guess.all_keep guess.form_keeps)
  have "ids (fst (serve E x r s)) = ids s" using r by (intro roll.serve_keeps) (auto simp: by_stranger_def)
  then obtain d' where d': "doc_of (fst (serve E x r s)) i = Some d'"
    using d doc_of_ids [of s i] doc_of_ids [of "fst (serve E x r s)" i] by auto
  then have "attempt_view d' = attempt_view d" using kp d by (auto simp: view_kept_def)
  then show ?thesis using d' same_view [of d' d] a False by (auto simp: tried_on_def split: user_request.splits)
qed

lemma tries_bounded:
  assumes "well_kept s" and "doc_of s i = Some d" and "0 \<le> us_login_attempt d"
    and "\<forall>(x, r) \<in> set rs. by_stranger E d r \<and> t0 \<le> ch_now x \<and> ch_now x < t0 + LOCK_INTERVAL"
  shows "tries E i rs s \<le> tries_left t0 d"
  using assms
proof (induction rs arbitrary: s d)
  case (Cons e rs)
  obtain x r where e: "e = (x, r)" by (cases e)
  obtain d' where d': "doc_of (fst (serve E x r s)) i = Some d'" "pw d' = pw d" "0 \<le> us_login_attempt d'"
    "(if tried_on E i x r s then 1 else 0) + tries_left t0 d' \<le> tries_left t0 d"
    using stranger_step [OF Cons.prems(1,2) _ Cons.prems(3), of E r t0 x] Cons.prems(4) e by auto
  have "tries E i rs (fst (serve E x r s)) \<le> tries_left t0 d'"
    using Cons.prems(4) by (intro Cons.IH [OF serve_well_kept [OF Cons.prems(1)] d'(1,3)]) (auto simp: e by_stranger_pw [OF d'(2)])
  then show ?case using d'(4) by (simp add: e)
qed simp


definition sign_in :: "string \<Rightarrow> user_body" where
  "sign_in p = empty_body\<lparr>ub_roleType := JNum (Fin 1), ub_email := JStr ''Ann@x.io'', ub_password := JStr p\<rparr>"

lemmas signing_defs = demo_defs sign_in_def


section \<open>The mailed code\<close>

text \<open>C28: A deployment that mails a code for every sign-in does not insist on it. A form that gives the right password
  and any text at all as its code, and leaves out the mark that its code box is shown, is signed in at once, without a code
  having been sent or compared.\<close>

theorem login_code_can_be_skipped:
  assumes "loginValidate b = []" and "login_lookup b s = Inr d" and "login_gate x d s = Inr s1"
    and "authenticate E (ub_password b) d = Some True" and "us_locked d = ''false''"
    and "u_settings s (us_id d) \<noteq> None" and "u_redis s"
    and "falsy (ub_otpTextBox b)" and "\<not> isEmpty (ub_otp b)"
  shows "snd (serve E x (Login b) s) = replies 200 ''Login Success!'' \<and>
    usersAuth (fst (serve E x (Login b) s)) \<lparr>jw_id = us_id d, jw_tokenId = ch_session x, jw_role = ''user''\<rparr> = Some (us_id d)"
proof -
  have s1: "u_settings s1 = u_settings s" "u_redis s1 = u_redis s"
    using assms(3) by (auto simp: login_gate_def split: if_splits)
  obtain n where n: "u_settings s (us_id d) = Some n" using assms(6) by auto
  have "login_code E x b d s1 = (s1, None)" using assms(8,9) by (simp add: login_code_def)
  then show ?thesis using assms(1-5,7) n s1 by (simp add: with_form_def userLogin_def login_open_def usersAuth_def)
qed

definition skipping :: user_body where
  "skipping = (sign_in ''Secret1!'')\<lparr>ub_otp := JStr ''0''\<rparr>"

lemma ann_spelled: "lower ''Ann@x.io'' = ''ann@x.io''"
  by code_simp

lemma ann_is_looked_up: "login_lookup skipping ann_alone = Inr ann"
  by (simp add: login_lookup_def skipping_def signing_defs for_role_def nullish_def js_eq_def doc_at_def ann_spelled)

theorem login_code_can_be_skipped_witness:
  "snd (serve demo_env (at_time 90000000) (Login skipping) ann_alone) = replies 200 ''Login Success!''"
proof -
  have v: "loginValidate skipping = []"
    by (simp add: loginValidate_def email_fault_def phone_faults_def for_role_def nullish_def js_eq_def skipping_def signing_defs
        emailRegex_def plain_local_def named_domain_def char_classes trim_def)
  have g: "login_gate (at_time 90000000) ann ann_alone =
      Inr (amend demo_id (\<lambda>d'. d'\<lparr>us_login_attempt := 0, us_isBlock := False\<rparr>) ann_alone)"
    by (simp add: login_gate_def lock_over_def LOCK_INTERVAL_def signing_defs)
  have p: "authenticate demo_env (ub_password skipping) ann = Some True"
    by (simp add: authenticate_def encryptPassword_def falsy_def skipping_def signing_defs)
  show ?thesis
    using login_code_can_be_skipped [OF v ann_is_looked_up g p]
    by (simp add: skipping_def signing_defs falsy_def trim_def is_ws_def)
qed

section \<open>Sessions\<close>

interpretation seat: password_frame "\<lambda>s s'. u_sessions s' = u_sessions s" "\<lambda>_. True"
  by unfold_locales auto

lemma early_sessions: "earlier_registration x e s = Inr s1 \<Longrightarrow> u_sessions s1 = u_sessions s"
  by (auto simp: earlier_registration_def split: option.splits if_splits)

lemma insert_sessions: "insert_user d s = Some s1 \<Longrightarrow> u_sessions s1 = u_sessions s"
  by (auto simp: insert_user_def split: if_splits)

lemma register_sessions: "u_sessions (fst (createNewUser E x b s)) = u_sessions s"
  by (auto simp: createNewUser_def Let_def early_sessions insert_sessions split: jsval.splits option.splits sum.splits)

text \<open>Only a sign-in that the gate lets through opens a session, and it is the one of its account.\<close>

lemma login_sessions:
  "u_sessions (fst (userLogin E x b s)) i = u_sessions s i \<or>
   (\<exists>d. login_lookup b s = Inr d \<and> us_id d = i \<and> us_locked d \<noteq> ''true'' \<and> u_sessions (fst (userLogin E x b s)) i =
      Some \<lparr>ss_tokenId = Some (ch_session x), ss_locked = Some (us_locked d), ss_email = us_email d, ss_showSpot = None\<rparr>)"
proof (cases "login_lookup b s")
  case (Inr d)
  show ?thesis
  proof (cases "login_gate x d s")
    case (Inr s1)
    have g: "u_sessions s1 = u_sessions s" "us_locked d \<noteq> ''true''" using Inr by (auto simp: login_gate_def split: if_splits)
    have c: "u_sessions (fst (login_code E x b d s1)) = u_sessions s1" by (simp add: login_code_def)
    obtain s2 r where r: "login_code E x b d s1 = (s2, r)" by (cases "login_code E x b d s1")
    show ?thesis
      using \<open>login_lookup b s = Inr d\<close> Inr g c r
      by (auto simp: userLogin_def login_open_def failed_attempt_def split: option.splits bool.splits)
  qed (simp add: userLogin_def \<open>login_lookup b s = Inr d\<close>)
qed (simp add: userLogin_def)

lemma pair_sessions: "usersAuth s w = Some u \<Longrightarrow> u \<noteq> i \<Longrightarrow> u_sessions (fst (showPair u t v s)) i = u_sessions s i"
  by (auto simp: showPair_def Let_def split: option.splits)

lemma serve_sessions:
  "(\<And>b. r \<noteq> Login b) \<Longrightarrow> (\<And>w t v. r \<noteq> ChangePair w t v) \<Longrightarrow> u_sessions (fst (serve E x r s)) = u_sessions s"
  by (cases r) (auto intro!: seat.form_keeps seat.session_keeps seat.all_keep seat.reset_keeps seat.change_keeps register_sessions)

text \<open>A sign-in replaces the session before it: no other token is taken any more.\<close>

lemma one_session:
  assumes "snd (userLogin E x b s) = replies 200 ''Login Success!''" and "login_lookup b s = Inr d" and "jw_id w = us_id d"
    and "usersAuth (fst (userLogin E x b s)) w \<noteq> None"
  shows "jw_tokenId w = ch_session x"
proof -
  obtain s1 where g: "login_gate x d s = Inr s1" "us_locked d \<noteq> ''true''"
    using assms(1,2) by (cases "login_gate x d s") (auto simp: userLogin_def login_gate_def replies_def split: if_splits)
  have "authenticate E (ub_password b) d = Some True"
    using assms(1,2) g by (auto simp: userLogin_def failed_attempt_def replies_def split: option.splits bool.splits if_splits)
  moreover obtain s2 r where r: "login_code E x b d s1 = (s2, r)" by (cases "login_code E x b d s1")
  moreover have "r = None"
    using assms(1,2) g calculation by (cases r) (auto simp: userLogin_def login_code_def replies_def split: if_splits)
  ultimately have "userLogin E x b s = login_open x d s2" using assms(2) g by (simp add: userLogin_def)
  then show ?thesis using assms by (auto simp: login_open_def usersAuth_def replies_def split: if_splits option.splits)
qed

section \<open>A closed account\<close>

definition shut_out :: "user_service \<Rightarrow> user_id \<Rightarrow> bool" where
  "shut_out s i \<longleftrightarrow> well_kept s \<and> u_sessions s i = None \<and>
     (\<exists>d. doc_of s i = Some d \<and> us_locked d = ''true'' \<and> us_emailStatus d = ''verified'')"

definition stays_verified :: "user_service \<Rightarrow> user_service \<Rightarrow> bool" where
  "stays_verified s s' \<longleftrightarrow> (\<forall>i d d'. doc_of s i = Some d \<longrightarrow> doc_of s' i = Some d' \<longrightarrow>
     us_emailStatus d = ''verified'' \<longrightarrow> us_emailStatus d' = ''verified'')"

lemma stays_refl [simp]: "stays_verified s s"
  by (simp add: stays_verified_def)

lemma stays_more:
  "stays_verified s (mailTemplateLang k t w s') = stays_verified s s'" "stays_verified s (newNotification u m s') = stays_verified s s'"
  "stays_verified s (s'\<lparr>u_sessions := a\<rparr>) = stays_verified s s'" "stays_verified s (s'\<lparr>u_settings := b\<rparr>) = stays_verified s s'"
  by (simp_all add: stays_verified_def)

definition keeps_status :: "(user_doc \<Rightarrow> user_doc) \<Rightarrow> bool" where
  "keeps_status f \<longleftrightarrow> (\<forall>d. us_id (f d) = us_id d \<and> (us_emailStatus d = ''verified'' \<longrightarrow> us_emailStatus (f d) = ''verified''))"

lemma stays_amend: "stays_verified s s' \<Longrightarrow> keeps_status f \<Longrightarrow> stays_verified s (amend j f s')"
  unfolding stays_verified_def
proof (intro allI impI)
  fix i d d' assume a: "\<forall>i d d'. doc_of s i = Some d \<longrightarrow> doc_of s' i = Some d' \<longrightarrow> us_emailStatus d = ''verified'' \<longrightarrow> us_emailStatus d' = ''verified''"
    "keeps_status f" "doc_of s i = Some d" "doc_of (amend j f s') i = Some d'" "us_emailStatus d = ''verified''"
  have "us_id (f d) = us_id d" for d using a(2) by (simp add: keeps_status_def)
  then show "us_emailStatus d' = ''verified''"
    using a by (auto simp: keeps_status_def doc_of_amend split: if_splits)
qed

interpretation proof_of_mail: every_frame stays_verified keeps_status
  by unfold_locales (auto simp: stays_more stays_amend keeps_status_def)

lemma shut_out_step: "shut_out s i \<Longrightarrow> shut_out (fst (serve E x r s)) i"
proof -
  assume a: "shut_out s i"
  obtain d where d: "well_kept s" "u_sessions s i = None" "doc_of s i = Some d" "us_locked d = ''true''" "us_emailStatus d = ''verified''"
    using a by (auto simp: shut_out_def)
  define s' where "s' = fst (serve E x r s)"
  have w: "well_kept s'" using serve_well_kept [OF d(1)] by (simp add: s'_def)
  have own: "d2 = d" if "us_id d2 = i" "doc_of s (us_id d2) = Some d2" for d2 using that d(3) by simp
  have n: "u_sessions s' i = None"
  proof (cases "(\<exists>b. r = Login b) \<or> (\<exists>w t v. r = ChangePair w t v)")
    case True
    then consider (login) b where "r = Login b" | (pair) w t v where "r = ChangePair w t v" by blast
    then show ?thesis
    proof cases
      case login
      have "u_sessions (fst (userLogin E x b s)) i = u_sessions s i"
        using login_sessions [of E x b s i] own doc_at_of [OF d(1)] d(4)
        by (auto simp: login_lookup_def split: if_splits jsval.splits option.splits)
      then show ?thesis using login d(2) by (auto simp: s'_def with_form_def split: list.splits)
    next
      case pair
      show ?thesis
      proof (cases "usersAuth s w")
        case (Some u)
        then have "u \<noteq> i" using d(2) by (auto simp: usersAuth_def split: if_splits option.splits)
        then show ?thesis using pair_sessions [OF Some] d(2) Some by (simp add: s'_def pair passportAuth_def)
      qed (simp add: s'_def pair passportAuth_def d(2))
    qed
  next
    case False
    then show ?thesis using serve_sessions [of r E x s] d(2) by (simp add: s'_def)
  qed
  have "\<exists>d'. doc_of s' i = Some d' \<and> us_locked d' = ''true'' \<and> us_emailStatus d' = ''verified''"
  proof (cases "\<exists>b. r = Register b")
    case True
    then obtain b where b: "r = Register b" by blast
    have "\<not> unconfirmed s i" using doc_at_of [OF d(1)] d(3,5) by (auto simp: unconfirmed_def)
    then show ?thesis
      using register_keeps_confirmed [OF d(3)] d(3-5) by (auto simp: s'_def b with_form_def split: list.splits)
  next
    case False
    have "ids s' = ids s" using False by (simp add: s'_def roll.serve_keeps)
    then obtain d' where d': "doc_of s' i = Some d'" using d(3) doc_of_ids [of s i] doc_of_ids [of s' i] by auto
    moreover have "us_locked d' = us_locked d"
      using bolt.serve_keeps [of r s E x] False d(3) d' by (auto simp: view_kept_def s'_def)
    moreover have "us_emailStatus d' = ''verified''"
      using proof_of_mail.serve_keeps [of r s E x] False d(3,5) d' by (auto simp: stays_verified_def s'_def)
    ultimately show ?thesis using d(4) by simp
  qed
  then show "shut_out (fst (serve E x r s)) i" using w n by (auto simp: shut_out_def s'_def)
qed

definition serve_all :: "user_env \<Rightarrow> (chance \<times> user_request) list \<Rightarrow> user_service \<Rightarrow> user_service" where
  "serve_all E rs s = fold (\<lambda>(x, r) s. fst (serve E x r s)) rs s"

lemma shut_out_for_good: "shut_out s i \<Longrightarrow> shut_out (serve_all E rs s) i"
  unfolding serve_all_def by (induction rs arbitrary: s) (auto intro: shut_out_step)

lemma shut_out_refused:
  assumes "shut_out s i"
  shows "usersAuth s w \<noteq> Some i"
    and "login_lookup b s = Inr d \<Longrightarrow> us_id d = i \<Longrightarrow> userLogin E x b s = (s, replies 400 ''Your account is still locked'')"
proof -
  show "usersAuth s w \<noteq> Some i" using assms by (auto simp: shut_out_def usersAuth_def split: if_splits option.splits)
  show "userLogin E x b s = (s, replies 400 ''Your account is still locked'')" if "login_lookup b s = Inr d" "us_id d = i"
  proof -
    have "doc_of s i = Some d"
      using assms that doc_at_of [of s] by (auto simp: shut_out_def login_lookup_def split: if_splits jsval.splits option.splits)
    then have "us_locked d = ''true''" using assms by (auto simp: shut_out_def)
    then show ?thesis using that by (simp add: userLogin_def login_gate_def)
  qed
qed

end
