(* ===== verification/Recovery.thy ===== *)
theory Recovery
  imports SignIn
begin

text \<open>
  The links and addresses of the user service: a reset link that has expired and works again, the activation mail that is
  never held back, the address that nobody proved, and the address that locks its account out. In production no answer
  shows what was mailed.
\<close>

section \<open>Answers in production\<close>

lemma shown_nothing [simp]: "an_shows (replies c w) = []"
  by (simp add: replies_def)

lemma form_shows: "an_shows (snd (act s)) = [] \<Longrightarrow> an_shows (snd (with_form errs act s)) = []"
  by (auto simp: with_form_def split: list.splits)

lemma session_shows: "(\<And>u. an_shows (snd (act u s)) = []) \<Longrightarrow> an_shows (snd (passportAuth w act s)) = []"
  by (auto simp: passportAuth_def split: option.splits)

lemma login_shows: "isProduction (ue_process E) \<Longrightarrow> an_shows (snd (userLogin E x b s)) = []"
proof (cases "login_lookup b s")
  case (Inl a)
  then show ?thesis by (auto simp: userLogin_def login_lookup_def split: if_splits jsval.splits option.splits)
next
  case (Inr d)
  note l = Inr
  assume p: "isProduction (ue_process E)"
  show ?thesis
  proof (cases "login_gate x d s")
    case (Inl a)
    then show ?thesis using l by (auto simp: userLogin_def login_gate_def split: if_splits)
  next
    case (Inr s1)
    have "an_shows a = []" if "login_code E x b d s1 = (s2, Some a)" for s2 a
      using that p by (auto simp: login_code_def split: if_splits)
    then show ?thesis
      using l Inr by (auto simp: userLogin_def failed_attempt_def login_open_def split: option.splits bool.splits prod.splits)
  qed
qed

lemma handlers_show:
  assumes "isProduction (ue_process E)"
  shows "an_shows (snd (createNewUser E x b s)) = []" "an_shows (snd (resendOTP x b s)) = []"
    "an_shows (snd (checkForgotPassword E x b s)) = []" "an_shows (snd (ResetconfirmMail E b s)) = []"
    "an_shows (snd (resetPassword E x b s)) = []" "an_shows (snd (confirmMail E b s)) = []"
    "an_shows (snd (resendMail E x b s)) = []" "an_shows (snd (testVerifyUser E b s)) = []"
    "an_shows (snd (changePassword E x u b s)) = []" "an_shows (snd (requestOTP E x u b s)) = []"
    "an_shows (snd (emailUpdate x u b s)) = []" "an_shows (snd (editEmail x u b s)) = []"
    "an_shows (snd (verifyNewEmail E b s)) = []" "an_shows (snd (deactiveRequest E x u b s)) = []"
    "an_shows (snd (showPair u t v s)) = []"
proof -
  have "an_shows a = []" if "earlier_registration x e s = Inl a" for e a
    using that by (auto simp: earlier_registration_def split: option.splits if_splits)
  then show "an_shows (snd (createNewUser E x b s)) = []"
    using assms by (auto simp: createNewUser_def Let_def split: jsval.splits sum.splits option.splits)
qed (auto simp: assms resendOTP_def checkForgotPassword_def ResetconfirmMail_def resetPassword_def confirmMail_def resendMail_def
    testVerifyUser_def changePassword_def requestOTP_def emailUpdate_def editEmail_def verifyNewEmail_def deactiveRequest_def
    showPair_def mail_code_def Let_def split: jsval.split option.split sum.split bool.split)

lemma production_keeps_secrets: "isProduction (ue_process E) \<Longrightarrow> an_shows (snd (serve E x r s)) = []"
  by (cases r) (auto intro!: form_shows session_shows simp: handlers_show login_shows)

section \<open>A link that expired\<close>

text \<open>C29: The half hour a reset link is good for is counted from the last code or link that was asked for, and anybody can ask
  for a sign-in code by giving the address. So a confirmed link that has expired, however long ago, is refused, and after
  such a request the same link sets the password.\<close>

theorem expired_link_revives:
  assumes "well_kept s" and "doc_at s e = Some d" and "lower e = e"
    and "us_conFirmMailToken d = t" and "object_id (ue_unseal E t) = Some (us_id d)"
    and "us_otptime d = Some t0" and "ch_now x2 - t0 > RESET_TTL_MS"
    and "for_role 1 b1" and "ub_email b1 = JStr e"
    and "resetPwdValidate b2 = []" and "ub_authToken b2 = JStr t" and "ub_type b2 = JUndef"
    and "with_password E x2 (ub_password b2) = Some (salt, h)" and "ch_now x2 - ch_now x1 \<le> RESET_TTL_MS"
  shows "snd (serve E x2 (ResetPassword b2) s) = replies 400 ''This reset link has expired'' \<and>
    snd (serve E x2 (ResetPassword b2) (fst (serve E x1 (ResendOTP b1) s))) = replies 200 ''Reset password updated successfully'' \<and>
    map_option us_hash (doc_of (fst (serve E x2 (ResetPassword b2) (fst (serve E x1 (ResendOTP b1) s)))) (us_id d)) = Some h"
proof -
  define s1 where "s1 = fst (serve E x1 (ResendOTP b1) s)"
  have d: "doc_of s (us_id d) = Some d" using doc_at_of [OF assms(1,2)] .
  have s1: "doc_of s1 (us_id d) = Some (d\<lparr>us_otp := code_text (ch_code x1), us_otptime := Some (ch_now x1)\<rparr>)"
    using assms(2,3,8,9) d by (simp add: s1_def resendOTP_def doc_of_amend)
  have n: "loose_eq (JUndef) (JStr v) = False" for v by (simp add: nullish_def)
  have 1: "snd (serve E x2 (ResetPassword b2) s) = replies 400 ''This reset link has expired''"
    using assms(5,6,7,10,11) d by (simp add: with_form_def resetPassword_def link_fault_def)
  have "link_fault x2 b2 (d\<lparr>us_otp := code_text (ch_code x1), us_otptime := Some (ch_now x1)\<rparr>) = None"
    using assms(4,11,12,14) n by (simp add: link_fault_def)
  then have 2: "serve E x2 (ResetPassword b2) s1 =
      (amend (us_id d) (\<lambda>d'. d'\<lparr>us_salt := salt, us_hash := h, us_conFirmMailToken := [], us_mailToken := us_mailToken d',
         us_updatedAt := Some (ch_now x2)\<rparr>) (newNotification (us_id d) ''Reset password '' s1),
       replies 200 ''Reset password updated successfully'')"
    using assms(5,10-13) s1 n by (simp add: with_form_def resetPassword_def Let_def)
  show ?thesis using 1 2 s1 unfolding s1_def [symmetric] by (simp add: doc_of_amend del: serve.simps)
qed

theorem expired_link_revives_witness:
  "snd (serve demo_env (at_time 90000000) (ResetPassword new_password)
     (fst (serve demo_env (at_time 90000000) (ResendOTP (empty_body\<lparr>ub_roleType := JNum (Fin 1), ub_email := JStr ''ann@x.io''\<rparr>)) waiting)))
   = replies 200 ''Reset password updated successfully''"
proof -
  let ?b1 = "empty_body\<lparr>ub_roleType := JNum (Fin 1), ub_email := JStr ''ann@x.io''\<rparr>"
  let ?d = "ann\<lparr>us_conFirmMailToken := CHR ''#'' # demo_id, us_otptime := Some 0\<rparr>"
  have k: "well_kept waiting" by (simp add: well_kept_def waiting_def)
  have a: "doc_at waiting ''ann@x.io'' = Some ?d" by (simp add: doc_at_def waiting_def ann_def new_user_doc_def)
  have l: "lower ''ann@x.io'' = ''ann@x.io''" by code_simp
  have o: "object_id (ue_unseal demo_env (CHR ''#'' # demo_id)) = Some (us_id ?d)" by code_simp
  have r: "for_role 1 ?b1" by (simp add: for_role_def nullish_def js_eq_def)
  show ?thesis
    using expired_link_revives [OF k a l _ o _ _ r _ new_password_fits _ _ new_password_digest, where ?t0.0 = 0 and ?x1.0 = "at_time 90000000"]
    by (simp add: new_password_def empty_body_def at_time_def RESET_TTL_MS_def)
qed

text \<open>A link for a phone would have to be confirmed and not be confirmed at once.\<close>

lemma phone_reset_needs_both:
  assumes "resetPassword E x b s = (s', replies 200 m)" and "ub_type b = JStr ''mobile''"
  shows "\<exists>t i d. ub_authToken b = JStr t \<and> doc_of s i = Some d \<and> us_mailToken d = t \<and> us_conFirmMailToken d = t"
proof -
  obtain t where t: "ub_authToken b = JStr t"
    using assms(1) by (cases "ub_authToken b") (auto simp: resetPassword_def object_id_def isObjectIdLike_def replies_def)
  obtain i d where d: "doc_of s i = Some d" "link_fault x b d = None"
    using assms(1) t by (auto simp: resetPassword_def replies_def split: option.splits)
  then have "us_mailToken d = t" "us_conFirmMailToken d = t"
    using t assms(2) by (auto simp: link_fault_def falsy_def split: if_splits)
  then show ?thesis using t d(1) by blast
qed

section \<open>Mails\<close>

text \<open>An activation mail is sent again at once, to an account that is active as well, and any link that was out is void.\<close>

lemma activation_mail_is_never_held_back:
  assumes "doc_at s (lower raw) = Some d" and "raw \<noteq> []" and "ub_email b = JStr raw"
  shows "an_code (snd (resendMail E x b s)) = 200 \<and>
    an_code (snd (resendMail E x' b (fst (resendMail E x b s)))) = 200"
  using assms by (simp add: resendMail_def doc_at_amend)

section \<open>Addresses\<close>

text \<open>The link for a new address goes to the old one and is all that is asked for: the new one is marked verified.\<close>

lemma nobody_proved_the_address:
  assumes "doc_of s u = Some d" and "doc_for s (JStr e) = None" and "ub_newEmail b = JStr e" and "ub_oldEmail b = JStr old" "old \<noteq> []"
    and "ub_token b' = JStr (ch_token x)" and "object_id (ue_unseal E (ch_token x)) = Some u" and "us_email d \<noteq> e"
    and "u_mails s = []"
  defines "s1 \<equiv> fst (editEmail x u b s)" and "s2 \<equiv> fst (verifyNewEmail E b' (fst (editEmail x u b s)))"
  shows "map_option (\<lambda>d. (us_email d, us_emailStatus d)) (doc_of s2 u) = Some (e, ''verified'') \<and> map ml_to (u_mails s2) = [us_email d]"
proof -
  have id: "us_id d = u" using doc_of_id [OF assms(1)] .
  have s1: "doc_of s1 u = Some (d\<lparr>us_newEmail := e, us_newEmailToken := ch_token x\<rparr>)"
    "u_mails s1 = [\<lparr>ml_kind = ''change_register_email'', ml_to = us_email d, ml_secret = ch_token x\<rparr>]"
    using assms(1-5,9) by (simp_all add: s1_def editEmail_def Let_def doc_of_amend) (simp add: mailTemplateLang_def)
  have f: "us_email d' \<noteq> e" if "d' \<in> set (u_docs s)" for d'
    using assms(2) that by (auto simp: doc_for_def doc_at_def find_None_iff)
  have "us_email d' \<noteq> e \<or> us_id d' = u" if "d' \<in> set (u_docs s1)" for d'
  proof -
    obtain d0 where "d0 \<in> set (u_docs s)" "d' = (if us_id d0 = u then d0\<lparr>us_newEmail := e, us_newEmailToken := ch_token x\<rparr> else d0)"
      using \<open>d' \<in> set (u_docs s1)\<close> assms(1-5) by (auto simp: s1_def editEmail_def Let_def amend_def split: if_splits)
    then show ?thesis using f by auto
  qed
  then have "\<not> list_ex (\<lambda>d'. us_email d' = e \<and> us_id d' \<noteq> u) (u_docs s1)" by (auto simp: list_ex_iff)
  then have "s2 = amend u (\<lambda>d'. d'\<lparr>us_email := e, us_emailStatus := ''verified'', us_newEmail := [], us_newEmailToken := []\<rparr>) s1"
    using s1(1) assms(6,7) by (simp add: s2_def s1_def [symmetric] verifyNewEmail_def)
  then show ?thesis using s1 by (simp add: doc_of_amend)
qed

lemma lower_char:
  "(if 65 \<le> (of_char c :: int) \<and> (of_char c :: int) \<le> 90 then char_of ((of_char c :: int) + 32) else c) = d \<Longrightarrow>
   \<not> (65 \<le> (of_char d :: int) \<and> (of_char d :: int) \<le> 90)"
  by (auto split: if_splits)

lemma lower_lower [simp]: "lower (lower s) = lower s"
  unfolding lower_def map_map comp_def using lower_char by (intro map_cong) (auto split: if_splits)

text \<open>An account that changes its address to one that is not written in small letters can neither sign in nor
  recover: sign-in, the request for another code, the request for a reset link and the activation mail all
  look for the address in small letters and never find the account, and the address is not the account's old one any more.\<close>

theorem capital_address_locks_out:
  assumes "well_kept s" and "emailUpdate x u b s = (s', replies 200 m)" and "ub_email b = JStr e" and "lower e \<noteq> e"
  shows "map_option us_email (doc_of s' u) = Some e \<and>
    (\<forall>form d. login_lookup form s' = Inr d \<longrightarrow> us_id d \<noteq> u) \<and>
    (\<forall>raw d. doc_at s' (lower raw) = Some d \<longrightarrow> us_id d \<noteq> u)"
proof -
  obtain d where d: "doc_of s u = Some d" and s': "s' = amend u (\<lambda>d'. d'\<lparr>us_email := to_string (ub_email b), us_emailOTP := [],
      us_emailOTPtime := None, us_emailStatus := ''verified'', us_requestType := JStr []\<rparr>) (newNotification u ''Email verified'' s)"
    using assms(2) by (auto simp: emailUpdate_def replies_def split: option.splits)
  have e: "map_option us_email (doc_of s' u) = Some e" using d assms(3) by (simp add: s' doc_of_amend)
  have w: "well_kept s'" using assms(1) by (simp add: s' well_kept_ids ids_amend)
  have l: "us_id d \<noteq> u" if "doc_at s' (lower raw) = Some d" for raw d
  proof
    assume "us_id d = u"
    then have "us_email d = e" using e doc_at_of [OF w that] by simp
    moreover have "us_email d = lower raw" using doc_at_email [OF that] .
    ultimately show False using assms(4) lower_lower by metis
  qed
  show ?thesis
    using e l by (auto simp: login_lookup_def split: if_splits jsval.splits option.splits)
qed

definition moving :: user_service where
  "moving = ann_alone\<lparr>u_docs := [ann\<lparr>us_emailOTP := ''123456'', us_emailOTPtime := Some 90000000\<rparr>]\<rparr>"

definition new_home :: user_body where
  "new_home = empty_body\<lparr>ub_email := JStr ''Ann@y.io'', ub_otp := JStr ''123456''\<rparr>"

theorem capital_address_locks_out_witness:
  "login_lookup ((sign_in ''Secret1!'')\<lparr>ub_email := JStr ''Ann@y.io''\<rparr>) (fst (emailUpdate (at_time 90000000) demo_id new_home moving)) \<noteq> Inr ann
   \<and> map_option us_email (doc_of (fst (emailUpdate (at_time 90000000) demo_id new_home moving)) demo_id) = Some ''Ann@y.io''"
proof -
  have k: "well_kept moving" by (simp add: well_kept_def moving_def)
  have a: "emailUpdate (at_time 90000000) demo_id new_home moving =
      (fst (emailUpdate (at_time 90000000) demo_id new_home moving), replies 200 ''Email ID updated successfully'')"
    by (simp add: emailUpdate_def doc_for_def doc_at_def doc_of_def moving_def new_home_def optVerification_def since_def signing_defs)
  have e: "ub_email new_home = JStr ''Ann@y.io''" "lower ''Ann@y.io'' \<noteq> ''Ann@y.io''"
    by (simp add: new_home_def, code_simp)
  have i: "us_id ann = demo_id" by (simp add: ann_def new_user_doc_def)
  show ?thesis using capital_address_locks_out [OF k a e] i by blast
qed

end
