(* ===== verification/AccountClosure.thy ===== *)
theory AccountClosure
  imports Recovery Deactivation
begin

text \<open>
  Closing an account across the services (\<^verbatim>\<open>confirmDeActive\<close>, \<^verbatim>\<open>undoFreezes\<close> of
  \<^verbatim>\<open>cryptodex-userapi/controllers/user.controller.js\<close>, \<^verbatim>\<open>grpc/walletService.js\<close>, \<^verbatim>\<open>grpc/spotService.js\<close>,
  \<^verbatim>\<open>cryptodex-spotapi/grpc/server.js\<close>): the wallet is frozen, the account is marked, its session is removed and its
  orders are cancelled, in this order, with the freeze undone when the mark fails. Whether a call arrives and its reply
  comes back, and whether a write succeeds, are arguments.
\<close>

section \<open>Calls between services\<close>

datatype delivery = Delivered | NotDelivered | ReplyLost

text \<open>A call that fails in any way is answered the same: nothing is known of it.\<close>

definition rpc :: "delivery \<Rightarrow> ('s \<Rightarrow> 's \<times> 'r) \<Rightarrow> 's \<Rightarrow> 's \<times> 'r option" where
  "rpc v f s = (case v of
      Delivered \<Rightarrow> (fst (f s), Some (snd (f s))) | NotDelivered \<Rightarrow> (s, None) | ReplyLost \<Rightarrow> (fst (f s), None))"

record weather =
  we_freeze :: delivery
  we_undo :: delivery
  we_sweep :: delivery
  we_saves :: bool
  we_purges :: bool

record world =
  cw_users :: user_service
  cw_wallets :: wallet_db
  cw_spot :: spot

definition deactivateWallet :: "delivery \<Rightarrow> int \<Rightarrow> user_id \<Rightarrow> string \<Rightarrow> world \<Rightarrow> world \<times> (bool \<times> string) option" where
  "deactivateWallet v t userId mode w =
     (case rpc v (\<lambda>db. applyStandDownMode t db (JStr userId) (JStr mode)) (cw_wallets w) of (db, r) \<Rightarrow> (w\<lparr>cw_wallets := db\<rparr>, r))"

text \<open>The spot service answers every sweep with success, whatever the sweep itself returned.\<close>

definition grpc_cancelOrderForDeactiveAcc :: "service \<Rightarrow> user_id \<Rightarrow> spot \<Rightarrow> spot \<times> bool" where
  "grpc_cancelOrderForDeactiveAcc svc userId st = (fst (cancelOrderForDeactiveAcc svc userId st), True)"

definition freezeAppliedByThisCall :: "(bool \<times> string) option \<Rightarrow> bool" where
  "freezeAppliedByThisCall resp \<longleftrightarrow> resp = Some (True, ''FROZEN'')"

definition undoFreezes :: "delivery \<Rightarrow> int \<Rightarrow> user_id \<Rightarrow> bool \<Rightarrow> world \<Rightarrow> world" where
  "undoFreezes v t userId applied w = (if applied then fst (deactivateWallet v t userId ''unfreeze'' w) else w)"

section \<open>The handler\<close>

definition mark_deactivated :: "int \<Rightarrow> user_doc \<Rightarrow> user_doc" where
  "mark_deactivated t d = d\<lparr>us_status := ''deactivated'', us_locked := ''true'', us_deactivatedAt := Some t, us_emailOTP := [],
     us_emailOTPtime := None, us_otp := [], us_otptime := None, us_requestType := JStr [], us_deactiveOtpChannel := [],
     us_login_attempt := 0, us_isBlock := False, us_updatedAt := Some t\<rparr>"

definition closure_fault :: "chance \<Rightarrow> user_id \<Rightarrow> user_body \<Rightarrow> user_service \<Rightarrow> user_answer option" where
  "closure_fault x u b s =
     (if isEmpty (ub_otp b) then Some (replies 400 ''Please enter the otp'')
      else case doc_of s u of
        None \<Rightarrow> Some (replies 400 ''Invalid user'')
      | Some d \<Rightarrow>
          if us_status d = ''deactivated'' then Some (replies 400 ''ALREADY_DEACTIVATED'')
          else if us_deactiveOtpChannel d \<noteq> ''email'' \<and> us_deactiveOtpChannel d \<noteq> ''mobile'' then Some (replies 400 ''NO_PENDING_REQUEST'')
          else map_option (replies 400) (optVerification (if us_deactiveOtpChannel d = ''email'' then 2 else 1) x d (ub_otp b)))"

text \<open>Past the mark nothing is undone: the session and the orders are attempted, and then reported.\<close>

definition finish_closure :: "service \<Rightarrow> weather \<Rightarrow> user_id \<Rightarrow> world \<Rightarrow> world \<times> user_answer" where
  "finish_closure svc we u w =
     (let w1 = (if we_purges we then w\<lparr>cw_users := (cw_users w)\<lparr>u_sessions := (u_sessions (cw_users w))(u := None)\<rparr>\<rparr> else w)
      in case rpc (we_sweep we) (grpc_cancelOrderForDeactiveAcc svc u) (cw_spot w1) of (st, r) \<Rightarrow>
        (w1\<lparr>cw_spot := st\<rparr>,
         if \<not> we_purges we then replies 500 ''SESSION_NOT_PURGED''
         else if r \<noteq> Some True then replies 200 ''DEACTIVATED_ORDERS_PENDING'' else replies 200 ''DEACTIVATED''))"

definition confirmDeActive :: "service \<Rightarrow> weather \<Rightarrow> chance \<Rightarrow> user_id \<Rightarrow> user_body \<Rightarrow> world \<Rightarrow> world \<times> user_answer" where
  "confirmDeActive svc we x u b w = (case closure_fault x u b (cw_users w) of
      Some a \<Rightarrow> (w, a)
    | None \<Rightarrow> (case deactivateWallet (we_freeze we) (ch_now x) u [] w of (w1, r) \<Rightarrow>
        if (case r of None \<Rightarrow> True | Some (status, _) \<Rightarrow> \<not> status) then (w1, replies 503 ''WALLET_NOT_DEACTIVATED'')
        else if \<not> we_saves we then
          (undoFreezes (we_undo we) (ch_now x) u (freezeAppliedByThisCall r) w1, replies 503 ''ACCOUNT_NOT_DEACTIVATED'')
        else finish_closure svc we u (w1\<lparr>cw_users := amend u (mark_deactivated (ch_now x)) (cw_users w1)\<rparr>)))"

definition post_deactive_confirm :: "service \<Rightarrow> weather \<Rightarrow> chance \<Rightarrow> jwt \<Rightarrow> user_body \<Rightarrow> world \<Rightarrow> world \<times> user_answer" where
  "post_deactive_confirm svc we x t b w = (case usersAuth (cw_users w) t of
      None \<Rightarrow> (w, replies 401 ''Unauthorized'') | Some u \<Rightarrow> confirmDeActive svc we x u b w)"

section \<open>What the calls do\<close>

lemma freeze_elsewhere: "j \<noteq> i \<Longrightarrow> wd_docs (write_freeze i d db) j = wd_docs db j"
  by (simp add: write_freeze_def)

lemma write_answers [simp]: "wd_answers (write_freeze i d db) = wd_answers db" "wd_takes (write_freeze i d db) = wd_takes db"
  by (simp_all add: write_freeze_def)

lemma mode_freeze: "applyStandDownMode t db v (JStr []) = standDownWallet t STAND_DOWN_REASON db v"
  by (simp add: applyStandDownMode_def Let_def)

lemma mode_unfreeze: "applyStandDownMode t db v (JStr ''unfreeze'') = restoreWallet db v"
  by (simp add: applyStandDownMode_def Let_def)

lemma refused_freeze:
  assumes "standDownWallet t why db v = (db', False, m)"
  shows "db' = db"
  using assms by (auto simp: standDownWallet_def Let_def write_freeze_def frozen_in_def isStoodDown_def split: option.splits if_splits)

lemma repeated_freeze:
  assumes "standDownWallet t why db v = (db', True, m)" and "m \<noteq> ''FROZEN''"
  shows "db' = db"
  using assms by (auto simp: standDownWallet_def Let_def split: option.splits if_splits)

lemma undone_freeze:
  assumes "standDownWallet t why db v = (db', True, ''FROZEN'')"
  shows "frozen_in (fst (restoreWallet db' v)) j = frozen_in db j \<and>
    (\<forall>i. frozen_in db i \<longrightarrow> wd_docs (fst (restoreWallet db' v)) i = wd_docs db i)"
proof -
  obtain i where i: "normaliseUserId v = Some i" using assms by (auto simp: standDownWallet_def split: option.splits)
  have f: "wd_answers db" "wd_docs db i \<noteq> None" "\<not> frozen_in db i" "wd_takes db"
    "db' = write_freeze i \<lparr>wf_frozen = JBool True, wf_at = Some t, wf_reason = (if why = [] then STAND_DOWN_REASON else why)\<rparr> db"
    using assms i by (auto simp: standDownWallet_def Let_def write_freeze_def split: if_splits)
  have r: "fst (restoreWallet db' v) = write_freeze i \<lparr>wf_frozen = JBool False, wf_at = None, wf_reason = []\<rparr> db'"
    using f i by (simp add: restoreWallet_def Let_def frozen_in_def isStoodDown_def)
  have o: "wd_docs (fst (restoreWallet db' v)) j = wd_docs db j" if "j \<noteq> i" for j
    unfolding r unfolding f(5) using that by (simp add: freeze_elsewhere)
  have "\<not> frozen_in (fst (restoreWallet db' v)) i" unfolding r unfolding f(5) using f(4) by (simp add: frozen_in_def isStoodDown_def)
  then show ?thesis using f(3) o by (metis frozen_in_def)
qed

section \<open>Properties\<close>


text \<open>A code that was mailed to the account just now.\<close>

definition closing_ann :: user_service where
  "closing_ann = ann_alone\<lparr>u_docs := [ann\<lparr>us_emailOTP := ''123456'', us_emailOTPtime := Some 90000000, us_deactiveOtpChannel := ''email''\<rparr>],
     u_sessions := [demo_id \<mapsto> \<lparr>ss_tokenId = Some ''second'', ss_locked = Some ''false'', ss_email = ''ann@x.io'', ss_showSpot = None\<rparr>]\<rparr>"

definition closing_world :: "spot \<Rightarrow> world" where
  "closing_world st = \<lparr>cw_users = closing_ann, cw_wallets = demo_db, cw_spot = st\<rparr>"

definition closing_form :: user_body where
  "closing_form = empty_body\<lparr>ub_otp := JStr ''123456''\<rparr>"

definition fair :: weather where
  "fair = \<lparr>we_freeze = Delivered, we_undo = Delivered, we_sweep = Delivered, we_saves = True, we_purges = True\<rparr>"

lemma demo_id_ok: "isObjectIdLike demo_id"
  by code_simp

lemma closing_world_parts [simp]:
  "cw_users (closing_world st) = closing_ann" "cw_wallets (closing_world st) = demo_db" "cw_spot (closing_world st) = st"
  by (simp_all add: closing_world_def)

lemma closing_no_fault: "closure_fault (at_time 90000000) demo_id closing_form closing_ann = None"
  by (simp add: closure_fault_def closing_form_def closing_ann_def doc_of_def optVerification_def since_def trim_def
      is_ws_def signing_defs)

lemma closing_freeze:
  "standDownWallet t why demo_db (JStr demo_id) =
     (write_freeze demo_id \<lparr>wf_frozen = JBool True, wf_at = Some t, wf_reason = (if why = [] then STAND_DOWN_REASON else why)\<rparr> demo_db,
      True, ''FROZEN'')"
  by (simp add: standDownWallet_def normaliseUserId_def demo_id_ok Let_def frozen_in_def isStoodDown_def demo_db_def write_freeze_def)


lemma closed_shape:
  assumes "closure_fault x u b (cw_users w) = None"
    and "deactivateWallet (we_freeze we) (ch_now x) u [] w = (w1, Some (True, m))" and "we_saves we"
  shows "confirmDeActive svc we x u b w = finish_closure svc we u (w1\<lparr>cw_users := amend u (mark_deactivated (ch_now x)) (cw_users w1)\<rparr>)"
  using assms by (simp add: confirmDeActive_def)

text \<open>A mark that was made is preceded by a freeze that was answered with success.\<close>

lemma closed_only_frozen:
  assumes "confirmDeActive svc we x u b w = (w', a)" and "an_code a \<in> {200, 500}"
  obtains w1 m where "closure_fault x u b (cw_users w) = None" "we_saves we" "cw_users w1 = cw_users w" "cw_spot w1 = cw_spot w"
    "standDownWallet (ch_now x) STAND_DOWN_REASON (cw_wallets w) (JStr u) = (cw_wallets w1, True, m)"
    "finish_closure svc we u (w1\<lparr>cw_users := amend u (mark_deactivated (ch_now x)) (cw_users w1)\<rparr>) = (w', a)"
proof -
  have n: "closure_fault x u b (cw_users w) = None"
  proof (rule ccontr)
    assume "closure_fault x u b (cw_users w) \<noteq> None"
    then obtain f where f: "closure_fault x u b (cw_users w) = Some f" by blast
    then have "an_code f = 400" by (auto simp: closure_fault_def replies_def split: if_splits option.splits)
    then show False using assms f by (simp add: confirmDeActive_def)
  qed
  obtain w1 r where d: "deactivateWallet (we_freeze we) (ch_now x) u [] w = (w1, r)"
    by (cases "deactivateWallet (we_freeze we) (ch_now x) u [] w")
  obtain m where m: "r = Some (True, m)" "we_saves we"
    using assms n d by (cases r) (auto simp: confirmDeActive_def replies_def split: if_splits)
  have "standDownWallet (ch_now x) STAND_DOWN_REASON (cw_wallets w) (JStr u) = (cw_wallets w1, True, m)"
    "cw_users w1 = cw_users w" "cw_spot w1 = cw_spot w"
    using d m(1) by (cases "we_freeze we"; auto simp: deactivateWallet_def rpc_def mode_freeze prod_eq_iff)+
  moreover have "finish_closure svc we u (w1\<lparr>cw_users := amend u (mark_deactivated (ch_now x)) (cw_users w1)\<rparr>) = (w', a)"
    using closed_shape [OF n] d m assms(1) by simp
  ultimately show thesis using that n m(2) by blast
qed



text \<open>C25: The answer does not depend on what the sweep of the orders returned: the spot service reports success for it in any
  case. When its store cannot be reached no order is cancelled, every row rests on, and the account is told that it is deactivated, not
  that orders are pending.\<close>

theorem failed_sweep_is_reported_done:
  assumes "closure_fault x u b (cw_users w) = None"
    and "applyStandDownMode (ch_now x) (cw_wallets w) (JStr u) (JStr []) = (db, True, m)"
    and "we_freeze we = Delivered" and "we_saves we" and "we_purges we" and "we_sweep we = Delivered"
    and "snd (cancelOrderForDeactiveAcc svc u (cw_spot w)) = False"
  shows "snd (confirmDeActive svc we x u b w) = replies 200 ''DEACTIVATED'' \<and>
    tables (cw_spot (fst (confirmDeActive svc we x u b w))) = tables (cw_spot w)"
proof -
  have d: "deactivateWallet (we_freeze we) (ch_now x) u [] w = (w\<lparr>cw_wallets := db\<rparr>, Some (True, m))"
    using assms(2,3) by (simp add: deactivateWallet_def rpc_def)
  have t: "tables (fst (cancelOrderForDeactiveAcc svc u (cw_spot w))) = tables (cw_spot w)"
    using assms(7) by (auto simp: cancelOrderForDeactiveAcc_def Let_def split: if_splits)
  show ?thesis
    using closed_shape [OF assms(1) d assms(4)] assms(5,6) t
    by (simp add: finish_closure_def Let_def rpc_def grpc_cancelOrderForDeactiveAcc_def)
qed

theorem failed_sweep_is_reported_done_witness:
  "snd (confirmDeActive reference_service fair (at_time 90000000) demo_id closing_form (closing_world (funded_spot\<lparr>online := False\<rparr>))) =
   replies 200 ''DEACTIVATED''"
proof -
  let ?w = "closing_world (funded_spot\<lparr>online := False\<rparr>)"
  have z: "applyStandDownMode (ch_now (at_time 90000000)) (cw_wallets ?w) (JStr demo_id) (JStr []) =
      (fst (applyStandDownMode (ch_now (at_time 90000000)) (cw_wallets ?w) (JStr demo_id) (JStr [])), True, ''FROZEN'')"
    by (simp add: mode_freeze closing_freeze)
  have s: "snd (cancelOrderForDeactiveAcc reference_service demo_id (cw_spot ?w)) = False"
    by (simp add: cancelOrderForDeactiveAcc_def close_documents_def demo_id_def Let_def)
  have f: "we_freeze fair = Delivered" "we_saves fair" "we_purges fair" "we_sweep fair = Delivered" by (simp_all add: fair_def)
  have n: "closure_fault (at_time 90000000) demo_id closing_form (cw_users ?w) = None" by (simp add: closing_no_fault)
  show ?thesis using failed_sweep_is_reported_done [OF n z f s] by blast
qed

text \<open>When the reply to the freeze is lost, nothing undoes it: the account is told that nothing has changed, and its wallet
  is frozen under an account that is still open.\<close>

lemma lost_reply_leaves_the_freeze:
  assumes "closure_fault x u b (cw_users w) = None" and "we_freeze we = ReplyLost"
    and "isObjectIdLike u" and "wd_docs (cw_wallets w) u \<noteq> None" and "wd_answers (cw_wallets w)" and "wd_takes (cw_wallets w)"
  shows "snd (confirmDeActive svc we x u b w) = replies 503 ''WALLET_NOT_DEACTIVATED'' \<and>
    frozen_in (cw_wallets (fst (confirmDeActive svc we x u b w))) u \<and> cw_users (fst (confirmDeActive svc we x u b w)) = cw_users w"
proof -
  have "frozen_in (fst (standDownWallet (ch_now x) STAND_DOWN_REASON (cw_wallets w) (JStr u))) u"
    using assms(3-6) by (auto simp: standDownWallet_def normaliseUserId_def Let_def frozen_in_def isStoodDown_def)
  then show ?thesis using assms(1,2) by (simp add: confirmDeActive_def deactivateWallet_def rpc_def mode_freeze)
qed

end
