(* ===== verification/Spec2Isabelle.thy ===== *)
theory Spec2Isabelle
  imports Bank Backup StandDown DepthFeed WalletLedger Ticker AccountClosure
begin

text \<open>
  A paper-trading exchange, verified against its sources. Users hold demo balances in a Redis store,
  place limit and market orders on currency pairs, and are matched against each other and against a
  synthetic ladder that mirrors the depth of an outside venue. The program is a group of services in
  JavaScript; this development models the spot service (\<^verbatim>\<open>cryptodex-spotapi\<close>), which owns balances,
  orders and matching, the parts of the wallet service (\<^verbatim>\<open>cryptodex-walletapi\<close>) that create,
  seed, show, move, back up and freeze the balances the spot service trades with, and the accounts and
  sessions of the user service (\<^verbatim>\<open>cryptodex-userapi\<close>).

  \<^bold>\<open>Parts and theories.\<close> File names are under \<^verbatim>\<open>src/\<close>; SPOT stands for \<^verbatim>\<open>cryptodex-spotapi\<close>,
  WALLET for \<^verbatim>\<open>cryptodex-walletapi\<close> and USER for \<^verbatim>\<open>cryptodex-userapi\<close>. Definitions carry the names of the functions they translate.

  \<^item> Language. \<^verbatim>\<open>Prelude\<close> (generic lemmas), \<^verbatim>\<open>Rounding\<close> (rounding a rational to a double, with error
    bounds), \<^verbatim>\<open>JsNumber\<close> and \<^verbatim>\<open>JsPrint\<close> (numbers, their operators, texts and readings; printing and
    reading back is the identity).
  \<^item> Money. \<^verbatim>\<open>RoundOf\<close> (SPOT \<^verbatim>\<open>lib/roundOf.js\<close>), \<^verbatim>\<open>NumericField\<close> (SPOT \<^verbatim>\<open>validation\<close>: numbers of a
    request, the order validators), \<^verbatim>\<open>Money\<close> (what rounding, sizes and prices of a fill keep),
    \<^verbatim>\<open>DepositUnits\<close> (SPOT \<^verbatim>\<open>lib/depositUnits.js\<close>).
  \<^item> Store. \<^verbatim>\<open>RedisStore\<close> (SPOT \<^verbatim>\<open>controllers/redis.controller.js\<close>): hashes, expiring keys, the ledger
    streams, and each Lua script as one atomic definition. \<^verbatim>\<open>Ledger\<close> (SPOT \<^verbatim>\<open>lib/ledger.js\<close>,
    \<^verbatim>\<open>controllers/paperLedger.js\<close>): replay and reconciliation. \<^verbatim>\<open>ValueFlight\<close>, \<^verbatim>\<open>FlightProgress\<close>
    (SPOT \<^verbatim>\<open>lib/valueFlight.js\<close>, \<^verbatim>\<open>lib/marginFreeze.js\<close>, \<^verbatim>\<open>controllers/valueFlightGuard.js\<close>).
  \<^item> Order data. \<^verbatim>\<open>SpotState\<close> (the record of the service: open-order tables, pairs, prices, outgoing
    messages), \<^verbatim>\<open>Reservation\<close> (what an order has reserved and what is released), \<^verbatim>\<open>LiquidityRole\<close>
    (SPOT \<^verbatim>\<open>lib/liquidityRole.js\<close>), \<^verbatim>\<open>Records\<close> (order and trade history).
  \<^item> Venue depth. \<^verbatim>\<open>DepthHealth\<close>, \<^verbatim>\<open>PaperBook\<close>, \<^verbatim>\<open>OrderGate\<close>, \<^verbatim>\<open>PublishedBook\<close> (SPOT
    \<^verbatim>\<open>lib/depthHealth.js\<close>, \<^verbatim>\<open>lib/orderGate.js\<close>, \<^verbatim>\<open>controllers/paperBook.controller.js\<close>,
    \<^verbatim>\<open>controllers/bookPublish.controller.js\<close>), \<^verbatim>\<open>FillCanary\<close> (the health endpoint, \<^verbatim>\<open>controllers/fillCanary.js\<close>) and
    \<^verbatim>\<open>DepthFeed\<close> (\<^verbatim>\<open>lib/binanceWebSocket.js\<close>, \<^verbatim>\<open>lib/depthSource.js\<close>: the copy of the venue's book, its streams and watchdog).
  \<^item> Display. \<^verbatim>\<open>OrderViews\<close> (orders, histories and trades shown to a user, with \<^verbatim>\<open>lib/adminHelpers.js\<close>), \<^verbatim>\<open>Ticker\<close>
    (marketPrice, \<^verbatim>\<open>lib/ticker24h.js\<close>, \<^verbatim>\<open>lib/tradeWindow.js\<close>, updateBinancePrices of \<^verbatim>\<open>controllers/binance.controller.js\<close>).
  \<^item> Handlers of SPOT \<^verbatim>\<open>controllers/spot.controller.js\<close>. \<^verbatim>\<open>Placement\<close> (orderPlace, limitOrderPlace,
    marketOrderPlace), \<^verbatim>\<open>Cancelling\<close> (cancelOrder, cancelMarketOrder), \<^verbatim>\<open>Settlement\<close> (limitMatch with
    settleBuy and settleSell), \<^verbatim>\<open>MarketMatching\<close> (marketMatching), \<^verbatim>\<open>Matching\<close> (matchingcall,
    liqOrdCreation, tradeMatching), \<^verbatim>\<open>Deactivation\<close> (cancelOrderForDeactiveAcc). \<^verbatim>\<open>Faucet\<close> is SPOT
    \<^verbatim>\<open>controllers/faucet.controller.js\<close> with \<^verbatim>\<open>lib/restingSpotOrders.js\<close>.
  \<^item> Wallet service. \<^verbatim>\<open>Wallets\<close> (seeding of missing balances), \<^verbatim>\<open>Registration\<close> (the wallet of a new
    account), \<^verbatim>\<open>Backup\<close> (write-back of balances into documents), \<^verbatim>\<open>WalletLedger\<close> (free balances, the
    atomic debit and the routes that show a wallet), \<^verbatim>\<open>StandDown\<close> (the freeze of an account
    and the guards in front of the routes of both services).
  \<^item> User service. \<^verbatim>\<open>UserForms\<close> (USER \<^verbatim>\<open>validation/user.validation.js\<close>, \<^verbatim>\<open>lib/mailDelivery.js\<close>), \<^verbatim>\<open>Accounts\<close>
    (\<^verbatim>\<open>controllers/auth.controller.js\<close>, \<^verbatim>\<open>controllers/user.controller.js\<close>, \<^verbatim>\<open>config/passport.js\<close>: registration, sign-in,
    sessions, resets, changes of password and address, as one function from requests to answers), \<^verbatim>\<open>AccountRules\<close> (the
    contract of its handlers, a hierarchy of locales), \<^verbatim>\<open>SignIn\<close>, \<^verbatim>\<open>Recovery\<close>, and \<^verbatim>\<open>AccountClosure\<close> (confirmDeActive, which
    calls WALLET and SPOT over a network that can lose a call or its reply).
  \<^item> The whole. \<^verbatim>\<open>Fills\<close> and \<^verbatim>\<open>Matched\<close> (what a fill and a pass of the matcher do), \<^verbatim>\<open>Accounting\<close> (the
    contract of a handler towards the ledger, a locale), \<^verbatim>\<open>Conduct\<close>, \<^verbatim>\<open>MarketConduct\<close>, \<^verbatim>\<open>PassConduct\<close>,
    \<^verbatim>\<open>Endpoints\<close>, \<^verbatim>\<open>Handlers\<close> (each handler meets it), \<^verbatim>\<open>Exchange\<close> (the handlers as steps on one store,
    in any order), \<^verbatim>\<open>Bank\<close> (the exchange refines a bank that keeps one account book per balance).

  \<^bold>\<open>State.\<close> A handler is a function from a store to a store and an answer. The store record \<^verbatim>\<open>redis\<close> holds
  the clock, whether the server answers (\<^verbatim>\<open>online\<close>), the hashes with their decimal or text fields, the
  expiring keys, the flights and the ledger streams with the next entry id; \<^verbatim>\<open>spot\<close> extends it by the
  order tables, the pair cache and the messages sent; \<^verbatim>\<open>venue\<close> adds the depth record of the synthetic ladder. The feed of the venue (\<^verbatim>\<open>feed\<close>), the canary and the
  figures of a market (\<^verbatim>\<open>market\<close>) have records of their own, since they share no field with the order tables that they write.
  \<^verbatim>\<open>user_service\<close> holds the documents of the users in the order of their collection, settings, sessions and the mails sent;
  \<^verbatim>\<open>world\<close> puts it beside the wallet database and the spot store. Every early
  return, refusal and caught exception of the source is a branch of its definition. Numbers are doubles
  where the code computes with JavaScript numbers and decimals where Redis does
  (HINCRBYFLOAT); the difference between the two is what several bounds are about.

  \<^bold>\<open>What the lemmas show.\<close> \<^verbatim>\<open>RedisStore\<close>, \<^verbatim>\<open>Ledger\<close>: a debit never overdraws by more than the rounding of a
  double, a frozen account is not debited, every ledger is a chain that ends in the live balance, and a replay
  agrees with the live balance within a stated drift. \<^verbatim>\<open>ValueFlight\<close>, \<^verbatim>\<open>FlightProgress\<close>, \<^verbatim>\<open>Faucet\<close>: a reset
  excludes requests in flight and resting orders, restores the balances of a registration, and nothing blocks for
  good. \<^verbatim>\<open>Placement\<close>, \<^verbatim>\<open>Cancelling\<close>, \<^verbatim>\<open>Reservation\<close>: an accepted order is backed by a debit, a refused one charges
  nothing, a cancel pays once and gives back exactly what was reserved. \<^verbatim>\<open>Fills\<close>, \<^verbatim>\<open>Matched\<close>: a fill touches its
  parties only, stays within both limits, completes the smaller order; which books the matcher finishes and which
  never end. \<^verbatim>\<open>PaperBook\<close>, \<^verbatim>\<open>OrderGate\<close>, \<^verbatim>\<open>PublishedBook\<close>: no ladder, order or book on depth that is stale, crossed or
  frozen. \<^verbatim>\<open>FillCanary\<close>: a market reported healthy is one on which the order gate admits orders. \<^verbatim>\<open>DepthFeed\<close>: a
  book in sync is the venue's book at some update, and the watchdog leaves no dead stream. \<^verbatim>\<open>WalletLedger\<close>: a debit
  leaves what is reserved. \<^verbatim>\<open>OrderViews\<close>: paging reaches every open order of a user and no other's; which search
  of the history shows everyone's trades. \<^verbatim>\<open>Ticker\<close>: the figures are those of the venue's tick or of the trades of a day, whichever
  source they are read from. \<^verbatim>\<open>AccountRules\<close>, \<^verbatim>\<open>SignIn\<close>, \<^verbatim>\<open>Recovery\<close>: the two ways a password changes, at most four guesses a
  day, the mailed code that can be left out, the expired link that revives. \<^verbatim>\<open>AccountClosure\<close>: a refused closure changes
  nothing, a closed account stays out of all three services, and a failed sweep is reported as done. \<^verbatim>\<open>StandDown\<close>: a freeze reaches every route that moves value. \<^verbatim>\<open>Exchange\<close>, \<^verbatim>\<open>Bank\<close>: these hold for
  every interleaving of handlers, by rule induction on the step relation, and as a simulation of the bank.

  \<^bold>\<open>Fuel.\<close> The loop of tradeMatching has no bound of its own. \<^verbatim>\<open>match_loop\<close> takes fuel and answers None when it
  runs out. A book of limit orders is finished within as many turns as the two lists hold orders
  together, since every turn drops a head; there are other books on which no fuel is enough, and that is
  proved too. All other recursion is structural or has a measure.

  \<^bold>\<open>Assumptions.\<close> The server of the store is either there or not during one handler. Handlers of
  \<^verbatim>\<open>Exchange\<close> run to their end one at a time, except where the source splits them at an await that matters
  (a cancel is two steps, calls that are not awaited are messages delivered later). The sign of zero is
  not kept. Constants read from the environment have their defaults. A flag that is absent reads as
  false. Texts of refusals are shortened to their reasons. The absolute writes of the reset, of seeding
  and of the history are not movements: the chain of a ledger is claimed for the handlers that trade.

  \<^bold>\<open>Parameters.\<close> What is not in the repository, or comes from outside the process, is an argument: the
  precision of the store's long doubles, the ids and times the database gives, documents that a query
  finds, the messages and answers of the venue (from which \<^verbatim>\<open>DepthFeed\<close> makes the snapshot that \<^verbatim>\<open>PublishedBook\<close>
  takes), decryption of a request, conversion rates, and tokens of random bytes; of the user
  service the password digest, the sealing of links, the signature of tokens and the values a request draws.

  \<^bold>\<open>Not modelled.\<close> Charts and trend statistics, dashboards and liveness checks, socket pushes other than those of a user's
  tables, the texts of e-mails, the profit statistics, profiles, settings and notifications of the user service, its
  calls for operators and bots, and the frontend: they move no value. Requests of the user service run one at a time, and its
  database answers (the closure's write may fail); the refusal the closure gives for an exception is left out. Orders routed to a real venue (\<^verbatim>\<open>binance.controller.js\<close>)
  are unreachable, since the order endpoint never routes one there; \<^verbatim>\<open>adminLiquiditySellOrder\<close> and \<^verbatim>\<open>adminLiquidityBuyOrder\<close> have no
  caller, and nothing writes the records \<^verbatim>\<open>execute\<close> reads. Fiat and coin deposits and withdrawals of
  \<^verbatim>\<open>wallet.controller.js\<close> have no route.
\<close>

end
